(* ===== verification/Prelude.thy ===== *)
theory Prelude
  imports Complex_Main "HOL-Library.Sublist"
begin

text \<open>
  Shared vocabulary of the development: Go errors as values, the map operations the managers
  use, and the theorem collections the component theories add to.

  A Go error is one of: a sentinel created by \<^verbatim>\<open>errors.New\<close> (its qualified name and its text), a
  plain message, a \<^verbatim>\<open>fmt.Errorf\<close> value that wraps another error with \<^verbatim>\<open>%w\<close> (the text before and
  after it), or an \<^verbatim>\<open>*exec.ExitError\<close> with the wait status of a child process.
\<close>

named_theorems model_simps \<open>characteristic equations of the modelled operations\<close>
named_theorems inv_intros \<open>preservation lemmas: an operation keeps the component's invariant\<close>

type_synonym gtime = int  \<comment> \<open>a \<^verbatim>\<open>time.Time\<close> or \<^verbatim>\<open>time.Duration\<close>, in nanoseconds\<close>

definition second :: gtime where
  "second = 1000000000"

definition minute :: gtime where
  "minute = 60 * second"

definition hour :: gtime where
  "hour = 60 * minute"

lemmas time_units = second_def minute_def hour_def

text \<open>The signed 64-bit wrap-around of Go's \<^verbatim>\<open>int\<close>, \<^verbatim>\<open>int64\<close> and \<^verbatim>\<open>time.Duration\<close>.\<close>

definition wrap64 :: "int \<Rightarrow> int" where
  "wrap64 x = (x + 2 ^ 63) mod 2 ^ 64 - 2 ^ 63"

lemma wrap64_id: "- (2 ^ 63) \<le> x \<Longrightarrow> x < 2 ^ 63 \<Longrightarrow> wrap64 x = x"
  by (simp add: wrap64_def)

lemma wrap64_range: "- (2 ^ 63) \<le> wrap64 x \<and> wrap64 x < 2 ^ 63"
  using pos_mod_bound [of "2 ^ 64 :: int" "x + 2 ^ 63"]
  by (simp add: wrap64_def)

text \<open>Integer division in Go truncates towards zero.\<close>

definition go_quot :: "int \<Rightarrow> int \<Rightarrow> int" where
  "go_quot a b = (if (a < 0) = (b < 0) then \<bar>a\<bar> div \<bar>b\<bar> else - (\<bar>a\<bar> div \<bar>b\<bar>))"

lemma go_quot_nonneg: "0 \<le> a \<Longrightarrow> 0 < b \<Longrightarrow> go_quot a b = a div b"
  by (simp add: go_quot_def)

text \<open>
  \<^verbatim>\<open>t.Sub(u)\<close> saturates at the bounds of \<^verbatim>\<open>time.Duration\<close>.
\<close>

definition time_sub :: "gtime \<Rightarrow> gtime \<Rightarrow> gtime" where
  "time_sub t u = max (- (2 ^ 63)) (min (2 ^ 63 - 1) (t - u))"

lemma time_sub_mono: "t \<le> t' \<Longrightarrow> time_sub t u \<le> time_sub t' u"
  by (auto simp: time_sub_def)

lemma time_sub_exact:
  "- (2 ^ 63) \<le> t - u \<Longrightarrow> t - u < 2 ^ 63 \<Longrightarrow> time_sub t u = t - u"
  by (simp add: time_sub_def)

section \<open>Errors as values\<close>

datatype wait_status = Exited int | Signaled int

datatype go_error =
    Sentinel string string
  | Msg string
  | Wrap string go_error string
  | ExitError wait_status

type_synonym 'a result = "go_error + 'a"

text \<open>The text of \<^verbatim>\<open>err.Error()\<close>; the text of a wait status is the operating system's.\<close>

fun err_text :: "(wait_status \<Rightarrow> string) \<Rightarrow> go_error \<Rightarrow> string" where
  "err_text ws (Sentinel n t) = t"
| "err_text ws (Msg t) = t"
| "err_text ws (Wrap a e b) = a @ err_text ws e @ b"
| "err_text ws (ExitError w) = ws w"

text \<open>\<^verbatim>\<open>errors.Is(err, sentinel)\<close> and \<^verbatim>\<open>errors.As(err, &exitErr)\<close> look through the wrapping chain.\<close>

fun err_is :: "go_error \<Rightarrow> go_error \<Rightarrow> bool" where
  "err_is (Wrap a e b) t = (Wrap a e b = t \<or> err_is e t)"
| "err_is e t = (e = t)"

fun err_as_exit :: "go_error \<Rightarrow> wait_status option" where
  "err_as_exit (ExitError w) = Some w"
| "err_as_exit (Wrap a e b) = err_as_exit e"
| "err_as_exit _ = None"

text \<open>The type assertion \<^verbatim>\<open>err.(*exec.ExitError)\<close> looks at the outermost value only.\<close>

fun err_assert_exit :: "go_error \<Rightarrow> wait_status option" where
  "err_assert_exit (ExitError w) = Some w"
| "err_assert_exit _ = None"

lemma err_assert_imp_as: "err_assert_exit e = Some w \<Longrightarrow> err_as_exit e = Some w"
  by (cases e) auto

section \<open>Maps: the update every manager makes through a pointer\<close>

text \<open>
  The managers look an entry up, return when it is missing, and otherwise change the struct the
  map points to.
\<close>

definition map_touch :: "'k \<Rightarrow> ('v \<Rightarrow> 'v) \<Rightarrow> ('k \<rightharpoonup> 'v) \<Rightarrow> ('k \<rightharpoonup> 'v)" where
  "map_touch k f m = (case m k of None \<Rightarrow> m | Some v \<Rightarrow> m(k \<mapsto> f v))"

lemma map_touch_same [simp]: "map_touch k f m k = map_option f (m k)"
  by (simp add: map_touch_def split: option.split)

lemma map_touch_other [simp]: "k' \<noteq> k \<Longrightarrow> map_touch k f m k' = m k'"
  by (simp add: map_touch_def split: option.split)

lemma map_touch_apply: "map_touch k f m k' = (if k' = k then map_option f (m k) else m k')"
  by simp

lemma dom_map_touch [simp]: "dom (map_touch k f m) = dom m"
  by (auto simp: map_touch_def split: option.splits)

lemma map_touch_missing [simp]: "m k = None \<Longrightarrow> map_touch k f m = m"
  by (simp add: map_touch_def)

lemma ran_map_touch_cases:
  "v \<in> ran (map_touch k f m) \<Longrightarrow> v \<in> ran m \<or> (\<exists>u. m k = Some u \<and> v = f u)"
  by (auto simp: ran_def map_touch_apply split: if_splits)

text \<open>A sum or an option result whose error branch is taken first.\<close>

lemma sum_case_Inr [simp]: "(case r of Inl e \<Rightarrow> Inl e | Inr x \<Rightarrow> Inr x) = r"
  by (cases r) simp_all

end
