(* ===== verification/Go_Path.thy ===== *)
theory Go_Path
  imports Go_Text
begin

text \<open>
  The functions of Go's \<^verbatim>\<open>path/filepath\<close> (on Unix) that the program uses, by the components of a path:
  \<^verbatim>\<open>Clean\<close>, \<^verbatim>\<open>IsAbs\<close>, \<^verbatim>\<open>Ext\<close>, \<^verbatim>\<open>Join\<close>, \<^verbatim>\<open>Dir\<close> and \<^verbatim>\<open>Base\<close>.
\<close>

abbreviation slash :: char where
  "slash \<equiv> CHR ''/''"

abbreviation path_comps :: "string \<Rightarrow> string list" where
  "path_comps p \<equiv> split_on slash p"

definition is_abs :: "string \<Rightarrow> bool" where
  "is_abs p \<longleftrightarrow> p \<noteq> [] \<and> hd p = slash"

text \<open>The components kept so far are in \<open>acc\<close>, the last one first.\<close>

fun clean_comps :: "bool \<Rightarrow> string list \<Rightarrow> string list \<Rightarrow> string list" where
  "clean_comps rooted acc [] = rev acc"
| "clean_comps rooted acc (c # cs) =
     (if c = [] \<or> c = ''.'' then clean_comps rooted acc cs
      else if c = ''..'' then
        (case acc of
           [] \<Rightarrow> clean_comps rooted (if rooted then [] else [''..'']) cs
         | a # as \<Rightarrow> if a = ''..'' then clean_comps rooted (''..'' # acc) cs
                    else clean_comps rooted as cs)
      else clean_comps rooted (c # acc) cs)"

definition path_clean :: "string \<Rightarrow> string" where
  "path_clean p =
     (let cs = clean_comps (is_abs p) [] (path_comps p)
      in if is_abs p then slash # str_join [slash] cs
         else if cs = [] then ''.'' else str_join [slash] cs)"

definition path_join :: "string list \<Rightarrow> string" where
  "path_join elems =
     (let es = filter (\<lambda>e. e \<noteq> []) elems in if es = [] then [] else path_clean (str_join [slash] es))"

text \<open>\<^verbatim>\<open>Ext\<close> is the suffix from the last dot of the last element.\<close>

definition path_ext :: "string \<Rightarrow> string" where
  "path_ext p =
     (let last_elem = rev (takeWhile (\<lambda>c. c \<noteq> slash) (rev p))
      in case cut_last (CHR ''.'') last_elem of None \<Rightarrow> [] | Some (a, b) \<Rightarrow> CHR ''.'' # b)"

text \<open>A plain component names an entry of its directory.\<close>

definition plain_comp :: "string \<Rightarrow> bool" where
  "plain_comp c \<longleftrightarrow> c \<noteq> [] \<and> c \<noteq> ''.'' \<and> c \<noteq> ''..''"

lemma clean_comps_plain:
  "\<forall>c \<in> set cs. plain_comp c \<Longrightarrow> clean_comps rooted acc cs = rev acc @ cs"
  by (induction cs arbitrary: acc) (auto simp: plain_comp_def)

lemma clean_comps_rooted:
  "\<forall>a \<in> set acc. plain_comp a \<Longrightarrow> c \<in> set (clean_comps True acc cs) \<Longrightarrow> plain_comp c"
proof (induction "True" acc cs rule: clean_comps.induct)
  case (2 acc c cs)
  then show ?case
    by (cases acc) (auto simp: plain_comp_def split: if_splits)
qed auto

lemma clean_comps_subset:
  "set (clean_comps rooted acc cs) \<subseteq> set acc \<union> set cs \<union> {''..''}"
proof (induction rooted acc cs rule: clean_comps.induct)
  case (2 rooted acc c cs)
  then show ?case
    by (cases acc) (auto split: if_splits)
qed auto

lemma comps_no_slash: "c \<in> set (path_comps p) \<Longrightarrow> slash \<notin> set c"
  by (rule split_on_no_sep)

text \<open>The absolute paths that cleaning leaves alone.\<close>

lemma path_clean_abs:
  "is_abs p \<Longrightarrow>
   \<exists>cs. path_clean p = slash # str_join [slash] cs \<and> (\<forall>c \<in> set cs. plain_comp c \<and> slash \<notin> set c)"
proof -
  assume "is_abs p"
  let ?cs = "clean_comps True [] (path_comps p)"
  have "plain_comp c \<and> slash \<notin> set c" if "c \<in> set ?cs" for c
  proof
    show "plain_comp c"
      using that by (rule clean_comps_rooted [rotated]) simp
    then show "slash \<notin> set c"
      using that clean_comps_subset [of True "[]" "path_comps p"] comps_no_slash
      by (auto simp: plain_comp_def)
  qed
  with \<open>is_abs p\<close> show ?thesis
    by (auto simp: path_clean_def Let_def)
qed

lemma path_comps_join:
  "\<forall>c \<in> set cs. slash \<notin> set c \<Longrightarrow>
   path_comps (slash # str_join [slash] cs) = [] # (if cs = [] then [[]] else cs)"
  by (auto simp: split_join)

lemma path_clean_fixed:
  assumes "\<forall>c \<in> set cs. plain_comp c \<and> slash \<notin> set c"
  shows "path_clean (slash # str_join [slash] cs) = slash # str_join [slash] cs"
proof -
  have "path_comps (slash # str_join [slash] cs) = [] # (if cs = [] then [[]] else cs)"
    by (rule path_comps_join) (use assms in blast)
  moreover have "clean_comps True [] cs = cs"
    using clean_comps_plain [of cs True "[]"] assms by simp
  ultimately show ?thesis
    by (simp add: path_clean_def is_abs_def)
qed

lemma path_clean_idem_abs: "is_abs p \<Longrightarrow> path_clean (path_clean p) = path_clean p"
  using path_clean_abs path_clean_fixed by metis

lemma is_abs_clean [simp]: "is_abs p \<Longrightarrow> is_abs (path_clean p)"
  using path_clean_abs [of p] by (auto simp: is_abs_def)

lemma clean_abs_comps:
  assumes "is_abs p" and "path_clean p = p"
  obtains cs where "p = slash # str_join [slash] cs" and "\<forall>c \<in> set cs. plain_comp c \<and> slash \<notin> set c"
    and "path_comps p = [] # (if cs = [] then [[]] else cs)"
proof -
  obtain cs where cs: "p = slash # str_join [slash] cs" "\<forall>c \<in> set cs. plain_comp c \<and> slash \<notin> set c"
    using path_clean_abs [OF assms(1)] assms(2) by auto
  moreover have "path_comps p = [] # (if cs = [] then [[]] else cs)"
    unfolding cs(1) by (rule path_comps_join) (use cs(2) in blast)
  ultimately show ?thesis
    by (rule that)
qed

text \<open>Containment as the program tests it: the directory itself, or a path below it.\<close>

definition path_below :: "string \<Rightarrow> string \<Rightarrow> bool" where
  "path_below dir p \<longleftrightarrow> p = dir \<or> has_prefix p (dir @ [slash])"

lemma path_below_refl [simp]: "path_below d d"
  by (simp add: path_below_def)

subsection \<open>Cleaning step by step\<close>

definition clean_step :: "bool \<Rightarrow> string list \<Rightarrow> string \<Rightarrow> string list" where
  "clean_step rooted acc c =
     (if c = [] \<or> c = ''.'' then acc
      else if c = ''..'' then
        (case acc of
           [] \<Rightarrow> (if rooted then [] else [''..''])
         | a # as \<Rightarrow> if a = ''..'' then ''..'' # acc else as)
      else c # acc)"

lemma clean_comps_foldl: "clean_comps rooted acc cs = rev (foldl (clean_step rooted) acc cs)"
proof (induction cs arbitrary: acc)
  case (Cons c cs)
  have "clean_comps rooted acc (c # cs) = clean_comps rooted (clean_step rooted acc c) cs"
    by (cases acc) (simp_all add: clean_step_def)
  with Cons show ?case by simp
qed simp

lemma clean_comps_append:
  "clean_comps rooted acc (xs @ ys) = clean_comps rooted (rev (clean_comps rooted acc xs)) ys"
  by (simp add: clean_comps_foldl)

definition rel_comp :: "string \<Rightarrow> bool" where
  "rel_comp c \<longleftrightarrow> c \<noteq> [] \<and> c \<noteq> ''.''"

lemma clean_step_rel: "\<forall>a \<in> set acc. rel_comp a \<Longrightarrow> \<forall>a \<in> set (clean_step r acc c). rel_comp a"
  by (cases acc) (simp_all add: clean_step_def rel_comp_def)

text \<open>Cleaning a relative path first does not change where it leads from an absolute one.\<close>

lemma clean_step_through:
  assumes "\<forall>a \<in> set acc. rel_comp a" and "''..'' \<notin> set A"
  shows "foldl (clean_step True) A (rev (clean_step False acc c)) =
         clean_step True (foldl (clean_step True) A (rev acc)) c"
proof (cases acc)
  case Nil
  then show ?thesis by (simp add: clean_step_def)
next
  case (Cons a as)
  then show ?thesis
    using assms by (auto simp: clean_step_def rel_comp_def)
qed

lemma foldl_clean_through:
  assumes "\<forall>a \<in> set acc. rel_comp a" and "''..'' \<notin> set A"
  shows "foldl (clean_step True) A (rev (foldl (clean_step False) acc cs)) =
         foldl (clean_step True) (foldl (clean_step True) A (rev acc)) cs"
  using assms(1)
proof (induction cs arbitrary: acc)
  case (Cons c cs)
  then show ?case
    by (simp add: Cons.IH [OF clean_step_rel] clean_step_through [OF _ assms(2)])
qed simp

lemma clean_comps_through:
  "''..'' \<notin> set A \<Longrightarrow> clean_comps True A (clean_comps False [] cs) = clean_comps True A cs"
  using foldl_clean_through [of "[]" A cs] by (simp add: clean_comps_foldl)

lemma split_on_app: "split_on c (a @ c # b) = split_on c a @ split_on c b"
  by (induction a) (auto split: list.split)

text \<open>The components of the absolute path that \<open>p\<close> names from the directory \<open>cwd\<close>.\<close>

definition abs_comps :: "string \<Rightarrow> string \<Rightarrow> string list" where
  "abs_comps cwd p =
     (if is_abs p then clean_comps True [] (path_comps p)
      else clean_comps True [] (path_comps cwd @ path_comps p))"

definition path_abs :: "string \<Rightarrow> string \<Rightarrow> string" where
  "path_abs cwd p = (if is_abs p then path_clean p else path_join [cwd, p])"

lemma is_abs_append: "is_abs a \<Longrightarrow> is_abs (a @ b)"
  by (cases a) (auto simp: is_abs_def)

lemma path_abs_comps:
  assumes "is_abs cwd"
  shows "path_abs cwd p = slash # str_join [slash] (abs_comps cwd p)"
proof (cases "is_abs p")
  case True
  then show ?thesis by (simp add: path_abs_def abs_comps_def path_clean_def)
next
  case False
  have c: "cwd \<noteq> []" using assms by (auto simp: is_abs_def)
  show ?thesis
  proof (cases "p = []")
    case True
    with False c assms show ?thesis
      by (simp add: path_abs_def abs_comps_def path_join_def path_clean_def clean_comps_append)
  next
    case p: False
    with c have "path_abs cwd p = path_clean (cwd @ slash # p)"
      using False by (simp add: path_abs_def path_join_def)
    then show ?thesis
      using False is_abs_append [OF assms, of "slash # p"]
      by (simp add: path_clean_def abs_comps_def split_on_app)
  qed
qed

lemma abs_comps_plain: "c \<in> set (abs_comps cwd p) \<Longrightarrow> plain_comp c"
  by (auto simp: abs_comps_def split: if_splits intro: clean_comps_rooted [rotated])

lemma dotdot_not_clean: "''..'' \<notin> set (clean_comps True [] cs)"
  using clean_comps_rooted [of "[]" "''..''" cs] by (auto simp: plain_comp_def)

text \<open>Where \<^verbatim>\<open>filepath.Join(dir, name)\<close> leads when \<open>name\<close> is a single component.\<close>

lemma path_comps_clean_rel:
  assumes "\<not> is_abs p"
  shows "clean_comps True A (path_comps (path_clean p)) = clean_comps True A (clean_comps False [] (path_comps p))"
proof -
  let ?cs = "clean_comps False [] (path_comps p)"
  have "slash \<notin> set c" if "c \<in> set ?cs" for c
    using that clean_comps_subset [of False "[]" "path_comps p"] comps_no_slash by fastforce
  then have "path_comps (str_join [slash] ?cs) = ?cs" if "?cs \<noteq> []"
    using that by (simp add: split_join)
  moreover have "path_comps ''.'' = [''.'']" by simp
  ultimately show ?thesis
    using assms by (simp add: path_clean_def Let_def)
qed

lemma is_abs_clean_rel: "\<not> is_abs p \<Longrightarrow> \<not> is_abs (path_clean p)"
proof -
  assume p: "\<not> is_abs p"
  let ?cs = "clean_comps False [] (path_comps p)"
  show ?thesis
  proof (cases ?cs)
    case Nil
    with p have "path_clean p = ''.''" by (simp add: path_clean_def)
    then show ?thesis by (simp add: is_abs_def)
  next
    case (Cons c cs)
    then have "c \<in> set ?cs" by simp
    moreover have "\<forall>a \<in> set (foldl (clean_step False) [] xs). rel_comp a" for xs
      by (induction xs rule: rev_induct) (simp_all add: clean_step_rel)
    ultimately have "c \<noteq> []" by (auto simp: clean_comps_foldl rel_comp_def)
    moreover have "slash \<notin> set c"
      using \<open>c \<in> set ?cs\<close> clean_comps_subset [of False "[]" "path_comps p"] comps_no_slash by fastforce
    ultimately have "\<not> is_abs (str_join [slash] (c # cs))"
      by (cases cs; cases c) (auto simp: is_abs_def)
    moreover from p Cons have "path_clean p = str_join [slash] (c # cs)" by (simp add: path_clean_def)
    ultimately show ?thesis by simp
  qed
qed

lemma abs_comps_clean: "abs_comps cwd (path_clean q) = abs_comps cwd q"
proof (cases "is_abs q")
  case True
  have "\<forall>c \<in> set (clean_comps True [] (path_comps q)). plain_comp c \<and> slash \<notin> set c"
    using clean_comps_rooted [of "[]" _ "path_comps q"] clean_comps_subset [of True "[]" "path_comps q"]
      comps_no_slash [of _ q] by (fastforce simp: plain_comp_def)
  then have "clean_comps True [] (path_comps (path_clean q)) = clean_comps True [] (path_comps q)"
    using True clean_comps_plain [of "clean_comps True [] (path_comps q)" True "[]"]
    by (cases "clean_comps True [] (path_comps q) = []") (simp_all add: path_clean_def Let_def split_join)
  with True show ?thesis by (simp add: abs_comps_def)
next
  case False
  have "clean_comps True [] (path_comps cwd @ path_comps (path_clean q)) =
      clean_comps True [] (path_comps cwd @ path_comps q)"
    unfolding clean_comps_append path_comps_clean_rel [OF False]
    by (rule clean_comps_through) (simp add: dotdot_not_clean)
  with False is_abs_clean_rel [OF False] show ?thesis
    by (simp add: abs_comps_def)
qed

lemma abs_comps_snoc:
  assumes "slash \<notin> set name" and "dir \<noteq> []"
  shows "abs_comps cwd (dir @ slash # name) = clean_comps True (rev (abs_comps cwd dir)) [name]"
proof -
  have cs: "path_comps (dir @ slash # name) = path_comps dir @ [name]"
    using assms by (simp add: split_on_app split_on_id)
  have a: "is_abs (dir @ slash # name) = is_abs dir"
    using assms(2) by (simp add: is_abs_def)
  show ?thesis
    by (simp only: abs_comps_def cs a append_assoc [symmetric] clean_comps_append [of _ _ _ "[name]"] split: if_split)
       simp
qed

lemma abs_comps_join:
  assumes "slash \<notin> set name" and "name \<noteq> []"
  shows "abs_comps cwd (path_join [dir, name]) = clean_comps True (rev (abs_comps cwd dir)) [name]"
proof (cases "dir = []")
  case True
  have n: "\<not> is_abs name" using assms by (cases name) (auto simp: is_abs_def)
  have "abs_comps cwd (path_join [dir, name]) = abs_comps cwd name"
    using True assms by (simp add: path_join_def abs_comps_clean)
  also have "\<dots> = clean_comps True (rev (abs_comps cwd dir)) [name]"
    using True n assms(1) by (simp add: abs_comps_def is_abs_def [of "[]"] clean_comps_append split_on_id)
  finally show ?thesis .
next
  case False
  then have "path_join [dir, name] = path_clean (dir @ slash # name)"
    using assms by (simp add: path_join_def)
  with abs_comps_snoc [OF assms(1) False] show ?thesis
    by (simp add: abs_comps_clean)
qed

lemma abs_comps_join3:
  assumes "slash \<notin> set b" and "b \<noteq> []" and "slash \<notin> set c" and "c \<noteq> []"
  shows "abs_comps cwd (path_join [a, b, c]) = abs_comps cwd (path_join [path_join [a, b], c])"
proof -
  have r: "abs_comps cwd (path_join [path_join [a, b], c]) =
      clean_comps True (rev (abs_comps cwd (path_join [a, b]))) [c]"
    by (rule abs_comps_join) (use assms in auto)
  show ?thesis
  proof (cases "a = []")
    case True
    then have "path_join [a, b, c] = path_join [b, c]" and "path_join [a, b] = path_clean b"
      using assms by (simp_all add: path_join_def)
    then show ?thesis
      unfolding r using abs_comps_join [OF assms(3,4), of cwd b] by (simp add: abs_comps_clean)
  next
    case False
    then have "path_join [a, b, c] = path_join [a @ slash # b, c]" and "path_join [a, b] = path_clean (a @ slash # b)"
      using assms by (simp_all add: path_join_def)
    then show ?thesis
      unfolding r using abs_comps_join [OF assms(3,4), of cwd "a @ slash # b"] by (simp add: abs_comps_clean)
  qed
qed

lemma clean_single: "plain_comp c \<Longrightarrow> clean_comps True acc [c] = rev acc @ [c]"
  by (rule clean_comps_plain) simp

end
