(* ===== verification/File_System.thy ===== *)
theory File_System
  imports Go_Path
begin

text \<open>
  The part of Go's \<^verbatim>\<open>os\<close> package that the session store uses, over a file system without symbolic links: a
  location is the list of the components of an absolute path, a file system maps the locations that
  exist to directories (with a mode) and files (with an inode number, a mode and a content). Every
  system call may fail with an error of its own; the record \<open>sys\<close> says which do.
\<close>

type_synonym loc = "string list"

datatype node = Dir nat | File nat nat string

type_synonym fsys = "loc \<rightharpoonup> node"

datatype sys_call =
    CallGetwd
  | CallStat loc
  | CallMkdir loc
  | CallRemoveAll loc
  | CallReadDir loc
  | CallCreateTemp loc
  | CallWrite loc
  | CallSync loc
  | CallClose loc
  | CallChmod loc
  | CallRename loc
  | CallOpen loc
  | CallFlock loc

text \<open>\<open>sy_survives\<close> is what a failing \<^verbatim>\<open>RemoveAll\<close> leaves behind.\<close>

record sys =
  sy_cwd :: string
  sy_fault :: "sys_call \<Rightarrow> string option"
  sy_survives :: "loc \<Rightarrow> bool"

abbreviation locate :: "sys \<Rightarrow> string \<Rightarrow> loc" where
  "locate sy p \<equiv> abs_comps (sy_cwd sy) p"

definition below :: "loc \<Rightarrow> loc \<Rightarrow> bool" where
  "below p q \<longleftrightarrow> prefix p q"

section \<open>Calls\<close>

definition os_abs :: "sys \<Rightarrow> string \<Rightarrow> string result" where
  "os_abs sy p =
     (if is_abs p then Inr (path_clean p)
      else (case sy_fault sy CallGetwd of
              Some e \<Rightarrow> Inl (Msg e)
            | None \<Rightarrow> Inr (path_abs (sy_cwd sy) p)))"

datatype stat_result = StatMissing | StatError string | StatNode node

definition is_dir :: "node \<Rightarrow> bool" where
  "is_dir n = (case n of Dir _ \<Rightarrow> True | File _ _ _ \<Rightarrow> False)"

definition dir_at :: "fsys \<Rightarrow> loc \<Rightarrow> bool" where
  "dir_at m p = (case m p of None \<Rightarrow> False | Some n \<Rightarrow> is_dir n)"

lemma dir_at_iff [simp]: "dir_at m p \<longleftrightarrow> (\<exists>d. m p = Some (Dir d))"
  by (auto simp: dir_at_def is_dir_def split: option.splits node.splits)

text \<open>The directories a path goes through, and the path itself.\<close>

definition steps_to :: "loc \<Rightarrow> loc list" where
  "steps_to p = map (\<lambda>i. take i p) [0..<length p + 1]"

definition through_file :: "fsys \<Rightarrow> loc \<Rightarrow> bool" where
  "through_file m p \<longleftrightarrow> list_ex (\<lambda>q. case m q of Some n \<Rightarrow> \<not> is_dir n | None \<Rightarrow> False) (butlast (steps_to p))"

definition os_stat :: "sys \<Rightarrow> fsys \<Rightarrow> loc \<Rightarrow> stat_result" where
  "os_stat sy m p =
     (case sy_fault sy (CallStat p) of
        Some e \<Rightarrow> StatError e
      | None \<Rightarrow>
          if through_file m p then StatError ''not a directory''
          else (case m p of None \<Rightarrow> StatMissing | Some n \<Rightarrow> StatNode n))"

text \<open>\<^verbatim>\<open>MkdirAll\<close> creates what is missing, from the root down, and stops at the first failure.\<close>

fun mkdir_steps :: "sys \<Rightarrow> nat \<Rightarrow> loc list \<Rightarrow> fsys \<Rightarrow> go_error option \<times> fsys" where
  "mkdir_steps sy mode [] m = (None, m)"
| "mkdir_steps sy mode (p # ps) m =
     (case m p of
        Some (Dir _) \<Rightarrow> mkdir_steps sy mode ps m
      | Some (File _ _ _) \<Rightarrow> (Some (Msg ''not a directory''), m)
      | None \<Rightarrow>
          (case sy_fault sy (CallMkdir p) of
             Some e \<Rightarrow> (Some (Msg e), m)
           | None \<Rightarrow> mkdir_steps sy mode ps (m(p \<mapsto> Dir mode))))"

definition mkdir_all :: "sys \<Rightarrow> nat \<Rightarrow> loc \<Rightarrow> fsys \<Rightarrow> go_error option \<times> fsys" where
  "mkdir_all sy mode p m = mkdir_steps sy mode (steps_to p) m"

definition remove_all :: "sys \<Rightarrow> loc \<Rightarrow> fsys \<Rightarrow> go_error option \<times> fsys" where
  "remove_all sy p m =
     (case sy_fault sy (CallRemoveAll p) of
        None \<Rightarrow> (None, \<lambda>q. if below p q then None else m q)
      | Some e \<Rightarrow> (Some (Msg e), \<lambda>q. if below p q \<and> \<not> sy_survives sy q then None else m q))"

section \<open>Facts\<close>

text \<open>Every entry is in a directory.\<close>

definition tree_ok :: "fsys \<Rightarrow> bool" where
  "tree_ok m \<longleftrightarrow> (\<forall>p n. m p = Some n \<longrightarrow> (\<forall>q. strict_prefix q p \<longrightarrow> (\<exists>d. m q = Some (Dir d))))"

lemma set_steps_to: "set (steps_to p) = {q. prefix q p}"
proof -
  have "q \<in> set (steps_to p)" if "prefix q p" for q
    using that by (auto simp: steps_to_def prefix_def intro!: image_eqI [where x = "length q"])
  then show ?thesis
    by (auto simp: steps_to_def take_is_prefix)
qed

lemma set_butlast_steps: "set (butlast (steps_to p)) = {q. strict_prefix q p}"
proof -
  have e: "butlast (steps_to p) = map (\<lambda>i. take i p) [0..<length p]"
    by (simp add: steps_to_def)
  have "q \<in> set (butlast (steps_to p))" if "strict_prefix q p" for q
    using that unfolding e
    by (auto simp: strict_prefix_def prefix_def intro!: image_eqI [where x = "length q"])
  moreover have "strict_prefix q p" if "q \<in> set (butlast (steps_to p))" for q
    using that unfolding e strict_prefix_def by (auto simp: take_is_prefix)
  ultimately show ?thesis by auto
qed

lemma through_file_tree: "tree_ok m \<Longrightarrow> m p \<noteq> None \<Longrightarrow> \<not> through_file m p"
proof
  assume ok: "tree_ok m" and p: "m p \<noteq> None" and t: "through_file m p"
  then obtain q n where q: "strict_prefix q p" "m q = Some n" "\<not> is_dir n"
    by (auto simp: through_file_def list_ex_iff set_butlast_steps split: option.splits)
  moreover obtain n' where "m p = Some n'" using p by blast
  ultimately obtain d where "m q = Some (Dir d)"
    using ok unfolding tree_ok_def by blast
  with q(2) have "n = Dir d" by simp
  with q(3) show False by (simp add: is_dir_def)
qed

lemma os_stat_node_iff:
  "tree_ok m \<Longrightarrow> os_stat sy m p = StatNode n \<longleftrightarrow> sy_fault sy (CallStat p) = None \<and> m p = Some n"
  using through_file_tree [of m p] by (auto simp: os_stat_def split: option.split)

lemma mkdir_steps_frame:
  "q \<notin> set ps \<or> m q \<noteq> None \<Longrightarrow> snd (mkdir_steps sy mode ps m) q = m q"
proof (induction ps arbitrary: m)
  case (Cons p ps)
  show ?case
  proof (cases "m p")
    case None
    then have "p \<noteq> q \<or> q \<notin> set ps \<and> p \<noteq> q" using Cons.prems by auto
    then have n: "(m(p \<mapsto> Dir mode)) q = m q" by simp
    have "q \<notin> set ps \<or> (m(p \<mapsto> Dir mode)) q \<noteq> None"
      using Cons.prems by auto
    then have "snd (mkdir_steps sy mode ps (m(p \<mapsto> Dir mode))) q = (m(p \<mapsto> Dir mode)) q"
      by (rule Cons.IH)
    then have "snd (mkdir_steps sy mode ps (m(p \<mapsto> Dir mode))) q = m q"
      unfolding n .
    then show ?thesis
      using None by (cases "sy_fault sy (CallMkdir p)") simp_all
  next
    case (Some n)
    with Cons show ?thesis by (cases n) auto
  qed
qed simp

lemma mkdir_all_frame: "\<not> prefix q p \<or> m q \<noteq> None \<Longrightarrow> snd (mkdir_all sy mode p m) q = m q"
  unfolding mkdir_all_def by (rule mkdir_steps_frame) (simp add: set_steps_to)

lemma mkdir_steps_ok:
  "fst (mkdir_steps sy mode ps m) = None \<Longrightarrow> q \<in> set ps \<Longrightarrow>
   \<exists>d. snd (mkdir_steps sy mode ps m) q = Some (Dir d) \<and> (m q = None \<longrightarrow> d = mode) \<and> (\<forall>n. m q = Some n \<longrightarrow> n = Dir d)"
proof (induction ps arbitrary: m)
  case (Cons p ps)
  show ?case
  proof (cases "m p")
    case None
    then have f: "sy_fault sy (CallMkdir p) = None"
      using Cons.prems(1) by (cases "sy_fault sy (CallMkdir p)") simp_all
    have e: "mkdir_steps sy mode (p # ps) m = mkdir_steps sy mode ps (m(p \<mapsto> Dir mode))"
      using None f by simp
    show ?thesis
    proof (cases "q = p")
      case True
      have "snd (mkdir_steps sy mode ps (m(p \<mapsto> Dir mode))) p = (m(p \<mapsto> Dir mode)) p"
        by (rule mkdir_steps_frame) simp
      with True None show ?thesis unfolding e by simp
    next
      case False
      then have q: "q \<in> set ps" using Cons.prems(2) by simp
      have "(m(p \<mapsto> Dir mode)) q = m q" using False by simp
      from Cons.IH [OF Cons.prems(1) [unfolded e] q] show ?thesis
        unfolding e \<open>(m(p \<mapsto> Dir mode)) q = m q\<close> .
    qed
  next
    case (Some n)
    then obtain d where n: "n = Dir d"
      using Cons.prems(1) by (cases n) simp_all
    have e: "mkdir_steps sy mode (p # ps) m = mkdir_steps sy mode ps m"
      using Some n by simp
    show ?thesis
    proof (cases "q = p")
      case True
      have "snd (mkdir_steps sy mode ps m) p = m p"
        by (rule mkdir_steps_frame) (simp add: Some)
      with True Some n show ?thesis unfolding e by simp
    next
      case False
      with Cons show ?thesis unfolding e by simp
    qed
  qed
qed simp

lemma mkdir_all_ok:
  "fst (mkdir_all sy mode p m) = None \<Longrightarrow> prefix q p \<Longrightarrow>
   \<exists>d. snd (mkdir_all sy mode p m) q = Some (Dir d) \<and> (m q = None \<longrightarrow> d = mode)"
  using mkdir_steps_ok [of sy mode "steps_to p" m q] by (auto simp: mkdir_all_def set_steps_to)

lemma remove_all_frame: "\<not> prefix p q \<Longrightarrow> snd (remove_all sy p m) q = m q"
  by (simp add: remove_all_def below_def split: option.split)

lemma remove_all_ok: "fst (remove_all sy p m) = None \<Longrightarrow> prefix p q \<Longrightarrow> snd (remove_all sy p m) q = None"
  by (simp add: remove_all_def below_def split: option.splits)

end
