(* ===== verification/Workspace.thy ===== *)
theory Workspace
  imports File_System
begin

text \<open>
  The allowlist of host directories, \<^verbatim>\<open>internal/workspace/workspace.go\<close>. \<^verbatim>\<open>filepath.EvalSymlinks\<close> is a
  parameter, from a path to the resolved path or the way it fails.
\<close>

section \<open>Validation\<close>

datatype resolved = Resolved string | Missing string | Unresolved string

record workspace_validator =
  wv_allowed :: "string list"
  wv_allow_all :: bool

definition new_validator :: "string list \<Rightarrow> workspace_validator" where
  "new_validator allowed = \<lparr>wv_allowed = allowed, wv_allow_all = False\<rparr>"

definition new_validator_with_allow_all :: "string list \<Rightarrow> bool \<Rightarrow> workspace_validator" where
  "new_validator_with_allow_all allowed all = \<lparr>wv_allowed = allowed, wv_allow_all = all\<rparr>"

text \<open>The root an entry of the allowlist stands for, when its absolute path can be determined.\<close>

definition allowed_root :: "sys \<Rightarrow> (string \<Rightarrow> resolved) \<Rightarrow> string \<Rightarrow> string option" where
  "allowed_root sy res allowed =
     (case os_abs sy allowed of
        Inl _ \<Rightarrow> None
      | Inr a \<Rightarrow>
          (let a' = path_clean a
           in Some (path_clean (case res a' of Resolved r \<Rightarrow> r | _ \<Rightarrow> a'))))"

fun first_allowed :: "sys \<Rightarrow> (string \<Rightarrow> resolved) \<Rightarrow> string \<Rightarrow> string list \<Rightarrow> bool" where
  "first_allowed sy res p [] = False"
| "first_allowed sy res p (d # ds) =
     (case allowed_root sy res d of
        None \<Rightarrow> first_allowed sy res p ds
      | Some r \<Rightarrow> if p = r \<or> has_prefix p (r @ ''/'') then True else first_allowed sy res p ds)"

definition validate_workspace ::
    "(string \<Rightarrow> string) \<Rightarrow> sys \<Rightarrow> (string \<Rightarrow> resolved) \<Rightarrow> workspace_validator \<Rightarrow> string \<Rightarrow> string result" where
  "validate_workspace q sy res v p =
     (if p = [] then Inr []
      else
        (case os_abs sy p of
           Inl e \<Rightarrow> Inl (Wrap ''invalid workspace path: '' e [])
         | Inr a0 \<Rightarrow>
             (let a = path_clean a0
              in case (case res a of
                         Resolved r \<Rightarrow> Inr r
                       | Unresolved e \<Rightarrow> Inl (Wrap (''cannot validate workspace path '' @ q p @ '': '') (Msg e) [])
                       | Missing e \<Rightarrow>
                           if \<not> is_abs a then Inl (Msg ''path must be absolute after resolution'') else Inr a) of
                   Inl e \<Rightarrow> Inl e
                 | Inr r0 \<Rightarrow>
                     (let r = path_clean r0
                      in if length (wv_allowed v) = 0
                         then (if wv_allow_all v then Inr r
                               else Inl (Msg ''no volume allowlist configured; set allowed_volumes or enable allow_all_volumes for development''))
                         else if first_allowed sy res r (wv_allowed v) then Inr r
                         else Inl (Msg (''workspace path '' @ q p @ '' is not in allowed directories''))))))"

definition is_configured :: "workspace_validator \<Rightarrow> bool" where
  "is_configured v \<longleftrightarrow> length (wv_allowed v) > 0"

definition allows_all :: "workspace_validator \<Rightarrow> bool" where
  "allows_all v \<longleftrightarrow> wv_allow_all v \<and> length (wv_allowed v) = 0"

section \<open>Containment by components\<close>

lemma join_snoc: "ds \<noteq> [] \<Longrightarrow> str_join sep (ds @ [c]) = str_join sep ds @ sep @ c"
  by (induction sep ds rule: str_join.induct) auto

lemma join_append: "ds \<noteq> [] \<Longrightarrow> es \<noteq> [] \<Longrightarrow> str_join sep (ds @ es) = str_join sep ds @ sep @ str_join sep es"
proof (induction sep ds rule: str_join.induct)
  case (2 sep x)
  then show ?case by (cases es) auto
qed auto

definition comps_path :: "string list \<Rightarrow> string" where
  "comps_path cs = slash # str_join [slash] cs"

definition comps_ok :: "string list \<Rightarrow> bool" where
  "comps_ok cs \<longleftrightarrow> (\<forall>c \<in> set cs. plain_comp c \<and> slash \<notin> set c)"

lemma comps_ok_singleton: "\<not> comps_ok [[]]"
  by (simp add: comps_ok_def plain_comp_def)

lemma comps_path_inj:
  assumes "comps_ok cs" and "comps_ok ds" and "comps_path cs = comps_path ds"
  shows "cs = ds"
proof -
  have "[] # (if cs = [] then [[]] else cs) = [] # (if ds = [] then [[]] else ds)"
    using path_comps_join [of cs] path_comps_join [of ds] assms by (simp add: comps_ok_def comps_path_def)
  moreover have "cs \<noteq> [[]]" "ds \<noteq> [[]]"
    using assms(1,2) comps_ok_singleton by metis+
  ultimately show ?thesis
    by (cases "cs = []"; cases "ds = []") simp_all
qed

text \<open>A path below a root other than the root directory has the components of that root first.\<close>

lemma has_prefix_comps:
  assumes "comps_ok ds" and "comps_ok cs" and "ds \<noteq> []"
  shows "has_prefix (comps_path cs) (comps_path ds @ ''/'') \<longleftrightarrow> strict_prefix ds cs"
proof
  assume "strict_prefix ds cs"
  then obtain es where "cs = ds @ es" "es \<noteq> []"
    by (auto simp: strict_prefix_def prefix_def)
  then show "has_prefix (comps_path cs) (comps_path ds @ ''/'')"
    using join_append [OF assms(3), of es "[slash]"] by (simp add: comps_path_def)
next
  assume "has_prefix (comps_path cs) (comps_path ds @ ''/'')"
  then obtain t where t: "str_join [slash] cs = str_join [slash] ds @ slash # t"
    by (auto simp: comps_path_def prefix_def)
  have "cs \<noteq> []" using t by auto
  then have "path_comps (str_join [slash] cs) = cs"
    using assms(2) by (intro split_join) (simp_all add: comps_ok_def)
  moreover have "path_comps (str_join [slash] ds) = ds"
    using assms(1,3) by (intro split_join) (simp_all add: comps_ok_def)
  ultimately have "cs = ds @ path_comps t"
    unfolding t split_on_app by simp
  then show "strict_prefix ds cs"
    by (simp add: strict_prefix_def prefix_def)
qed

lemma root_prefix: "comps_ok cs \<Longrightarrow> \<not> has_prefix (comps_path cs) (comps_path [] @ ''/'')"
proof
  assume c: "comps_ok cs" and p: "has_prefix (comps_path cs) (comps_path [] @ ''/'')"
  then obtain t where "str_join [slash] cs = slash # t"
    by (auto simp: comps_path_def prefix_def)
  moreover from this have "cs \<noteq> []" by auto
  then obtain d ds where "cs = d # ds" by (cases cs) auto
  ultimately show False
    using c by (cases ds; cases d) (auto simp: comps_ok_def plain_comp_def)
qed

definition path_of_comps :: "string \<Rightarrow> string list" where
  "path_of_comps p = clean_comps True [] (path_comps p)"

lemma clean_is_comps:
  assumes "is_abs p"
  shows "path_clean p = comps_path (path_of_comps p)" and "comps_ok (path_of_comps p)"
proof -
  show "path_clean p = comps_path (path_of_comps p)"
    using assms by (simp add: path_clean_def comps_path_def path_of_comps_def)
  show "comps_ok (path_of_comps p)"
    using clean_comps_rooted [of "[]" _ "path_comps p"] clean_comps_subset [of True "[]" "path_comps p"]
      comps_no_slash [of _ p] by (fastforce simp: plain_comp_def comps_ok_def path_of_comps_def)
qed

text \<open>The directory \<open>d\<close> contains the absolute path \<open>p\<close>; the root directory contains only itself.\<close>

definition contained :: "string \<Rightarrow> string \<Rightarrow> bool" where
  "contained d p \<longleftrightarrow>
     path_of_comps d = path_of_comps p \<or> path_of_comps d \<noteq> [] \<and> prefix (path_of_comps d) (path_of_comps p)"

lemma below_contained:
  assumes "is_abs d" and "is_abs p"
  shows "(path_clean p = path_clean d \<or> has_prefix (path_clean p) (path_clean d @ ''/'')) \<longleftrightarrow> contained d p"
proof -
  let ?d = "path_of_comps d" and ?p = "path_of_comps p"
  have ok: "comps_ok ?d" "comps_ok ?p" using assms by (simp_all add: clean_is_comps)
  have "comps_path ?p = comps_path ?d \<longleftrightarrow> ?p = ?d"
    using ok comps_path_inj by metis
  moreover have "has_prefix (comps_path ?p) (comps_path ?d @ ''/'') \<longleftrightarrow> ?d \<noteq> [] \<and> strict_prefix ?d ?p"
    using has_prefix_comps [OF ok] root_prefix [OF ok(2)] by (cases "?d = []") auto
  ultimately show ?thesis
    unfolding clean_is_comps(1) [OF assms(1)] clean_is_comps(1) [OF assms(2)] contained_def
    by (auto simp: strict_prefix_def)
qed

section \<open>What is accepted\<close>

lemma first_allowed_iff:
  "first_allowed sy res p ds \<longleftrightarrow>
     (\<exists>d \<in> set ds. \<exists>r. allowed_root sy res d = Some r \<and> (p = r \<or> has_prefix p (r @ ''/'')))"
  by (induction ds) (auto split: option.split)

text \<open>What \<^verbatim>\<open>EvalSymlinks\<close> documents: the result for an absolute path is absolute.\<close>

definition resolver_ok :: "(string \<Rightarrow> resolved) \<Rightarrow> bool" where
  "resolver_ok res \<longleftrightarrow> (\<forall>p r. is_abs p \<longrightarrow> res p = Resolved r \<longrightarrow> is_abs r)"

definition real_path :: "(string \<Rightarrow> resolved) \<Rightarrow> string \<Rightarrow> string" where
  "real_path res a = (case res a of Resolved r \<Rightarrow> r | _ \<Rightarrow> a)"

lemma os_abs_clean:
  assumes "os_abs sy p = Inr a" and "is_abs (sy_cwd sy)"
  shows "is_abs a" and "a = path_clean a"
proof -
  have "a = path_abs (sy_cwd sy) p"
    using assms(1) by (auto simp: os_abs_def path_abs_def split: if_splits option.splits)
  then have a: "a = comps_path (abs_comps (sy_cwd sy) p)"
    using path_abs_comps [OF assms(2)] by (simp add: comps_path_def)
  then show "is_abs a" by (simp add: comps_path_def is_abs_def)
  have "slash \<notin> set c" if "c \<in> set (abs_comps (sy_cwd sy) p)" for c
  proof -
    have "c \<in> set (path_comps p) \<union> set (path_comps (sy_cwd sy)) \<union> {''..''}"
      using that clean_comps_subset [of True "[]" "path_comps p"]
        clean_comps_subset [of True "[]" "path_comps (sy_cwd sy) @ path_comps p"]
      by (auto simp: abs_comps_def split: if_splits)
    then show ?thesis
      using comps_no_slash by auto
  qed
  then have "path_clean (comps_path (abs_comps (sy_cwd sy) p)) = comps_path (abs_comps (sy_cwd sy) p)"
    unfolding comps_path_def using abs_comps_plain by (intro path_clean_fixed) blast
  then show "a = path_clean a" unfolding a by simp
qed

lemma validate_workspace_iff:
  assumes "resolver_ok res" and "is_abs (sy_cwd sy)" and "p \<noteq> []" and "wv_allowed v \<noteq> []"
  shows "validate_workspace q sy res v p = Inr r \<longleftrightarrow>
    (\<exists>a. os_abs sy p = Inr a \<and> (\<forall>e. res a \<noteq> Unresolved e) \<and> r = path_clean (real_path res a) \<and>
       (\<exists>d \<in> set (wv_allowed v). \<exists>b. os_abs sy d = Inr b \<and> contained (real_path res b) (real_path res a)))"
proof (cases "os_abs sy p")
  case (Inl e)
  with assms(3) show ?thesis by (simp add: validate_workspace_def)
next
  case (Inr a)
  have a: "is_abs a" "path_clean a = a" using os_abs_clean [OF Inr assms(2)] by simp_all
  have abs: "is_abs (real_path res x)" if "is_abs x" for x
    using assms(1) that by (auto simp: resolver_ok_def real_path_def split: resolved.split)
  have root: "allowed_root sy res d = Some x \<longleftrightarrow> (\<exists>b. os_abs sy d = Inr b \<and> x = path_clean (real_path res b))" for d x
    using os_abs_clean(2) [OF _ assms(2), of d]
    by (auto simp: allowed_root_def real_path_def Let_def split: sum.split)
  have "first_allowed sy res (path_clean (real_path res a)) (wv_allowed v) \<longleftrightarrow>
      (\<exists>d \<in> set (wv_allowed v). \<exists>b. os_abs sy d = Inr b \<and> contained (real_path res b) (real_path res a))"
    unfolding first_allowed_iff root
    using below_contained [OF abs abs] os_abs_clean(1) [OF _ assms(2)] a(1) by blast
  moreover have "validate_workspace q sy res v p = Inr r \<longleftrightarrow>
      (\<forall>e. res a \<noteq> Unresolved e) \<and> r = path_clean (real_path res a) \<and>
      first_allowed sy res (path_clean (real_path res a)) (wv_allowed v)"
    using assms(3,4) Inr a by (auto simp: validate_workspace_def Let_def real_path_def split: resolved.split)
  ultimately show ?thesis
    using Inr by auto
qed

definition plain_sys :: sys where
  "plain_sys = \<lparr>sy_cwd = ''/'', sy_fault = (\<lambda>_. None), sy_survives = (\<lambda>_. False)\<rparr>"



definition linked :: "string \<Rightarrow> resolved" where
  "linked p =
     (if p = ''/w/link'' then Resolved ''/etc''
      else if p = ''/w/link/new'' then Missing ''no such file or directory'' else Resolved p)"

text \<open>A path below a symbolic link that leads out of the allowlist is accepted as long as its last part does
  not exist: the link itself is rejected, but for a missing file \<^verbatim>\<open>EvalSymlinks\<close> fails and the check falls
  back to the unresolved name.\<close>

lemma workspace_missing_leaf_gap:
  "resolver_ok linked \<and> linked ''/w/link'' = Resolved ''/etc'' \<and>
   (\<exists>e. validate_workspace q plain_sys linked (new_validator [''/w'']) ''/w/link'' = Inl e) \<and>
   validate_workspace q plain_sys linked (new_validator [''/w'']) ''/w/link/new'' = Inr ''/w/link/new''"
proof -
  have r: "resolver_ok linked"
    unfolding resolver_ok_def linked_def by (simp add: is_abs_def)
  have o: "os_abs plain_sys ''/w/link'' = Inr ''/w/link''" "os_abs plain_sys ''/w/link/new'' = Inr ''/w/link/new''"
    by code_simp+
  have p: "path_clean ''/w/link'' = ''/w/link''" "path_clean ''/w/link/new'' = ''/w/link/new''"
    "path_clean ''/etc'' = ''/etc''"
    by code_simp+
  have l: "linked ''/w/link'' = Resolved ''/etc''" "linked ''/w/link/new'' = Missing ''no such file or directory''"
    by (simp_all add: linked_def)
  have f: "\<not> first_allowed plain_sys linked ''/etc'' [''/w'']"
    "first_allowed plain_sys linked ''/w/link/new'' [''/w'']"
  proof -
    have "os_abs plain_sys ''/w'' = Inr ''/w''" "path_clean ''/w'' = ''/w''" by code_simp+
    then have w: "allowed_root plain_sys linked ''/w'' = Some ''/w''"
      by (simp add: allowed_root_def Let_def linked_def)
    show "\<not> first_allowed plain_sys linked ''/etc'' [''/w'']"
      "first_allowed plain_sys linked ''/w/link/new'' [''/w'']"
      by (simp_all add: w)
  qed
  have abs: "is_abs ''/w/link/new''" by (simp add: is_abs_def)
  show ?thesis
    by (intro conjI r l) (simp_all add: validate_workspace_def new_validator_def Let_def o p l f abs del: first_allowed.simps)
qed

end
