(* ===== verification/Shell.thy ===== *)
theory Shell
  imports Go_Text
begin

text \<open>
  A reader for a small part of the POSIX shell's grammar: lists of simple commands joined by \<^verbatim>\<open>&&\<close>, with
  words that may hold single quotes and backslashes, and comments to the end of the text. Text that uses
  anything else (expansions, other operators, redirections, double quotes) has no reading here.
\<close>

datatype sh_mode = Plain | Quoted | Escaped | Amp | Comment

record sh_state =
  sh_mode :: sh_mode
  sh_cur :: "string option"
  sh_words :: "string list"
  sh_cmds :: "string list list"

definition sh_start :: sh_state where
  "sh_start = \<lparr>sh_mode = Plain, sh_cur = None, sh_words = [], sh_cmds = []\<rparr>"

definition sh_special :: "char \<Rightarrow> bool" where
  "sh_special c \<longleftrightarrow> c \<in> set ''|;<>()$*?[]{}~!`'' \<or> c = CHR 0x22 \<or> c = CHR 0x0A"

definition sh_flush :: "sh_state \<Rightarrow> sh_state" where
  "sh_flush st =
     (case sh_cur st of None \<Rightarrow> st | Some w \<Rightarrow> st\<lparr>sh_cur := None, sh_words := sh_words st @ [w]\<rparr>)"

definition sh_add :: "char \<Rightarrow> sh_state \<Rightarrow> sh_state" where
  "sh_add c st = st\<lparr>sh_cur := Some (case sh_cur st of None \<Rightarrow> [c] | Some w \<Rightarrow> w @ [c])\<rparr>"

definition sh_open :: "sh_state \<Rightarrow> sh_state" where
  "sh_open st = st\<lparr>sh_mode := Quoted, sh_cur := Some (case sh_cur st of None \<Rightarrow> [] | Some w \<Rightarrow> w)\<rparr>"

definition sh_step :: "sh_state \<Rightarrow> char \<Rightarrow> sh_state option" where
  "sh_step st c =
     (case sh_mode st of
        Quoted \<Rightarrow> Some (if c = CHR 0x27 then st\<lparr>sh_mode := Plain\<rparr> else sh_add c st)
      | Escaped \<Rightarrow> if c = CHR 0x0A then None else Some (sh_add c (st\<lparr>sh_mode := Plain\<rparr>))
      | Amp \<Rightarrow>
          if c = CHR ''&'' \<and> sh_words st \<noteq> []
          then Some (st\<lparr>sh_mode := Plain, sh_words := [], sh_cmds := sh_cmds st @ [sh_words st]\<rparr>) else None
      | Comment \<Rightarrow> if c = CHR 0x0A then None else Some st
      | Plain \<Rightarrow>
          if c = CHR '' '' \<or> c = CHR 0x09 then Some (sh_flush st)
          else if c = CHR 0x27 then Some (sh_open st)
          else if c = CHR 0x5C then Some (st\<lparr>sh_mode := Escaped\<rparr>)
          else if c = CHR ''#'' \<and> sh_cur st = None then Some (st\<lparr>sh_mode := Comment\<rparr>)
          else if c = CHR ''&'' then Some ((sh_flush st)\<lparr>sh_mode := Amp\<rparr>)
          else if sh_special c then None
          else Some (sh_add c st))"

fun sh_run :: "sh_state \<Rightarrow> string \<Rightarrow> sh_state option" where
  "sh_run st [] = Some st"
| "sh_run st (c # cs) = (case sh_step st c of None \<Rightarrow> None | Some st' \<Rightarrow> sh_run st' cs)"

definition sh_finish :: "sh_state \<Rightarrow> string list list option" where
  "sh_finish st =
     (if sh_mode st = Plain \<or> sh_mode st = Comment
      then (let st' = sh_flush st in if sh_words st' = [] then None else Some (sh_cmds st' @ [sh_words st']))
      else None)"

text \<open>The commands of a script, each the list of its words.\<close>

definition sh_script :: "string \<Rightarrow> string list list option" where
  "sh_script s = (case sh_run sh_start s of None \<Rightarrow> None | Some st \<Rightarrow> sh_finish st)"

lemma sh_run_append:
  "sh_run st (a @ b) = (case sh_run st a of None \<Rightarrow> None | Some st' \<Rightarrow> sh_run st' b)"
  by (induction a arbitrary: st) (simp_all split: option.split)

lemma sh_run_then: "sh_run st a = Some st' \<Longrightarrow> sh_run st (a @ b) = sh_run st' b"
  by (simp add: sh_run_append)

section \<open>Quoting\<close>

text \<open>The text between two single quotes, with every single quote written as quote, backslash, quote, quote.\<close>

definition sh_quote :: "string \<Rightarrow> string" where
  "sh_quote s = CHR 0x27 # replace_byte (CHR 0x27) [CHR 0x27, CHR 0x5C, CHR 0x27, CHR 0x27] s @ [CHR 0x27]"

lemma sh_run_quoted:
  assumes "sh_mode st = Quoted" and "sh_cur st = Some w"
  shows "sh_run st (replace_byte (CHR 0x27) [CHR 0x27, CHR 0x5C, CHR 0x27, CHR 0x27] s) =
         Some (st\<lparr>sh_cur := Some (w @ s)\<rparr>)"
  using assms
proof (induction s arbitrary: st w)
  case Nil
  then show ?case by simp
next
  case (Cons c s)
  let ?st = "st\<lparr>sh_cur := Some (w @ [c])\<rparr>"
  have "sh_run st (if c = CHR 0x27 then [CHR 0x27, CHR 0x5C, CHR 0x27, CHR 0x27] else [c]) = Some ?st"
    using Cons.prems by (auto simp: sh_step_def sh_add_def sh_open_def)
  moreover have "sh_run ?st (replace_byte (CHR 0x27) [CHR 0x27, CHR 0x5C, CHR 0x27, CHR 0x27] s) =
      Some (?st\<lparr>sh_cur := Some ((w @ [c]) @ s)\<rparr>)"
    by (rule Cons.IH) (simp_all add: Cons.prems)
  ultimately show ?case
    by (simp add: sh_run_append)
qed

lemma sh_run_quote:
  assumes "sh_mode st = Plain" and "sh_cur st = None"
  shows "sh_run st (sh_quote s) = Some (st\<lparr>sh_cur := Some s\<rparr>)"
proof -
  have "sh_run (sh_open st) (replace_byte (CHR 0x27) [CHR 0x27, CHR 0x5C, CHR 0x27, CHR 0x27] s) =
      Some ((sh_open st)\<lparr>sh_cur := Some s\<rparr>)"
    using sh_run_quoted [of "sh_open st" "[]" s] assms by (simp add: sh_open_def)
  moreover have "sh_step ((sh_open st)\<lparr>sh_cur := Some s\<rparr>) (CHR 0x27) = Some (st\<lparr>sh_cur := Some s\<rparr>)"
    using assms by (simp add: sh_step_def sh_open_def)
  moreover have "sh_step st (CHR 0x27) = Some (sh_open st)"
    using assms by (simp add: sh_step_def)
  ultimately show ?thesis
    by (simp add: sh_quote_def sh_run_append)
qed

lemma sh_run_quotes:
  assumes "sh_mode st = Plain" and "sh_cur st = None" and "ws \<noteq> []"
  shows "sh_run st (str_join '' '' (map sh_quote ws)) =
         Some (st\<lparr>sh_words := sh_words st @ butlast ws, sh_cur := Some (last ws)\<rparr>)"
  using assms
proof (induction ws arbitrary: st)
  case (Cons w ws)
  show ?case
  proof (cases ws)
    case Nil
    with Cons.prems show ?thesis by (simp add: sh_run_quote)
  next
    case (Cons v vs)
    let ?st = "st\<lparr>sh_words := sh_words st @ [w]\<rparr>"
    have "sh_run st (sh_quote w @ '' '') = Some ?st"
      using Cons.prems by (simp add: sh_run_append sh_run_quote sh_step_def sh_flush_def)
    then have "sh_run st ((sh_quote w @ '' '') @ str_join '' '' (map sh_quote ws)) =
        sh_run ?st (str_join '' '' (map sh_quote ws))"
      by (rule sh_run_then)
    also have "\<dots> = Some (?st\<lparr>sh_words := sh_words ?st @ butlast ws, sh_cur := Some (last ws)\<rparr>)"
      by (rule Cons.IH) (simp_all add: Cons.prems Cons)
    finally show ?thesis
      by (simp add: Cons)
  qed
qed simp

end
