(* ===== verification/Go_Time.thy ===== *)
theory Go_Time
  imports Go_Text
begin

text \<open>
  \<^verbatim>\<open>time.ParseDuration\<close> of Go's standard library, byte by byte with its overflow checks, and the
  rounding of \<^verbatim>\<open>fmt\<close>'s \<^verbatim>\<open>%.0f\<close>. The fraction of a number is converted exactly, where Go rounds through
  \<^verbatim>\<open>float64\<close>.
\<close>

definition bound63 :: nat where
  "bound63 = 2 ^ 63"

text \<open>\<^verbatim>\<open>leadingInt\<close>: the value and the rest, or an overflow.\<close>

fun leading_int :: "nat \<Rightarrow> string \<Rightarrow> (nat \<times> string) option" where
  "leading_int x [] = Some (x, [])"
| "leading_int x (c # cs) =
     (if \<not> is_digit c then Some (x, c # cs)
      else if x > bound63 div 10 then None
      else let x' = x * 10 + digit_val c in if x' > bound63 then None else leading_int x' cs)"

text \<open>\<^verbatim>\<open>leadingFraction\<close>: digits beyond the precision are skipped.\<close>

fun leading_fraction :: "nat \<Rightarrow> nat \<Rightarrow> bool \<Rightarrow> string \<Rightarrow> nat \<times> nat \<times> string" where
  "leading_fraction x scale ovf [] = (x, scale, [])"
| "leading_fraction x scale ovf (c # cs) =
     (if \<not> is_digit c then (x, scale, c # cs)
      else if ovf then leading_fraction x scale True cs
      else if x > (bound63 - 1) div 10 then leading_fraction x scale True cs
      else let x' = x * 10 + digit_val c
           in if x' > bound63 then leading_fraction x scale True cs
              else leading_fraction x' (scale * 10) False cs)"

definition unit_map :: "string \<Rightarrow> nat option" where
  "unit_map u =
     (if u = ''ns'' then Some 1
      else if u = ''us'' \<or> u = [CHR 0xC2, CHR 0xB5, CHR ''s''] \<or> u = [CHR 0xCE, CHR 0xBC, CHR ''s'']
      then Some 1000
      else if u = ''ms'' then Some 1000000
      else if u = ''s'' then Some 1000000000
      else if u = ''m'' then Some 60000000000
      else if u = ''h'' then Some 3600000000000
      else None)"

definition unit_char :: "char \<Rightarrow> bool" where
  "unit_char c \<longleftrightarrow> \<not> (c = CHR ''.'' \<or> is_digit c)"

text \<open>One number with its unit: the nanoseconds and the rest.\<close>

definition duration_item :: "string \<Rightarrow> (nat \<times> string) option" where
  "duration_item s =
     (if s = [] \<or> unit_char (hd s) then None
      else
        (case leading_int 0 s of
           None \<Rightarrow> None
         | Some (v, s1) \<Rightarrow>
             (let pre = length s1 \<noteq> length s;
                  (f, scale, s2, post) =
                    (if s1 \<noteq> [] \<and> hd s1 = CHR ''.''
                     then let (f, scale, s2) = leading_fraction 0 1 False (tl s1)
                          in (f, scale, s2, length s2 \<noteq> length (tl s1))
                     else (0, 1, s1, False));
                  u = takeWhile unit_char s2; s3 = dropWhile unit_char s2
              in if \<not> pre \<and> \<not> post then None
                 else if u = [] then None
                 else
                   (case unit_map u of
                      None \<Rightarrow> None
                    | Some unit \<Rightarrow>
                        if v > bound63 div unit then None
                        else let v' = v * unit + f * unit div scale
                             in if f > 0 \<and> v' > bound63 then None else Some (v', s3)))))"

lemma leading_int_length: "leading_int x s = Some (y, r) \<Longrightarrow> length r \<le> length s"
  by (induction x s rule: leading_int.induct) (auto simp: Let_def split: if_splits)

lemma leading_fraction_length: "leading_fraction x sc v s = (f, sc', r) \<Longrightarrow> length r \<le> length s"
  by (induction x sc v s rule: leading_fraction.induct) (auto simp: Let_def split: if_splits)

lemma duration_item_shorter: "duration_item s = Some (v, r) \<Longrightarrow> length r < length s"
proof -
  assume d: "duration_item s = Some (v, r)"
  have drop: "length (dropWhile unit_char t) < length t" if "takeWhile unit_char t \<noteq> []" for t
    using that by (cases t) (auto simp: le_imp_less_Suc length_dropWhile_le split: if_splits)
  obtain v0 s1 where s1: "leading_int 0 s = Some (v0, s1)"
    using d by (auto simp: duration_item_def split: if_splits option.splits)
  show ?thesis
  proof (cases "s1 \<noteq> [] \<and> hd s1 = CHR ''.''")
    case True
    obtain f sc s2 where f: "leading_fraction 0 1 False (tl s1) = (f, sc, s2)"
      by (metis prod_cases3)
    with d s1 True have "takeWhile unit_char s2 \<noteq> []" "r = dropWhile unit_char s2"
      by (auto simp: duration_item_def Let_def split: if_splits option.splits)
    with drop [of s2] leading_fraction_length [OF f] leading_int_length [OF s1] show ?thesis
      by (simp add: True)
  next
    case False
    with d s1 have "takeWhile unit_char s1 \<noteq> []" "r = dropWhile unit_char s1"
      by (auto simp: duration_item_def Let_def split: if_splits option.splits)
    with drop [of s1] leading_int_length [OF s1] show ?thesis
      by simp
  qed
qed

function duration_items :: "nat \<Rightarrow> string \<Rightarrow> nat option" where
  "duration_items d s =
     (if s = [] then Some d
      else
        (case duration_item s of
           None \<Rightarrow> None
         | Some (v, r) \<Rightarrow> if d + v > bound63 then None else duration_items (d + v) r))"
  by auto

termination duration_items
  by (relation "measure (\<lambda>(d, s). length s)") (auto dest: duration_item_shorter)

declare duration_items.simps [simp del]

definition parse_duration :: "string \<Rightarrow> gtime option" where
  "parse_duration s =
     (let neg = (s \<noteq> [] \<and> hd s = CHR ''-'');
          s1 = (if s \<noteq> [] \<and> (hd s = CHR ''-'' \<or> hd s = CHR ''+'') then tl s else s)
      in if s1 = ''0'' then Some 0
         else if s1 = [] then None
         else
           (case duration_items 0 s1 of
              None \<Rightarrow> None
            | Some d \<Rightarrow>
                if neg then Some (- int d)
                else if d > bound63 - 1 then None
                else Some (int d)))"

lemma duration_items_bound: "d \<le> bound63 \<Longrightarrow> duration_items d s = Some r \<Longrightarrow> r \<le> bound63"
proof (induction d s rule: duration_items.induct)
  case (1 d s)
  then show ?case
    by (subst (asm) (2) duration_items.simps) (auto split: if_splits option.splits)
qed

lemma parse_duration_range: "parse_duration s = Some d \<Longrightarrow> - (2 ^ 63) \<le> d \<and> d < 2 ^ 63"
  using duration_items_bound [of 0]
  by (fastforce simp: parse_duration_def Let_def bound63_def split: if_splits option.splits)

text \<open>\<^verbatim>\<open>%.0f\<close> of a number of seconds: the nearest integer, halves to even.\<close>

definition round_seconds :: "gtime \<Rightarrow> int" where
  "round_seconds d =
     (let q = d div second; r = d mod second
      in if 2 * r < second then q
         else if 2 * r > second then q + 1
         else if even q then q else q + 1)"

lemma round_seconds_near: "\<bar>2 * (round_seconds d * second - d)\<bar> \<le> second"
proof -
  define q r where "q = d div second" and "r = d mod second"
  have d: "d = q * 1000000000 + r" and r: "0 \<le> r" "r < 1000000000"
    by (simp_all add: q_def r_def second_def)
  have "round_seconds d = (if 2 * r < second then q else if 2 * r > second then q + 1
                           else if even q then q else q + 1)"
    by (simp add: round_seconds_def Let_def q_def r_def)
  with d r show ?thesis
    by (auto simp: second_def)
qed

lemma round_seconds_exact: "round_seconds (n * second) = n"
  by (simp add: round_seconds_def second_def)

end
