(* ===== verification/Lifecycle.thy ===== *)
theory Lifecycle
  imports Shell Go_Time
begin

text \<open>
  Lifecycle hooks, \<^verbatim>\<open>internal/runner/lifecycle.go\<close>: their validation and the shell command that runs them
  before the main command. A hook list is an option: \<^verbatim>\<open>nil\<close> and an empty slice differ. The shell itself is
  the reader of theory Shell.
\<close>

section \<open>Hooks and limits\<close>

record lifecycle_hooks =
  hk_on_create :: "string list option"
  hk_post_create :: "string list option"
  hk_post_start :: "string list option"
  hk_timeout :: string

text \<open>Ranging over a nil slice and taking its length.\<close>

abbreviation slice :: "'a list option \<Rightarrow> 'a list" where
  "slice s \<equiv> (case s of None \<Rightarrow> [] | Some xs \<Rightarrow> xs)"

definition max_hook_command_args :: nat where
  "max_hook_command_args = 100"

definition max_hook_arg_length :: nat where
  "max_hook_arg_length = 4096"

definition max_total_hook_length :: nat where
  "max_total_hook_length = 65536"

definition max_total_hook_args :: nat where
  "max_total_hook_args = 200"

definition max_hooks_timeout :: gtime where
  "max_hooks_timeout = hour"

lemmas hook_limits = max_hook_command_args_def max_hook_arg_length_def max_total_hook_length_def
  max_total_hook_args_def

section \<open>Validation\<close>

text \<open>The loop over the arguments from index \<open>i\<close>, adding up their lengths.\<close>

fun check_hook_args :: "string \<Rightarrow> nat \<Rightarrow> string list \<Rightarrow> nat \<Rightarrow> nat result" where
  "check_hook_args name i [] len = Inr len"
| "check_hook_args name i (arg # args) len =
     (if arg = [] then Inl (Msg (name @ '': argument '' @ show_nat i @ '' is empty''))
      else if list_ex (\<lambda>c. c = CHR 0x00) arg
      then Inl (Msg (name @ '': argument '' @ show_nat i @ '' contains null byte''))
      else if length arg > max_hook_arg_length
      then Inl (Msg (name @ '': argument '' @ show_nat i @ '' too long ('' @ show_nat (length arg) @ '' > '' @
                     show_nat max_hook_arg_length @ '')''))
      else check_hook_args name (i + 1) args (len + length arg))"

definition validate_hook_command ::
    "string \<Rightarrow> string list option \<Rightarrow> nat \<times> nat \<Rightarrow> (nat \<times> nat) result" where
  "validate_hook_command name cmd totals =
     (case cmd of
        None \<Rightarrow> Inr totals
      | Some args \<Rightarrow>
          if length args = 0
          then Inl (Msg (name @ '': hook configured but empty (must have at least one command)''))
          else if length args > max_hook_command_args
          then Inl (Msg (name @ '': too many arguments ('' @ show_nat (length args) @ '' > '' @
                         show_nat max_hook_command_args @ '')''))
          else
            (case check_hook_args name 0 args (fst totals) of
               Inl e \<Rightarrow> Inl e
             | Inr len \<Rightarrow> Inr (len, snd totals + length args)))"

definition check_hooks_timeout :: "(string \<Rightarrow> string) \<Rightarrow> string \<Rightarrow> go_error option" where
  "check_hooks_timeout q t =
     (if t = [] then None
      else
        (case parse_duration t of
           None \<Rightarrow> Some (Wrap (''invalid hooks_timeout '' @ q t @ '': '') (Msg (''time: invalid duration '' @ q t)) [])
         | Some d \<Rightarrow>
             if d \<le> 0 then Some (Msg (''hooks_timeout must be positive, got '' @ q t))
             else if d > max_hooks_timeout
             then Some (Msg (''hooks_timeout '' @ q t @ '' exceeds maximum allowed (1h0m0s)''))
             else None))"

definition validate_lifecycle_hooks :: "(string \<Rightarrow> string) \<Rightarrow> lifecycle_hooks \<Rightarrow> go_error option" where
  "validate_lifecycle_hooks q hooks =
     (case validate_hook_command ''onCreateCommand'' (hk_on_create hooks) (0, 0) of
        Inl e \<Rightarrow> Some e
      | Inr t1 \<Rightarrow>
     case validate_hook_command ''postCreate'' (hk_post_create hooks) t1 of
        Inl e \<Rightarrow> Some e
      | Inr t2 \<Rightarrow>
     case validate_hook_command ''postStart'' (hk_post_start hooks) t2 of
        Inl e \<Rightarrow> Some e
      | Inr (len, args) \<Rightarrow>
          if len > max_total_hook_length
          then Some (Msg (''total hook length '' @ show_nat len @ '' exceeds maximum '' @ show_nat max_total_hook_length))
          else if args > max_total_hook_args
          then Some (Msg (''total hook arguments '' @ show_nat args @ '' exceeds maximum '' @ show_nat max_total_hook_args))
          else check_hooks_timeout q (hk_timeout hooks))"

section \<open>The command\<close>

definition has_any_hooks :: "lifecycle_hooks \<Rightarrow> bool" where
  "has_any_hooks hooks \<longleftrightarrow>
     length (slice (hk_on_create hooks)) > 0 \<or> length (slice (hk_post_create hooks)) > 0 \<or>
     length (slice (hk_post_start hooks)) > 0"

definition has_init_hooks :: "lifecycle_hooks \<Rightarrow> bool" where
  "has_init_hooks hooks \<longleftrightarrow>
     length (slice (hk_on_create hooks)) > 0 \<or> length (slice (hk_post_create hooks)) > 0"

definition escape_shell_arg :: "string \<Rightarrow> string" where
  "escape_shell_arg arg = [CHR 0x27] @ replace_byte (CHR 0x27) [CHR 0x27, CHR 0x5C, CHR 0x27, CHR 0x27] arg @ [CHR 0x27]"

definition escape_shell_command :: "string list \<Rightarrow> string" where
  "escape_shell_command cmd = (if length cmd = 0 then [] else str_join '' '' (map escape_shell_arg cmd))"

definition wrap_command_with_hooks :: "string list \<Rightarrow> lifecycle_hooks \<Rightarrow> bool \<Rightarrow> string list" where
  "wrap_command_with_hooks main hooks run_init =
     (if \<not> has_any_hooks hooks then main
      else
        (let cmds = (if run_init then slice (hk_on_create hooks) @ slice (hk_post_create hooks) else []) @
                    slice (hk_post_start hooks)
         in if length cmds = 0 then main
            else
              (let main_escaped = escape_shell_command main;
                   shell =
                     (if hk_timeout hooks \<noteq> []
                      then (let t = (case parse_duration (hk_timeout hooks) of None \<Rightarrow> 0 | Some d \<Rightarrow> d);
                                joined = str_join '' && '' cmds
                            in ''timeout --kill-after=10s '' @ show_int (round_seconds t) @ ''s sh -c '' @
                               escape_shell_arg joined @ '' && '' @ main_escaped)
                      else str_join '' && '' (cmds @ [main_escaped]))
               in [''sh'', ''-c'', shell])))"

section \<open>What validation accepts\<close>

definition hook_arg_ok :: "string \<Rightarrow> bool" where
  "hook_arg_ok arg \<longleftrightarrow> arg \<noteq> [] \<and> CHR 0x00 \<notin> set arg \<and> length arg \<le> 4096"

definition hook_ok :: "string list option \<Rightarrow> bool" where
  "hook_ok cmd \<longleftrightarrow> cmd \<noteq> Some [] \<and> length (slice cmd) \<le> 100 \<and> (\<forall>arg \<in> set (slice cmd). hook_arg_ok arg)"

definition all_hook_args :: "lifecycle_hooks \<Rightarrow> string list" where
  "all_hook_args hooks = slice (hk_on_create hooks) @ slice (hk_post_create hooks) @ slice (hk_post_start hooks)"

lemma check_hook_args_Inr:
  "check_hook_args name i args n = Inr k \<longleftrightarrow>
     (\<forall>arg \<in> set args. hook_arg_ok arg) \<and> k = n + sum_list (map length args)"
proof (induction args arbitrary: i n)
  case (Cons a args)
  show ?case
    unfolding check_hook_args.simps using Cons.IH
    by (auto simp: hook_arg_ok_def hook_limits list_ex_iff)
qed auto

lemma validate_hook_command_Inr:
  "validate_hook_command name cmd (n, k) = Inr t \<longleftrightarrow>
     hook_ok cmd \<and> t = (n + sum_list (map length (slice cmd)), k + length (slice cmd))"
proof (cases cmd)
  case None
  then show ?thesis by (auto simp: validate_hook_command_def hook_ok_def)
next
  case (Some args)
  show ?thesis
  proof (cases "check_hook_args name 0 args n")
    case (Inl e)
    then have "\<not> (\<forall>arg \<in> set args. hook_arg_ok arg)"
      using check_hook_args_Inr [of name 0 args n] by auto
    with Inl Some show ?thesis
      by (auto simp: validate_hook_command_def hook_ok_def hook_limits)
  next
    case (Inr l)
    then have "\<forall>arg \<in> set args. hook_arg_ok arg" "l = n + sum_list (map length args)"
      using check_hook_args_Inr [of name 0 args n l] by auto
    with Inr Some show ?thesis
      by (auto simp: validate_hook_command_def hook_ok_def hook_limits)
  qed
qed

lemma check_hooks_timeout_None:
  "check_hooks_timeout q t = None \<longleftrightarrow> t = [] \<or> (\<exists>d. parse_duration t = Some d \<and> 0 < d \<and> d \<le> hour)"
  by (auto simp: check_hooks_timeout_def max_hooks_timeout_def split: option.split)

lemma lifecycle_validation_iff:
  "validate_lifecycle_hooks q hooks = None \<longleftrightarrow>
     hook_ok (hk_on_create hooks) \<and> hook_ok (hk_post_create hooks) \<and> hook_ok (hk_post_start hooks) \<and>
     sum_list (map length (all_hook_args hooks)) \<le> 65536 \<and> length (all_hook_args hooks) \<le> 200 \<and>
     (hk_timeout hooks = [] \<or> (\<exists>d. parse_duration (hk_timeout hooks) = Some d \<and> 0 < d \<and> d \<le> hour))"
proof -
  have case_none: "(case validate_hook_command name cmd (n, k) of Inl e \<Rightarrow> Some e | Inr t \<Rightarrow> f t) = None \<longleftrightarrow>
      hook_ok cmd \<and> f (n + sum_list (map length (slice cmd)), k + length (slice cmd)) = None"
    for name cmd n k and f :: "nat \<times> nat \<Rightarrow> go_error option"
  proof (cases "validate_hook_command name cmd (n, k)")
    case (Inl e)
    then have "\<not> hook_ok cmd"
      using validate_hook_command_Inr [of name cmd n k] by auto
    with Inl show ?thesis by simp
  next
    case (Inr t)
    then have "hook_ok cmd \<and> t = (n + sum_list (map length (slice cmd)), k + length (slice cmd))"
      using validate_hook_command_Inr [of name cmd n k t] by blast
    with Inr show ?thesis by simp
  qed
  show ?thesis
    unfolding validate_lifecycle_hooks_def case_none
    by (simp add: check_hooks_timeout_None all_hook_args_def hook_limits add.assoc not_less)
qed

text \<open>Hooks are accepted exactly when every configured hook has between one and 100 arguments, each of one to
  4096 bytes without a null byte, all of them together at most 200 and 65536 bytes, and the timeout, if
  given, is a positive duration of at most an hour.\<close>

lemma lifecycle_validation_exact:
  "validate_lifecycle_hooks q hooks = None \<longleftrightarrow>
     hook_ok (hk_on_create hooks) \<and> hook_ok (hk_post_create hooks) \<and> hook_ok (hk_post_start hooks) \<and>
     sum_list (map length (all_hook_args hooks)) \<le> 65536 \<and> length (all_hook_args hooks) \<le> 200 \<and>
     (hk_timeout hooks = [] \<or> (\<exists>d. parse_duration (hk_timeout hooks) = Some d \<and> 0 < d \<and> d \<le> hour))"
  by (rule lifecycle_validation_iff)

section \<open>What the shell runs\<close>

lemma escape_is_quote: "escape_shell_arg = sh_quote"
  by (simp add: escape_shell_arg_def sh_quote_def fun_eq_iff)

text \<open>The commands before do not change how a text is read.\<close>

lemma sh_step_cmds:
  "sh_step (st\<lparr>sh_cmds := cs @ sh_cmds st\<rparr>) c = map_option (\<lambda>s. s\<lparr>sh_cmds := cs @ sh_cmds s\<rparr>) (sh_step st c)"
  by (cases "sh_mode st"; cases "sh_cur st") (simp_all add: sh_step_def sh_add_def sh_open_def sh_flush_def)

lemma sh_run_cmds:
  "sh_run (st\<lparr>sh_cmds := cs @ sh_cmds st\<rparr>) s = map_option (\<lambda>x. x\<lparr>sh_cmds := cs @ sh_cmds x\<rparr>) (sh_run st s)"
proof (induction s arbitrary: st)
  case (Cons c s)
  show ?case
  proof (cases "sh_step st c")
    case None
    then show ?thesis by (simp add: sh_step_cmds)
  next
    case (Some st')
    then show ?thesis by (simp add: sh_step_cmds Cons.IH)
  qed
qed simp

text \<open>A hook that the shell reads as complete commands, with nothing left open at its end.\<close>

definition complete_hook :: "string \<Rightarrow> bool" where
  "complete_hook h \<longleftrightarrow>
     (case sh_run sh_start h of None \<Rightarrow> False | Some st \<Rightarrow> sh_mode st = Plain \<and> sh_words (sh_flush st) \<noteq> [])"

definition hook_commands :: "string \<Rightarrow> string list list" where
  "hook_commands h = (case sh_script h of None \<Rightarrow> [] | Some cs \<Rightarrow> cs)"

lemma sh_and:
  assumes "sh_mode st = Plain" and "sh_words (sh_flush st) \<noteq> []"
  shows "sh_run st '' && '' = Some (sh_start\<lparr>sh_cmds := sh_cmds st @ [sh_words (sh_flush st)]\<rparr>)"
proof -
  define f where "f = sh_flush st"
  have f: "sh_mode f = Plain" "sh_cur f = None" "sh_words f \<noteq> []" "sh_flush f = f" "sh_cmds f = sh_cmds st"
    using assms by (auto simp: f_def sh_flush_def split: option.split)
  let ?g = "f\<lparr>sh_words := [], sh_cmds := sh_cmds f @ [sh_words f]\<rparr>"
  have "sh_step st (CHR '' '') = Some f"
    using assms(1) by (simp add: sh_step_def f_def)
  moreover have "sh_step f (CHR ''&'') = Some (f\<lparr>sh_mode := Amp\<rparr>)"
    using f by (simp add: sh_step_def)
  moreover have "sh_step (f\<lparr>sh_mode := Amp\<rparr>) (CHR ''&'') = Some ?g"
    using f by (simp add: sh_step_def)
  moreover have "sh_step ?g (CHR '' '') = Some ?g"
    using f by (simp add: sh_step_def sh_flush_def)
  ultimately have "sh_run st '' && '' = Some ?g"
    by simp
  moreover have "?g = sh_start\<lparr>sh_cmds := sh_cmds st @ [sh_words f]\<rparr>"
    using f by (cases f) (simp add: sh_start_def)
  ultimately show ?thesis
    by (simp add: f_def)
qed

lemma hook_then:
  assumes "complete_hook h"
  shows "sh_run (sh_start\<lparr>sh_cmds := cs\<rparr>) (h @ '' && '') = Some (sh_start\<lparr>sh_cmds := cs @ hook_commands h\<rparr>)"
proof -
  obtain st where st: "sh_run sh_start h = Some st" "sh_mode st = Plain" "sh_words (sh_flush st) \<noteq> []"
    using assms by (auto simp: complete_hook_def split: option.splits)
  let ?st = "st\<lparr>sh_cmds := cs @ sh_cmds st\<rparr>"
  have f: "sh_words (sh_flush ?st) = sh_words (sh_flush st)" "sh_cmds (sh_flush st) = sh_cmds st"
    by (simp_all add: sh_flush_def split: option.split)
  have "sh_run (sh_start\<lparr>sh_cmds := cs\<rparr>) h = Some ?st"
    using sh_run_cmds [of cs sh_start h] st(1) by (simp add: sh_start_def)
  then have "sh_run (sh_start\<lparr>sh_cmds := cs\<rparr>) (h @ '' && '') = sh_run ?st '' && ''"
    by (rule sh_run_then)
  also have "\<dots> = Some (sh_start\<lparr>sh_cmds := sh_cmds ?st @ [sh_words (sh_flush ?st)]\<rparr>)"
    by (rule sh_and) (use st f in simp_all)
  finally show ?thesis
    using st f by (simp add: hook_commands_def sh_script_def sh_finish_def Let_def)
qed

lemma hooks_then:
  "\<forall>h \<in> set hs. complete_hook h \<Longrightarrow>
   sh_run (sh_start\<lparr>sh_cmds := cs\<rparr>) (str_join '' && '' (hs @ [x])) =
   sh_run (sh_start\<lparr>sh_cmds := cs @ concat (map hook_commands hs)\<rparr>) x"
proof (induction hs arbitrary: cs)
  case (Cons h hs)
  obtain y ys where y: "hs @ [x] = y # ys"
    by (cases "hs @ [x]") auto
  have j: "str_join '' && '' ((h # hs) @ [x]) = (h @ '' && '') @ str_join '' && '' (hs @ [x])"
    by (simp add: y)
  have "sh_run (sh_start\<lparr>sh_cmds := cs\<rparr>) ((h @ '' && '') @ str_join '' && '' (hs @ [x])) =
      sh_run (sh_start\<lparr>sh_cmds := cs @ hook_commands h\<rparr>) (str_join '' && '' (hs @ [x]))"
    by (rule sh_run_then, rule hook_then) (use Cons.prems in simp)
  also have "\<dots> = sh_run (sh_start\<lparr>sh_cmds := (cs @ hook_commands h) @ concat (map hook_commands hs)\<rparr>) x"
    by (rule Cons.IH) (use Cons.prems in auto)
  finally show ?case
    unfolding j by simp
qed simp

lemma main_read:
  assumes "main \<noteq> []"
  shows "\<exists>st. sh_run (sh_start\<lparr>sh_cmds := cs\<rparr>) (escape_shell_command main) = Some st \<and> sh_finish st = Some (cs @ [main])"
proof -
  have "sh_run (sh_start\<lparr>sh_cmds := cs\<rparr>) (str_join '' '' (map sh_quote main)) =
      Some ((sh_start\<lparr>sh_cmds := cs\<rparr>)\<lparr>sh_words := sh_words (sh_start\<lparr>sh_cmds := cs\<rparr>) @ butlast main, sh_cur := Some (last main)\<rparr>)"
    by (rule sh_run_quotes) (use assms in \<open>simp_all add: sh_start_def\<close>)
  then show ?thesis
    using assms by (simp add: escape_shell_command_def escape_is_quote sh_finish_def sh_flush_def sh_start_def Let_def)
qed

lemma sh_run_plain:
  "sh_mode st = Plain \<Longrightarrow> sh_cur st \<noteq> None \<Longrightarrow> \<forall>c \<in> set w. is_digit c \<or> c = CHR ''-'' \<Longrightarrow>
   sh_run st w = Some (st\<lparr>sh_cur := Some (the (sh_cur st) @ w)\<rparr>)"
proof (induction w arbitrary: st)
  case (Cons c w)
  have "\<not> sh_special c \<and> c \<noteq> CHR '' '' \<and> c \<noteq> CHR 0x09 \<and> c \<noteq> CHR 0x27 \<and> c \<noteq> CHR 0x5C \<and> c \<noteq> CHR ''&''"
  proof (cases "is_digit c")
    case True
    then have "48 \<le> (of_char c :: nat) \<and> of_char c \<le> (57 :: nat)" by (simp add: is_digit_def Let_def)
    then show ?thesis by (auto simp: sh_special_def)
  next
    case False
    with Cons.prems(3) have "c = CHR ''-''" by simp
    then show ?thesis by (simp add: sh_special_def)
  qed
  with Cons.prems have "sh_step st c = Some (st\<lparr>sh_cur := Some (the (sh_cur st) @ [c])\<rparr>)"
    by (auto simp: sh_step_def sh_add_def)
  with Cons show ?case by simp
qed auto

lemma show_int_chars: "\<forall>c \<in> set (show_int n). is_digit c \<or> c = CHR ''-''"
  using show_nat_digits by (auto simp: show_int_def)

lemma show_int_starts: "\<exists>c w. show_int n = c # w \<and> (is_digit c \<or> c = CHR ''-'')"
  using show_int_chars [of n] by (cases "show_int n") (auto simp: show_int_def split: if_splits)

text \<open>The words of the timeout command, up to the quoted hooks.\<close>

lemma timeout_read:
  "sh_run sh_start (''timeout --kill-after=10s '' @ show_int n @ ''s sh -c '') =
   Some (sh_start\<lparr>sh_words := [''timeout'', ''--kill-after=10s'', show_int n @ ''s'', ''sh'', ''-c'']\<rparr>)"
proof -
  let ?a = "sh_start\<lparr>sh_words := [''timeout'', ''--kill-after=10s'']\<rparr>"
  obtain c w where c: "show_int n = c # w" "is_digit c \<or> c = CHR ''-''"
    using show_int_starts by blast
  have a: "sh_run sh_start ''timeout --kill-after=10s '' = Some ?a"
    by code_simp
  have "\<not> sh_special c \<and> c \<noteq> CHR '' '' \<and> c \<noteq> CHR 0x09 \<and> c \<noteq> CHR 0x27 \<and> c \<noteq> CHR 0x5C \<and> c \<noteq> CHR ''&'' \<and> c \<noteq> CHR ''#''"
    using c(2) by (auto simp: sh_special_def is_digit_def)
  then have "sh_step ?a c = Some (?a\<lparr>sh_cur := Some [c]\<rparr>)"
    by (simp add: sh_step_def sh_add_def sh_start_def)
  moreover have "sh_run (?a\<lparr>sh_cur := Some [c]\<rparr>) w = Some ((?a\<lparr>sh_cur := Some [c]\<rparr>)\<lparr>sh_cur := Some (the (sh_cur (?a\<lparr>sh_cur := Some [c]\<rparr>)) @ w)\<rparr>)"
    by (rule sh_run_plain) (use show_int_chars [of n] c(1) in \<open>auto simp: sh_start_def\<close>)
  ultimately have b: "sh_run ?a (show_int n) = Some (?a\<lparr>sh_cur := Some (show_int n)\<rparr>)"
    by (simp add: c(1))
  have "sh_run (?a\<lparr>sh_cur := Some v\<rparr>) ''s sh -c '' =
      Some (sh_start\<lparr>sh_words := [''timeout'', ''--kill-after=10s'', v @ ''s'', ''sh'', ''-c'']\<rparr>)" for v
    by (simp add: sh_step_def sh_add_def sh_flush_def sh_start_def sh_special_def)
  with a b show ?thesis
    by (simp only: sh_run_append option.case)
qed

definition selected_hooks :: "lifecycle_hooks \<Rightarrow> bool \<Rightarrow> string list" where
  "selected_hooks hooks run_init =
     (if run_init then slice (hk_on_create hooks) @ slice (hk_post_create hooks) else []) @ slice (hk_post_start hooks)"

lemma wrap_shape:
  "selected_hooks hooks run_init \<noteq> [] \<Longrightarrow>
   wrap_command_with_hooks main hooks run_init =
     [''sh'', ''-c'',
      if hk_timeout hooks \<noteq> []
      then (''timeout --kill-after=10s '' @
              show_int (round_seconds (case parse_duration (hk_timeout hooks) of None \<Rightarrow> 0 | Some d \<Rightarrow> d)) @ ''s sh -c '') @
           sh_quote (str_join '' && '' (selected_hooks hooks run_init)) @ '' && '' @ escape_shell_command main
      else str_join '' && '' (selected_hooks hooks run_init @ [escape_shell_command main])]"
  by (auto simp: wrap_command_with_hooks_def selected_hooks_def has_any_hooks_def escape_is_quote Let_def)


definition sample_hooks :: "string \<Rightarrow> string \<Rightarrow> lifecycle_hooks" where
  "sample_hooks hook t = \<lparr>hk_on_create = None, hk_post_create = None, hk_post_start = Some [hook], hk_timeout = t\<rparr>"


text \<open>Two validated hook settings that defeat their purpose. A hook that ends in a comment and has no
  timeout swallows the main command: the shell runs the hook alone. A timeout of at most half a second is
  printed as \<^verbatim>\<open>0s\<close>, which \<^verbatim>\<open>timeout\<close> takes for no limit.\<close>

lemma hook_gaps:
  "validate_lifecycle_hooks q (sample_hooks ''npm ci # deps'' []) = None \<and>
   (\<exists>script. wrap_command_with_hooks [''claude'', ''-p'', ''hi''] (sample_hooks ''npm ci # deps'' []) False = [''sh'', ''-c'', script] \<and>
      sh_script script = Some [[''npm'', ''ci'']]) \<and>
   validate_lifecycle_hooks q (sample_hooks ''npm ci'' ''500ms'') = None \<and>
   (\<exists>script. wrap_command_with_hooks [''claude''] (sample_hooks ''npm ci'' ''500ms'') False = [''sh'', ''-c'', script] \<and>
      sh_script script = Some [[''timeout'', ''--kill-after=10s'', ''0s'', ''sh'', ''-c'', ''npm ci''], [''claude'']])"
proof -
  have v: "hook_ok None" by (simp add: hook_ok_def)
  have h: "hook_ok (Some [''npm ci # deps''])" "hook_ok (Some [''npm ci''])"
    by (simp_all add: hook_ok_def hook_arg_ok_def)
  have i: "duration_item ''500ms'' = Some (500000000, [])"
    by (simp add: duration_item_def unit_char_def is_digit_def digit_val_def bound63_def unit_map_def)
  have d: "parse_duration ''500ms'' = Some 500000000"
    by (simp add: parse_duration_def duration_items.simps i bound63_def)
  have a: "validate_lifecycle_hooks q (sample_hooks ''npm ci # deps'' []) = None"
    unfolding lifecycle_validation_iff by (simp add: sample_hooks_def all_hook_args_def v h)
  have b: "validate_lifecycle_hooks q (sample_hooks ''npm ci'' ''500ms'') = None"
    unfolding lifecycle_validation_iff by (simp add: sample_hooks_def all_hook_args_def v h d time_units)
  have c: "wrap_command_with_hooks [''claude'', ''-p'', ''hi''] (sample_hooks ''npm ci # deps'' []) False =
      [''sh'', ''-c'', ''npm ci # deps && '' @ escape_shell_command [''claude'', ''-p'', ''hi'']]"
    by code_simp
  have e: "sh_script (''npm ci # deps && '' @ escape_shell_command [''claude'', ''-p'', ''hi'']) = Some [[''npm'', ''ci'']]"
    by code_simp
  have z: "show_int (round_seconds 500000000) = ''0''"
  proof -
    have "round_seconds 500000000 = 0" by (simp add: round_seconds_def second_def)
    moreover have "show_int 0 = ''0''" by code_simp
    ultimately show ?thesis by simp
  qed
  have s: "selected_hooks (sample_hooks ''npm ci'' t) False = [''npm ci'']" "hk_timeout (sample_hooks ''npm ci'' t) = t" for t
    by (simp_all add: selected_hooks_def sample_hooks_def)
  have m: "escape_shell_command [''claude''] = sh_quote ''claude''"
    by (simp add: escape_shell_command_def escape_is_quote)
  have g: "wrap_command_with_hooks [''claude''] (sample_hooks ''npm ci'' ''500ms'') False =
      [''sh'', ''-c'', ''timeout --kill-after=10s 0s sh -c '' @ sh_quote ''npm ci'' @ '' && '' @ sh_quote ''claude'']"
    using wrap_shape [of "sample_hooks ''npm ci'' ''500ms''" False "[''claude'']"] unfolding s d option.case z m by simp
  have k: "sh_script (''timeout --kill-after=10s 0s sh -c '' @ sh_quote ''npm ci'' @ '' && '' @ sh_quote ''claude'') =
      Some [[''timeout'', ''--kill-after=10s'', ''0s'', ''sh'', ''-c'', ''npm ci''], [''claude'']]"
    by code_simp
  have x: "\<exists>script. wrap_command_with_hooks [''claude'', ''-p'', ''hi''] (sample_hooks ''npm ci # deps'' []) False =
      [''sh'', ''-c'', script] \<and> sh_script script = Some [[''npm'', ''ci'']]"
    unfolding c by (rule exI, rule conjI, rule refl, rule e)
  have y: "\<exists>script. wrap_command_with_hooks [''claude''] (sample_hooks ''npm ci'' ''500ms'') False = [''sh'', ''-c'', script] \<and>
      sh_script script = Some [[''timeout'', ''--kill-after=10s'', ''0s'', ''sh'', ''-c'', ''npm ci''], [''claude'']]"
    unfolding g by (rule exI, rule conjI, rule refl, rule k)
  show ?thesis
    by (rule conjI, rule a, rule conjI, rule x, rule conjI, rule b, rule y)
qed

end
