(* ===== verification/Volumes.thy ===== *)
theory Volumes
  imports Workspace Lifecycle
begin

text \<open>
  What the runner checks before it mounts or runs anything: volumes, working directory and secrets, of
  \<^verbatim>\<open>internal/runner/runner.go\<close> and \<^verbatim>\<open>internal/runner/validation.go\<close>. A Go map is the list of its entries in
  iteration order.
\<close>

section \<open>Volume strings\<close>

record volume_parts =
  vp_host :: string
  vp_container :: string
  vp_options :: string

definition is_drive :: "string \<Rightarrow> bool" where
  "is_drive s \<longleftrightarrow> length s = 1 \<and> (let c = of_char (hd (to_upper s)) :: nat in 65 \<le> c \<and> c \<le> 90)"

definition parse_volume_components :: "string \<Rightarrow> volume_parts result" where
  "parse_volume_components volume =
     (let parts = split_on (CHR '':'') volume
      in if length parts \<ge> 2 \<and> is_drive (parts ! 0)
         then (if length parts < 3 then Inl (Msg ''invalid volume format, expected host:container'')
               else Inr \<lparr>vp_host = parts ! 0 @ '':'' @ parts ! 1, vp_container = parts ! 2,
                         vp_options = (if length parts \<ge> 4 then parts ! 3 else [])\<rparr>)
         else if length parts < 2 then Inl (Msg ''invalid volume format, expected host:container[:options]'')
         else Inr \<lparr>vp_host = parts ! 0, vp_container = parts ! 1,
                   vp_options = (if length parts \<ge> 3 then parts ! 2 else [])\<rparr>)"

section \<open>Container paths\<close>

definition max_volume_path_length :: nat where
  "max_volume_path_length = 4096"

definition blocked_container_paths :: "string list" where
  "blocked_container_paths =
     [''/home/user/.claude'', ''/home/user/.ssh'', ''/home/user/.gnupg'', ''/home/user/.aws'', ''/home/user/.docker'',
      ''/home/user/.kube'', ''/home/user/.config'', ''/home/user/.local'', ''/home/user/.netrc'',
      ''/home/user/.git-credentials'', ''/home/user/.password-store'', ''/home/user/.bashrc'',
      ''/home/user/.bash_profile'', ''/home/user/.profile'', ''/home/user/.zshrc'', ''/etc'', ''/root'', ''/bin'', ''/sbin'',
      ''/usr/bin'', ''/usr/sbin'', ''/usr/local/bin'', ''/lib'', ''/lib64'', ''/var/run'', ''/run'', ''/proc'', ''/sys'', ''/dev'']"

text \<open>\<^verbatim>\<open>filepath.Dir\<close>: the cleaned path up to and with the last slash.\<close>

definition path_dir :: "string \<Rightarrow> string" where
  "path_dir p = path_clean (rev (dropWhile (\<lambda>c. c \<noteq> slash) (rev p)))"

text \<open>
  The loop from a path to its parents, which for a relative path would never end: whether it meets a
  blocked path, if it ends.
\<close>

partial_function (option) meets_blocked :: "string \<Rightarrow> bool option" where
  "meets_blocked p =
     (if p \<noteq> [] \<and> p \<noteq> ''/''
      then (if p \<in> set blocked_container_paths then Some True else meets_blocked (path_dir p))
      else Some False)"

declare meets_blocked.simps [code]

text \<open>The outer option is whether the call returns at all.\<close>

definition validate_container_path :: "(string \<Rightarrow> string) \<Rightarrow> string \<Rightarrow> go_error option option" where
  "validate_container_path q p =
     (if p = [] then Some (Some (Msg ''container path cannot be empty''))
      else if length p > max_volume_path_length
      then Some (Some (Msg (''container path too long (max '' @ show_nat max_volume_path_length @ '' characters)'')))
      else if \<not> has_prefix p ''/'' then Some (Some (Msg ''container path must be absolute''))
      else
        (case meets_blocked (trim_suffix p ''/'') of
           None \<Rightarrow> None
         | Some True \<Rightarrow> Some (Some (Msg (''container path '' @ q p @ '' is blocked for security reasons'')))
         | Some False \<Rightarrow> Some None))"

section \<open>Options, working directory, secrets\<close>

definition allowed_mount_options :: "string list" where
  "allowed_mount_options =
     [''ro'', ''rw'', ''z'', ''Z'', ''noexec'', ''nosuid'', ''nodev'', ''rslave'', ''rprivate'', ''rshared'', ''slave'',
      ''private'', ''shared'', ''nocopy'', ''copy'', ''U'']"

fun check_options :: "(string \<Rightarrow> string) \<Rightarrow> string list \<Rightarrow> go_error option" where
  "check_options q [] = None"
| "check_options q (opt # opts) =
     (let o1 = trim_space opt
      in if o1 = [] then check_options q opts
         else if o1 \<notin> set allowed_mount_options then Some (Msg (''mount option '' @ q o1 @ '' is not allowed''))
         else check_options q opts)"

definition validate_mount_options :: "(string \<Rightarrow> string) \<Rightarrow> string \<Rightarrow> go_error option" where
  "validate_mount_options q options =
     (if options = [] then None else check_options q (split_on (CHR '','') options))"

definition is_alnum :: "char \<Rightarrow> bool" where
  "is_alnum c \<longleftrightarrow> (let n = of_char c :: nat in (97 \<le> n \<and> n \<le> 122) \<or> (65 \<le> n \<and> n \<le> 90) \<or> (48 \<le> n \<and> n \<le> 57))"

definition workdir_char :: "char \<Rightarrow> bool" where
  "workdir_char c \<longleftrightarrow> is_alnum c \<or> c = CHR ''/'' \<or> c = CHR ''_'' \<or> c = CHR ''.'' \<or> c = CHR ''-''"

definition max_workdir_length :: nat where
  "max_workdir_length = 4096"

definition validate_workdir :: "string \<Rightarrow> go_error option" where
  "validate_workdir w =
     (if w = [] then None
      else if length w > max_workdir_length
      then Some (Msg (''workdir path too long (max '' @ show_nat max_workdir_length @ '' characters)''))
      else if \<not> has_prefix w ''/'' then Some (Msg ''workdir must be an absolute path starting with /'')
      else if \<not> (w \<noteq> [] \<and> list_all workdir_char w)
      then Some (Msg ''workdir contains invalid characters (only alphanumeric, /, _, ., - allowed)'')
      else if str_contains w ''..'' then Some (Msg ''workdir cannot contain path traversal (..) sequences'')
      else None)"

definition env_name_ok :: "string \<Rightarrow> bool" where
  "env_name_ok n \<longleftrightarrow>
     (case n of [] \<Rightarrow> False
      | c # cs \<Rightarrow> (is_alnum c \<and> \<not> is_digit c \<or> c = CHR ''_'') \<and> list_all (\<lambda>x. is_alnum x \<or> x = CHR ''_'') cs)"

definition max_secrets_env :: nat where
  "max_secrets_env = 50"

definition dangerous_env_vars :: "string list" where
  "dangerous_env_vars = [''LD_PRELOAD'', ''LD_LIBRARY_PATH'']"

fun check_secrets :: "(string \<Rightarrow> string) \<Rightarrow> (string \<times> string) list \<Rightarrow> go_error option" where
  "check_secrets q [] = None"
| "check_secrets q ((v, s) # es) =
     (if \<not> env_name_ok v
      then Some (Msg (''invalid environment variable name '' @ q v @
                      '': must start with letter or underscore, contain only alphanumeric and underscore''))
      else if v \<in> set dangerous_env_vars
      then Some (Msg (''environment variable '' @ q v @ '' is not allowed for security reasons''))
      else if s = [] then Some (Msg (''secret name for environment variable '' @ q v @ '' cannot be empty''))
      else if length s > 253 then Some (Msg (''secret name '' @ q s @ '' exceeds maximum length of 253 characters''))
      else check_secrets q es)"

definition validate_secrets_env :: "(string \<Rightarrow> string) \<Rightarrow> (string \<times> string) list \<Rightarrow> go_error option" where
  "validate_secrets_env q m =
     (if length m > max_secrets_env
      then Some (Msg (''too many secrets requested ('' @ show_nat (length m) @ ''), maximum is '' @ show_nat max_secrets_env))
      else check_secrets q m)"

section \<open>Volumes\<close>

fun validate_volumes ::
    "(string \<Rightarrow> string) \<Rightarrow> (string \<Rightarrow> string result) \<Rightarrow> string list \<Rightarrow> go_error option option" where
  "validate_volumes q host_ok [] = Some None"
| "validate_volumes q host_ok (vol # vols) =
     (case parse_volume_components vol of
        Inl e \<Rightarrow> Some (Some (Wrap (''invalid volume format '' @ q vol @ '': '') e []))
      | Inr p \<Rightarrow>
     case host_ok (vp_host p) of
        Inl e \<Rightarrow> Some (Some (Wrap ''volume host path not allowed: '' e []))
      | Inr _ \<Rightarrow>
     case validate_container_path q (vp_container p) of
        None \<Rightarrow> None
      | Some (Some e) \<Rightarrow> Some (Some (Wrap ''volume container path invalid: '' e []))
      | Some None \<Rightarrow>
     case validate_mount_options q (vp_options p) of
        Some e \<Rightarrow> Some (Some (Wrap ''volume mount options invalid: '' e []))
      | None \<Rightarrow> validate_volumes q host_ok vols)"

fun ensure_volume_host_dirs ::
    "(string \<Rightarrow> string) \<Rightarrow> sys \<Rightarrow> string list \<Rightarrow> fsys \<Rightarrow> go_error option \<times> fsys" where
  "ensure_volume_host_dirs q sy [] m = (None, m)"
| "ensure_volume_host_dirs q sy (vol # vols) m =
     (case parse_volume_components vol of
        Inl e \<Rightarrow> ensure_volume_host_dirs q sy vols m
      | Inr p \<Rightarrow>
          if os_stat sy m (locate sy (vp_host p)) = StatMissing
          then
            (case mkdir_all sy 493 (locate sy (vp_host p)) m of
               (Some e, m') \<Rightarrow> (Some (Wrap (''failed to create host directory '' @ q (vp_host p) @ '': '') e []), m')
             | (None, m') \<Rightarrow> ensure_volume_host_dirs q sy vols m')
          else ensure_volume_host_dirs q sy vols m)"

section \<open>The working directory's command\<close>

definition wrap_command_with_workdir :: "string \<Rightarrow> string list \<Rightarrow> bool \<Rightarrow> string list" where
  "wrap_command_with_workdir workdir cmd auto_create =
     (if workdir = [] \<or> \<not> auto_create then cmd
      else [''sh'', ''-c'',
            ''mkdir -p '' @ escape_shell_arg workdir @ '' && exec '' @ str_join '' '' (map escape_shell_arg cmd)])"

section \<open>The loop over the parents\<close>

lemma comps_path_snoc:
  "comps_path (ds @ [c]) = (if ds = [] then comps_path [] @ c else comps_path ds @ slash # c)"
  by (simp add: comps_path_def join_snoc)

lemma comps_path_abs [simp]: "is_abs (comps_path cs)"
  by (simp add: comps_path_def is_abs_def)

lemma comps_ok_snoc: "comps_ok (ds @ [c]) \<longleftrightarrow> comps_ok ds \<and> plain_comp c \<and> slash \<notin> set c"
  by (auto simp: comps_ok_def)

lemma comps_path_root: "comps_ok cs \<Longrightarrow> comps_path cs = ''/'' \<longleftrightarrow> cs = []"
  using comps_path_inj [of cs "[]"] by (auto simp: comps_ok_def comps_path_def)

lemma drop_last_comp: "slash \<notin> set c \<Longrightarrow> dropWhile (\<lambda>x. x \<noteq> slash) (rev (a @ slash # c)) = slash # rev a"
proof -
  assume c: "slash \<notin> set c"
  have "\<forall>x \<in> set (rev c). x \<noteq> slash" using c by auto
  then have "dropWhile (\<lambda>x. x \<noteq> slash) (rev c @ slash # rev a) = dropWhile (\<lambda>x. x \<noteq> slash) (slash # rev a)"
    by (rule dropWhile_append2 [OF bspec])
  then show ?thesis by simp
qed

lemma path_clean_comps: "comps_ok cs \<Longrightarrow> path_clean (comps_path cs) = comps_path cs"
  unfolding comps_path_def comps_ok_def by (rule path_clean_fixed)

lemma path_clean_slash: "is_abs p \<Longrightarrow> path_clean (p @ ''/'') = path_clean p"
  using is_abs_append [of p "''/''"]
  by (simp add: path_clean_def split_on_app clean_comps_append Let_def)

lemma path_dir_comps:
  assumes "comps_ok cs"
  shows "path_dir (comps_path cs) = comps_path (butlast cs)"
proof (cases cs rule: rev_cases)
  case Nil
  then show ?thesis
    by (simp add: path_dir_def comps_path_def path_clean_def is_abs_def)
next
  case (snoc ds c)
  then have c: "slash \<notin> set c" and d: "comps_ok ds" using assms by (simp_all add: comps_ok_snoc)
  show ?thesis
  proof (cases "ds = []")
    case True
    have "path_dir (comps_path cs) = path_clean (rev (slash # rev []))"
      using drop_last_comp [OF c, of "[]"] True snoc by (simp add: path_dir_def comps_path_def)
    with True snoc show ?thesis
      by (simp add: comps_path_def path_clean_def is_abs_def)
  next
    case False
    then have "comps_path cs = comps_path ds @ slash # c"
      using snoc by (simp add: comps_path_snoc)
    then have "path_dir (comps_path cs) = path_clean (comps_path ds @ ''/'')"
      using drop_last_comp [OF c, of "comps_path ds"] by (simp add: path_dir_def)
    with snoc d show ?thesis
      by (simp add: path_clean_slash path_clean_comps)
  qed
qed

definition blocked_above :: "string list \<Rightarrow> bool" where
  "blocked_above cs \<longleftrightarrow> (\<exists>b \<in> set blocked_container_paths. path_of_comps b \<noteq> [] \<and> prefix (path_of_comps b) cs)"

text \<open>The blocked paths are themselves in canonical form.\<close>

lemma blocked_canonical: "b \<in> set blocked_container_paths \<Longrightarrow> is_abs b \<and> path_clean b = b \<and> path_of_comps b \<noteq> []"
proof -
  have "list_all (\<lambda>b. is_abs b \<and> path_clean b = b \<and> path_of_comps b \<noteq> []) blocked_container_paths"
    by code_simp
  then show "b \<in> set blocked_container_paths \<Longrightarrow> is_abs b \<and> path_clean b = b \<and> path_of_comps b \<noteq> []"
    by (simp add: list_all_iff)
qed

lemma blocked_comps:
  assumes "comps_ok cs"
  shows "comps_path cs \<in> set blocked_container_paths \<longleftrightarrow>
    (\<exists>b \<in> set blocked_container_paths. path_of_comps b = cs)"
proof
  assume b: "comps_path cs \<in> set blocked_container_paths"
  have "comps_path (path_of_comps (comps_path cs)) = comps_path cs"
    using clean_is_comps(1) [of "comps_path cs"] path_clean_comps [OF assms] by simp
  then have "path_of_comps (comps_path cs) = cs"
    using comps_path_inj [OF _ assms] clean_is_comps(2) [of "comps_path cs"] by simp
  with b show "\<exists>b \<in> set blocked_container_paths. path_of_comps b = cs" by blast
next
  assume "\<exists>b \<in> set blocked_container_paths. path_of_comps b = cs"
  then obtain b where b: "b \<in> set blocked_container_paths" "path_of_comps b = cs" by blast
  then have "b = comps_path cs"
    using blocked_canonical [OF b(1)] clean_is_comps(1) [of b] by simp
  with b show "comps_path cs \<in> set blocked_container_paths" by simp
qed

lemma meets_blocked_comps: "comps_ok cs \<Longrightarrow> meets_blocked (comps_path cs) = Some (blocked_above cs)"
proof (induction cs rule: rev_induct)
  case Nil
  have "comps_path [] = ''/''" by (simp add: comps_path_def)
  then show ?case
    by (subst meets_blocked.simps) (auto simp: blocked_above_def)
next
  case (snoc c cs)
  have ne: "comps_path (cs @ [c]) \<noteq> ''/''" "comps_path (cs @ [c]) \<noteq> []"
    using comps_path_root [OF snoc.prems] by (simp_all add: comps_path_def)
  have split: "blocked_above (cs @ [c]) \<longleftrightarrow>
      comps_path (cs @ [c]) \<in> set blocked_container_paths \<or> blocked_above cs"
    unfolding blocked_above_def blocked_comps [OF snoc.prems] using blocked_canonical by auto
  have d: "path_dir (comps_path (cs @ [c])) = comps_path cs"
    using path_dir_comps [OF snoc.prems] by simp
  have "meets_blocked (comps_path cs) = Some (blocked_above cs)"
    using snoc by (simp add: comps_ok_snoc)
  then show ?case
    by (subst meets_blocked.simps) (simp add: ne split d)
qed

lemma path_dir_abs: "is_abs p \<Longrightarrow> \<exists>cs. comps_ok cs \<and> path_dir p = comps_path cs"
proof -
  assume "is_abs p"
  then obtain r where p: "p = slash # r" by (cases p) (auto simp: is_abs_def)
  have "\<exists>t. rev (dropWhile (\<lambda>c. c \<noteq> slash) (rev (slash # r))) = slash # t"
  proof (cases "slash \<in> set r")
    case True
    then obtain a b where r: "r = a @ slash # b" "slash \<notin> set b"
      by (metis split_list_last)
    then show ?thesis
      using drop_last_comp [OF r(2), of "slash # a"] by simp
  next
    case False
    then show ?thesis
      using drop_last_comp [OF False, of "[]"] by simp
  qed
  then obtain t where "path_dir p = path_clean (slash # t)"
    by (auto simp: path_dir_def p)
  moreover have "is_abs (slash # t)" by (simp add: is_abs_def)
  ultimately show ?thesis
    using clean_is_comps [of "slash # t"] by auto
qed

lemma meets_blocked_abs:
  assumes "is_abs t"
  shows "meets_blocked t =
    Some (t \<noteq> ''/'' \<and> (t \<in> set blocked_container_paths \<or> blocked_above (path_of_comps (path_dir t))))"
proof -
  obtain cs where cs: "comps_ok cs" "path_dir t = comps_path cs"
    using path_dir_abs [OF assms] by blast
  have "path_of_comps (path_dir t) = cs"
    using comps_path_inj [OF _ cs(1)] clean_is_comps [of "path_dir t"] cs path_clean_comps [OF cs(1)] by simp
  moreover have "meets_blocked (path_dir t) = Some (blocked_above cs)"
    using meets_blocked_comps [OF cs(1)] cs(2) by simp
  moreover have "t \<noteq> []" using assms by (auto simp: is_abs_def)
  ultimately show ?thesis
    by (subst meets_blocked.simps) simp
qed

lemma trim_slash_cases:
  assumes "is_abs p"
  shows "trim_suffix p ''/'' = [] \<or> is_abs (trim_suffix p ''/'')"
proof (cases "suffix ''/'' p")
  case True
  then obtain r where p: "p = r @ ''/''" by (auto simp: suffix_def)
  then have "trim_suffix p ''/'' = r" by (simp only: trim_suffix_append)
  with p assms show ?thesis by (cases r) (simp_all add: is_abs_def)
next
  case False
  with assms show ?thesis by (simp add: trim_suffix_def)
qed

lemma has_prefix_slash: "has_prefix p ''/'' \<longleftrightarrow> is_abs p"
  by (cases p) (auto simp: is_abs_def)


text \<open>For a path in canonical form the check is the containment test it is meant to be: the path is
  accepted iff no blocked path is the path itself or a directory above it.
\<close>

lemma container_path_canonical:
  assumes "comps_ok cs" and "length (comps_path cs) \<le> 4096"
  shows "validate_container_path q (comps_path cs) = Some None \<longleftrightarrow>
    (\<forall>b. \<not> (b \<in> set blocked_container_paths \<and> prefix (path_of_comps b) cs))"
proof -
  let ?p = "comps_path cs"
  have ne: "?p \<noteq> []" by (simp add: comps_path_def)
  have t: "meets_blocked (trim_suffix ?p ''/'') = Some (blocked_above cs)"
  proof (cases cs rule: rev_cases)
    case Nil
    have b: "\<not> blocked_above []" by (auto simp: blocked_above_def)
    have "trim_suffix (comps_path []) ''/'' = []" by (simp add: comps_path_def trim_suffix_def)
    with Nil b show ?thesis by (simp add: meets_blocked.simps)
  next
    case (snoc ds c)
    then have c: "c \<noteq> []" "slash \<notin> set c"
      using assms(1) by (simp_all add: comps_ok_snoc plain_comp_def)
    have "last ?p = last c"
      using snoc c by (simp add: comps_path_snoc)
    moreover have "last c \<noteq> slash" using c(2) last_in_set [OF c(1)] by metis
    ultimately have "last ?p \<noteq> slash" by simp
    then have "\<not> suffix ''/'' ?p" by (auto simp: suffix_def)
    then have "trim_suffix ?p ''/'' = ?p" by (simp add: trim_suffix_def)
    then show ?thesis using meets_blocked_comps [OF assms(1)] by simp
  qed
  have "validate_container_path q ?p = Some None \<longleftrightarrow> \<not> blocked_above cs"
    using assms(2) ne unfolding validate_container_path_def has_prefix_slash t max_volume_path_length_def
    by (simp split: bool.split)
  moreover have "blocked_above cs \<longleftrightarrow>
      (\<exists>b. b \<in> set blocked_container_paths \<and> prefix (path_of_comps b) cs)"
    unfolding blocked_above_def using blocked_canonical by blast
  ultimately show ?thesis by blast
qed

lemma container_path_canonical_witness:
  "validate_container_path id (comps_path [''etc'', ''x'']) \<noteq> Some None \<and>
   validate_container_path id (comps_path [''workspace'']) = Some None"
proof -
  have b: "''/etc'' \<in> set blocked_container_paths \<and> prefix (path_of_comps ''/etc'') [''etc'', ''x'']"
    by code_simp
  have "comps_ok [''etc'', ''x'']" "length (comps_path [''etc'', ''x'']) \<le> 4096"
    by code_simp+
  note container_path_canonical [OF this, where q = id]
  moreover have "validate_container_path id (comps_path [''workspace'']) = Some None"
    by code_simp
  ultimately show ?thesis using b by (simp only:) blast
qed

text \<open>What the check lets through because it never cleans its argument and only looks upwards: a path
  that climbs into a blocked directory, a doubled leading slash, and the directories that contain blocked ones,
  while the blocked directory itself is refused.
\<close>

lemma container_path_gaps:
  "validate_container_path q ''/tmp/../etc'' = Some None \<and>
   validate_container_path q ''//etc'' = Some None \<and>
   validate_container_path q ''/usr'' = Some None \<and>
   validate_container_path q ''/home/user'' = Some None \<and>
   validate_container_path q ''/etc/'' =
     Some (Some (Msg (''container path '' @ q ''/etc/'' @ '' is blocked for security reasons'')))"
  by (intro conjI; code_simp)

end
