(* ===== verification/Sessions.thy ===== *)
theory Sessions
  imports File_System
begin

unbundle bit_operations_syntax

text \<open>
  The session store, \<^verbatim>\<open>internal/session/session.go\<close>: identifiers, creation, destruction, listing, the
  marker of a finished initialisation and the lock that guards it. A \<^verbatim>\<open>flock\<close> belongs to an inode and to
  the open descriptor that took it, here called its holder.
\<close>

section \<open>State and identifiers\<close>

abbreviation mode_0700 :: nat where
  "mode_0700 \<equiv> 448"

abbreviation mode_0600 :: nat where
  "mode_0600 \<equiv> 384"

record store =
  so_files :: fsys
  so_inode :: nat
  so_locks :: "nat \<rightharpoonup> nat"

definition init_marker_file :: string where
  "init_marker_file = ''.stromboli-initialized''"

definition init_lock_file :: string where
  "init_lock_file = ''.stromboli-init.lock''"

definition temp_name :: "string \<Rightarrow> string" where
  "temp_name tmp = ''.stromboli-init-'' @ tmp"

definition err_id_required :: go_error where
  "err_id_required = Sentinel ''errors.ErrSessionIDRequired'' ''session ID is required''"

definition err_invalid_id :: go_error where
  "err_invalid_id = Sentinel ''errors.ErrInvalidSessionID'' ''invalid session ID''"

definition err_session_not_found :: go_error where
  "err_session_not_found = Sentinel ''errors.ErrSessionNotFound'' ''session not found''"

definition session_not_found :: "string \<Rightarrow> go_error" where
  "session_not_found sid = Wrap [] err_session_not_found ('': '' @ sid)"

definition validate_session_id :: "string \<Rightarrow> go_error option" where
  "validate_session_id sid =
     (if sid = [] then Some err_id_required
      else if str_contains sid ''/'' \<or> str_contains sid ''..'' \<or> list_ex (\<lambda>c. c = CHR 0x00) sid
      then Some err_invalid_id
      else None)"

text \<open>The sixteen random bytes are an argument; the version and variant bits are set in two of them.\<close>

definition set_bits :: "nat \<Rightarrow> nat \<Rightarrow> char \<Rightarrow> char" where
  "set_bits keep bits c = char_of ((of_char c AND keep) OR bits)"

definition generate_id :: "string \<Rightarrow> string" where
  "generate_id rnd =
     (let b = rnd[6 := set_bits 0x0F 0x40 (rnd ! 6)];
          b = b[8 := set_bits 0x3F 0x80 (b ! 8)]
      in hex_encode (take 4 b) @ ''-'' @ hex_encode (take 2 (drop 4 b)) @ ''-'' @
         hex_encode (take 2 (drop 6 b)) @ ''-'' @ hex_encode (take 2 (drop 8 b)) @ ''-'' @
         hex_encode (take 6 (drop 10 b)))"

abbreviation session_loc :: "sys \<Rightarrow> string \<Rightarrow> string \<Rightarrow> loc" where
  "session_loc sy dir sid \<equiv> locate sy (path_join [dir, sid])"

section \<open>Operations\<close>

definition create_session ::
    "sys \<Rightarrow> string \<Rightarrow> string \<Rightarrow> string \<Rightarrow> fsys \<Rightarrow> (string \<times> string) result \<times> fsys" where
  "create_session sy dir rnd sid0 m =
     (let sid = (if sid0 = [] then generate_id rnd else sid0)
      in case validate_session_id sid of
           Some e \<Rightarrow> (Inl e, m)
         | None \<Rightarrow>
             (let path = path_join [dir, sid]
              in case mkdir_all sy mode_0700 (locate sy path) m of
                   (Some e, m1) \<Rightarrow> (Inl (Wrap ''failed to create session directory: '' e []), m1)
                 | (None, m1) \<Rightarrow>
                     (case mkdir_all sy mode_0700 (locate sy (path_join [path, ''.claude''])) m1 of
                        (Some e, m2) \<Rightarrow> (Inl (Wrap ''failed to create .claude directory: '' e []), m2)
                      | (None, m2) \<Rightarrow>
                          (case os_abs sy path of
                             Inl e \<Rightarrow> (Inl (Wrap ''failed to get absolute session path: '' e []), m2)
                           | Inr p \<Rightarrow> (Inr (sid, p), m2)))))"

definition destroy_session :: "sys \<Rightarrow> string \<Rightarrow> string \<Rightarrow> fsys \<Rightarrow> go_error option \<times> fsys" where
  "destroy_session sy dir sid m =
     (case validate_session_id sid of
        Some e \<Rightarrow> (Some e, m)
      | None \<Rightarrow>
          (let p = session_loc sy dir sid
           in if os_stat sy m p = StatMissing then (Some (session_not_found sid), m)
              else
                (case remove_all sy p m of
                   (Some e, m') \<Rightarrow> (Some (Wrap ''failed to destroy session: '' e []), m')
                 | (None, m') \<Rightarrow> (None, m'))))"

text \<open>\<open>entries\<close> are the names in the directory, in the order in which \<^verbatim>\<open>ReadDir\<close> returns them.\<close>

definition list_sessions :: "sys \<Rightarrow> string \<Rightarrow> string list \<Rightarrow> fsys \<Rightarrow> string list result" where
  "list_sessions sy dir entries m =
     (case sy_fault sy (CallReadDir (locate sy dir)) of
        Some e \<Rightarrow> Inl (Wrap ''failed to list sessions: '' (Msg e) [])
      | None \<Rightarrow>
          (case m (locate sy dir) of
             None \<Rightarrow>
               if through_file m (locate sy dir)
               then Inl (Wrap ''failed to list sessions: '' (Msg ''not a directory'') []) else Inr []
           | Some (File _ _ _) \<Rightarrow> Inl (Wrap ''failed to list sessions: '' (Msg ''not a directory'') [])
           | Some (Dir _) \<Rightarrow>
               Inr (filter (\<lambda>n. case m (locate sy dir @ [n]) of Some x \<Rightarrow> is_dir x | None \<Rightarrow> False) entries)))"

definition is_initialized :: "sys \<Rightarrow> string \<Rightarrow> string \<Rightarrow> fsys \<Rightarrow> bool" where
  "is_initialized sy dir sid m =
     (case validate_session_id sid of
        Some _ \<Rightarrow> False
      | None \<Rightarrow>
          (case os_stat sy m (locate sy (path_join [dir, sid, init_marker_file])) of
             StatNode _ \<Rightarrow> True | _ \<Rightarrow> False))"

text \<open>\<open>tmp\<close> is the random part of the name \<^verbatim>\<open>CreateTemp\<close> chose, \<open>stamp\<close> the formatted time.\<close>

definition mark_initialized ::
    "sys \<Rightarrow> string \<Rightarrow> string \<Rightarrow> string \<Rightarrow> string \<Rightarrow> store \<Rightarrow> go_error option \<times> store" where
  "mark_initialized sy dir tmp stamp sid st =
     (case validate_session_id sid of
        Some e \<Rightarrow> (Some e, st)
      | None \<Rightarrow>
          (let p = session_loc sy dir sid; m = so_files st;
               marker = locate sy (path_join [path_join [dir, sid], init_marker_file]); t = p @ [temp_name tmp]
           in if os_stat sy m p = StatMissing then (Some (session_not_found sid), st)
              else
                (case (if dir_at m p \<and> m t = None then sy_fault sy (CallCreateTemp p)
                       else Some ''file exists or no directory'') of
                   Some e \<Rightarrow> (Some (Wrap ''failed to create temp file: '' (Msg e) []), st)
                 | None \<Rightarrow>
                     (let file = (\<lambda>mode txt. st\<lparr>so_files := m(t \<mapsto> File (so_inode st) mode txt),
                                                so_inode := so_inode st + 1\<rparr>);
                          undo = st\<lparr>so_files := m(t := None), so_inode := so_inode st + 1\<rparr>
                      in case sy_fault sy (CallWrite t) of
                           Some e \<Rightarrow> (Some (Wrap ''failed to write marker: '' (Msg e) []), undo)
                         | None \<Rightarrow>
                      case sy_fault sy (CallSync t) of
                           Some e \<Rightarrow> (Some (Wrap ''failed to sync marker: '' (Msg e) []), undo)
                         | None \<Rightarrow>
                      case sy_fault sy (CallClose t) of
                           Some e \<Rightarrow> (Some (Wrap ''failed to close marker: '' (Msg e) []), undo)
                         | None \<Rightarrow>
                      case sy_fault sy (CallChmod t) of
                           Some e \<Rightarrow> (Some (Wrap ''failed to set permissions: '' (Msg e) []), undo)
                         | None \<Rightarrow>
                      case (if dir_at m marker then Some ''is a directory''
                            else sy_fault sy (CallRename marker)) of
                           Some e \<Rightarrow> (Some (Wrap ''failed to rename marker: '' (Msg e) []), undo)
                         | None \<Rightarrow>
                             (let st' = file mode_0600 stamp
                              in (None, st'\<lparr>so_files := (so_files st')(t := None,
                                               marker \<mapsto> File (so_inode st) mode_0600 stamp)\<rparr>))))))"

text \<open>
  The result says whether the lock was acquired, and then on which inode; \<open>h\<close> is the new descriptor.
\<close>

definition try_acquire_init_lock ::
    "sys \<Rightarrow> string \<Rightarrow> nat \<Rightarrow> string \<Rightarrow> store \<Rightarrow> nat option result \<times> store" where
  "try_acquire_init_lock sy dir h sid st =
     (case validate_session_id sid of
        Some e \<Rightarrow> (Inl e, st)
      | None \<Rightarrow>
          (let p = session_loc sy dir sid; m = so_files st;
               lp = locate sy (path_join [path_join [dir, sid], init_lock_file])
           in if os_stat sy m p = StatMissing then (Inl (session_not_found sid), st)
              else
                (case (case sy_fault sy (CallOpen lp) of
                         Some e \<Rightarrow> Inl e
                       | None \<Rightarrow>
                           (case m lp of
                              Some (Dir _) \<Rightarrow> Inl ''is a directory''
                            | Some (File i _ _) \<Rightarrow> Inr (i, st)
                            | None \<Rightarrow>
                                if dir_at m p
                                then Inr (so_inode st,
                                       st\<lparr>so_files := m(lp \<mapsto> File (so_inode st) mode_0600 []),
                                          so_inode := so_inode st + 1\<rparr>)
                                else Inl ''not a directory'')) of
                   Inl e \<Rightarrow> (Inl (Wrap ''failed to open lock file: '' (Msg e) []), st)
                 | Inr (i, st1) \<Rightarrow>
                     (case sy_fault sy (CallFlock lp) of
                        Some e \<Rightarrow> (Inl (Wrap ''failed to acquire lock: '' (Msg e) []), st1)
                      | None \<Rightarrow>
                          if so_locks st1 i \<noteq> None then (Inr None, st1)
                          else (Inr (Some i), st1\<lparr>so_locks := (so_locks st1)(i \<mapsto> h)\<rparr>)))))"

text \<open>The cleanup function, and what the kernel does for a process that dies.\<close>

definition release_init_lock :: "nat \<Rightarrow> store \<Rightarrow> store" where
  "release_init_lock i st = st\<lparr>so_locks := (so_locks st)(i := None)\<rparr>"

section \<open>Where the operations work\<close>

lemma sublist_char: "sublist [c] s \<longleftrightarrow> c \<in> set s"
  by (induction s) (auto simp: sublist_Cons_right)

lemma validate_session_id_None:
  "validate_session_id sid = None \<longleftrightarrow>
     sid \<noteq> [] \<and> slash \<notin> set sid \<and> CHR 0x00 \<notin> set sid \<and> \<not> sublist ''..'' sid"
  by (auto simp: validate_session_id_def sublist_char str_contains_sublist list_ex_iff)

lemma valid_id_plain:
  "validate_session_id sid = None \<Longrightarrow> sid \<noteq> ''.'' \<Longrightarrow> plain_comp sid \<and> slash \<notin> set sid"
  by (auto simp: validate_session_id_None plain_comp_def)

lemma clean_dot: "clean_comps True acc [''.''] = rev acc"
  by simp

lemma session_loc_eq:
  assumes "validate_session_id sid = None" and "sid \<noteq> ''.''"
  shows "session_loc sy dir sid = locate sy dir @ [sid]"
proof -
  have p: "plain_comp sid" and n: "slash \<notin> set sid" and e: "sid \<noteq> []"
    using valid_id_plain [OF assms] by (auto simp: plain_comp_def)
  show ?thesis
    unfolding abs_comps_join [OF n e] clean_single [OF p] by simp
qed

lemma session_loc_dot: "session_loc sy dir ''.'' = locate sy dir"
proof -
  have n: "slash \<notin> set ''.''" and e: "''.'' \<noteq> []" by simp_all
  show ?thesis
    unfolding abs_comps_join [OF n e] clean_dot by simp
qed

lemma locate_child:
  "plain_comp name \<Longrightarrow> slash \<notin> set name \<Longrightarrow> locate sy (path_join [p, name]) = locate sy p @ [name]"
  using abs_comps_join [of name "sy_cwd sy" p] clean_single [of name "rev (locate sy p)"]
  by (simp add: plain_comp_def)

lemma file_names_plain [simp]:
  "plain_comp init_marker_file" "slash \<notin> set init_marker_file"
  "plain_comp init_lock_file" "slash \<notin> set init_lock_file"
  "plain_comp ''.claude''"
  by (simp_all add: plain_comp_def init_marker_file_def init_lock_file_def)

lemma marker_neq_lock [simp]: "init_marker_file \<noteq> init_lock_file"
  by (simp add: init_marker_file_def init_lock_file_def)

lemma temp_neq_marker [simp]: "temp_name tmp \<noteq> init_marker_file"
  by (simp add: init_marker_file_def temp_name_def)

lemma marker_loc3:
  assumes "validate_session_id sid = None"
  shows "locate sy (path_join [dir, sid, init_marker_file]) = session_loc sy dir sid @ [init_marker_file]"
proof -
  have "slash \<notin> set sid" "sid \<noteq> []" "init_marker_file \<noteq> []"
    using assms by (simp_all add: validate_session_id_None init_marker_file_def)
  then show ?thesis
    using abs_comps_join3 [of sid init_marker_file "sy_cwd sy" dir] locate_child [of init_marker_file sy "path_join [dir, sid]"]
    by simp
qed

lemma is_initialized_eq:
  "validate_session_id sid = None \<Longrightarrow>
   is_initialized sy dir sid m \<longleftrightarrow> (\<exists>n. os_stat sy m (session_loc sy dir sid @ [init_marker_file]) = StatNode n)"
  by (auto simp: is_initialized_def marker_loc3 split: stat_result.split)

section \<open>Identifiers\<close>

lemma hex_encode_append: "hex_encode (a @ b) = hex_encode a @ hex_encode b"
  by (simp add: hex_encode_def)

lemma length_hex_encode: "length (hex_encode bs) = 2 * length bs"
  by (induction bs) (simp_all add: hex_encode_def Let_def)

lemma hex_encode_chars:
  assumes "c \<in> set (hex_encode bs)"
  shows "\<exists>n < 16. c = hex_digit n"
proof -
  obtain b where "c = hex_digit (of_char b div 16) \<or> c = hex_digit (of_char b mod 16)"
    using assms by (auto simp: hex_encode_def Let_def)
  moreover have "of_char b div 16 < (16 :: nat)"
    using nat_of_char_less_256 [of b] by (simp add: less_mult_imp_div_less)
  ultimately show ?thesis
    by (metis mod_less_divisor zero_less_numeral)
qed

lemma hex_char_range: "n < 16 \<Longrightarrow> 48 \<le> (of_char (hex_digit n) :: nat)"
  by (simp add: of_char_hex_digit)

lemma id_chars:
  assumes "c \<in> set (generate_id rnd)"
  shows "c = CHR ''-'' \<or> 48 \<le> (of_char c :: nat)"
proof -
  have "c = CHR ''-'' \<or> (\<exists>n < 16. c = hex_digit n)"
    using assms unfolding generate_id_def Let_def by (auto dest: hex_encode_chars)
  then show ?thesis
    using hex_char_range by blast
qed

lemma generate_id_valid: "validate_session_id (generate_id rnd) = None"
proof -
  have "slash \<notin> set (generate_id rnd)" "CHR 0x00 \<notin> set (generate_id rnd)" "CHR ''.'' \<notin> set (generate_id rnd)"
    using id_chars [of slash rnd] id_chars [of "CHR 0x00" rnd] id_chars [of "CHR ''.''" rnd] by auto
  moreover have "generate_id rnd \<noteq> []"
    by (simp add: generate_id_def Let_def)
  moreover have "\<not> sublist ''..'' (generate_id rnd)" if "CHR ''.'' \<notin> set (generate_id rnd)"
    using that set_mono_sublist [of "''..''" "generate_id rnd"] by auto
  ultimately show ?thesis
    by (simp add: validate_session_id_None)
qed

text \<open>The two masks: the high digit of the first byte is 4, that of the second between 8 and 11.\<close>

lemma high_digit: "(of_char (char_of n :: char) :: nat) div 16 = take_bit 4 (drop_bit 4 n)"
proof -
  have "(of_char (char_of n :: char) :: nat) div 16 = drop_bit 4 (take_bit 8 n)"
    by (simp add: of_char_of drop_bit_eq_div take_bit_eq_mod)
  then show ?thesis
    by (simp add: drop_bit_take_bit)
qed

lemma set_bits_version: "(of_char (set_bits 0x0F 0x40 c) :: nat) div 16 = 4"
proof -
  have d: "drop_bit 4 0x0F = (0 :: nat)" "drop_bit 4 0x40 = (4 :: nat)"
    by (simp_all add: drop_bit_eq_div)
  show ?thesis
    unfolding set_bits_def high_digit drop_bit_or drop_bit_and d by (simp add: take_bit_eq_mod)
qed

lemma set_bits_variant: "(of_char (set_bits 0x3F 0x80 c) :: nat) div 16 \<in> {8, 9, 10, 11}"
proof -
  have d: "drop_bit 4 0x3F = (3 :: nat)" "drop_bit 4 0x80 = (8 :: nat)"
    by (simp_all add: drop_bit_eq_div)
  have "(x AND 3) = (x mod 4 :: nat)" for x
    using take_bit_eq_mask [of 2 x] by (simp add: take_bit_eq_mod mask_eq_exp_minus_1)
  then have "drop_bit 4 (of_char c) AND 3 \<in> {0, 1, 2, 3 :: nat}"
    by auto
  then show ?thesis
    unfolding set_bits_def high_digit drop_bit_or drop_bit_and d by (auto simp: take_bit_eq_mod)
qed

text \<open>The digits that those values are printed as.\<close>

lemma hex_digit_values:
  "hex_digit 4 = CHR ''4''" "hex_digit 8 = CHR ''8''" "hex_digit 9 = CHR ''9''"
  "hex_digit 10 = CHR ''a''" "hex_digit 11 = CHR ''b''"
  by code_simp+

lemma nth_mid: "length a = n \<Longrightarrow> b \<noteq> [] \<Longrightarrow> (a @ b @ c) ! n = hd b"
  by (auto simp: nth_append hd_conv_nth)

lemma hex_two_not_Nil: "hex_encode [a, b] \<noteq> []"
  by (simp add: hex_encode_def Let_def)

lemma generate_id_format:
  assumes "length rnd = 16"
  shows "length (generate_id rnd) = 36" and "generate_id rnd ! 14 = CHR ''4''"
    and "generate_id rnd ! 19 \<in> {CHR ''8'', CHR ''9'', CHR ''a'', CHR ''b''}"
proof -
  let ?c = "set_bits 0x0F 0x40 (rnd ! 6)" and ?d = "set_bits 0x3F 0x80 (rnd ! 8)"
  let ?b = "rnd[6 := ?c, 8 := ?d]"
  have b8: "rnd[6 := ?c] ! 8 = rnd ! 8" by simp
  have g: "generate_id rnd = hex_encode (take 4 ?b) @ ''-'' @ hex_encode (take 2 (drop 4 ?b)) @ ''-'' @
      hex_encode (take 2 (drop 6 ?b)) @ ''-'' @ hex_encode (take 2 (drop 8 ?b)) @ ''-'' @
      hex_encode (take 6 (drop 10 ?b))"
    by (simp only: generate_id_def Let_def b8)
  show "length (generate_id rnd) = 36"
    unfolding g using assms by (simp add: length_hex_encode)
  have l: "length (hex_encode (take 4 ?b) @ ''-'' @ hex_encode (take 2 (drop 4 ?b)) @ ''-'') = 14"
    "length (hex_encode (take 4 ?b) @ ''-'' @ hex_encode (take 2 (drop 4 ?b)) @ ''-'' @
      hex_encode (take 2 (drop 6 ?b)) @ ''-'') = 19"
    using assms by (simp_all add: length_hex_encode)
  have d6: "take 2 (drop 6 ?b) = [?c, ?b ! 7]" and d8: "take 2 (drop 8 ?b) = [?d, ?b ! 9]"
    using assms by (simp_all add: numeral_2_eq_2 take_Suc_conv_app_nth drop_update_swap flip: Cons_nth_drop_Suc)
  have n14: "generate_id rnd ! 14 = hd (hex_encode [?c, ?b ! 7])"
  proof -
    have "generate_id rnd = (hex_encode (take 4 ?b) @ ''-'' @ hex_encode (take 2 (drop 4 ?b)) @ ''-'') @
        hex_encode [?c, ?b ! 7] @ (''-'' @ hex_encode (take 2 (drop 8 ?b)) @ ''-'' @ hex_encode (take 6 (drop 10 ?b)))"
      unfolding g d6 by (simp only: append_assoc)
    then show ?thesis
      using nth_mid [OF l(1), of "hex_encode [?c, ?b ! 7]"] by (simp only: hex_two_not_Nil not_False_eq_True simp_thms)
  qed
  have n19: "generate_id rnd ! 19 = hd (hex_encode [?d, ?b ! 9])"
  proof -
    have "generate_id rnd = (hex_encode (take 4 ?b) @ ''-'' @ hex_encode (take 2 (drop 4 ?b)) @ ''-'' @
        hex_encode (take 2 (drop 6 ?b)) @ ''-'') @ hex_encode [?d, ?b ! 9] @ (''-'' @ hex_encode (take 6 (drop 10 ?b)))"
      unfolding g d8 by (simp only: append_assoc)
    then show ?thesis
      using nth_mid [OF l(2), of "hex_encode [?d, ?b ! 9]"] by (simp only: hex_two_not_Nil not_False_eq_True simp_thms)
  qed
  show "generate_id rnd ! 14 = CHR ''4''"
    unfolding n14 using set_bits_version [of "rnd ! 6"] by (simp add: hex_encode_def Let_def hex_digit_values)
  show "generate_id rnd ! 19 \<in> {CHR ''8'', CHR ''9'', CHR ''a'', CHR ''b''}"
    unfolding n19 using set_bits_variant [of "rnd ! 8"] by (auto simp: hex_encode_def Let_def hex_digit_values)
qed

section \<open>What the operations change\<close>


definition sample_sys :: sys where
  "sample_sys = \<lparr>sy_cwd = ''/'', sy_fault = (\<lambda>_. None), sy_survives = (\<lambda>_. False)\<rparr>"

definition sample_files :: fsys where
  "sample_files = [[] \<mapsto> Dir 493, [''s''] \<mapsto> Dir 448, [''s'', ''a''] \<mapsto> Dir 448, [''s'', ''b''] \<mapsto> Dir 448]"

lemma sample_root: "locate sample_sys ''/s'' = [''s'']"
  by (simp add: sample_sys_def abs_comps_def is_abs_def)


text \<open>The identifier \<^verbatim>\<open>.\<close> passes validation and stands for the directory of all sessions: destroying it
  succeeds and removes every session, and the directory itself.\<close>

lemma destroy_dot_removes_all:
  "\<exists>sy dir m m'. m (locate sy dir @ [''a'']) \<noteq> None \<and> m (locate sy dir @ [''b'']) \<noteq> None \<and>
     validate_session_id ''.'' = None \<and> destroy_session sy dir ''.'' m = (None, m') \<and>
     {q. prefix (locate sy dir) q \<and> m' q \<noteq> None} = {}"
proof -
  have v: "validate_session_id ''.'' = None"
    by (simp add: validate_session_id_def)
  have st: "os_stat sample_sys sample_files [''s''] \<noteq> StatMissing"
    by (simp add: os_stat_def sample_sys_def sample_files_def)
  obtain m' where ra: "remove_all sample_sys [''s''] sample_files = (None, m')"
    by (simp add: remove_all_def sample_sys_def)
  have "destroy_session sample_sys ''/s'' ''.'' sample_files = (None, m')"
    unfolding destroy_session_def session_loc_dot sample_root v Let_def using st ra by simp
  moreover have "m' q = None" if "prefix [''s''] q" for q
    using remove_all_ok [of sample_sys "[''s'']" sample_files q] ra that by simp
  moreover have "sample_files [''s'', ''a''] \<noteq> None" "sample_files [''s'', ''b''] \<noteq> None"
    by (simp_all add: sample_files_def)
  ultimately show ?thesis
    using v sample_root by (intro exI [of _ sample_sys] exI [of _ "''/s''"] exI [of _ sample_files] exI [of _ m']) simp
qed

lemma create_steps:
  assumes "create_session sy dir rnd sid0 m = (Inr (sid, p), m')"
  shows "validate_session_id sid = None" and "sid = (if sid0 = [] then generate_id rnd else sid0)"
    and "os_abs sy (path_join [dir, sid]) = Inr p"
    and "\<exists>m1. mkdir_all sy mode_0700 (session_loc sy dir sid) m = (None, m1) \<and>
           mkdir_all sy mode_0700 (locate sy (path_join [path_join [dir, sid], ''.claude''])) m1 = (None, m')"
  using assms
  by (auto simp: create_session_def Let_def split: option.splits prod.splits sum.splits if_splits)

text \<open>Creating a session succeeds only with a valid identifier, the given one or a fresh one in the format
  of a version 4 UUID, and returns the absolute path of a directory that now exists directly below the
  sessions directory, with its \<^verbatim>\<open>.claude\<close> directory. Nothing that existed is changed, and what was created
  are directories of mode 0700 on the way to it.\<close>

lemma create_session_exact:
  assumes "create_session sy dir rnd sid0 m = (Inr (sid, p), m')"
    and "sid0 \<noteq> ''.''" and "length rnd = 16" and "is_abs (sy_cwd sy)"
  shows "validate_session_id sid = None \<and>
    (if sid0 = [] then length sid = 36 \<and> sid ! 14 = CHR ''4'' \<and> sid ! 19 \<in> {CHR ''8'', CHR ''9'', CHR ''a'', CHR ''b''}
     else sid = sid0) \<and>
    p = slash # str_join [slash] (locate sy dir @ [sid]) \<and>
    (\<exists>d. m' (locate sy dir @ [sid]) = Some (Dir d)) \<and> (\<exists>d. m' (locate sy dir @ [sid, ''.claude'']) = Some (Dir d)) \<and>
    (\<forall>q. m q \<noteq> None \<longrightarrow> m' q = m q) \<and>
    (\<forall>q n. m q = None \<longrightarrow> m' q = Some n \<longrightarrow> n = Dir mode_0700 \<and> prefix q (locate sy dir @ [sid, ''.claude'']))"
proof -
  note v = create_steps(1) [OF assms(1)] and sid = create_steps(2) [OF assms(1)] and p = create_steps(3) [OF assms(1)]
  have nd: "sid \<noteq> ''.''"
    using sid assms(2) generate_id_format(1) [OF assms(3)] by auto
  have l: "session_loc sy dir sid = locate sy dir @ [sid]"
    using v nd by (rule session_loc_eq)
  have c: "locate sy (path_join [path_join [dir, sid], ''.claude'']) = locate sy dir @ [sid, ''.claude'']"
    using locate_child [of "''.claude''" sy "path_join [dir, sid]"] l by simp
  let ?s = "locate sy dir @ [sid]" and ?c = "locate sy dir @ [sid, ''.claude'']"
  obtain m1 where m1: "mkdir_all sy mode_0700 ?s m = (None, m1)" "mkdir_all sy mode_0700 ?c m1 = (None, m')"
    using create_steps(4) [OF assms(1)] unfolding l c by blast
  have pre: "prefix ?s ?c" by simp
  have dirs: "\<exists>d. m' q = Some (Dir d) \<and> (m1 q = None \<longrightarrow> d = mode_0700)" if "prefix q ?c" for q
    using mkdir_all_ok [of sy mode_0700 ?c m1 q] m1(2) that by simp
  have dirs1: "\<exists>d. m1 q = Some (Dir d) \<and> (m q = None \<longrightarrow> d = mode_0700)" if "prefix q ?s" for q
    using mkdir_all_ok [of sy mode_0700 ?s m q] m1(1) that by simp
  have keep: "m' q = m q" if "m q \<noteq> None" for q
  proof -
    have a: "m1 q = m q" using mkdir_all_frame [of q ?s m sy mode_0700] m1(1) that by simp
    moreover have "m' q = m1 q" using mkdir_all_frame [of q ?c m1 sy mode_0700] m1(2) that a by simp
    ultimately show ?thesis by simp
  qed
  have new: "n = Dir mode_0700 \<and> prefix q ?c" if "m q = None" "m' q = Some n" for q n
  proof -
    have q: "prefix q ?c"
    proof (rule ccontr)
      assume no: "\<not> prefix q ?c"
      then have "\<not> prefix q ?s" using pre prefix_order.trans by blast
      then have "m1 q = m q" using mkdir_all_frame [of q ?s m sy mode_0700] m1(1) by simp
      moreover have "m' q = m1 q" using mkdir_all_frame [of q ?c m1 sy mode_0700] m1(2) no by simp
      ultimately show False using that by simp
    qed
    show ?thesis
    proof (cases "m1 q")
      case None
      with dirs [OF q] that(2) q show ?thesis by auto
    next
      case (Some n1)
      have "m' q = m1 q" using mkdir_all_frame [of q ?c m1 sy mode_0700] m1(2) Some by simp
      moreover have "prefix q ?s"
        using mkdir_all_frame [of q ?s m sy mode_0700] m1(1) that(1) Some by (metis option.distinct(1) snd_conv)
      ultimately show ?thesis
        using dirs1 [of q] that q by auto
    qed
  qed
  have pe: "p = slash # str_join [slash] (locate sy dir @ [sid])"
  proof -
    have "p = path_abs (sy_cwd sy) (path_join [dir, sid])"
      using p by (auto simp: os_abs_def path_abs_def split: if_splits option.splits)
    then show ?thesis
      using path_abs_comps [OF assms(4), of "path_join [dir, sid]"] l by simp
  qed
  show ?thesis
    using v sid generate_id_format [OF assms(3)] pe dirs [OF pre] dirs [of ?c] keep new by auto
qed

lemma create_session_exact_witness:
  "\<exists>m'. create_session sample_sys ''/s'' (replicate 16 (CHR 0x00)) ''new'' sample_files =
      (Inr (''new'', ''/s/new''), m') \<and> m' [''s'', ''a''] = Some (Dir 448)"
proof -
  have j: "path_join [''/s'', ''new''] = ''/s/new''" "path_join [''/s/new'', ''.claude''] = ''/s/new/.claude''"
    by code_simp+
  have l: "locate sample_sys ''/s/new'' = [''s'', ''new'']"
    "locate sample_sys ''/s/new/.claude'' = [''s'', ''new'', ''.claude'']"
    by (simp_all add: abs_comps_def is_abs_def)
  have v: "validate_session_id ''new'' = None"
    by (simp add: validate_session_id_def)
  have e: "locate sample_sys (path_join [''/s'', ''new'']) = [''s'', ''new'']"
    "locate sample_sys (path_join [path_join [''/s'', ''new''], ''.claude'']) = [''s'', ''new'', ''.claude'']"
    unfolding j l by (rule refl)+
  let ?m = "sample_files([''s'', ''new''] \<mapsto> Dir 448, [''s'', ''new'', ''.claude''] \<mapsto> Dir 448)"
  have "mkdir_all sample_sys 448 [''s'', ''new''] sample_files = (None, sample_files([''s'', ''new''] \<mapsto> Dir 448))"
    "mkdir_all sample_sys 448 [''s'', ''new'', ''.claude''] (sample_files([''s'', ''new''] \<mapsto> Dir 448)) = (None, ?m)"
    by (simp_all add: mkdir_all_def steps_to_def sample_files_def sample_sys_def)
  moreover have "os_abs sample_sys (path_join [''/s'', ''new'']) = Inr ''/s/new''"
  proof -
    have "is_abs ''/s/new''" "path_clean ''/s/new'' = ''/s/new''" by code_simp+
    then show ?thesis unfolding j by (simp add: os_abs_def)
  qed
  ultimately have c: "create_session sample_sys ''/s'' (replicate 16 (CHR 0x00)) ''new'' sample_files =
      (Inr (''new'', ''/s/new''), ?m)"
    unfolding create_session_def Let_def by (simp add: v e)
  have h: "is_abs (sy_cwd sample_sys)" "''new'' \<noteq> ''.''" "length (replicate 16 (CHR 0x00)) = 16"
    by (simp_all add: sample_sys_def is_abs_def)
  note t = create_session_exact [OF c h(2,3,1)]
  have k: "\<forall>q. sample_files q \<noteq> None \<longrightarrow> ?m q = sample_files q"
    by (rule conjunct1 [OF conjunct2 [OF conjunct2 [OF conjunct2 [OF conjunct2 [OF conjunct2 [OF t]]]]]])
  have n: "sample_files [''s'', ''a''] = Some (Dir 448)"
    by (simp add: sample_files_def)
  have "?m [''s'', ''a''] = sample_files [''s'', ''a'']"
    by (rule mp [OF spec [OF k]]) (simp only: n option.distinct not_False_eq_True)
  then have "?m [''s'', ''a''] = Some (Dir 448)"
    unfolding n .
  then show ?thesis
    by (intro exI conjI) (rule c)
qed

subsection \<open>The marker and the lock\<close>

lemma marker_loc:
  "locate sy (path_join [path_join [dir, sid], init_marker_file]) = session_loc sy dir sid @ [init_marker_file]"
  by (rule locate_child) simp_all

lemma lock_loc:
  "locate sy (path_join [path_join [dir, sid], init_lock_file]) = session_loc sy dir sid @ [init_lock_file]"
  by (rule locate_child) simp_all

abbreviation marker_at :: "sys \<Rightarrow> string \<Rightarrow> string \<Rightarrow> loc" where
  "marker_at sy dir sid \<equiv> session_loc sy dir sid @ [init_marker_file]"

abbreviation lock_at :: "sys \<Rightarrow> string \<Rightarrow> string \<Rightarrow> loc" where
  "lock_at sy dir sid \<equiv> session_loc sy dir sid @ [init_lock_file]"

lemma mark_initialized_cases:
  assumes "mark_initialized sy dir tmp stamp sid st = (r, st')"
  shows "so_locks st' = so_locks st \<and> so_inode st \<le> so_inode st' \<and>
    (case r of
       None \<Rightarrow> validate_session_id sid = None \<and> (\<exists>d. so_files st (session_loc sy dir sid) = Some (Dir d)) \<and>
         so_files st' = (so_files st)(marker_at sy dir sid \<mapsto> File (so_inode st) mode_0600 stamp) \<and>
         so_inode st' = so_inode st + 1
     | Some e \<Rightarrow> so_files st' = so_files st)"
proof -
  let ?p = "session_loc sy dir sid" and ?m = "so_files st"
  let ?t = "?p @ [temp_name tmp]"
  have ne: "?t \<noteq> marker_at sy dir sid" by simp
  have undo: "?m(?t := None) = ?m" if "?m ?t = None"
    using that by (simp add: fun_upd_idem)
  have renamed: "(?m(?t \<mapsto> x))(?t := None, marker_at sy dir sid \<mapsto> y) = ?m(marker_at sy dir sid \<mapsto> y)"
    if "?m ?t = None" for x y
    using undo [OF that] by simp
  show ?thesis
    using assms undo renamed ne
    unfolding mark_initialized_def marker_loc Let_def
    by (cases "validate_session_id sid"; cases r) (auto split: option.splits if_splits)
qed

text \<open>Marking a session as initialised is all or nothing: on success the only change is the marker, which
  holds the time stamp and has mode 0600; after any failure, whichever step failed, no file is changed,
  not even by the temporary file.\<close>

lemma mark_initialized_atomic:
  assumes "mark_initialized sy dir tmp stamp sid st = (r, st')"
  shows "so_locks st' = so_locks st \<and>
    so_files st' =
      (if r = None
       then (so_files st)(session_loc sy dir sid @ [init_marker_file] \<mapsto> File (so_inode st) mode_0600 stamp)
       else so_files st)"
  using mark_initialized_cases [OF assms] by (auto split: option.splits)

lemma mark_initialized_atomic_witness:
  "so_files (snd (mark_initialized (sample_sys\<lparr>sy_fault := \<lambda>c. case c of CallRename _ \<Rightarrow> Some ''no space'' | _ \<Rightarrow> None\<rparr>)
      ''/s'' ''1'' ''now'' ''a'' \<lparr>so_files = sample_files, so_inode = 0, so_locks = Map.empty\<rparr>)) = sample_files"
proof -
  let ?sy = "sample_sys\<lparr>sy_fault := \<lambda>c. case c of CallRename _ \<Rightarrow> Some ''no space'' | _ \<Rightarrow> None\<rparr>"
  let ?st = "\<lparr>so_files = sample_files, so_inode = 0, so_locks = Map.empty\<rparr>"
  obtain r st' where c: "mark_initialized ?sy ''/s'' ''1'' ''now'' ''a'' ?st = (r, st')"
    by (cases "mark_initialized ?sy ''/s'' ''1'' ''now'' ''a'' ?st")
  have "r \<noteq> None"
    using c by (cases r) (auto simp: mark_initialized_def Let_def split: option.splits if_splits)
  with conjunct2 [OF mark_initialized_atomic [OF c]] have "so_files st' = so_files ?st"
    by (simp only: if_False)
  then show ?thesis
    unfolding c by simp
qed

lemma try_acquire_cases:
  assumes "try_acquire_init_lock sy dir h sid st = (r, st')"
  shows "(so_files st' = so_files st \<or>
           validate_session_id sid = None \<and> so_files st (lock_at sy dir sid) = None \<and>
           so_files st' = (so_files st)(lock_at sy dir sid \<mapsto> File (so_inode st) mode_0600 []) \<and>
           so_inode st' = so_inode st + 1) \<and>
    so_inode st \<le> so_inode st' \<and>
    (case r of
       Inr (Some i) \<Rightarrow> validate_session_id sid = None \<and>
         (\<exists>md c. so_files st' (lock_at sy dir sid) = Some (File i md c)) \<and>
         so_locks st i = None \<and> so_locks st' = (so_locks st)(i \<mapsto> h)
     | _ \<Rightarrow> so_locks st' = so_locks st)"
  using assms unfolding try_acquire_init_lock_def lock_loc Let_def
  by (auto split: option.splits if_splits sum.splits node.splits)

text \<open>Creation adds directories only, on the way to the session's \<^verbatim>\<open>.claude\<close>.\<close>

lemma mkdir_steps_dirs:
  "snd (mkdir_steps sy mode ps m) q = Some (File i md c) \<Longrightarrow> m q = Some (File i md c)"
proof (induction ps arbitrary: m)
  case (Cons p ps)
  show ?case
  proof (cases "m p")
    case None
    show ?thesis
    proof (cases "sy_fault sy (CallMkdir p)")
      case (Some e)
      with Cons.prems None show ?thesis by simp
    next
      case f: None
      have e: "mkdir_steps sy mode (p # ps) m = mkdir_steps sy mode ps (m(p \<mapsto> Dir mode))"
        using None f by simp
      have "(m(p \<mapsto> Dir mode)) q = Some (File i md c)"
        using Cons.prems unfolding e by (rule Cons.IH)
      then show ?thesis by (simp split: if_splits)
    qed
  next
    case (Some n)
    with Cons show ?thesis by (cases n) simp_all
  qed
qed simp

lemma generate_id_not_dot: "generate_id rnd \<noteq> ''.''"
proof
  assume "generate_id rnd = ''.''"
  moreover have "CHR ''-'' \<in> set (generate_id rnd)"
    by (simp add: generate_id_def Let_def)
  ultimately show False by simp
qed

lemma create_frame:
  assumes "create_session sy dir rnd sid0 m = (r, m')" and "sid0 \<noteq> ''.''"
  shows "(m q \<noteq> None \<longrightarrow> m' q = m q) \<and> (m' q = Some (File i md c) \<longrightarrow> m q = Some (File i md c)) \<and>
    ((\<forall>sid. \<not> prefix q (locate sy dir @ [sid, ''.claude''])) \<longrightarrow> m' q = m q)"
proof -
  let ?sid = "if sid0 = [] then generate_id rnd else sid0"
  show ?thesis
  proof (cases "validate_session_id ?sid")
    case (Some e)
    with assms(1) have "m' = m" by (simp add: create_session_def Let_def)
    then show ?thesis by simp
  next
    case None
    have "?sid \<noteq> ''.''" using assms(2) generate_id_not_dot by simp
    with None have l: "session_loc sy dir ?sid = locate sy dir @ [?sid]"
      by (rule session_loc_eq)
    have c: "locate sy (path_join [path_join [dir, ?sid], ''.claude'']) = locate sy dir @ [?sid, ''.claude'']"
      using locate_child [of "''.claude''" sy "path_join [dir, ?sid]"] l by simp
    obtain e1 m1 where m1: "mkdir_all sy mode_0700 (locate sy dir @ [?sid]) m = (e1, m1)"
      by (cases "mkdir_all sy mode_0700 (locate sy dir @ [?sid]) m")
    obtain e2 m2 where m2: "mkdir_all sy mode_0700 (locate sy dir @ [?sid, ''.claude'']) m1 = (e2, m2)"
      by (cases "mkdir_all sy mode_0700 (locate sy dir @ [?sid, ''.claude'']) m1")
    have r: "m' = m1 \<or> m' = m2"
      using assms(1) None m1 m2 unfolding create_session_def Let_def l c
      by (auto split: option.splits sum.splits)
    have d1: "m1 q = Some (File i md c) \<Longrightarrow> m q = Some (File i md c)"
      and d2: "m2 q = Some (File i md c) \<Longrightarrow> m1 q = Some (File i md c)" for i md c
      using mkdir_steps_dirs [of sy mode_0700 "steps_to (locate sy dir @ [?sid])" m q i md c] m1
        mkdir_steps_dirs [of sy mode_0700 "steps_to (locate sy dir @ [?sid, ''.claude''])" m1 q i md c] m2
      by (simp_all add: mkdir_all_def)
    have k1: "m1 q = m q" if "m q \<noteq> None \<or> \<not> prefix q (locate sy dir @ [?sid])"
      using mkdir_all_frame [of q "locate sy dir @ [?sid]" m sy mode_0700] m1 that by auto
    have k2: "m2 q = m1 q" if "m1 q \<noteq> None \<or> \<not> prefix q (locate sy dir @ [?sid, ''.claude''])"
      using mkdir_all_frame [of q "locate sy dir @ [?sid, ''.claude'']" m1 sy mode_0700] m2 that by auto
    have p: "prefix q (locate sy dir @ [?sid, ''.claude''])" if "prefix q (locate sy dir @ [?sid])"
      using that prefix_order.trans [of q "locate sy dir @ [?sid]"] by simp
    have k3: "\<forall>sid. \<not> prefix q (locate sy dir @ [sid, ''.claude'']) \<Longrightarrow> m1 q = m q \<and> m2 q = m q"
    proof -
      assume a: "\<forall>sid. \<not> prefix q (locate sy dir @ [sid, ''.claude''])"
      then have b: "\<not> prefix q (locate sy dir @ [?sid, ''.claude''])" by blast
      with p have "\<not> prefix q (locate sy dir @ [?sid])" by blast
      with b k1 k2 show ?thesis by simp
    qed
    have "m q \<noteq> None \<longrightarrow> m1 q = m q \<and> m2 q = m q"
      using k1 k2 by simp
    with r d1 d2 k3 show ?thesis by blast
  qed
qed

lemma destroy_frame:
  assumes "destroy_session sy dir sid m = (r, m')" and "sid \<noteq> ''.''"
  shows "(m' q = Some n \<longrightarrow> m q = Some n) \<and> (\<not> prefix (locate sy dir @ [sid]) q \<longrightarrow> m' q = m q)"
proof (cases "validate_session_id sid")
  case (Some e)
  with assms(1) show ?thesis by (simp add: destroy_session_def)
next
  case None
  then have l: "session_loc sy dir sid = locate sy dir @ [sid]"
    using assms(2) by (rule session_loc_eq)
  obtain e m1 where ra: "remove_all sy (locate sy dir @ [sid]) m = (e, m1)"
    by (cases "remove_all sy (locate sy dir @ [sid]) m")
  have "(m1 q = Some n \<longrightarrow> m q = Some n) \<and> (\<not> prefix (locate sy dir @ [sid]) q \<longrightarrow> m1 q = m q)"
    using ra by (auto simp: remove_all_def below_def split: option.splits if_splits)
  moreover have "m' = m \<or> m' = m1"
    using assms(1) None ra unfolding destroy_session_def l Let_def by (auto split: if_splits option.splits)
  ultimately show ?thesis by auto
qed

end
