(* ===== verification/Session_Init.thy ===== *)
theory Session_Init
  imports Sessions Lifecycle
begin

text \<open>
  The initialisation of a session by concurrent runs: \<^verbatim>\<open>prepareLifecycleHooks\<close> of
  \<^verbatim>\<open>internal/runner/runner.go\<close> and the uses of the init lock and marker in \<^verbatim>\<open>Run\<close> and \<^verbatim>\<open>RunStream\<close>, as
  steps that the runs of all processes interleave with the creation and destruction of sessions.
\<close>

section \<open>One run\<close>

definition err_init_in_progress :: go_error where
  "err_init_in_progress = Sentinel ''errors.ErrInitInProgress'' ''session initialization in progress''"

definition init_in_progress :: "string \<Rightarrow> go_error" where
  "init_in_progress sid = Wrap [] err_init_in_progress ('': session '' @ sid @ ''; please retry'')"

text \<open>The result is whether the init hooks are to run, and the lock that the caller must release.\<close>

definition prepare_lifecycle_hooks ::
    "(string \<Rightarrow> string) \<Rightarrow> sys \<Rightarrow> string \<Rightarrow> nat \<Rightarrow> lifecycle_hooks \<Rightarrow> string \<Rightarrow> store \<Rightarrow>
     (bool \<times> nat option) result \<times> store" where
  "prepare_lifecycle_hooks q sy dir h hooks sid st =
     (case validate_lifecycle_hooks q hooks of
        Some e \<Rightarrow> (Inl (Wrap ''lifecycle hooks validation failed: '' e []), st)
      | None \<Rightarrow>
          if has_init_hooks hooks
          then
            (case try_acquire_init_lock sy dir h sid st of
               (Inl e, st') \<Rightarrow> (Inl (Wrap ''failed to acquire init lock: '' e []), st')
             | (Inr (Some i), st') \<Rightarrow> (Inr (\<not> is_initialized sy dir sid (so_files st'), Some i), st')
             | (Inr None, st') \<Rightarrow>
                 if \<not> is_initialized sy dir sid (so_files st') then (Inl (init_in_progress sid), st')
                 else (Inr (False, None), st'))
          else (Inr (False, None), st))"

section \<open>All runs\<close>

text \<open>
  Where a run is: it has taken the lock or found it busy, and has not yet looked at the marker; it runs
  its command, with or without the init hooks; it is about to return, with the deferred release to do.
\<close>

datatype run_phase =
    PIdle
  | PLocked string nat
  | PContended string
  | PRunning string bool "nat option"
  | PDone "nat option"

record init_state =
  in_store :: store
  in_phase :: "nat \<Rightarrow> run_phase"

fun holds :: "run_phase \<Rightarrow> nat option" where
  "holds (PLocked sid i) = Some i"
| "holds (PRunning sid n l) = l"
| "holds (PDone l) = l"
| "holds PIdle = None"
| "holds (PContended sid) = None"

fun phase_sid :: "run_phase \<Rightarrow> string option" where
  "phase_sid (PLocked sid i) = Some sid"
| "phase_sid (PRunning sid n l) = Some sid"
| "phase_sid (PContended sid) = Some sid"
| "phase_sid (PDone l) = None"
| "phase_sid PIdle = None"

definition release_held :: "run_phase \<Rightarrow> store \<Rightarrow> store" where
  "release_held p st = (case holds p of None \<Rightarrow> st | Some i \<Rightarrow> release_init_lock i st)"

abbreviation put_files :: "init_state \<Rightarrow> fsys \<Rightarrow> init_state" where
  "put_files s m \<equiv> s\<lparr>in_store := (in_store s)\<lparr>so_files := m\<rparr>\<rparr>"

abbreviation set_run :: "nat \<Rightarrow> run_phase \<Rightarrow> store \<Rightarrow> init_state \<Rightarrow> init_state" where
  "set_run h p st s \<equiv> s\<lparr>in_store := st, in_phase := (in_phase s)(h := p)\<rparr>"

text \<open>
  \<open>U\<close> are the identifiers that requests use, \<open>D\<close> those that are destroyed, \<open>S\<close> the system behaviours.
\<close>

inductive init_step ::
    "(string \<Rightarrow> bool) \<Rightarrow> (string \<Rightarrow> bool) \<Rightarrow> (sys \<Rightarrow> bool) \<Rightarrow> string \<Rightarrow> init_state \<Rightarrow> init_state \<Rightarrow> bool"
  for U D S dir where
  create: "S sy \<Longrightarrow> U sid \<Longrightarrow> create_session sy dir rnd sid (so_files (in_store s)) = (r, m) \<Longrightarrow>
    init_step U D S dir s (put_files s m)"
| destroy: "S sy \<Longrightarrow> U sid \<Longrightarrow> D sid \<Longrightarrow> destroy_session sy dir sid (so_files (in_store s)) = (r, m) \<Longrightarrow>
    init_step U D S dir s (put_files s m)"
| lock: "S sy \<Longrightarrow> U sid \<Longrightarrow> in_phase s h = PIdle \<Longrightarrow> try_acquire_init_lock sy dir h sid (in_store s) = (r, st) \<Longrightarrow>
    init_step U D S dir s
      (set_run h (case r of Inl e \<Rightarrow> PIdle | Inr None \<Rightarrow> PContended sid | Inr (Some i) \<Rightarrow> PLocked sid i) st s)"
| check_locked: "S sy \<Longrightarrow> in_phase s h = PLocked sid i \<Longrightarrow>
    init_step U D S dir s
      (set_run h (PRunning sid (\<not> is_initialized sy dir sid (so_files (in_store s))) (Some i)) (in_store s) s)"
| check_contended: "S sy \<Longrightarrow> in_phase s h = PContended sid \<Longrightarrow>
    init_step U D S dir s
      (set_run h (if is_initialized sy dir sid (so_files (in_store s)) then PRunning sid False None else PIdle)
         (in_store s) s)"
| mark: "S sy \<Longrightarrow> in_phase s h = PRunning sid True l \<Longrightarrow>
    mark_initialized sy dir tmp stamp sid (in_store s) = (r, st) \<Longrightarrow>
    init_step U D S dir s (set_run h (PDone l) st s)"
| give_up: "in_phase s h = PRunning sid n l \<Longrightarrow> init_step U D S dir s (set_run h (PDone l) (in_store s) s)"
| unlock: "in_phase s h = PDone l \<Longrightarrow>
    init_step U D S dir s (set_run h PIdle (release_held (PDone l) (in_store s)) s)"
| die: "init_step U D S dir s (set_run h PIdle (release_held (in_phase s h) (in_store s)) s)"

text \<open>The sequential function is the lock step followed by the check.\<close>

lemma prepare_is_steps:
  assumes "prepare_lifecycle_hooks q sy dir h hooks sid st = (Inr (n, l), st')" and "has_init_hooks hooks"
    and "S sy" and "U sid" and "in_phase s h = PIdle" and "in_store s = st"
  shows "(init_step U D S dir)\<^sup>*\<^sup>* s (set_run h (PRunning sid n l) st' s)"
proof -
  obtain r st1 where t: "try_acquire_init_lock sy dir h sid (in_store s) = (r, st1)"
    by (cases "try_acquire_init_lock sy dir h sid (in_store s)")
  let ?s1 = "set_run h (case r of Inl e \<Rightarrow> PIdle | Inr None \<Rightarrow> PContended sid | Inr (Some i) \<Rightarrow> PLocked sid i) st1 s"
  have s1: "init_step U D S dir s ?s1"
    using assms(3,4,5) t by (rule init_step.lock)
  have v: "validate_lifecycle_hooks q hooks = None"
    using assms(1) by (auto simp: prepare_lifecycle_hooks_def split: option.splits)
  have "init_step U D S dir ?s1 (set_run h (PRunning sid n l) st' s)"
  proof (cases r)
    case (Inl e)
    with assms(1,2,6) t v show ?thesis by (simp add: prepare_lifecycle_hooks_def)
  next
    case (Inr o1)
    show ?thesis
    proof (cases o1)
      case None
      have i: "is_initialized sy dir sid (so_files st1)" "st' = st1" "n = False" "l = None"
        using assms(1,2,6) t v Inr None by (auto simp: prepare_lifecycle_hooks_def split: if_splits)
      have p: "in_phase ?s1 h = PContended sid" using Inr None by simp
      have "set_run h (PRunning sid n l) st' s =
          set_run h (if is_initialized sy dir sid (so_files (in_store ?s1)) then PRunning sid False None else PIdle)
            (in_store ?s1) ?s1"
        by (simp add: i)
      then show ?thesis
        using init_step.check_contended [where s = ?s1 and U = U and D = D and dir = dir and S = S and sy = sy
            and h = h and sid = sid, OF assms(3) p] by (simp only:)
    next
      case (Some i)
      have e: "n = (\<not> is_initialized sy dir sid (so_files st1))" "st' = st1" "l = Some i"
        using assms(1,2,6) t v Inr Some by (auto simp: prepare_lifecycle_hooks_def)
      have p: "in_phase ?s1 h = PLocked sid i" using Inr Some by simp
      have "set_run h (PRunning sid n l) st' s =
          set_run h (PRunning sid (\<not> is_initialized sy dir sid (so_files (in_store ?s1))) (Some i)) (in_store ?s1) ?s1"
        by (simp add: e)
      then show ?thesis
        using init_step.check_locked [where s = ?s1 and U = U and D = D and dir = dir and S = S and sy = sy
            and h = h and sid = sid, OF assms(3) p] by (simp only:)
    qed
  qed
  with s1 show ?thesis by simp
qed

section \<open>The invariant\<close>

text \<open>\<open>R\<close> is the location of the sessions directory, \<open>sid\<close> a session that is never destroyed.\<close>

definition lock_file_is :: "loc \<Rightarrow> string \<Rightarrow> fsys \<Rightarrow> nat \<Rightarrow> bool" where
  "lock_file_is R sid m i \<longleftrightarrow> (\<exists>md c. m (R @ [sid, init_lock_file]) = Some (File i md c))"

definition way_clear :: "loc \<Rightarrow> string \<Rightarrow> fsys \<Rightarrow> bool" where
  "way_clear R sid m \<longleftrightarrow>
     (\<forall>q i md c. strict_prefix q (R @ [sid, init_marker_file]) \<longrightarrow> m q \<noteq> Some (File i md c))"

definition init_ok :: "loc \<Rightarrow> string \<Rightarrow> init_state \<Rightarrow> bool" where
  "init_ok R sid s \<longleftrightarrow>
     (\<forall>i h. so_locks (in_store s) i = Some h \<longleftrightarrow> holds (in_phase s h) = Some i) \<and>
     (\<forall>h i. (in_phase s h = PLocked sid i \<or> (\<exists>n. in_phase s h = PRunning sid n (Some i))) \<longrightarrow>
        lock_file_is R sid (so_files (in_store s)) i) \<and>
     (\<forall>h l. in_phase s h = PRunning sid True l \<longrightarrow>
        l \<noteq> None \<and> so_files (in_store s) (R @ [sid, init_marker_file]) = None) \<and>
     way_clear R sid (so_files (in_store s)) \<and>
     (\<forall>h. phase_sid (in_phase s h) \<noteq> Some ''.'')"

text \<open>At most one run has the init hooks to run.\<close>

lemma init_ok_single:
  assumes "init_ok R sid s" and "in_phase s h = PRunning sid True l" and "in_phase s k = PRunning sid True l'"
  shows "h = k"
proof -
  obtain i j where l: "l = Some i" "l' = Some j"
    using assms unfolding init_ok_def by blast
  then have "lock_file_is R sid (so_files (in_store s)) i" "lock_file_is R sid (so_files (in_store s)) j"
    using assms unfolding init_ok_def by blast+
  then have "i = j" by (auto simp: lock_file_is_def)
  moreover have "so_locks (in_store s) i = Some h" "so_locks (in_store s) j = Some k"
    using assms l unfolding init_ok_def by simp_all
  ultimately show ?thesis by simp
qed

text \<open>What a change of the files must keep.\<close>

definition files_keep :: "loc \<Rightarrow> string \<Rightarrow> fsys \<Rightarrow> fsys \<Rightarrow> bool" where
  "files_keep R sid m m' \<longleftrightarrow>
     (\<forall>i. lock_file_is R sid m i \<longrightarrow> lock_file_is R sid m' i) \<and> (way_clear R sid m \<longrightarrow> way_clear R sid m')"

lemma files_keep_refl [simp]: "files_keep R sid m m"
  by (simp add: files_keep_def)

lemma init_ok_files:
  assumes "init_ok R sid s" and "files_keep R sid (so_files (in_store s)) m"
    and "so_files (in_store s) (R @ [sid, init_marker_file]) = None \<Longrightarrow> m (R @ [sid, init_marker_file]) = None"
  shows "init_ok R sid (put_files s m)"
  using assms unfolding init_ok_def files_keep_def by auto

lemma init_ok_run:
  assumes "init_ok R sid s"
    and "files_keep R sid (so_files (in_store s)) (so_files st)"
    and "\<And>i k. so_locks st i = Some k \<longleftrightarrow> holds (((in_phase s)(h := p)) k) = Some i"
    and "\<And>i. p = PLocked sid i \<or> (\<exists>n. p = PRunning sid n (Some i)) \<Longrightarrow> lock_file_is R sid (so_files st) i"
    and "\<And>l. p = PRunning sid True l \<Longrightarrow> l \<noteq> None \<and> so_files st (R @ [sid, init_marker_file]) = None"
    and "\<And>k l. k \<noteq> h \<Longrightarrow> in_phase s k = PRunning sid True l \<Longrightarrow> so_files st (R @ [sid, init_marker_file]) = None"
    and "phase_sid p \<noteq> Some ''.''"
  shows "init_ok R sid (set_run h p st s)"
proof -
  have "lock_file_is R sid (so_files st) i"
    if "((in_phase s)(h := p)) k = PLocked sid i \<or> (\<exists>n. ((in_phase s)(h := p)) k = PRunning sid n (Some i))" for k i
  proof (cases "k = h")
    case True
    with that assms(4) show ?thesis by simp
  next
    case False
    with that have "in_phase s k = PLocked sid i \<or> (\<exists>n. in_phase s k = PRunning sid n (Some i))"
      by simp
    then have "lock_file_is R sid (so_files (in_store s)) i"
      using assms(1) unfolding init_ok_def by blast
    with assms(2) show ?thesis by (simp add: files_keep_def)
  qed
  moreover have "l \<noteq> None \<and> so_files st (R @ [sid, init_marker_file]) = None"
    if "((in_phase s)(h := p)) k = PRunning sid True l" for k l
  proof (cases "k = h")
    case True
    with that assms(5) show ?thesis by simp
  next
    case False
    with that have k: "in_phase s k = PRunning sid True l" by simp
    then have "l \<noteq> None" using assms(1) unfolding init_ok_def by blast
    with assms(6) [OF False k] show ?thesis by simp
  qed
  moreover have "way_clear R sid (so_files st)"
    using assms(1,2) by (simp add: init_ok_def files_keep_def)
  moreover have "phase_sid (((in_phase s)(h := p)) k) \<noteq> Some ''.''" for k
    using assms(1,7) unfolding init_ok_def by simp
  ultimately show ?thesis
    using assms(3) unfolding init_ok_def by simp
qed

subsection \<open>Every step keeps it\<close>

lemma strict_prefix_marker: "strict_prefix q (R @ [sid, init_marker_file]) \<Longrightarrow> q \<noteq> R @ [sid', name]"
  using prefix_length_less by fastforce

lemma way_clear_put: "way_clear R sid m \<Longrightarrow> way_clear R sid (m(R @ [sid', name] \<mapsto> n))"
  unfolding way_clear_def using strict_prefix_marker by auto

lemma way_clear_mono:
  assumes "\<And>q i md c. m' q = Some (File i md c) \<Longrightarrow> m q = Some (File i md c)" and "way_clear R sid m"
  shows "way_clear R sid m'"
  unfolding way_clear_def
proof (intro allI impI notI)
  fix q i md c
  assume "strict_prefix q (R @ [sid, init_marker_file])" and "m' q = Some (File i md c)"
  then show False
    using assms(1) [of q i md c] assms(2) by (simp add: way_clear_def)
qed

lemma create_keeps:
  assumes "create_session sy dir rnd sid0 m = (r, m')" and "sid0 \<noteq> ''.''" and "R = locate sy dir"
  shows "files_keep R sid m m'" and "m' (R @ [sid, init_marker_file]) = m (R @ [sid, init_marker_file])"
proof -
  note f = create_frame [OF assms(1,2)]
  have b: "m q = Some (File i md c)" if "m' q = Some (File i md c)" for q i md c
    by (rule mp [OF conjunct1 [OF conjunct2 [OF f]] that])
  have "way_clear R sid m \<longrightarrow> way_clear R sid m'"
    by (intro impI, erule way_clear_mono [rotated], erule b)
  moreover have k: "m q = Some n \<Longrightarrow> m' q = Some n" for q n
    using mp [OF conjunct1 [OF f [of q]]] by simp
  have "lock_file_is R sid m i \<longrightarrow> lock_file_is R sid m' i" for i
    unfolding lock_file_is_def by (intro impI, elim exE, intro exI, erule k)
  ultimately show "files_keep R sid m m'"
    by (simp add: files_keep_def)
  have "init_marker_file \<noteq> ''.claude''" by (simp add: init_marker_file_def)
  then have "\<forall>x. \<not> prefix (R @ [sid, init_marker_file]) (locate sy dir @ [x, ''.claude''])"
    using assms(3) by simp
  then show "m' (R @ [sid, init_marker_file]) = m (R @ [sid, init_marker_file])"
    by (rule mp [OF conjunct2 [OF conjunct2 [OF f]]])
qed

lemma destroy_keeps:
  assumes "destroy_session sy dir sid' m = (r, m')" and "sid' \<noteq> ''.''" and "sid' \<noteq> sid" and "R = locate sy dir"
  shows "files_keep R sid m m'" and "m' (R @ [sid, init_marker_file]) = m (R @ [sid, init_marker_file])"
proof -
  note f = destroy_frame [OF assms(1,2)]
  have n: "\<not> prefix (locate sy dir @ [sid']) (R @ [sid, name])" for name
    using assms(3,4) by simp
  have b: "m q = Some x" if "m' q = Some x" for q x
    by (rule mp [OF conjunct1 [OF f] that])
  have "way_clear R sid m \<longrightarrow> way_clear R sid m'"
    by (intro impI, erule way_clear_mono [rotated], erule b)
  moreover have e: "m' (R @ [sid, name]) = m (R @ [sid, name])" for name
    by (rule mp [OF conjunct2 [OF f] n])
  have "lock_file_is R sid m i \<longrightarrow> lock_file_is R sid m' i" for i
    unfolding lock_file_is_def e by (rule impI)
  ultimately show "files_keep R sid m m'"
    by (simp add: files_keep_def)
  show "m' (R @ [sid, init_marker_file]) = m (R @ [sid, init_marker_file])"
    by (rule e)
qed

lemma lock_keeps:
  assumes "try_acquire_init_lock sy dir h sid' st = (r, st')" and "sid' \<noteq> ''.''" and "R = locate sy dir"
  shows "files_keep R sid (so_files st) (so_files st')"
    and "so_files st' (R @ [sid, init_marker_file]) = so_files st (R @ [sid, init_marker_file])"
    and "r = Inr (Some i) \<Longrightarrow> validate_session_id sid' = None \<and> lock_file_is R sid' (so_files st') i \<and>
           so_locks st i = None \<and> so_locks st' = (so_locks st)(i \<mapsto> h)"
    and "\<forall>i. r \<noteq> Inr (Some i) \<Longrightarrow> so_locks st' = so_locks st"
proof -
  note c = try_acquire_cases [OF assms(1)]
  have l: "lock_at sy dir sid' = R @ [sid', init_lock_file]" if "validate_session_id sid' = None"
    using session_loc_eq [OF that assms(2), of sy dir] assms(3) by simp
  have d: "so_files st' = so_files st \<or>
      so_files st (R @ [sid', init_lock_file]) = None \<and>
      so_files st' = (so_files st)(R @ [sid', init_lock_file] \<mapsto> File (so_inode st) mode_0600 [])"
    using conjunct1 [OF c] l by auto
  then show "files_keep R sid (so_files st) (so_files st')"
  proof (elim disjE conjE)
    assume n: "so_files st (R @ [sid', init_lock_file]) = None"
      and e: "so_files st' = (so_files st)(R @ [sid', init_lock_file] \<mapsto> File (so_inode st) mode_0600 [])"
    have "lock_file_is R sid (so_files st) i \<longrightarrow> lock_file_is R sid (so_files st') i" for i
      using n unfolding e lock_file_is_def by auto
    then show ?thesis
      unfolding e files_keep_def by (simp add: way_clear_put)
  qed simp
  show "so_files st' (R @ [sid, init_marker_file]) = so_files st (R @ [sid, init_marker_file])"
    using d by auto
  show "r = Inr (Some i) \<Longrightarrow> validate_session_id sid' = None \<and> lock_file_is R sid' (so_files st') i \<and>
           so_locks st i = None \<and> so_locks st' = (so_locks st)(i \<mapsto> h)"
    using c l by (simp add: lock_file_is_def)
  show "\<forall>i. r \<noteq> Inr (Some i) \<Longrightarrow> so_locks st' = so_locks st"
    using c by (auto split: sum.splits option.splits)
qed

lemma mark_keeps:
  assumes "mark_initialized sy dir tmp stamp sid' st = (r, st')" and "sid' \<noteq> ''.''" and "R = locate sy dir"
  shows "files_keep R sid (so_files st) (so_files st')"
    and "sid' \<noteq> sid \<Longrightarrow> so_files st' (R @ [sid, init_marker_file]) = so_files st (R @ [sid, init_marker_file])"
    and "so_locks st' = so_locks st"
proof -
  note c = mark_initialized_cases [OF assms(1)]
  have l: "marker_at sy dir sid' = R @ [sid', init_marker_file]" if "validate_session_id sid' = None"
    using session_loc_eq [OF that assms(2), of sy dir] assms(3) by simp
  have d: "so_files st' = so_files st \<or>
      so_files st' = (so_files st)(R @ [sid', init_marker_file] \<mapsto> File (so_inode st) mode_0600 stamp)"
    using c l by (auto split: option.splits)
  have ne: "init_lock_file \<noteq> init_marker_file"
    using marker_neq_lock by metis
  show "files_keep R sid (so_files st) (so_files st')"
    using d ne by (auto simp: files_keep_def lock_file_is_def way_clear_put)
  show "sid' \<noteq> sid \<Longrightarrow> so_files st' (R @ [sid, init_marker_file]) = so_files st (R @ [sid, init_marker_file])"
    using d by auto
  show "so_locks st' = so_locks st"
    using c by simp
qed

text \<open>The marker is seen when it is there: nothing on the way to it is a file, and \<^verbatim>\<open>Stat\<close> does not fail.\<close>

lemma way_clear_seen:
  assumes "way_clear R sid m" and "validate_session_id sid = None" and "sid \<noteq> ''.''" and "R = locate sy dir"
    and "\<forall>p. sy_fault sy (CallStat p) = None"
  shows "is_initialized sy dir sid m \<longleftrightarrow> m (R @ [sid, init_marker_file]) \<noteq> None"
proof -
  have l: "marker_at sy dir sid = R @ [sid, init_marker_file]"
    using session_loc_eq [OF assms(2,3), of sy dir] assms(4) by simp
  have "\<not> through_file m (R @ [sid, init_marker_file])"
    using assms(1)
    by (auto simp: through_file_def list_ex_iff set_butlast_steps way_clear_def is_dir_def split: option.splits node.splits)
  then show ?thesis
    unfolding is_initialized_eq [OF assms(2)] l os_stat_def using assms(5)
    by (auto split: option.split)
qed

text \<open>A run that leaves its phase without changing a file.\<close>

lemma init_ok_leave:
  assumes "init_ok R sid s" and "holds p = holds (in_phase s h)"
    and "\<And>i. p = PLocked sid i \<or> (\<exists>n. p = PRunning sid n (Some i)) \<Longrightarrow> lock_file_is R sid (so_files (in_store s)) i"
    and "\<And>l. p = PRunning sid True l \<Longrightarrow> l \<noteq> None \<and> so_files (in_store s) (R @ [sid, init_marker_file]) = None"
    and "phase_sid p \<noteq> Some ''.''"
  shows "init_ok R sid (set_run h p (in_store s) s)"
proof (rule init_ok_run [OF assms(1) files_keep_refl _ assms(3,4) _ assms(5)])
  show "so_locks (in_store s) i = Some k \<longleftrightarrow> holds (((in_phase s)(h := p)) k) = Some i" for i k
    using assms(1,2) unfolding init_ok_def by simp
  show "so_files (in_store s) (R @ [sid, init_marker_file]) = None" if "in_phase s k = PRunning sid True l" for k l
    using assms(1) that unfolding init_ok_def by blast
qed

lemma init_ok_release:
  assumes "init_ok R sid s"
  shows "init_ok R sid (set_run h PIdle (release_held (in_phase s h) (in_store s)) s)"
proof (rule init_ok_run [OF assms])
  have f: "so_files (release_held p st) = so_files st" for p st
    by (simp add: release_held_def release_init_lock_def split: option.split)
  show "files_keep R sid (so_files (in_store s)) (so_files (release_held (in_phase s h) (in_store s)))"
    unfolding f by simp
  show "so_files (release_held (in_phase s h) (in_store s)) (R @ [sid, init_marker_file]) = None"
    if "in_phase s k = PRunning sid True l" for k l
    using assms that unfolding f init_ok_def by blast
  have locks: "so_locks (in_store s) i = Some k \<longleftrightarrow> holds (in_phase s k) = Some i" for i k
    using assms unfolding init_ok_def by blast
  show "so_locks (release_held (in_phase s h) (in_store s)) i = Some k \<longleftrightarrow>
      holds (((in_phase s)(h := PIdle)) k) = Some i" for i k
  proof (cases "holds (in_phase s h)")
    case None
    with locks [of i k] locks [of i h] show ?thesis
      by (auto simp: release_held_def)
  next
    case (Some j)
    then have "so_locks (in_store s) j = Some h" using locks by simp
    with Some locks [of i k] locks [of i h] show ?thesis
      by (auto simp: release_held_def release_init_lock_def)
  qed
qed simp_all

lemma init_step_ok:
  assumes "init_step U D S dir s s'" and "init_ok R sid s"
    and "validate_session_id sid = None" and "sid \<noteq> ''.''" and "\<not> U ''.''" and "\<not> D sid"
    and "\<And>sy. S sy \<Longrightarrow> locate sy dir = R \<and> (\<forall>p. sy_fault sy (CallStat p) = None)"
  shows "init_ok R sid s'"
  using assms(1,2)
proof (cases rule: init_step.cases)
  case (create sy sid' rnd r m)
  have "sid' \<noteq> ''.''" using create(3) assms(5) by metis
  then show ?thesis
    unfolding create(1) using create_keeps [OF create(4) _ assms(7) [OF create(2), THEN conjunct1, symmetric], of sid]
    by (intro init_ok_files [OF assms(2)]) simp_all
next
  case (destroy sy sid' r m)
  have "sid' \<noteq> ''.''" "sid' \<noteq> sid" using destroy(3,4) assms(5,6) by metis+
  then show ?thesis
    unfolding destroy(1)
    using destroy_keeps [OF destroy(5) _ _ assms(7) [OF destroy(2), THEN conjunct1, symmetric], of sid]
    by (intro init_ok_files [OF assms(2)]) simp_all
next
  case (lock sy sid' h r st)
  have dot: "sid' \<noteq> ''.''" using lock(3) assms(5) by metis
  note k = lock_keeps [OF lock(5) dot, of R] and R = assms(7) [OF lock(2), THEN conjunct1, symmetric]
  let ?p = "case r of Inl e \<Rightarrow> PIdle | Inr None \<Rightarrow> PContended sid' | Inr (Some i) \<Rightarrow> PLocked sid' i"
  have idle: "holds (in_phase s h) = None" using lock(4) by simp
  have locks: "so_locks (in_store s) i = Some x \<longleftrightarrow> holds (in_phase s x) = Some i" for i x
    using assms(2) unfolding init_ok_def by blast
  show ?thesis
    unfolding lock(1)
  proof (rule init_ok_run [OF assms(2) k(1) [OF R]])
    fix i x
    show "so_locks st i = Some x \<longleftrightarrow> holds (((in_phase s)(h := ?p)) x) = Some i"
    proof (cases "\<exists>j. r = Inr (Some j)")
      case True
      then obtain j where j: "r = Inr (Some j)" by blast
      have "so_locks (in_store s) j = None" "so_locks st = (so_locks (in_store s))(j \<mapsto> h)"
        using k(3) [OF R j] by simp_all
      with locks [of i x] locks [of i h] idle j locks [of j x] show ?thesis by auto
    next
      case False
      then have "so_locks st = so_locks (in_store s)" using k(4) [OF R] by blast
      moreover have "holds ?p = None" using False by (auto split: sum.split option.split)
      ultimately show ?thesis using locks [of i x] locks [of i h] idle by auto
    qed
  next
    fix i assume "?p = PLocked sid i \<or> (\<exists>n. ?p = PRunning sid n (Some i))"
    then have "r = Inr (Some i)" "sid' = sid" by (auto split: sum.splits option.splits)
    then show "lock_file_is R sid (so_files st) i" using k(3) [OF R] by blast
  next
    fix l assume "?p = PRunning sid True l"
    then show "l \<noteq> None \<and> so_files st (R @ [sid, init_marker_file]) = None" by (auto split: sum.splits option.splits)
  next
    fix x l assume "in_phase s x = PRunning sid True l"
    then show "so_files st (R @ [sid, init_marker_file]) = None"
      using assms(2) k(2) [OF R] unfolding init_ok_def by metis
  next
    show "phase_sid ?p \<noteq> Some ''.''" using dot by (auto split: sum.split option.split)
  qed
next
  case (check_locked sy h sid' i)
  let ?m = "so_files (in_store s)"
  have f: "lock_file_is R sid ?m i" if "sid' = sid"
    using assms(2) check_locked(3) that unfolding init_ok_def by blast
  have seen: "is_initialized sy dir sid ?m \<longleftrightarrow> ?m (R @ [sid, init_marker_file]) \<noteq> None"
    using assms(2) assms(7) [OF check_locked(2)]
    by (intro way_clear_seen) (auto simp: init_ok_def assms(3,4))
  have "phase_sid (in_phase s h) \<noteq> Some ''.''"
    using assms(2) unfolding init_ok_def by blast
  then have "sid' \<noteq> ''.''" using check_locked(3) by simp
  then show ?thesis
    unfolding check_locked(1) using f seen
    by (intro init_ok_leave [OF assms(2)]) (auto simp: check_locked(3))
next
  case (check_contended sy h sid')
  have "phase_sid (in_phase s h) \<noteq> Some ''.''"
    using assms(2) unfolding init_ok_def by blast
  then have "sid' \<noteq> ''.''" using check_contended(3) by simp
  then show ?thesis
    unfolding check_contended(1)
    by (intro init_ok_leave [OF assms(2)]) (auto simp: check_contended(3) split: if_splits)
next
  case (mark sy h sid' l tmp stamp r st)
  have "phase_sid (in_phase s h) \<noteq> Some ''.''"
    using assms(2) unfolding init_ok_def by blast
  then have dot: "sid' \<noteq> ''.''" using mark(3) by simp
  note k = mark_keeps [OF mark(4) dot, of R] and R = assms(7) [OF mark(2), THEN conjunct1, symmetric]
  show ?thesis
    unfolding mark(1)
  proof (rule init_ok_run [OF assms(2) k(1) [OF R]])
    fix i x
    have "so_locks (in_store s) i = Some x \<longleftrightarrow> holds (in_phase s x) = Some i"
      using assms(2) unfolding init_ok_def by blast
    then show "so_locks st i = Some x \<longleftrightarrow> holds (((in_phase s)(h := PDone l)) x) = Some i"
      using k(3) [OF R] mark(3) by auto
  next
    fix x l' assume x: "x \<noteq> h" "in_phase s x = PRunning sid True l'"
    have "sid' \<noteq> sid"
      using init_ok_single [OF assms(2) x(2)] mark(3) x(1) by metis
    then show "so_files st (R @ [sid, init_marker_file]) = None"
      using k(2) [OF R] assms(2) x(2) unfolding init_ok_def by metis
  qed simp_all
next
  case (give_up h sid' n l)
  show ?thesis
    unfolding give_up(1)
    by (rule init_ok_leave [OF assms(2)]) (simp_all add: give_up(2))
next
  case (unlock h l)
  then show ?thesis
    using init_ok_release [OF assms(2), of h] by simp
next
  case (die h)
  then show ?thesis
    using init_ok_release [OF assms(2), of h] by simp
qed

definition init_start :: "loc \<Rightarrow> string \<Rightarrow> init_state \<Rightarrow> bool" where
  "init_start R sid s \<longleftrightarrow>
     (\<forall>h. in_phase s h = PIdle) \<and> so_locks (in_store s) = Map.empty \<and> way_clear R sid (so_files (in_store s))"

lemma init_start_ok: "init_start R sid s \<Longrightarrow> init_ok R sid s"
  by (simp add: init_start_def init_ok_def)

lemma init_reachable_ok:
  assumes "(init_step U D S dir)\<^sup>*\<^sup>* s s'" and "init_ok R sid s"
    and "validate_session_id sid = None" and "sid \<noteq> ''.''" and "\<not> U ''.''" and "\<not> D sid"
    and "\<And>sy. S sy \<Longrightarrow> locate sy dir = R \<and> (\<forall>p. sy_fault sy (CallStat p) = None)"
  shows "init_ok R sid s'"
  using assms(1)
proof (induction rule: rtranclp_induct)
  case base
  show ?case by (rule assms(2))
next
  case (step y z)
  show ?case
    by (rule init_step_ok [OF step(2) step(3) assms(3-7)])
qed

section \<open>What the protocol guarantees\<close>


definition sample_init :: init_state where
  "sample_init = \<lparr>in_store = \<lparr>so_files = sample_files, so_inode = 0, so_locks = Map.empty\<rparr>, in_phase = (\<lambda>_. PIdle)\<rparr>"

definition sample_locked :: store where
  "sample_locked = \<lparr>so_files = sample_files([''s'', ''a'', init_lock_file] \<mapsto> File 0 mode_0600 []),
     so_inode = 1, so_locks = [0 \<mapsto> 0]\<rparr>"

lemma sample_clear: "way_clear [''s''] ''a'' sample_files"
  by (simp add: way_clear_def sample_files_def)

lemma sample_lock:
  "try_acquire_init_lock sample_sys ''/s'' 0 ''a'' (in_store sample_init) =
     (Inr (Some 0), sample_locked)"
proof -
  have v: "validate_session_id ''a'' = None" by (simp add: validate_session_id_def)
  have l: "session_loc sample_sys ''/s'' ''a'' = [''s'', ''a'']"
    using session_loc_eq [OF v, of sample_sys "''/s''"] sample_root by simp
  have "sample_files [''s'', ''a'', init_lock_file] = None"
    by (simp add: sample_files_def)
  moreover have "sample_files [''s'', ''a''] = Some (Dir 448)"
    by (simp add: sample_files_def)
  moreover have "os_stat sample_sys sample_files [''s'', ''a''] \<noteq> StatMissing"
    by (simp add: os_stat_def sample_sys_def sample_files_def)
  ultimately show ?thesis
    unfolding try_acquire_init_lock_def lock_loc Let_def l
    by (simp add: v sample_init_def sample_sys_def sample_locked_def)
qed

definition sample_running :: init_state where
  "sample_running = \<lparr>in_store = sample_locked, in_phase = (\<lambda>_. PIdle)(0 := PRunning ''a'' True (Some 0))\<rparr>"

lemma sample_running_reachable:
  "(init_step (\<lambda>x. x = ''a'') (\<lambda>_. False) (\<lambda>sy. sy = sample_sys) ''/s'')\<^sup>*\<^sup>* sample_init sample_running"
proof -
  let ?step = "init_step (\<lambda>x. x = ''a'') (\<lambda>_. False) (\<lambda>sy. sy = sample_sys) ''/s''"
  define s1 where "s1 = \<lparr>in_store = sample_locked, in_phase = (\<lambda>_. PIdle)(0 := PLocked ''a'' 0)\<rparr>"
  have "?step sample_init (set_run 0 (case Inr (Some 0) of Inl (e :: go_error) \<Rightarrow> PIdle | Inr None \<Rightarrow> PContended ''a''
      | Inr (Some i) \<Rightarrow> PLocked ''a'' i) sample_locked sample_init)"
    by (rule init_step.lock [where sy = sample_sys and r = "Inr (Some 0)"])
       (simp_all only: sample_lock, simp_all add: sample_init_def)
  then have a: "?step sample_init s1"
    by (simp add: s1_def sample_init_def)
  have v: "validate_session_id ''a'' = None" by (simp add: validate_session_id_def)
  have "way_clear [''s''] ''a'' (so_files sample_locked)"
    using way_clear_put [of "[''s'']" "''a''" sample_files "''a''" init_lock_file] sample_clear
    by (simp add: sample_locked_def)
  then have "is_initialized sample_sys ''/s'' ''a'' (so_files sample_locked) \<longleftrightarrow>
      so_files sample_locked ([''s''] @ [''a'', init_marker_file]) \<noteq> None"
    by (rule way_clear_seen) (simp_all add: v sample_root [symmetric], simp add: sample_sys_def)
  then have n: "\<not> is_initialized sample_sys ''/s'' ''a'' (so_files sample_locked)"
    by (simp add: sample_locked_def sample_files_def)
  have "?step s1 (set_run 0 (PRunning ''a'' (\<not> is_initialized sample_sys ''/s'' ''a'' (so_files (in_store s1))) (Some 0))
      (in_store s1) s1)"
    by (rule init_step.check_locked) (simp_all add: s1_def)
  then have "?step s1 sample_running"
    using n by (simp add: s1_def sample_running_def)
  with a show ?thesis
    by (meson converse_rtranclp_into_rtranclp rtranclp.rtrancl_refl)
qed


end
