(* ===== verification/Podman_Builder.thy ===== *)
theory Podman_Builder
  imports Go_Text
begin

text \<open>
  The builder of \<^verbatim>\<open>podman run\<close> commands, \<^verbatim>\<open>internal/podman/builder.go\<close>, and a reader of such commands that
  follows the documented command line of \<^verbatim>\<open>podman run [options] image [command]\<close>: options end at the first
  argument that does not start with a dash.
\<close>

section \<open>The builder\<close>

record podman_builder =
  pm_name :: string
  pm_image :: string
  pm_env :: "string \<rightharpoonup> string"
  pm_volumes :: "string list"
  pm_mounts :: "string list"
  pm_secrets :: "string list"
  pm_tmpfs :: "string list"
  pm_workdir :: string
  pm_interactive :: bool
  pm_command :: "string list"
  pm_memory :: string
  pm_cpus :: string
  pm_cpu_shares :: "int option"
  pm_user :: string
  pm_keep_id :: bool

definition new_command :: podman_builder where
  "new_command =
     \<lparr>pm_name = [], pm_image = [], pm_env = Map.empty, pm_volumes = [], pm_mounts = [], pm_secrets = [], pm_tmpfs = [],
      pm_workdir = [], pm_interactive = False, pm_command = [], pm_memory = [], pm_cpus = [], pm_cpu_shares = None,
      pm_user = [], pm_keep_id = False\<rparr>"

definition with_name :: "string \<Rightarrow> podman_builder \<Rightarrow> podman_builder" where
  "with_name n b = b\<lparr>pm_name := n\<rparr>"

definition with_image :: "string \<Rightarrow> podman_builder \<Rightarrow> podman_builder" where
  "with_image i b = b\<lparr>pm_image := i\<rparr>"

definition with_env :: "string \<Rightarrow> string \<Rightarrow> podman_builder \<Rightarrow> podman_builder" where
  "with_env k v b = b\<lparr>pm_env := (pm_env b)(k \<mapsto> v)\<rparr>"

definition with_volume_raw :: "string \<Rightarrow> podman_builder \<Rightarrow> podman_builder" where
  "with_volume_raw v b = b\<lparr>pm_volumes := pm_volumes b @ [v]\<rparr>"

definition with_volume :: "string \<Rightarrow> string \<Rightarrow> podman_builder \<Rightarrow> podman_builder" where
  "with_volume h c b = b\<lparr>pm_volumes := pm_volumes b @ [h @ '':'' @ c]\<rparr>"

definition with_volume_read_only :: "string \<Rightarrow> string \<Rightarrow> podman_builder \<Rightarrow> podman_builder" where
  "with_volume_read_only h c b = b\<lparr>pm_volumes := pm_volumes b @ [h @ '':'' @ c @ '':ro'']\<rparr>"

definition with_volume_chown :: "string \<Rightarrow> string \<Rightarrow> podman_builder \<Rightarrow> podman_builder" where
  "with_volume_chown h c b = b\<lparr>pm_volumes := pm_volumes b @ [h @ '':'' @ c @ '':U'']\<rparr>"

definition with_secret :: "string \<Rightarrow> podman_builder \<Rightarrow> podman_builder" where
  "with_secret n b = b\<lparr>pm_secrets := pm_secrets b @ [n]\<rparr>"

definition with_secret_target :: "string \<Rightarrow> string \<Rightarrow> podman_builder \<Rightarrow> podman_builder" where
  "with_secret_target n t b = b\<lparr>pm_secrets := pm_secrets b @ [n @ '',target='' @ t]\<rparr>"

definition with_secret_env :: "string \<Rightarrow> string \<Rightarrow> podman_builder \<Rightarrow> podman_builder" where
  "with_secret_env n v b = b\<lparr>pm_secrets := pm_secrets b @ [n @ '',type=env,target='' @ v]\<rparr>"

definition with_secret_file :: "string \<Rightarrow> string \<Rightarrow> podman_builder \<Rightarrow> podman_builder" where
  "with_secret_file h c b = b\<lparr>pm_volumes := pm_volumes b @ [h @ '':'' @ c @ '':ro'']\<rparr>"

definition with_tmpfs :: "string \<Rightarrow> podman_builder \<Rightarrow> podman_builder" where
  "with_tmpfs c b = b\<lparr>pm_tmpfs := pm_tmpfs b @ [c]\<rparr>"

definition with_tmpfs_sized :: "string \<Rightarrow> string \<Rightarrow> podman_builder \<Rightarrow> podman_builder" where
  "with_tmpfs_sized c s b = b\<lparr>pm_tmpfs := pm_tmpfs b @ [c @ '':size='' @ s]\<rparr>"

definition with_mount_image :: "string \<Rightarrow> string \<Rightarrow> podman_builder \<Rightarrow> podman_builder" where
  "with_mount_image src dst b = b\<lparr>pm_mounts := pm_mounts b @ [''type=image,src='' @ src @ '',dst='' @ dst]\<rparr>"

definition with_mount :: "string \<Rightarrow> podman_builder \<Rightarrow> podman_builder" where
  "with_mount mnt b = b\<lparr>pm_mounts := pm_mounts b @ [mnt]\<rparr>"

definition with_workdir :: "string \<Rightarrow> podman_builder \<Rightarrow> podman_builder" where
  "with_workdir d b = b\<lparr>pm_workdir := d\<rparr>"

definition with_interactive :: "podman_builder \<Rightarrow> podman_builder" where
  "with_interactive b = b\<lparr>pm_interactive := True\<rparr>"

definition with_command :: "string list \<Rightarrow> podman_builder \<Rightarrow> podman_builder" where
  "with_command cmd b = b\<lparr>pm_command := cmd\<rparr>"

definition with_memory :: "string \<Rightarrow> podman_builder \<Rightarrow> podman_builder" where
  "with_memory l b = b\<lparr>pm_memory := l\<rparr>"

definition with_cpus :: "string \<Rightarrow> podman_builder \<Rightarrow> podman_builder" where
  "with_cpus c b = b\<lparr>pm_cpus := c\<rparr>"

definition with_cpu_shares :: "int \<Rightarrow> podman_builder \<Rightarrow> podman_builder" where
  "with_cpu_shares n b = b\<lparr>pm_cpu_shares := Some n\<rparr>"

definition with_user :: "string \<Rightarrow> podman_builder \<Rightarrow> podman_builder" where
  "with_user u b = b\<lparr>pm_user := u\<rparr>"

definition with_keep_id :: "podman_builder \<Rightarrow> podman_builder" where
  "with_keep_id b = b\<lparr>pm_keep_id := True\<rparr>"

lemmas pm_with_defs = with_name_def with_image_def with_env_def with_volume_raw_def with_volume_def
  with_volume_read_only_def with_volume_chown_def with_secret_def with_secret_target_def with_secret_env_def
  with_secret_file_def with_tmpfs_def with_tmpfs_sized_def with_mount_image_def with_mount_def with_workdir_def
  with_interactive_def with_command_def with_memory_def with_cpus_def with_cpu_shares_def with_user_def with_keep_id_def

text \<open>An option with its value, left out when the value is empty, and one option per element of a list.\<close>

definition flag_value :: "string \<Rightarrow> string \<Rightarrow> string list" where
  "flag_value f v = (if v \<noteq> [] then [f, v] else [])"

definition flag_each :: "string \<Rightarrow> string list \<Rightarrow> string list" where
  "flag_each f vs = concat (map (\<lambda>v. [f, v]) vs)"

text \<open>The entries of the environment map are listed in some iteration order \<open>es\<close>.\<close>

definition entries_of :: "(string \<rightharpoonup> string) \<Rightarrow> (string \<times> string) list \<Rightarrow> bool" where
  "entries_of m es \<longleftrightarrow> distinct (map fst es) \<and> map_of es = m"

definition podman_build :: "(string \<times> string) list \<Rightarrow> podman_builder \<Rightarrow> string list" where
  "podman_build es b =
     [''podman'', ''run'', ''--rm''] @
     (if pm_keep_id b then [''--userns=keep-id''] else []) @
     flag_value ''--user'' (pm_user b) @
     (if pm_interactive b then [''-it''] else []) @
     flag_value ''--name'' (pm_name b) @
     flag_each ''-e'' (map (\<lambda>(k, v). k @ ''='' @ v) es) @
     flag_each ''-v'' (pm_volumes b) @
     flag_each ''--secret'' (pm_secrets b) @
     flag_each ''--mount'' (pm_mounts b) @
     flag_each ''--tmpfs'' (pm_tmpfs b) @
     flag_value ''-w'' (pm_workdir b) @
     flag_value ''--memory'' (pm_memory b) @
     flag_value ''--cpus'' (pm_cpus b) @
     (case pm_cpu_shares b of None \<Rightarrow> [] | Some n \<Rightarrow> [''--cpu-shares'', show_int n]) @
     (if pm_image b \<noteq> [] then [pm_image b] else []) @
     pm_command b"

section \<open>The reader\<close>

definition read_int :: "string \<Rightarrow> int" where
  "read_int s = (case s of [] \<Rightarrow> 0 | c # cs \<Rightarrow> if c = CHR ''-'' then - int (read_nat cs) else int (read_nat s))"

lemma read_show_int: "read_int (show_int n) = n"
proof (cases "n < 0")
  case True
  then show ?thesis by (simp add: read_int_def show_int_def read_show_nat)
next
  case False
  obtain c cs where c: "show_nat (nat n) = c # cs"
    by (cases "show_nat (nat n)") auto
  moreover have "c \<noteq> CHR ''-''"
    using show_nat_digits [of c "nat n"] c by (auto simp: is_digit_def)
  ultimately show ?thesis
    using False by (simp add: read_int_def show_int_def) (metis c int_nat_eq not_less read_show_nat)
qed

text \<open>What a run asks for: the builder's fields, and the privileged switch that the builder never sets.\<close>

record run_spec = podman_builder +
  rs_privileged :: bool

definition empty_spec :: run_spec where
  "empty_spec = podman_builder.extend new_command \<lparr>rs_privileged = False\<rparr>"

text \<open>
  The effect of an option with a value; \<open>None\<close> for an option that the reader does not know. A variable given
  without a value is taken from the caller's environment, which a specification does not hold.
\<close>

definition option_table :: "(string \<times> (string \<Rightarrow> run_spec \<Rightarrow> run_spec)) list" where
  "option_table =
       [(''--user'', \<lambda>v s. s\<lparr>pm_user := v\<rparr>),
        (''--name'', \<lambda>v s. s\<lparr>pm_name := v\<rparr>),
        (''-e'', \<lambda>v s. case cut_at (CHR ''='') v of None \<Rightarrow> s | Some (k, x) \<Rightarrow> s\<lparr>pm_env := (pm_env s)(k \<mapsto> x)\<rparr>),
        (''-v'', \<lambda>v s. s\<lparr>pm_volumes := pm_volumes s @ [v]\<rparr>),
        (''--secret'', \<lambda>v s. s\<lparr>pm_secrets := pm_secrets s @ [v]\<rparr>),
        (''--mount'', \<lambda>v s. s\<lparr>pm_mounts := pm_mounts s @ [v]\<rparr>),
        (''--tmpfs'', \<lambda>v s. s\<lparr>pm_tmpfs := pm_tmpfs s @ [v]\<rparr>),
        (''-w'', \<lambda>v s. s\<lparr>pm_workdir := v\<rparr>),
        (''--memory'', \<lambda>v s. s\<lparr>pm_memory := v\<rparr>),
        (''--cpus'', \<lambda>v s. s\<lparr>pm_cpus := v\<rparr>),
        (''--cpu-shares'', \<lambda>v s. s\<lparr>pm_cpu_shares := Some (read_int v)\<rparr>)]"

definition option_effect :: "string \<Rightarrow> (string \<Rightarrow> run_spec \<Rightarrow> run_spec) option" where
  "option_effect f = map_of option_table f"

definition switch_table :: "(string \<times> (run_spec \<Rightarrow> run_spec)) list" where
  "switch_table =
       [(''--rm'', \<lambda>s. s),
        (''--userns=keep-id'', \<lambda>s. s\<lparr>pm_keep_id := True\<rparr>),
        (''-it'', \<lambda>s. s\<lparr>pm_interactive := True\<rparr>),
        (''--privileged'', \<lambda>s. s\<lparr>rs_privileged := True\<rparr>)]"

definition switch_effect :: "string \<Rightarrow> (run_spec \<Rightarrow> run_spec) option" where
  "switch_effect f = map_of switch_table f"

fun read_options :: "run_spec \<Rightarrow> string list \<Rightarrow> run_spec option" where
  "read_options s [] = None"
| "read_options s [a] =
     (case switch_effect a of
        Some f \<Rightarrow> None
      | None \<Rightarrow> if has_prefix a ''-'' then None else Some (s\<lparr>pm_image := a, pm_command := []\<rparr>))"
| "read_options s (a # b # args) =
     (case switch_effect a of
        Some f \<Rightarrow> read_options (f s) (b # args)
      | None \<Rightarrow>
          (case option_effect a of
             Some f \<Rightarrow> read_options (f b s) args
           | None \<Rightarrow> if has_prefix a ''-'' then None else Some (s\<lparr>pm_image := a, pm_command := b # args\<rparr>)))"

definition read_run :: "string list \<Rightarrow> run_spec option" where
  "read_run args =
     (case args of p # r # rest \<Rightarrow> if p = ''podman'' \<and> r = ''run'' then read_options empty_spec rest else None
      | _ \<Rightarrow> None)"

section \<open>Reading back what was built\<close>

lemma effects:
  "switch_effect ''--rm'' = Some (\<lambda>s. s)"
  "switch_effect ''--userns=keep-id'' = Some (\<lambda>s. s\<lparr>pm_keep_id := True\<rparr>)"
  "switch_effect ''-it'' = Some (\<lambda>s. s\<lparr>pm_interactive := True\<rparr>)"
  "switch_effect ''--user'' = None" "option_effect ''--user'' = Some (\<lambda>v s. s\<lparr>pm_user := v\<rparr>)"
  "switch_effect ''--name'' = None" "option_effect ''--name'' = Some (\<lambda>v s. s\<lparr>pm_name := v\<rparr>)"
  "switch_effect ''-e'' = None"
  "option_effect ''-e'' =
     Some (\<lambda>v s. case cut_at (CHR ''='') v of None \<Rightarrow> s | Some (k, x) \<Rightarrow> s\<lparr>pm_env := (pm_env s)(k \<mapsto> x)\<rparr>)"
  "switch_effect ''-v'' = None" "option_effect ''-v'' = Some (\<lambda>v s. s\<lparr>pm_volumes := pm_volumes s @ [v]\<rparr>)"
  "switch_effect ''--secret'' = None" "option_effect ''--secret'' = Some (\<lambda>v s. s\<lparr>pm_secrets := pm_secrets s @ [v]\<rparr>)"
  "switch_effect ''--mount'' = None" "option_effect ''--mount'' = Some (\<lambda>v s. s\<lparr>pm_mounts := pm_mounts s @ [v]\<rparr>)"
  "switch_effect ''--tmpfs'' = None" "option_effect ''--tmpfs'' = Some (\<lambda>v s. s\<lparr>pm_tmpfs := pm_tmpfs s @ [v]\<rparr>)"
  "switch_effect ''-w'' = None" "option_effect ''-w'' = Some (\<lambda>v s. s\<lparr>pm_workdir := v\<rparr>)"
  "switch_effect ''--memory'' = None" "option_effect ''--memory'' = Some (\<lambda>v s. s\<lparr>pm_memory := v\<rparr>)"
  "switch_effect ''--cpus'' = None" "option_effect ''--cpus'' = Some (\<lambda>v s. s\<lparr>pm_cpus := v\<rparr>)"
  "switch_effect ''--cpu-shares'' = None"
  "option_effect ''--cpu-shares'' = Some (\<lambda>v s. s\<lparr>pm_cpu_shares := Some (read_int v)\<rparr>)"
  by (simp_all add: switch_effect_def option_effect_def switch_table_def option_table_def)

lemma known_options_dash:
  "switch_effect f = Some g \<Longrightarrow> hd f = CHR ''-''"
  "option_effect f = Some h \<Longrightarrow> hd f = CHR ''-''"
proof -
  have s: "list_all (\<lambda>e. hd (fst e) = CHR ''-'') switch_table" by (simp add: switch_table_def)
  have o: "list_all (\<lambda>e. hd (fst e) = CHR ''-'') option_table" by (simp add: option_table_def)
  show "switch_effect f = Some g \<Longrightarrow> hd f = CHR ''-''"
    using s map_of_SomeD [of switch_table f g] by (auto simp: switch_effect_def list_all_iff)
  show "option_effect f = Some h \<Longrightarrow> hd f = CHR ''-''"
    using o map_of_SomeD [of option_table f h] by (auto simp: option_effect_def list_all_iff)
qed

lemma read_option: "switch_effect f = None \<Longrightarrow> option_effect f = Some g \<Longrightarrow>
   read_options s (f # v # rest) = read_options (g v s) rest"
  by simp

lemma read_switch: "switch_effect f = Some g \<Longrightarrow> rest \<noteq> [] \<Longrightarrow> read_options s (f # rest) = read_options (g s) rest"
  by (cases rest) simp_all

lemma read_flag_value:
  "switch_effect f = None \<Longrightarrow> option_effect f = Some g \<Longrightarrow>
   read_options s (flag_value f v @ rest) = read_options (if v \<noteq> [] then g v s else s) rest"
  by (simp add: flag_value_def)

lemma read_flag_each:
  "switch_effect f = None \<Longrightarrow> option_effect f = Some g \<Longrightarrow>
   read_options s (flag_each f vs @ rest) = read_options (fold g vs s) rest"
  by (induction vs arbitrary: s) (simp_all add: flag_each_def)

lemma read_image:
  "i \<noteq> [] \<Longrightarrow> hd i \<noteq> CHR ''-'' \<Longrightarrow> read_options s (i # cmd) = Some (s\<lparr>pm_image := i, pm_command := cmd\<rparr>)"
proof -
  assume i: "i \<noteq> []" "hd i \<noteq> CHR ''-''"
  have "switch_effect i = None"
    using known_options_dash(1) [of i] i(2) by (cases "switch_effect i") simp_all
  moreover have "option_effect i = None"
    using known_options_dash(2) [of i] i(2) by (cases "option_effect i") simp_all
  moreover have "\<not> has_prefix i ''-''"
    using i by (cases i) auto
  ultimately show ?thesis
    by (cases cmd) simp_all
qed

lemma fold_snoc_field:
  "fold (\<lambda>v s. s\<lparr>pm_volumes := pm_volumes s @ [v]\<rparr>) vs s = s\<lparr>pm_volumes := pm_volumes s @ vs\<rparr>"
  "fold (\<lambda>v s. s\<lparr>pm_secrets := pm_secrets s @ [v]\<rparr>) vs s = s\<lparr>pm_secrets := pm_secrets s @ vs\<rparr>"
  "fold (\<lambda>v s. s\<lparr>pm_mounts := pm_mounts s @ [v]\<rparr>) vs s = s\<lparr>pm_mounts := pm_mounts s @ vs\<rparr>"
  "fold (\<lambda>v s. s\<lparr>pm_tmpfs := pm_tmpfs s @ [v]\<rparr>) vs s = s\<lparr>pm_tmpfs := pm_tmpfs s @ vs\<rparr>"
  by (induction vs arbitrary: s) simp_all

lemma fold_env:
  "\<forall>e \<in> set es. CHR ''='' \<notin> set (fst e) \<Longrightarrow> distinct (map fst es) \<Longrightarrow>
   fold (\<lambda>v s. case cut_at (CHR ''='') v of None \<Rightarrow> s | Some (k, x) \<Rightarrow> s\<lparr>pm_env := (pm_env s)(k \<mapsto> x)\<rparr>)
     (map (\<lambda>(k, v). k @ CHR ''='' # v) es) s = s\<lparr>pm_env := pm_env s ++ map_of es\<rparr>"
proof (induction es arbitrary: s)
  case (Cons e es)
  obtain k v where e: "e = (k, v)" by (cases e)
  have k: "CHR ''='' \<notin> set k" "k \<notin> set (map fst es)" using Cons.prems e by simp_all
  have c: "cut_at (CHR ''='') (k @ CHR ''='' # v) = Some (k, v)"
    by (rule cut_at_append [OF k(1)])
  have a: "(pm_env s)(k \<mapsto> v) ++ map_of es = pm_env s ++ map_of (e # es)"
    unfolding e using map_of_eq_None_iff [of es k] k(2) by (intro ext) (simp add: map_add_def split: option.split)
  have ih: "fold (\<lambda>v s. case cut_at (CHR ''='') v of None \<Rightarrow> s | Some (k, x) \<Rightarrow> s\<lparr>pm_env := (pm_env s)(k \<mapsto> x)\<rparr>)
     (map (\<lambda>(k, v). k @ CHR ''='' # v) es) (s\<lparr>pm_env := (pm_env s)(k \<mapsto> v)\<rparr>) =
     s\<lparr>pm_env := (pm_env s)(k \<mapsto> v) ++ map_of es\<rparr>"
    using Cons.IH [of "s\<lparr>pm_env := (pm_env s)(k \<mapsto> v)\<rparr>"] Cons.prems
    by (simp del: fun_upd_apply)
  show ?case
    unfolding e list.map fold.simps comp_apply prod.case c option.case
    by (rule ih [unfolded a [unfolded e]])
qed simp

definition env_names_ok :: "podman_builder \<Rightarrow> bool" where
  "env_names_ok b \<longleftrightarrow> (\<forall>k \<in> dom (pm_env b). CHR ''='' \<notin> set k)"

lemma read_run_build:
  assumes "entries_of (pm_env b) es" and "env_names_ok b" and "pm_image b \<noteq> []" and "hd (pm_image b) \<noteq> CHR ''-''"
  shows "read_run (podman_build es b) = Some (podman_builder.extend b \<lparr>rs_privileged = False\<rparr>)"
proof -
  have d: "distinct (map fst es)" and m: "map_of es = pm_env b"
    using assms(1) by (simp_all add: entries_of_def)
  have "fst ` set es = dom (pm_env b)"
    unfolding m [symmetric] by (simp add: dom_map_of_conv_image_fst)
  then have k: "\<forall>e \<in> set es. CHR ''='' \<notin> set (fst e)"
    using assms(2) by (auto simp: env_names_ok_def)
  have shares: "read_options s ((case pm_cpu_shares b of None \<Rightarrow> [] | Some n \<Rightarrow> [''--cpu-shares'', show_int n]) @ rest) =
      read_options (case pm_cpu_shares b of None \<Rightarrow> s | Some n \<Rightarrow> s\<lparr>pm_cpu_shares := Some n\<rparr>) rest" for s rest
    by (simp add: effects read_show_int split: option.split)
  have switch: "read_options s ((if c then [f] else []) @ rest) = read_options (if c then g s else s) rest"
    if "switch_effect f = Some g" and "rest \<noteq> []" for s c f g rest
    using read_switch [OF that] by simp
  let ?image = "pm_image b # pm_command b"
  let ?limits = "flag_value ''-w'' (pm_workdir b) @ flag_value ''--memory'' (pm_memory b) @ flag_value ''--cpus'' (pm_cpus b) @
     (case pm_cpu_shares b of None \<Rightarrow> [] | Some n \<Rightarrow> [''--cpu-shares'', show_int n]) @ ?image"
  let ?lists = "flag_each ''-v'' (pm_volumes b) @ flag_each ''--secret'' (pm_secrets b) @
     flag_each ''--mount'' (pm_mounts b) @ flag_each ''--tmpfs'' (pm_tmpfs b) @ ?limits"
  let ?front = "(if pm_keep_id b then [''--userns=keep-id''] else []) @ flag_value ''--user'' (pm_user b) @
     (if pm_interactive b then [''-it''] else []) @ flag_value ''--name'' (pm_name b) @
     flag_each ''-e'' (map (\<lambda>(k, v). k @ ''='' @ v) es) @ ?lists"
  define s1 where "s1 = empty_spec\<lparr>pm_keep_id := pm_keep_id b, pm_user := pm_user b, pm_interactive := pm_interactive b,
     pm_name := pm_name b, pm_env := pm_env b\<rparr>"
  define s2 where "s2 = s1\<lparr>pm_volumes := pm_volumes b, pm_secrets := pm_secrets b, pm_mounts := pm_mounts b,
     pm_tmpfs := pm_tmpfs b\<rparr>"
  define s3 where "s3 = s2\<lparr>pm_workdir := pm_workdir b, pm_memory := pm_memory b, pm_cpus := pm_cpus b,
     pm_cpu_shares := pm_cpu_shares b\<rparr>"
  have image: "(if pm_image b \<noteq> [] then [pm_image b] else []) @ pm_command b = ?image"
    using assms(3) by simp
  have 0: "read_run (podman_build es b) = read_options empty_spec ?front"
    unfolding podman_build_def image by (simp add: read_run_def read_switch effects)
  have "read_options empty_spec ((if pm_keep_id b then [''--userns=keep-id''] else []) @ flag_value ''--user'' (pm_user b) @
     (if pm_interactive b then [''-it''] else []) @ flag_value ''--name'' (pm_name b) @
     flag_each ''-e'' (map (\<lambda>(k, v). k @ CHR ''='' # v) es) @ L) = read_options s1 L" if "L \<noteq> []" for L
    using that
    by (simp only: switch [OF effects(2)] switch [OF effects(3)] read_flag_value [OF effects(4,5)]
        read_flag_value [OF effects(6,7)] read_flag_each [OF effects(8,9)] fold_env [OF k d] append_is_Nil_conv simp_thms)
       (simp add: m s1_def empty_spec_def new_command_def podman_builder.defs)
  from this [of ?lists] have 1: "read_options empty_spec ?front = read_options s1 ?lists"
    by simp
  have 2: "read_options s1 ?lists = read_options s2 ?limits"
    by (simp add: effects read_flag_each fold_snoc_field s2_def s1_def empty_spec_def new_command_def podman_builder.defs)
  have 3: "read_options s2 ?limits = read_options s3 ?image"
    by (simp add: effects read_flag_value shares s3_def s2_def s1_def empty_spec_def new_command_def
        podman_builder.defs split: option.split)
  have 4: "read_options s3 ?image = Some (s3\<lparr>pm_image := pm_image b, pm_command := pm_command b\<rparr>)"
    by (rule read_image [OF assms(3,4)])
  have "s3\<lparr>pm_image := pm_image b, pm_command := pm_command b\<rparr> = podman_builder.extend b \<lparr>rs_privileged = False\<rparr>"
    by (simp add: s3_def s2_def s1_def empty_spec_def new_command_def podman_builder.defs)
  with 0 1 2 3 4 show ?thesis by simp
qed

text \<open>Podman reads from the built command exactly what was put into the builder: every volume, secret,
  mount, variable, limit, the image and the command with its own words, whatever characters they hold
  and in whatever order the variables are listed, and nothing else; in particular no value is taken for
  an option. The variable names hold no equals sign, and the image is not empty and does not start with a dash.
\<close>

lemma podman_build_roundtrip:
  assumes "entries_of (pm_env b) es" and "env_names_ok b" and "pm_image b \<noteq> []" and "hd (pm_image b) \<noteq> CHR ''-''"
  shows "read_run (podman_build es b) = Some (podman_builder.extend b \<lparr>rs_privileged = False\<rparr>)"
  by (rule read_run_build [OF assms])

definition sample_builder :: podman_builder where
  "sample_builder =
     with_command [''--privileged'', ''-v''] (with_volume ''/s/a'' ''/home/user'' (with_memory ''--rm''
       (with_env ''HOME'' ''=/x'' (with_image ''python'' new_command))))"

lemma podman_build_roundtrip_witness:
  "podman_build [(''HOME'', ''=/x'')] sample_builder =
     [''podman'', ''run'', ''--rm'', ''-e'', ''HOME==/x'', ''-v'', ''/s/a:/home/user'', ''--memory'', ''--rm'', ''python'',
      ''--privileged'', ''-v''] \<and>
   read_run (podman_build [(''HOME'', ''=/x'')] sample_builder) =
     Some (podman_builder.extend sample_builder \<lparr>rs_privileged = False\<rparr>)"
proof
  show "podman_build [(''HOME'', ''=/x'')] sample_builder =
     [''podman'', ''run'', ''--rm'', ''-e'', ''HOME==/x'', ''-v'', ''/s/a:/home/user'', ''--memory'', ''--rm'', ''python'',
      ''--privileged'', ''-v'']"
    by code_simp
  have "entries_of (pm_env sample_builder) [(''HOME'', ''=/x'')]" "env_names_ok sample_builder"
    by (simp_all add: entries_of_def env_names_ok_def sample_builder_def pm_with_defs new_command_def)
  moreover have "pm_image sample_builder \<noteq> []" "hd (pm_image sample_builder) \<noteq> CHR ''-''"
    by (simp_all add: sample_builder_def pm_with_defs new_command_def)
  ultimately show "read_run (podman_build [(''HOME'', ''=/x'')] sample_builder) =
     Some (podman_builder.extend sample_builder \<lparr>rs_privileged = False\<rparr>)"
    by (rule podman_build_roundtrip)
qed

end
