(* ===== verification/Claude_Builder.thy ===== *)
theory Claude_Builder
  imports Go_Text
begin

text \<open>
  The builder of Claude command lines, \<^verbatim>\<open>internal/claude/builder.go\<close>, and the application of the request's
  options to it, \<^verbatim>\<open>internal/claude/options.go\<close>. A budget is the exact (rational) value of its float64, and
  an agents object is given by its JSON text.
\<close>

section \<open>The builder\<close>

record claude_builder =
  cl_prompt :: string
  cl_session_id :: string
  cl_resume :: bool
  cl_continue_session :: bool
  cl_fork_session :: bool
  cl_no_persistence :: bool
  cl_model :: string
  cl_fallback_model :: string
  cl_effort :: string
  cl_system_prompt :: string
  cl_append_system_prompt :: string
  cl_tools :: "string list"
  cl_allowed_tools :: "string list"
  cl_disallowed_tools :: "string list"
  cl_permission_mode :: string
  cl_skip_permissions :: bool
  cl_allow_skip_permissions :: bool
  cl_input_format :: string
  cl_output_format :: string
  cl_include_partial :: bool
  cl_replay_user :: bool
  cl_json_schema :: string
  cl_max_budget :: "rat option"
  cl_max_turns :: "int option"
  cl_mcp_configs :: "string list"
  cl_strict_mcp :: bool
  cl_agent :: string
  cl_agents_json :: "string option"
  cl_add_dirs :: "string list"
  cl_plugin_dirs :: "string list"
  cl_settings :: string
  cl_setting_sources :: "string list"
  cl_files :: "string list"
  cl_betas :: "string list"
  cl_verbose :: bool
  cl_debug :: string
  cl_disable_slash :: bool

definition new_claude_builder :: claude_builder where
  "new_claude_builder =
     \<lparr>cl_prompt = [], cl_session_id = [], cl_resume = False, cl_continue_session = False,
      cl_fork_session = False, cl_no_persistence = False, cl_model = [], cl_fallback_model = [],
      cl_effort = [], cl_system_prompt = [], cl_append_system_prompt = [], cl_tools = [],
      cl_allowed_tools = [], cl_disallowed_tools = [], cl_permission_mode = [], cl_skip_permissions = False,
      cl_allow_skip_permissions = False, cl_input_format = [], cl_output_format = [], cl_include_partial = False,
      cl_replay_user = False, cl_json_schema = [], cl_max_budget = None, cl_max_turns = None,
      cl_mcp_configs = [], cl_strict_mcp = False, cl_agent = [], cl_agents_json = None,
      cl_add_dirs = [], cl_plugin_dirs = [], cl_settings = [], cl_setting_sources = [],
      cl_files = [], cl_betas = [], cl_verbose = False, cl_debug = [],
      cl_disable_slash = False\<rparr>"

definition cl_with_prompt :: "string \<Rightarrow> claude_builder \<Rightarrow> claude_builder" where
  "cl_with_prompt x b = b\<lparr>cl_prompt := x\<rparr>"

definition cl_with_session_id :: "string \<Rightarrow> claude_builder \<Rightarrow> claude_builder" where
  "cl_with_session_id x b = b\<lparr>cl_session_id := x\<rparr>"

definition cl_with_resume :: "claude_builder \<Rightarrow> claude_builder" where
  "cl_with_resume b = b\<lparr>cl_resume := True\<rparr>"

definition cl_with_continue :: "claude_builder \<Rightarrow> claude_builder" where
  "cl_with_continue b = b\<lparr>cl_continue_session := True\<rparr>"

definition cl_with_fork_session :: "claude_builder \<Rightarrow> claude_builder" where
  "cl_with_fork_session b = b\<lparr>cl_fork_session := True\<rparr>"

definition cl_with_no_persistence :: "claude_builder \<Rightarrow> claude_builder" where
  "cl_with_no_persistence b = b\<lparr>cl_no_persistence := True\<rparr>"

definition cl_with_model :: "string \<Rightarrow> claude_builder \<Rightarrow> claude_builder" where
  "cl_with_model x b = b\<lparr>cl_model := x\<rparr>"

definition cl_with_fallback_model :: "string \<Rightarrow> claude_builder \<Rightarrow> claude_builder" where
  "cl_with_fallback_model x b = b\<lparr>cl_fallback_model := x\<rparr>"

definition cl_with_effort :: "string \<Rightarrow> claude_builder \<Rightarrow> claude_builder" where
  "cl_with_effort x b = b\<lparr>cl_effort := x\<rparr>"

definition cl_with_system_prompt :: "string \<Rightarrow> claude_builder \<Rightarrow> claude_builder" where
  "cl_with_system_prompt x b = b\<lparr>cl_system_prompt := x\<rparr>"

definition cl_with_append_system_prompt :: "string \<Rightarrow> claude_builder \<Rightarrow> claude_builder" where
  "cl_with_append_system_prompt x b = b\<lparr>cl_append_system_prompt := x\<rparr>"

definition cl_with_tools :: "string list \<Rightarrow> claude_builder \<Rightarrow> claude_builder" where
  "cl_with_tools x b = b\<lparr>cl_tools := x\<rparr>"

definition cl_with_allowed_tools :: "string list \<Rightarrow> claude_builder \<Rightarrow> claude_builder" where
  "cl_with_allowed_tools x b = b\<lparr>cl_allowed_tools := x\<rparr>"

definition cl_with_disallowed_tools :: "string list \<Rightarrow> claude_builder \<Rightarrow> claude_builder" where
  "cl_with_disallowed_tools x b = b\<lparr>cl_disallowed_tools := x\<rparr>"

definition cl_with_permission_mode :: "string \<Rightarrow> claude_builder \<Rightarrow> claude_builder" where
  "cl_with_permission_mode x b = b\<lparr>cl_permission_mode := x\<rparr>"

definition cl_with_skip_permissions :: "claude_builder \<Rightarrow> claude_builder" where
  "cl_with_skip_permissions b = b\<lparr>cl_skip_permissions := True\<rparr>"

definition cl_with_allow_skip_permissions :: "claude_builder \<Rightarrow> claude_builder" where
  "cl_with_allow_skip_permissions b = b\<lparr>cl_allow_skip_permissions := True\<rparr>"

definition cl_with_input_format :: "string \<Rightarrow> claude_builder \<Rightarrow> claude_builder" where
  "cl_with_input_format x b = b\<lparr>cl_input_format := x\<rparr>"

definition cl_with_output_format :: "string \<Rightarrow> claude_builder \<Rightarrow> claude_builder" where
  "cl_with_output_format x b = b\<lparr>cl_output_format := x\<rparr>"

definition cl_with_include_partial :: "claude_builder \<Rightarrow> claude_builder" where
  "cl_with_include_partial b = b\<lparr>cl_include_partial := True\<rparr>"

definition cl_with_replay_user :: "claude_builder \<Rightarrow> claude_builder" where
  "cl_with_replay_user b = b\<lparr>cl_replay_user := True\<rparr>"

definition cl_with_json_schema :: "string \<Rightarrow> claude_builder \<Rightarrow> claude_builder" where
  "cl_with_json_schema x b = b\<lparr>cl_json_schema := x\<rparr>"

definition cl_with_max_budget :: "rat \<Rightarrow> claude_builder \<Rightarrow> claude_builder" where
  "cl_with_max_budget x b = b\<lparr>cl_max_budget := Some x\<rparr>"

definition cl_with_max_turns :: "int \<Rightarrow> claude_builder \<Rightarrow> claude_builder" where
  "cl_with_max_turns x b = b\<lparr>cl_max_turns := Some x\<rparr>"

definition cl_with_mcp_config :: "string list \<Rightarrow> claude_builder \<Rightarrow> claude_builder" where
  "cl_with_mcp_config x b = b\<lparr>cl_mcp_configs := cl_mcp_configs b @ x\<rparr>"

definition cl_with_strict_mcp :: "claude_builder \<Rightarrow> claude_builder" where
  "cl_with_strict_mcp b = b\<lparr>cl_strict_mcp := True\<rparr>"

definition cl_with_agent :: "string \<Rightarrow> claude_builder \<Rightarrow> claude_builder" where
  "cl_with_agent x b = b\<lparr>cl_agent := x\<rparr>"

definition cl_with_agents :: "string option \<Rightarrow> claude_builder \<Rightarrow> claude_builder" where
  "cl_with_agents x b = b\<lparr>cl_agents_json := x\<rparr>"

definition cl_with_add_dir :: "string list \<Rightarrow> claude_builder \<Rightarrow> claude_builder" where
  "cl_with_add_dir x b = b\<lparr>cl_add_dirs := cl_add_dirs b @ x\<rparr>"

definition cl_with_plugin_dir :: "string list \<Rightarrow> claude_builder \<Rightarrow> claude_builder" where
  "cl_with_plugin_dir x b = b\<lparr>cl_plugin_dirs := cl_plugin_dirs b @ x\<rparr>"

definition cl_with_files :: "string list \<Rightarrow> claude_builder \<Rightarrow> claude_builder" where
  "cl_with_files x b = b\<lparr>cl_files := cl_files b @ x\<rparr>"

definition cl_with_settings :: "string \<Rightarrow> claude_builder \<Rightarrow> claude_builder" where
  "cl_with_settings x b = b\<lparr>cl_settings := x\<rparr>"

definition cl_with_setting_sources :: "string list \<Rightarrow> claude_builder \<Rightarrow> claude_builder" where
  "cl_with_setting_sources x b = b\<lparr>cl_setting_sources := x\<rparr>"

definition cl_with_betas :: "string list \<Rightarrow> claude_builder \<Rightarrow> claude_builder" where
  "cl_with_betas x b = b\<lparr>cl_betas := cl_betas b @ x\<rparr>"

definition cl_with_verbose :: "claude_builder \<Rightarrow> claude_builder" where
  "cl_with_verbose b = b\<lparr>cl_verbose := True\<rparr>"

definition cl_with_debug :: "string \<Rightarrow> claude_builder \<Rightarrow> claude_builder" where
  "cl_with_debug x b = b\<lparr>cl_debug := (if x = [] then ''true'' else x)\<rparr>"

definition cl_with_disable_slash :: "claude_builder \<Rightarrow> claude_builder" where
  "cl_with_disable_slash b = b\<lparr>cl_disable_slash := True\<rparr>"

lemmas cl_with_defs = cl_with_prompt_def cl_with_session_id_def cl_with_resume_def cl_with_continue_def
  cl_with_fork_session_def cl_with_no_persistence_def cl_with_model_def cl_with_fallback_model_def
  cl_with_effort_def cl_with_system_prompt_def cl_with_append_system_prompt_def cl_with_tools_def
  cl_with_allowed_tools_def cl_with_disallowed_tools_def cl_with_permission_mode_def cl_with_skip_permissions_def
  cl_with_allow_skip_permissions_def cl_with_input_format_def cl_with_output_format_def cl_with_include_partial_def
  cl_with_replay_user_def cl_with_json_schema_def cl_with_max_budget_def cl_with_max_turns_def
  cl_with_mcp_config_def cl_with_strict_mcp_def cl_with_agent_def cl_with_agents_def
  cl_with_add_dir_def cl_with_plugin_dir_def cl_with_files_def cl_with_settings_def
  cl_with_setting_sources_def cl_with_betas_def cl_with_verbose_def cl_with_debug_def
  cl_with_disable_slash_def

text \<open>\<^verbatim>\<open>%.2f\<close>: the nearest multiple of 0.01, the even one of two at the same distance.\<close>

definition cents :: "rat \<Rightarrow> int" where
  "cents x =
     (let y = \<bar>x\<bar> * 100; n = \<lfloor>y\<rfloor>; d = y - of_int n
      in if d < 1 / 2 \<or> (d = 1 / 2 \<and> even n) then n else n + 1)"

definition show_money :: "rat \<Rightarrow> string" where
  "show_money x =
     (let n = nat (cents x)
      in (if x < 0 then ''-'' else []) @ show_nat (n div 100) @ ''.'' @ [digit (n mod 100 div 10), digit (n mod 10)])"

text \<open>The shapes of an argument group: a switch, an option with a value, one with a joined list, one with many values.\<close>

definition arg_switch :: "string \<Rightarrow> bool \<Rightarrow> string list" where
  "arg_switch f c = (if c then [f] else [])"

definition arg_value :: "string \<Rightarrow> string \<Rightarrow> string list" where
  "arg_value f v = (if v \<noteq> [] then [f, v] else [])"

definition arg_joined :: "string \<Rightarrow> string list \<Rightarrow> string list" where
  "arg_joined f vs = (if length vs > 0 then [f, str_join '','' vs] else [])"

definition arg_many :: "string \<Rightarrow> string list \<Rightarrow> string list" where
  "arg_many f vs = (if length vs > 0 then f # vs else [])"

definition claude_build :: "claude_builder \<Rightarrow> string list" where
  "claude_build b =
     [''-p'', cl_prompt b] @
     (if cl_session_id b \<noteq> []
      then (if cl_resume b then [''--resume'', cl_session_id b] else [''--session-id'', cl_session_id b]) else []) @
     arg_switch ''--continue'' (cl_continue_session b) @
     arg_switch ''--fork-session'' (cl_fork_session b) @
     arg_switch ''--no-session-persistence'' (cl_no_persistence b) @
     arg_value ''--model'' (cl_model b) @
     arg_value ''--fallback-model'' (cl_fallback_model b) @
     arg_value ''--effort'' (cl_effort b) @
     arg_value ''--system-prompt'' (cl_system_prompt b) @
     arg_value ''--append-system-prompt'' (cl_append_system_prompt b) @
     arg_many ''--tools'' (cl_tools b) @
     arg_joined ''--allowedTools'' (cl_allowed_tools b) @
     arg_joined ''--disallowedTools'' (cl_disallowed_tools b) @
     arg_value ''--permission-mode'' (cl_permission_mode b) @
     arg_switch ''--dangerously-skip-permissions'' (cl_skip_permissions b) @
     arg_switch ''--allow-dangerously-skip-permissions'' (cl_allow_skip_permissions b) @
     arg_value ''--input-format'' (cl_input_format b) @
     arg_value ''--output-format'' (cl_output_format b) @
     arg_switch ''--include-partial-messages'' (cl_include_partial b) @
     arg_switch ''--replay-user-messages'' (cl_replay_user b) @
     arg_value ''--json-schema'' (cl_json_schema b) @
     (case cl_max_budget b of None \<Rightarrow> [] | Some x \<Rightarrow> [''--max-budget-usd'', show_money x]) @
     (case cl_max_turns b of None \<Rightarrow> [] | Some n \<Rightarrow> [''--max-turns'', show_int n]) @
     arg_many ''--mcp-config'' (cl_mcp_configs b) @
     arg_switch ''--strict-mcp-config'' (cl_strict_mcp b) @
     arg_value ''--agent'' (cl_agent b) @
     (case cl_agents_json b of None \<Rightarrow> [] | Some j \<Rightarrow> [''--agents'', j]) @
     arg_many ''--add-dir'' (cl_add_dirs b) @
     arg_many ''--plugin-dir'' (cl_plugin_dirs b) @
     arg_many ''--file'' (cl_files b) @
     arg_value ''--settings'' (cl_settings b) @
     arg_joined ''--setting-sources'' (cl_setting_sources b) @
     arg_many ''--betas'' (cl_betas b) @
     arg_switch ''--verbose'' (cl_verbose b) @
     (if cl_debug b \<noteq> [] then (if cl_debug b = ''true'' then [''--debug''] else [''--debug'', cl_debug b]) else []) @
     arg_switch ''--disable-slash-commands'' (cl_disable_slash b)"

section \<open>The options of a request\<close>

record claude_options =
  co_session_id :: string
  co_resume :: bool
  co_continue_session :: bool
  co_fork_session :: bool
  co_no_persistence :: bool
  co_model :: string
  co_fallback_model :: string
  co_effort :: string
  co_system_prompt :: string
  co_append_system_prompt :: string
  co_tools :: "string list"
  co_allowed_tools :: "string list"
  co_disallowed_tools :: "string list"
  co_permission_mode :: string
  co_skip_permissions :: bool
  co_allow_skip_permissions :: bool
  co_input_format :: string
  co_output_format :: string
  co_include_partial :: bool
  co_replay_user :: bool
  co_json_schema :: string
  co_max_budget :: "rat option"
  co_max_turns :: "int option"
  co_mcp_configs :: "string list"
  co_strict_mcp :: bool
  co_agent :: string
  co_agents :: "string option"
  co_add_dirs :: "string list"
  co_plugin_dirs :: "string list"
  co_files :: "string list"
  co_settings :: string
  co_setting_sources :: "string list"
  co_betas :: "string list"
  co_prompt_caching_ttl :: string
  co_bedrock_service_tier :: string
  co_enable_powershell :: bool
  co_verbose :: bool
  co_debug :: string
  co_disable_slash :: bool

definition no_options :: claude_options where
  "no_options =
     \<lparr>co_session_id = [], co_resume = False, co_continue_session = False, co_fork_session = False,
      co_no_persistence = False, co_model = [], co_fallback_model = [], co_effort = [],
      co_system_prompt = [], co_append_system_prompt = [], co_tools = [], co_allowed_tools = [],
      co_disallowed_tools = [], co_permission_mode = [], co_skip_permissions = False, co_allow_skip_permissions = False,
      co_input_format = [], co_output_format = [], co_include_partial = False, co_replay_user = False,
      co_json_schema = [], co_max_budget = None, co_max_turns = None, co_mcp_configs = [],
      co_strict_mcp = False, co_agent = [], co_agents = None, co_add_dirs = [],
      co_plugin_dirs = [], co_files = [], co_settings = [], co_setting_sources = [],
      co_betas = [], co_prompt_caching_ttl = [], co_bedrock_service_tier = [], co_enable_powershell = False,
      co_verbose = False, co_debug = [], co_disable_slash = False\<rparr>"

text \<open>A setter applied when its option is given.\<close>

definition given :: "bool \<Rightarrow> ('b \<Rightarrow> 'b) \<Rightarrow> 'b \<Rightarrow> 'b" where
  "given c f b = (if c then f b else b)"

definition apply_session_options :: "claude_options \<Rightarrow> claude_builder \<Rightarrow> claude_builder" where
  "apply_session_options opts b =
     (given (co_no_persistence opts) cl_with_no_persistence \<circ>
      given (co_fork_session opts) cl_with_fork_session \<circ>
      given (co_continue_session opts) cl_with_continue) b"

definition apply_model_options :: "claude_options \<Rightarrow> claude_builder \<Rightarrow> claude_builder" where
  "apply_model_options opts b =
     (given (co_effort opts \<noteq> []) (cl_with_effort (co_effort opts)) \<circ>
      given (co_fallback_model opts \<noteq> []) (cl_with_fallback_model (co_fallback_model opts)) \<circ>
      given (co_model opts \<noteq> []) (cl_with_model (co_model opts))) b"

definition apply_prompt_options :: "claude_options \<Rightarrow> claude_builder \<Rightarrow> claude_builder" where
  "apply_prompt_options opts b =
     (given (co_append_system_prompt opts \<noteq> []) (cl_with_append_system_prompt (co_append_system_prompt opts)) \<circ>
      given (co_system_prompt opts \<noteq> []) (cl_with_system_prompt (co_system_prompt opts))) b"

definition apply_tools_options :: "claude_options \<Rightarrow> claude_builder \<Rightarrow> claude_builder" where
  "apply_tools_options opts b =
     (given (length (co_disallowed_tools opts) > 0) (cl_with_disallowed_tools (co_disallowed_tools opts)) \<circ>
      given (length (co_allowed_tools opts) > 0) (cl_with_allowed_tools (co_allowed_tools opts)) \<circ>
      given (length (co_tools opts) > 0) (cl_with_tools (co_tools opts))) b"

definition apply_permission_options :: "claude_options \<Rightarrow> claude_builder \<Rightarrow> claude_builder" where
  "apply_permission_options opts b =
     (given (co_allow_skip_permissions opts) cl_with_allow_skip_permissions \<circ>
      given (co_skip_permissions opts) cl_with_skip_permissions \<circ>
      given (co_permission_mode opts \<noteq> []) (cl_with_permission_mode (co_permission_mode opts))) b"

definition apply_io_options :: "claude_options \<Rightarrow> claude_builder \<Rightarrow> claude_builder" where
  "apply_io_options opts b =
     (given (co_json_schema opts \<noteq> []) (cl_with_json_schema (co_json_schema opts)) \<circ>
      given (co_replay_user opts) cl_with_replay_user \<circ>
      given (co_include_partial opts) cl_with_include_partial \<circ>
      given (co_output_format opts \<noteq> []) (cl_with_output_format (co_output_format opts)) \<circ>
      given (co_input_format opts \<noteq> []) (cl_with_input_format (co_input_format opts))) b"

definition apply_resource_options :: "claude_options \<Rightarrow> claude_builder \<Rightarrow> claude_builder" where
  "apply_resource_options opts b =
     (given (length (co_betas opts) > 0) (cl_with_betas (co_betas opts)) \<circ>
      given (length (co_setting_sources opts) > 0) (cl_with_setting_sources (co_setting_sources opts)) \<circ>
      given (co_settings opts \<noteq> []) (cl_with_settings (co_settings opts)) \<circ>
      given (length (co_files opts) > 0) (cl_with_files (co_files opts)) \<circ>
      given (length (co_plugin_dirs opts) > 0) (cl_with_plugin_dir (co_plugin_dirs opts)) \<circ>
      given (length (co_add_dirs opts) > 0) (cl_with_add_dir (co_add_dirs opts)) \<circ>
      given (co_agents opts \<noteq> None) (cl_with_agents (co_agents opts)) \<circ>
      given (co_agent opts \<noteq> []) (cl_with_agent (co_agent opts)) \<circ>
      given (co_strict_mcp opts) cl_with_strict_mcp \<circ>
      given (length (co_mcp_configs opts) > 0) (cl_with_mcp_config (co_mcp_configs opts)) \<circ>
      (case co_max_turns opts of None \<Rightarrow> (\<lambda>b. b) | Some x \<Rightarrow> cl_with_max_turns x) \<circ>
      (case co_max_budget opts of None \<Rightarrow> (\<lambda>b. b) | Some x \<Rightarrow> cl_with_max_budget x)) b"

definition apply_misc_options :: "claude_options \<Rightarrow> claude_builder \<Rightarrow> claude_builder" where
  "apply_misc_options opts b =
     (given (co_disable_slash opts) cl_with_disable_slash \<circ>
      given (co_debug opts \<noteq> []) (cl_with_debug (co_debug opts)) \<circ>
      given (co_verbose opts) cl_with_verbose) b"

lemmas apply_group_defs = apply_session_options_def apply_model_options_def apply_prompt_options_def apply_tools_options_def
  apply_permission_options_def apply_io_options_def apply_resource_options_def apply_misc_options_def

definition apply_options :: "claude_options \<Rightarrow> claude_builder \<Rightarrow> claude_builder" where
  "apply_options opts b =
     (apply_misc_options opts \<circ>
      apply_resource_options opts \<circ>
      apply_io_options opts \<circ>
      apply_permission_options opts \<circ>
      apply_tools_options opts \<circ>
      apply_prompt_options opts \<circ>
      apply_model_options opts \<circ>
      apply_session_options opts) b"

definition env_vars :: "claude_options \<Rightarrow> string list" where
  "env_vars opts =
     (if co_prompt_caching_ttl opts = ''1h'' then [''-e'', ''ENABLE_PROMPT_CACHING_1H=1'']
      else if co_prompt_caching_ttl opts = ''5m'' then [''-e'', ''FORCE_PROMPT_CACHING_5M=1'']
      else []) @
     (if co_bedrock_service_tier opts \<noteq> []
      then [''-e'', ''ANTHROPIC_BEDROCK_SERVICE_TIER='' @ co_bedrock_service_tier opts] else []) @
     (if co_enable_powershell opts then [''-e'', ''CLAUDE_CODE_USE_POWERSHELL_TOOL=1''] else [])"

section \<open>Reading the arguments\<close>

text \<open>
  The documented command line of the tool: switches, options with one value, options with an optional value
  and options with one or more values, which end at the next argument that starts with a dash. Everything
  else is an operand.
\<close>

datatype arity = Switch | Single | Optional | Many

definition dash :: "string \<Rightarrow> bool" where
  "dash s \<longleftrightarrow> has_prefix s ''-'' \<and> length s > 1"

type_synonym arg_group = "string \<times> string list"

definition add_group :: "arg_group \<Rightarrow> (arg_group list \<times> string list) option \<Rightarrow> (arg_group list \<times> string list) option" where
  "add_group g = map_option (\<lambda>(gs, os). (g # gs, os))"

definition add_operand :: "string \<Rightarrow> (arg_group list \<times> string list) option \<Rightarrow> (arg_group list \<times> string list) option" where
  "add_operand x = map_option (\<lambda>(gs, os). (gs, x # os))"

function read_args :: "(string \<Rightarrow> arity option) \<Rightarrow> string list \<Rightarrow> (arg_group list \<times> string list) option" where
  "read_args ar [] = Some ([], [])"
| "read_args ar (a # as) =
     (if \<not> dash a then add_operand a (read_args ar as)
      else
        (case ar a of
           None \<Rightarrow> None
         | Some Switch \<Rightarrow> add_group (a, []) (read_args ar as)
         | Some Single \<Rightarrow> if as = [] then None else add_group (a, [hd as]) (read_args ar (tl as))
         | Some Optional \<Rightarrow>
             if as \<noteq> [] \<and> \<not> dash (hd as) then add_group (a, [hd as]) (read_args ar (tl as))
             else add_group (a, []) (read_args ar as)
         | Some Many \<Rightarrow>
             if takeWhile (\<lambda>x. \<not> dash x) as = [] then None
             else add_group (a, takeWhile (\<lambda>x. \<not> dash x) as) (read_args ar (dropWhile (\<lambda>x. \<not> dash x) as))))"
  by pat_completeness auto
termination
  by (relation "measure (\<lambda>(ar, as). length as)") (auto simp: le_imp_less_Suc length_dropWhile_le)

definition wf_group :: "(string \<Rightarrow> arity option) \<Rightarrow> arg_group \<Rightarrow> bool" where
  "wf_group ar g \<longleftrightarrow>
     dash (fst g) \<and>
     (case ar (fst g) of
        None \<Rightarrow> False
      | Some Switch \<Rightarrow> snd g = []
      | Some Single \<Rightarrow> length (snd g) = 1
      | Some Optional \<Rightarrow> length (snd g) \<le> 1 \<and> list_all (\<lambda>x. \<not> dash x) (snd g)
      | Some Many \<Rightarrow> snd g \<noteq> [] \<and> list_all (\<lambda>x. \<not> dash x) (snd g))"

definition render :: "arg_group list \<Rightarrow> string list" where
  "render gs = concat (map (\<lambda>(f, vs). f # vs) gs)"

lemma render_simps [simp]:
  "render [] = []" "render ((f, vs) # gs) = f # vs @ render gs" "render (gs @ hs) = render gs @ render hs"
  by (simp_all add: render_def)

lemma render_starts: "list_all (wf_group ar) gs \<Longrightarrow> render gs \<noteq> [] \<Longrightarrow> dash (hd (render gs))"
  by (cases gs) (auto simp: wf_group_def)

lemma takeWhile_values:
  "list_all (\<lambda>x. \<not> dash x) vs \<Longrightarrow> (rest \<noteq> [] \<Longrightarrow> dash (hd rest)) \<Longrightarrow>
   takeWhile (\<lambda>x. \<not> dash x) (vs @ rest) = vs \<and> dropWhile (\<lambda>x. \<not> dash x) (vs @ rest) = rest"
  by (cases rest) (auto simp: list_all_iff)

text \<open>Well-formed groups are read back as they were written.\<close>

lemma read_group:
  assumes "wf_group ar (f, vs)" and "rest \<noteq> [] \<Longrightarrow> dash (hd rest)"
  shows "read_args ar (f # vs @ rest) = add_group (f, vs) (read_args ar rest)"
proof -
  have f: "dash f" using assms(1) by (simp add: wf_group_def)
  show ?thesis
  proof (cases "ar f")
    case None
    with assms(1) show ?thesis by (simp add: wf_group_def)
  next
    case (Some a)
    show ?thesis
    proof (cases a)
      case Switch
      with assms(1) Some f show ?thesis by (simp add: wf_group_def)
    next
      case Single
      with assms(1) Some obtain v where "vs = [v]" by (auto simp: wf_group_def length_Suc_conv)
      with Single Some f show ?thesis by simp
    next
      case Optional
      with assms(1) Some have v: "length vs \<le> 1" "list_all (\<lambda>x. \<not> dash x) vs" by (simp_all add: wf_group_def)
      show ?thesis
      proof (cases vs)
        case Nil
        with Optional Some f assms(2) show ?thesis by auto
      next
        case (Cons x xs)
        with v Optional Some f show ?thesis by simp
      qed
    next
      case Many
      with assms(1) Some have v: "vs \<noteq> []" "list_all (\<lambda>x. \<not> dash x) vs" by (simp_all add: wf_group_def)
      from takeWhile_values [OF v(2) assms(2)] v(1) Many Some f show ?thesis by simp
    qed
  qed
qed

lemma read_render:
  "list_all (wf_group ar) gs \<Longrightarrow> read_args ar (render gs) = Some (gs, [])"
proof (induction gs)
  case (Cons g gs)
  obtain f vs where g: "g = (f, vs)" by (cases g)
  have "read_args ar (f # vs @ render gs) = add_group (f, vs) (read_args ar (render gs))"
    by (rule read_group) (use Cons.prems g render_starts [of ar gs] in auto)
  with Cons g show ?case by (simp add: add_group_def)
qed simp

end
