(* ===== verification/Claude_Args.thy ===== *)
theory Claude_Args
  imports Claude_Builder
begin

text \<open>
  What the command line built for a request says: the request's options in the order of the builder, each
  with its own values, as the tool's documented command line reads them.
\<close>

section \<open>The command of a request\<close>

text \<open>The runner's use of the builder: prompt, session, and then the options of the request.\<close>

definition claude_request :: "string \<Rightarrow> string \<Rightarrow> claude_options \<Rightarrow> claude_builder" where
  "claude_request prompt sid opts =
     apply_options opts
       (given (co_resume opts) cl_with_resume (cl_with_session_id sid (cl_with_prompt prompt new_claude_builder)))"

lemma given_setters:
  "\<not> cl_continue_session b \<Longrightarrow> given c cl_with_continue b = b\<lparr>cl_continue_session := c\<rparr>"
  "\<not> cl_fork_session b \<Longrightarrow> given c cl_with_fork_session b = b\<lparr>cl_fork_session := c\<rparr>"
  "\<not> cl_no_persistence b \<Longrightarrow> given c cl_with_no_persistence b = b\<lparr>cl_no_persistence := c\<rparr>"
  "cl_model b = [] \<Longrightarrow> given (v \<noteq> []) (cl_with_model v) b = b\<lparr>cl_model := v\<rparr>"
  "cl_fallback_model b = [] \<Longrightarrow> given (v \<noteq> []) (cl_with_fallback_model v) b = b\<lparr>cl_fallback_model := v\<rparr>"
  "cl_effort b = [] \<Longrightarrow> given (v \<noteq> []) (cl_with_effort v) b = b\<lparr>cl_effort := v\<rparr>"
  "cl_system_prompt b = [] \<Longrightarrow> given (v \<noteq> []) (cl_with_system_prompt v) b = b\<lparr>cl_system_prompt := v\<rparr>"
  "cl_append_system_prompt b = [] \<Longrightarrow> given (v \<noteq> []) (cl_with_append_system_prompt v) b = b\<lparr>cl_append_system_prompt := v\<rparr>"
  "cl_tools b = [] \<Longrightarrow> given (length xs > 0) (cl_with_tools xs) b = b\<lparr>cl_tools := xs\<rparr>"
  "cl_allowed_tools b = [] \<Longrightarrow> given (length xs > 0) (cl_with_allowed_tools xs) b = b\<lparr>cl_allowed_tools := xs\<rparr>"
  "cl_disallowed_tools b = [] \<Longrightarrow> given (length xs > 0) (cl_with_disallowed_tools xs) b = b\<lparr>cl_disallowed_tools := xs\<rparr>"
  "cl_permission_mode b = [] \<Longrightarrow> given (v \<noteq> []) (cl_with_permission_mode v) b = b\<lparr>cl_permission_mode := v\<rparr>"
  "\<not> cl_skip_permissions b \<Longrightarrow> given c cl_with_skip_permissions b = b\<lparr>cl_skip_permissions := c\<rparr>"
  "\<not> cl_allow_skip_permissions b \<Longrightarrow> given c cl_with_allow_skip_permissions b = b\<lparr>cl_allow_skip_permissions := c\<rparr>"
  "cl_input_format b = [] \<Longrightarrow> given (v \<noteq> []) (cl_with_input_format v) b = b\<lparr>cl_input_format := v\<rparr>"
  "cl_output_format b = [] \<Longrightarrow> given (v \<noteq> []) (cl_with_output_format v) b = b\<lparr>cl_output_format := v\<rparr>"
  "\<not> cl_include_partial b \<Longrightarrow> given c cl_with_include_partial b = b\<lparr>cl_include_partial := c\<rparr>"
  "\<not> cl_replay_user b \<Longrightarrow> given c cl_with_replay_user b = b\<lparr>cl_replay_user := c\<rparr>"
  "cl_json_schema b = [] \<Longrightarrow> given (v \<noteq> []) (cl_with_json_schema v) b = b\<lparr>cl_json_schema := v\<rparr>"
  "cl_max_budget b = None \<Longrightarrow> (case r of None \<Rightarrow> (\<lambda>b. b) | Some x \<Rightarrow> cl_with_max_budget x) b = b\<lparr>cl_max_budget := r\<rparr>"
  "cl_max_turns b = None \<Longrightarrow> (case i of None \<Rightarrow> (\<lambda>b. b) | Some x \<Rightarrow> cl_with_max_turns x) b = b\<lparr>cl_max_turns := i\<rparr>"
  "cl_mcp_configs b = [] \<Longrightarrow> given (length xs > 0) (cl_with_mcp_config xs) b = b\<lparr>cl_mcp_configs := xs\<rparr>"
  "\<not> cl_strict_mcp b \<Longrightarrow> given c cl_with_strict_mcp b = b\<lparr>cl_strict_mcp := c\<rparr>"
  "cl_agent b = [] \<Longrightarrow> given (v \<noteq> []) (cl_with_agent v) b = b\<lparr>cl_agent := v\<rparr>"
  "cl_agents_json b = None \<Longrightarrow> given (j \<noteq> None) (cl_with_agents j) b = b\<lparr>cl_agents_json := j\<rparr>"
  "cl_add_dirs b = [] \<Longrightarrow> given (length xs > 0) (cl_with_add_dir xs) b = b\<lparr>cl_add_dirs := xs\<rparr>"
  "cl_plugin_dirs b = [] \<Longrightarrow> given (length xs > 0) (cl_with_plugin_dir xs) b = b\<lparr>cl_plugin_dirs := xs\<rparr>"
  "cl_files b = [] \<Longrightarrow> given (length xs > 0) (cl_with_files xs) b = b\<lparr>cl_files := xs\<rparr>"
  "cl_settings b = [] \<Longrightarrow> given (v \<noteq> []) (cl_with_settings v) b = b\<lparr>cl_settings := v\<rparr>"
  "cl_setting_sources b = [] \<Longrightarrow> given (length xs > 0) (cl_with_setting_sources xs) b = b\<lparr>cl_setting_sources := xs\<rparr>"
  "cl_betas b = [] \<Longrightarrow> given (length xs > 0) (cl_with_betas xs) b = b\<lparr>cl_betas := xs\<rparr>"
  "\<not> cl_verbose b \<Longrightarrow> given c cl_with_verbose b = b\<lparr>cl_verbose := c\<rparr>"
  "cl_debug b = [] \<Longrightarrow> given (v \<noteq> []) (cl_with_debug v) b = b\<lparr>cl_debug := v\<rparr>"
  "\<not> cl_disable_slash b \<Longrightarrow> given c cl_with_disable_slash b = b\<lparr>cl_disable_slash := c\<rparr>"
  by (cases b, simp add: given_def cl_with_defs split: option.split)+

text \<open>The builder holds each option of the request as it was given.\<close>

lemma claude_request_fields:
  "claude_request prompt sid opts =
     \<lparr>cl_prompt = prompt, cl_session_id = sid, cl_resume = co_resume opts,
      cl_continue_session = co_continue_session opts, cl_fork_session = co_fork_session opts, cl_no_persistence = co_no_persistence opts,
      cl_model = co_model opts, cl_fallback_model = co_fallback_model opts, cl_effort = co_effort opts,
      cl_system_prompt = co_system_prompt opts, cl_append_system_prompt = co_append_system_prompt opts, cl_tools = co_tools opts,
      cl_allowed_tools = co_allowed_tools opts, cl_disallowed_tools = co_disallowed_tools opts, cl_permission_mode = co_permission_mode opts,
      cl_skip_permissions = co_skip_permissions opts, cl_allow_skip_permissions = co_allow_skip_permissions opts, cl_input_format = co_input_format opts,
      cl_output_format = co_output_format opts, cl_include_partial = co_include_partial opts, cl_replay_user = co_replay_user opts,
      cl_json_schema = co_json_schema opts, cl_max_budget = co_max_budget opts, cl_max_turns = co_max_turns opts,
      cl_mcp_configs = co_mcp_configs opts, cl_strict_mcp = co_strict_mcp opts, cl_agent = co_agent opts,
      cl_agents_json = co_agents opts, cl_add_dirs = co_add_dirs opts, cl_plugin_dirs = co_plugin_dirs opts,
      cl_settings = co_settings opts, cl_setting_sources = co_setting_sources opts, cl_files = co_files opts,
      cl_betas = co_betas opts, cl_verbose = co_verbose opts, cl_debug = co_debug opts,
      cl_disable_slash = co_disable_slash opts\<rparr>"
proof -
  have b: "claude_request prompt sid opts =
      apply_options opts (new_claude_builder\<lparr>cl_prompt := prompt, cl_session_id := sid, cl_resume := co_resume opts\<rparr>)"
    by (simp add: claude_request_def given_def cl_with_defs new_claude_builder_def)
  show ?thesis
    unfolding b apply_options_def apply_group_defs comp_apply new_claude_builder_def claude_builder.update_convs
    by (simp only: given_setters claude_builder.select_convs claude_builder.update_convs not_False_eq_True)
qed

section \<open>The command line of the tool\<close>

text \<open>The documented options and how many values each takes.\<close>

definition claude_arity :: "string \<Rightarrow> arity option" where
  "claude_arity =
     map_of
       ([(''-p'', Switch), (''--resume'', Optional), (''--debug'', Optional)] @
        map (\<lambda>f. (f, Switch))
          [''--continue'', ''--fork-session'', ''--no-session-persistence'', ''--dangerously-skip-permissions'',
           ''--allow-dangerously-skip-permissions'', ''--include-partial-messages'', ''--replay-user-messages'',
           ''--strict-mcp-config'', ''--verbose'', ''--disable-slash-commands''] @
        map (\<lambda>f. (f, Single))
          [''--session-id'', ''--model'', ''--fallback-model'', ''--effort'', ''--system-prompt'', ''--append-system-prompt'',
           ''--permission-mode'', ''--input-format'', ''--output-format'', ''--json-schema'', ''--max-budget-usd'',
           ''--max-turns'', ''--agent'', ''--agents'', ''--settings'', ''--setting-sources''] @
        map (\<lambda>f. (f, Many))
          [''--tools'', ''--allowedTools'', ''--disallowedTools'', ''--mcp-config'', ''--add-dir'', ''--plugin-dir'',
           ''--file'', ''--betas''])"

definition g_switch :: "string \<Rightarrow> bool \<Rightarrow> arg_group list" where
  "g_switch f c = (if c then [(f, [])] else [])"

definition g_value :: "string \<Rightarrow> string \<Rightarrow> arg_group list" where
  "g_value f v = (if v \<noteq> [] then [(f, [v])] else [])"

definition g_joined :: "string \<Rightarrow> string list \<Rightarrow> arg_group list" where
  "g_joined f vs = (if vs \<noteq> [] then [(f, [str_join '','' vs])] else [])"

definition g_many :: "string \<Rightarrow> string list \<Rightarrow> arg_group list" where
  "g_many f vs = (if vs \<noteq> [] then [(f, vs)] else [])"

definition g_option :: "string \<Rightarrow> string option \<Rightarrow> arg_group list" where
  "g_option f v = (case v of None \<Rightarrow> [] | Some x \<Rightarrow> [(f, [x])])"

text \<open>The options of a request, each with its values, in the order of the command line.\<close>

definition request_groups :: "string \<Rightarrow> claude_options \<Rightarrow> arg_group list" where
  "request_groups sid opts =
     g_value (if co_resume opts then ''--resume'' else ''--session-id'') sid @
     g_switch ''--continue'' (co_continue_session opts) @
     g_switch ''--fork-session'' (co_fork_session opts) @
     g_switch ''--no-session-persistence'' (co_no_persistence opts) @
     g_value ''--model'' (co_model opts) @
     g_value ''--fallback-model'' (co_fallback_model opts) @
     g_value ''--effort'' (co_effort opts) @
     g_value ''--system-prompt'' (co_system_prompt opts) @
     g_value ''--append-system-prompt'' (co_append_system_prompt opts) @
     g_many ''--tools'' (co_tools opts) @
     g_joined ''--allowedTools'' (co_allowed_tools opts) @
     g_joined ''--disallowedTools'' (co_disallowed_tools opts) @
     g_value ''--permission-mode'' (co_permission_mode opts) @
     g_switch ''--dangerously-skip-permissions'' (co_skip_permissions opts) @
     g_switch ''--allow-dangerously-skip-permissions'' (co_allow_skip_permissions opts) @
     g_value ''--input-format'' (co_input_format opts) @
     g_value ''--output-format'' (co_output_format opts) @
     g_switch ''--include-partial-messages'' (co_include_partial opts) @
     g_switch ''--replay-user-messages'' (co_replay_user opts) @
     g_value ''--json-schema'' (co_json_schema opts) @
     g_option ''--max-budget-usd'' (map_option show_money (co_max_budget opts)) @
     g_option ''--max-turns'' (map_option show_int (co_max_turns opts)) @
     g_many ''--mcp-config'' (co_mcp_configs opts) @
     g_switch ''--strict-mcp-config'' (co_strict_mcp opts) @
     g_value ''--agent'' (co_agent opts) @
     g_option ''--agents'' (co_agents opts) @
     g_many ''--add-dir'' (co_add_dirs opts) @
     g_many ''--plugin-dir'' (co_plugin_dirs opts) @
     g_many ''--file'' (co_files opts) @
     g_value ''--settings'' (co_settings opts) @
     g_joined ''--setting-sources'' (co_setting_sources opts) @
     g_many ''--betas'' (co_betas opts) @
     g_switch ''--verbose'' (co_verbose opts) @
     (if co_debug opts = ''true'' then g_switch ''--debug'' True else g_value ''--debug'' (co_debug opts)) @
     g_switch ''--disable-slash-commands'' (co_disable_slash opts)"

text \<open>The values that could be mistaken for options: those of options with optional or many values.\<close>

definition exposed_values :: "string \<Rightarrow> claude_options \<Rightarrow> string list" where
  "exposed_values sid opts =
     (if co_resume opts then [sid] else []) @ co_tools opts @ str_join '','' (co_allowed_tools opts) #
     str_join '','' (co_disallowed_tools opts) # co_mcp_configs opts @ co_add_dirs opts @ co_plugin_dirs opts @
     co_files opts @ co_betas opts @ [co_debug opts]"

lemma render_groups:
  "render (g_switch f c) = arg_switch f c"
  "render (g_value f v) = arg_value f v"
  "render (g_joined f vs) = arg_joined f vs"
  "render (g_many f vs) = arg_many f vs"
  "render (g_option f x) = (case x of None \<Rightarrow> [] | Some v \<Rightarrow> [f, v])"
  by (simp_all add: g_switch_def g_value_def g_joined_def g_many_def g_option_def
      arg_switch_def arg_value_def arg_joined_def arg_many_def split: option.split)

lemma claude_build_request:
  "claude_build (claude_request prompt sid opts) = ''-p'' # prompt # render (request_groups sid opts)"
proof -
  have sid: "(if sid \<noteq> [] then (if co_resume opts then [''--resume'', sid] else [''--session-id'', sid]) else []) =
      arg_value (if co_resume opts then ''--resume'' else ''--session-id'') sid"
    by (simp add: arg_value_def)
  have debug: "(if co_debug opts \<noteq> [] then (if co_debug opts = ''true'' then [''--debug''] else [''--debug'', co_debug opts]) else []) =
      render (if co_debug opts = ''true'' then g_switch ''--debug'' True else g_value ''--debug'' (co_debug opts))"
    by (simp add: render_groups arg_value_def arg_switch_def)
  have opt: "(case x of None \<Rightarrow> [] | Some v \<Rightarrow> [f, g v]) = (case map_option g x of None \<Rightarrow> [] | Some v \<Rightarrow> [f, v])" for x f g
    by (cases x) simp_all
  show ?thesis
    unfolding claude_build_def claude_request_fields claude_builder.select_convs sid debug opt [of _ show_money] opt [of _ show_int]
      request_groups_def render_simps(3) render_groups append_Cons append_Nil ..
qed

lemma wf_groups:
  "claude_arity f = Some Switch \<Longrightarrow> dash f \<Longrightarrow> list_all (wf_group claude_arity) (g_switch f c)"
  "claude_arity f = Some Single \<Longrightarrow> dash f \<Longrightarrow> list_all (wf_group claude_arity) (g_value f v)"
  "claude_arity f = Some Single \<Longrightarrow> dash f \<Longrightarrow> list_all (wf_group claude_arity) (g_joined f vs)"
  "claude_arity f = Some Single \<Longrightarrow> dash f \<Longrightarrow> list_all (wf_group claude_arity) (g_option f x)"
  "claude_arity f = Some Many \<Longrightarrow> dash f \<Longrightarrow> list_all (\<lambda>v. \<not> dash v) vs \<Longrightarrow> list_all (wf_group claude_arity) (g_many f vs)"
  "claude_arity f = Some Many \<Longrightarrow> dash f \<Longrightarrow> \<not> dash (str_join '','' vs) \<Longrightarrow> list_all (wf_group claude_arity) (g_joined f vs)"
  "claude_arity f = Some Optional \<Longrightarrow> dash f \<Longrightarrow> \<not> dash v \<Longrightarrow> list_all (wf_group claude_arity) (g_value f v)"
  "claude_arity f = Some Optional \<Longrightarrow> dash f \<Longrightarrow> list_all (wf_group claude_arity) (g_switch f c)"
  by (simp_all add: g_switch_def g_value_def g_joined_def g_many_def g_option_def wf_group_def split: option.split)

lemma arities:
  "claude_arity ''-p'' = Some Switch"
  "claude_arity ''--continue'' = Some Switch"
  "claude_arity ''--fork-session'' = Some Switch"
  "claude_arity ''--no-session-persistence'' = Some Switch"
  "claude_arity ''--dangerously-skip-permissions'' = Some Switch"
  "claude_arity ''--allow-dangerously-skip-permissions'' = Some Switch"
  "claude_arity ''--include-partial-messages'' = Some Switch"
  "claude_arity ''--replay-user-messages'' = Some Switch"
  "claude_arity ''--strict-mcp-config'' = Some Switch"
  "claude_arity ''--verbose'' = Some Switch"
  "claude_arity ''--disable-slash-commands'' = Some Switch"
  "claude_arity ''--session-id'' = Some Single"
  "claude_arity ''--model'' = Some Single"
  "claude_arity ''--fallback-model'' = Some Single"
  "claude_arity ''--effort'' = Some Single"
  "claude_arity ''--system-prompt'' = Some Single"
  "claude_arity ''--append-system-prompt'' = Some Single"
  "claude_arity ''--permission-mode'' = Some Single"
  "claude_arity ''--input-format'' = Some Single"
  "claude_arity ''--output-format'' = Some Single"
  "claude_arity ''--json-schema'' = Some Single"
  "claude_arity ''--max-budget-usd'' = Some Single"
  "claude_arity ''--max-turns'' = Some Single"
  "claude_arity ''--agent'' = Some Single"
  "claude_arity ''--agents'' = Some Single"
  "claude_arity ''--settings'' = Some Single"
  "claude_arity ''--setting-sources'' = Some Single"
  "claude_arity ''--tools'' = Some Many"
  "claude_arity ''--allowedTools'' = Some Many"
  "claude_arity ''--disallowedTools'' = Some Many"
  "claude_arity ''--mcp-config'' = Some Many"
  "claude_arity ''--add-dir'' = Some Many"
  "claude_arity ''--plugin-dir'' = Some Many"
  "claude_arity ''--file'' = Some Many"
  "claude_arity ''--betas'' = Some Many"
  "claude_arity ''--resume'' = Some Optional"
  "claude_arity ''--debug'' = Some Optional"
  by (simp_all add: claude_arity_def)

lemma options_dash:
  "dash ''-p''" "dash ''--continue''" "dash ''--fork-session''"
  "dash ''--no-session-persistence''" "dash ''--dangerously-skip-permissions''" "dash ''--allow-dangerously-skip-permissions''"
  "dash ''--include-partial-messages''" "dash ''--replay-user-messages''" "dash ''--strict-mcp-config''"
  "dash ''--verbose''" "dash ''--disable-slash-commands''" "dash ''--session-id''"
  "dash ''--model''" "dash ''--fallback-model''" "dash ''--effort''"
  "dash ''--system-prompt''" "dash ''--append-system-prompt''" "dash ''--permission-mode''"
  "dash ''--input-format''" "dash ''--output-format''" "dash ''--json-schema''"
  "dash ''--max-budget-usd''" "dash ''--max-turns''" "dash ''--agent''"
  "dash ''--agents''" "dash ''--settings''" "dash ''--setting-sources''"
  "dash ''--tools''" "dash ''--allowedTools''" "dash ''--disallowedTools''"
  "dash ''--mcp-config''" "dash ''--add-dir''" "dash ''--plugin-dir''"
  "dash ''--file''" "dash ''--betas''" "dash ''--resume''"
  "dash ''--debug''"
  by (simp_all add: dash_def)

lemma request_groups_wf:
  assumes "list_all (\<lambda>v. \<not> dash v) (exposed_values sid opts)"
  shows "list_all (wf_group claude_arity) (request_groups sid opts)"
proof -
  have v: "co_resume opts \<Longrightarrow> \<not> dash sid" "list_all (\<lambda>v. \<not> dash v) (co_tools opts)"
    "\<not> dash (str_join '','' (co_allowed_tools opts))" "\<not> dash (str_join '','' (co_disallowed_tools opts))"
    "list_all (\<lambda>v. \<not> dash v) (co_mcp_configs opts)" "list_all (\<lambda>v. \<not> dash v) (co_add_dirs opts)"
    "list_all (\<lambda>v. \<not> dash v) (co_plugin_dirs opts)" "list_all (\<lambda>v. \<not> dash v) (co_files opts)"
    "list_all (\<lambda>v. \<not> dash v) (co_betas opts)" "\<not> dash (co_debug opts)"
    using assms by (simp_all add: exposed_values_def)
  have sid: "list_all (wf_group claude_arity) (g_value (if co_resume opts then ''--resume'' else ''--session-id'') sid)"
    using v(1) by (simp add: wf_groups arities options_dash)
  have debug: "list_all (wf_group claude_arity)
      (if co_debug opts = ''true'' then g_switch ''--debug'' True else g_value ''--debug'' (co_debug opts))"
    using v(10) by (simp add: wf_groups arities options_dash)
  show ?thesis
    unfolding request_groups_def list_all_append
    by (intro conjI; (rule sid | rule debug | rule wf_groups, rule arities, rule options_dash, rule v | rule wf_groups, rule arities, rule options_dash))
qed

lemma read_claude_request:
  assumes "\<not> dash prompt" and "list_all (\<lambda>v. \<not> dash v) (exposed_values sid opts)"
  shows "read_args claude_arity (claude_build (claude_request prompt sid opts)) =
    Some ((''-p'', []) # request_groups sid opts, [prompt])"
proof -
  have "dash ''-p''" by (rule options_dash)
  moreover have "claude_arity ''-p'' = Some Switch" by (rule arities)
  ultimately show ?thesis
    using read_render [OF request_groups_wf [OF assms(2)]] assms(1)
    by (simp add: claude_build_request add_group_def add_operand_def)
qed


definition sample_options :: claude_options where
  "sample_options = no_options\<lparr>co_system_prompt := ''--dangerously-skip-permissions'', co_tools := [''Bash'', ''Read''],
     co_allowed_tools := [''Edit'', ''Bash(git:*)''], co_max_budget := Some 5, co_max_turns := Some (-3)\<rparr>"


end
