(* ===== verification/Go_Glob.thy ===== *)
theory Go_Glob
  imports Go_Path
begin

text \<open>
  Go's \<^verbatim>\<open>filepath.Match\<close> (on Unix), chunk by chunk as the library does it: a chunk is what stands between
  two stars, and a star skips up to the first place where the next chunk matches, but no slash. A byte is
  read as a character: names and patterns are ASCII. A malformed pattern matches nothing.
\<close>

section \<open>Chunks\<close>

datatype glob_elem = GLit char | GAny | GClass bool "(char \<times> char) list"

text \<open>\<^verbatim>\<open>getEsc\<close>: a possibly escaped character of a class, which cannot be the last of the chunk.\<close>

definition get_esc :: "string \<Rightarrow> (char \<times> string) option" where
  "get_esc s =
     (case s of
        [] \<Rightarrow> None
      | c # cs \<Rightarrow>
          if c = CHR ''-'' \<or> c = CHR '']'' then None
          else if c = CHR 0x5C then (case cs of d # e # rest \<Rightarrow> Some (d, e # rest) | _ \<Rightarrow> None)
          else (case cs of e # rest \<Rightarrow> Some (c, e # rest) | [] \<Rightarrow> None))"

lemma get_esc_length: "get_esc s = Some (c, rest) \<Longrightarrow> length rest < length s"
  by (auto simp: get_esc_def split: list.splits if_splits)

text \<open>The ranges of a class after its opening bracket, up to the closing one.\<close>

function class_ranges :: "bool \<Rightarrow> string \<Rightarrow> ((char \<times> char) list \<times> string) option" where
  "class_ranges seen s =
     (if seen \<and> s \<noteq> [] \<and> hd s = CHR '']'' then Some ([], tl s)
      else
        (case get_esc s of
           None \<Rightarrow> None
         | Some (lo, s1) \<Rightarrow>
             (if hd s1 = CHR ''-''
              then (case get_esc (tl s1) of
                      None \<Rightarrow> None
                    | Some (hi, s2) \<Rightarrow>
                        (case class_ranges True s2 of None \<Rightarrow> None | Some (rs, rest) \<Rightarrow> Some ((lo, hi) # rs, rest)))
              else (case class_ranges True s1 of None \<Rightarrow> None | Some (rs, rest) \<Rightarrow> Some ((lo, lo) # rs, rest)))))"
  by pat_completeness auto
termination
  by (relation "measure (\<lambda>(seen, s). length s)") (auto dest!: get_esc_length simp: less_imp_diff_less)

declare class_ranges.simps [simp del]

lemma class_ranges_length: "class_ranges seen s = Some (rs, rest) \<Longrightarrow> length rest < length s"
proof (induction seen s arbitrary: rs rest rule: class_ranges.induct)
  case (1 seen s)
  show ?case
  proof (cases "seen \<and> s \<noteq> [] \<and> hd s = CHR '']''")
    case True
    then have "class_ranges seen s = Some ([], tl s)" by (subst class_ranges.simps) simp
    with True 1(3) show ?thesis by simp
  next
    case False
    with 1(3) obtain lo s1 where e: "get_esc s = Some (lo, s1)"
      by (cases "get_esc s") (auto simp: class_ranges.simps [of seen s])
    note len = get_esc_length [OF e]
    show ?thesis
    proof (cases "hd s1 = CHR ''-''")
      case True
      with False e 1(3) obtain hi s2 where h: "get_esc (tl s1) = Some (hi, s2)"
        by (cases "get_esc (tl s1)") (auto simp: class_ranges.simps [of seen s])
      with False e True 1(3) obtain rs' where "class_ranges True s2 = Some (rs', rest)"
        by (auto simp: class_ranges.simps [of seen s] split: option.splits)
      then have "length rest < length s2"
        using 1(1) [OF False e _ True h] by simp
      moreover have "length s2 < length (tl s1)" using get_esc_length [OF h] .
      ultimately show ?thesis using len by simp
    next
      case no: False
      with False e 1(3) obtain rs' where "class_ranges True s1 = Some (rs', rest)"
        by (auto simp: class_ranges.simps [of seen s] split: option.splits)
      then have "length rest < length s1"
        using 1(2) [OF False e _ no] by simp
      with len show ?thesis by simp
    qed
  qed
qed

text \<open>The elements of a chunk; \<open>None\<close> when it is malformed.\<close>

function chunk_elems :: "string \<Rightarrow> glob_elem list option" where
  "chunk_elems [] = Some []"
| "chunk_elems (c # cs) =
     (if c = CHR ''['' then
        (let neg = (cs \<noteq> [] \<and> hd cs = CHR ''^'')
         in (case class_ranges False (if neg then tl cs else cs) of
               None \<Rightarrow> None
             | Some (rs, rest) \<Rightarrow> map_option (\<lambda>es. GClass neg rs # es) (chunk_elems rest)))
      else if c = CHR ''?'' then map_option (\<lambda>es. GAny # es) (chunk_elems cs)
      else if c = CHR 0x5C then
        (case cs of [] \<Rightarrow> None | d # ds \<Rightarrow> map_option (\<lambda>es. GLit d # es) (chunk_elems ds))
      else map_option (\<lambda>es. GLit c # es) (chunk_elems cs))"
  by pat_completeness auto
termination
  by (relation "measure length") (auto dest!: class_ranges_length split: if_splits)

definition elem_matches :: "glob_elem \<Rightarrow> char \<Rightarrow> bool" where
  "elem_matches e c =
     (case e of
        GLit d \<Rightarrow> d = c
      | GAny \<Rightarrow> c \<noteq> slash
      | GClass neg rs \<Rightarrow> list_ex (\<lambda>(lo, hi). (of_char lo :: nat) \<le> of_char c \<and> (of_char c :: nat) \<le> of_char hi) rs \<noteq> neg)"

fun match_elems :: "glob_elem list \<Rightarrow> string \<Rightarrow> string option" where
  "match_elems [] s = Some s"
| "match_elems (e # es) [] = None"
| "match_elems (e # es) (c # s) = (if elem_matches e c then match_elems es s else None)"

definition match_chunk :: "string \<Rightarrow> string \<Rightarrow> string option" where
  "match_chunk chunk s = (case chunk_elems chunk of None \<Rightarrow> None | Some es \<Rightarrow> match_elems es s)"

text \<open>\<^verbatim>\<open>scanChunk\<close> after the stars: up to the next star outside a class.\<close>

fun scan_chunk :: "bool \<Rightarrow> string \<Rightarrow> string \<times> string" where
  "scan_chunk r [] = ([], [])"
| "scan_chunk r [c] = (if c = CHR ''*'' \<and> \<not> r then ([], [c]) else ([c], []))"
| "scan_chunk r (c # d # s) =
     (if c = CHR ''*'' \<and> \<not> r then ([], c # d # s)
      else if c = CHR 0x5C then (let (a, b) = scan_chunk r s in (c # d # a, b))
      else (let (a, b) = scan_chunk (if c = CHR ''['' then True else if c = CHR '']'' then False else r) (d # s)
            in (c # a, b)))"

lemma scan_chunk_append: "scan_chunk r s = (a, b) \<Longrightarrow> s = a @ b"
  by (induction r s arbitrary: a b rule: scan_chunk.induct) (auto split: if_splits prod.splits)

lemma scan_chunk_rest:
  assumes "scan_chunk r s = (a, b)" and "s \<noteq> []" and "hd s \<noteq> CHR ''*''"
  shows "length b < length s"
proof -
  have "a \<noteq> []"
    using assms by (cases "(r, s)" rule: scan_chunk.cases) (auto split: if_splits prod.splits)
  then show ?thesis
    using scan_chunk_append [OF assms(1)] by simp
qed

lemma glob_rest:
  assumes p: "pat \<noteq> []" and c: "scan_chunk False (dropWhile (\<lambda>c. c = CHR ''*'') pat) = (chunk, rest)"
  shows "length rest < length pat"
proof (cases "hd pat = CHR ''*''")
  case True
  have "length rest \<le> length (dropWhile (\<lambda>c. c = CHR ''*'') pat)"
    using scan_chunk_append [OF c] by (metis le_add2 length_append)
  also have "\<dots> < length pat"
    using True p length_dropWhile_le [of _ "tl pat"] by (cases pat) (auto simp: le_imp_less_Suc)
  finally show ?thesis .
next
  case False
  then have "dropWhile (\<lambda>c. c = CHR ''*'') pat = pat"
    using p by (cases pat) auto
  then show ?thesis
    using scan_chunk_rest [of False pat chunk rest] c p False by simp
qed

section \<open>Matching\<close>

text \<open>
  The first place at which the chunk matches after skipping characters other than a slash; the last chunk has
  to reach the end of the name.
\<close>

fun skip_match :: "string \<Rightarrow> bool \<Rightarrow> string \<Rightarrow> string option" where
  "skip_match chunk is_last [] = None"
| "skip_match chunk is_last (c # s) =
     (if c = slash then None
      else
        (case match_chunk chunk s of
           Some t \<Rightarrow> if is_last \<and> t \<noteq> [] then skip_match chunk is_last s else Some t
         | None \<Rightarrow> skip_match chunk is_last s))"

function glob_match :: "string \<Rightarrow> string \<Rightarrow> bool" where
  "glob_match pat name =
     (if pat = [] then name = []
      else
        (let star = (hd pat = CHR ''*'');
             (chunk, rest) = scan_chunk False (dropWhile (\<lambda>c. c = CHR ''*'') pat)
         in if star \<and> chunk = [] then slash \<notin> set name
            else
              (case match_chunk chunk name of
                 Some t \<Rightarrow>
                   if t = [] \<or> rest \<noteq> [] then glob_match rest t
                   else if star then
                     (case skip_match chunk (rest = []) name of None \<Rightarrow> False | Some t' \<Rightarrow> glob_match rest t')
                   else False
               | None \<Rightarrow>
                   if star then
                     (case skip_match chunk (rest = []) name of None \<Rightarrow> False | Some t' \<Rightarrow> glob_match rest t')
                   else False)))"
  by pat_completeness auto
termination
  by (relation "measure (\<lambda>(pat, name). length pat)") (auto intro: glob_rest [OF _ sym])

declare glob_match.simps [simp del]

section \<open>Patterns of literal text and stars\<close>

definition lit_char :: "char \<Rightarrow> bool" where
  "lit_char c \<longleftrightarrow> c \<noteq> CHR ''*'' \<and> c \<noteq> CHR ''?'' \<and> c \<noteq> CHR ''['' \<and> c \<noteq> CHR 0x5C"

abbreviation lit_text :: "string \<Rightarrow> bool" where
  "lit_text s \<equiv> list_all lit_char s"

lemma chunk_elems_lit: "lit_text s \<Longrightarrow> chunk_elems s = Some (map GLit s)"
  by (induction s) (simp_all add: lit_char_def)

lemma match_elems_lit: "match_elems (map GLit s) n = Some t \<longleftrightarrow> n = s @ t"
proof (induction s arbitrary: n)
  case (Cons c s)
  then show ?case by (cases n) (auto simp: elem_matches_def)
qed auto

lemma match_chunk_lit: "lit_text s \<Longrightarrow> match_chunk s n = Some t \<longleftrightarrow> n = s @ t"
  by (simp add: match_chunk_def chunk_elems_lit match_elems_lit)

lemma scan_chunk_lit: "lit_text s \<Longrightarrow> scan_chunk False s = (s, [])"
proof (induction s)
  case (Cons c s)
  then show ?case by (cases s) (auto simp: lit_char_def)
qed simp

lemma scan_chunk_lit_star: "lit_text s \<Longrightarrow> scan_chunk False (s @ CHR ''*'' # r) = (s, CHR ''*'' # r)"
proof (induction s)
  case Nil
  then show ?case by (cases r) simp_all
next
  case (Cons c s)
  then show ?case by (cases s) (auto simp: lit_char_def)
qed

lemma drop_stars_lit: "lit_text s \<Longrightarrow> dropWhile (\<lambda>c. c = CHR ''*'') (s @ r) = (if s = [] then dropWhile (\<lambda>c. c = CHR ''*'') r else s @ r)"
  by (cases s) (auto simp: lit_char_def)

lemma glob_star [simp]: "glob_match ''*'' n \<longleftrightarrow> slash \<notin> set n"
  by (simp add: glob_match.simps [of "''*''"])

lemma glob_empty [simp]: "glob_match [] n \<longleftrightarrow> n = []"
  by (simp add: glob_match.simps [of "[]"])

lemma glob_literal: "lit_text s \<Longrightarrow> glob_match s n \<longleftrightarrow> n = s"
proof (cases "s = []")
  case False
  assume s: "lit_text s"
  then have h: "hd s \<noteq> CHR ''*''" using False by (cases s) (auto simp: lit_char_def)
  have d: "dropWhile (\<lambda>c. c = CHR ''*'') s = s" using drop_stars_lit [OF s, of "[]"] False by simp
  show ?thesis
  proof (cases "match_chunk s n")
    case None
    then have "n \<noteq> s" using match_chunk_lit [OF s, of n "[]"] by auto
    with None h False show ?thesis by (simp add: glob_match.simps [of s] d scan_chunk_lit [OF s])
  next
    case (Some t)
    then have "n = s @ t" using match_chunk_lit [OF s] by simp
    with Some h False show ?thesis by (simp add: glob_match.simps [of s] d scan_chunk_lit [OF s])
  qed
qed simp

lemma glob_prefix:
  assumes s: "lit_text s" "s \<noteq> []"
  shows "glob_match (s @ ''*'') n \<longleftrightarrow> (\<exists>t. n = s @ t \<and> slash \<notin> set t)"
proof -
  have h: "hd (s @ ''*'') \<noteq> CHR ''*''" using s by (cases s) (auto simp: lit_char_def)
  have d: "dropWhile (\<lambda>c. c = CHR ''*'') (s @ ''*'') = s @ ''*''"
    using drop_stars_lit [OF s(1)] s(2) by simp
  have c: "scan_chunk False (s @ ''*'') = (s, ''*'')" by (rule scan_chunk_lit_star [OF s(1)])
  have "glob_match (s @ ''*'') n \<longleftrightarrow> (case match_chunk s n of None \<Rightarrow> False | Some t \<Rightarrow> glob_match ''*'' t)"
    using h by (subst glob_match.simps) (simp add: d c del: glob_star split: option.split)
  moreover have "(case match_chunk s n of None \<Rightarrow> False | Some t \<Rightarrow> glob_match ''*'' t) \<longleftrightarrow>
      (\<exists>t. match_chunk s n = Some t \<and> slash \<notin> set t)"
    by (cases "match_chunk s n") simp_all
  ultimately show ?thesis
    using match_chunk_lit [OF s(1)] by simp
qed

text \<open>A pattern that starts with a star: some place after characters other than a slash.\<close>

lemma skip_match_Some:
  "lit_text s \<Longrightarrow> skip_match s l n = Some t \<Longrightarrow> \<exists>a. n = a @ s @ t \<and> slash \<notin> set a"
proof (induction n)
  case (Cons c n)
  show ?case
  proof (cases "match_chunk s n = Some t \<and> skip_match s l (c # n) \<noteq> skip_match s l n")
    case True
    then have "n = s @ t" using match_chunk_lit [OF Cons.prems(1)] by simp
    moreover have "c \<noteq> slash" using Cons.prems(2) by auto
    ultimately show ?thesis by (intro exI [of _ "[c]"]) simp
  next
    case False
    have c: "c \<noteq> slash" using Cons.prems(2) by auto
    show ?thesis
    proof (cases "skip_match s l (c # n) = skip_match s l n")
      case True
      then obtain a where "n = a @ s @ t" "slash \<notin> set a"
        using Cons.IH Cons.prems by auto
      with c show ?thesis by (intro exI [of _ "c # a"]) simp
    next
      case no: False
      then have "match_chunk s n = Some t"
        using Cons.prems(2) c by (auto split: option.splits if_splits)
      with False no show ?thesis by simp
    qed
  qed
qed simp

lemma glob_star_sound:
  assumes s: "lit_text s" "s \<noteq> []" and g: "glob_match (CHR ''*'' # s @ r) n" and r: "r = [] \<or> hd r = CHR ''*''"
  shows "\<exists>a t. n = a @ s @ t \<and> slash \<notin> set a \<and> glob_match r t"
proof -
  have d: "dropWhile (\<lambda>c. c = CHR ''*'') (CHR ''*'' # s @ r) = s @ r"
    using drop_stars_lit [OF s(1), of r] s(2) by simp
  have c: "scan_chunk False (s @ r) = (s, r)"
    using r scan_chunk_lit [OF s(1)] scan_chunk_lit_star [OF s(1), of "tl r"] by (cases r) auto
  show ?thesis
  proof (cases "match_chunk s n")
    case None
    with g s(2) obtain t where "skip_match s (r = []) n = Some t" "glob_match r t"
      unfolding glob_match.simps [of "CHR ''*'' # s @ r"] d c by (auto split: option.splits)
    with skip_match_Some [OF s(1)] show ?thesis by metis
  next
    case (Some t0)
    then have n: "n = s @ t0" using match_chunk_lit [OF s(1)] by simp
    show ?thesis
    proof (cases "t0 = [] \<or> r \<noteq> []")
      case True
      with g s(2) Some have "glob_match r t0"
        unfolding glob_match.simps [of "CHR ''*'' # s @ r"] d c by auto
      with n show ?thesis by (intro exI [of _ "[]"] exI [of _ t0]) simp
    next
      case False
      with g s(2) Some obtain t where "skip_match s (r = []) n = Some t" "glob_match r t"
        unfolding glob_match.simps [of "CHR ''*'' # s @ r"] d c by (auto split: option.splits)
      with skip_match_Some [OF s(1)] show ?thesis by metis
    qed
  qed
qed

end
