(* ===== verification/Images.thy ===== *)
theory Images
  imports Go_Glob
begin

text \<open>
  Which container images a request may name: the validator of \<^verbatim>\<open>internal/runner/image.go\<close> and the
  compatibility rules of \<^verbatim>\<open>internal/images/compatibility.go\<close>.
\<close>

section \<open>Compatibility\<close>

definition incompatible_image_patterns :: "string list" where
  "incompatible_image_patterns =
     [''*alpine*'', ''*-alpine'', ''alpine:*'', ''alpine'', ''gcr.io/distroless/*'', ''distroless/*'', ''scratch'',
      ''busybox*'', ''busybox'']"

definition is_incompatible_image :: "string \<Rightarrow> bool" where
  "is_incompatible_image img =
     (let n = to_lower img
      in list_ex
           (\<lambda>pat. glob_match pat n \<or>
                  (\<not> list_ex (\<lambda>c. c \<in> set ''*?[]'') pat \<and> str_contains n pat))
           incompatible_image_patterns)"

definition rank_compatible :: nat where
  "rank_compatible = 1"

definition rank_claude_cli :: nat where
  "rank_claude_cli = 2"

definition rank_glibc :: nat where
  "rank_glibc = 3"

definition rank_incompatible :: nat where
  "rank_incompatible = 4"

lemmas ranks = rank_compatible_def rank_claude_cli_def rank_glibc_def rank_incompatible_def

definition label_compatible :: string where
  "label_compatible = ''ai.stromboli.compatible''"

definition label_claude_cli :: string where
  "label_claude_cli = ''ai.stromboli.claude-cli''"

text \<open>No labels and an empty map of labels are treated alike.\<close>

definition compute_compatibility_rank :: "string \<Rightarrow> string \<Rightarrow> (string \<rightharpoonup> string) \<Rightarrow> nat" where
  "compute_compatibility_rank repository tag labels =
     (if labels label_compatible = Some ''true'' then rank_compatible
      else if labels label_claude_cli = Some ''true'' then rank_claude_cli
      else
        (let name = (if tag \<noteq> [] \<and> tag \<noteq> ''latest'' then repository @ '':'' @ tag else repository)
         in if is_incompatible_image name then rank_incompatible else rank_glibc))"

definition is_compatible :: "int \<Rightarrow> bool" where
  "is_compatible rank \<longleftrightarrow> rank \<le> int rank_glibc"

definition rank_description :: "int \<Rightarrow> string" where
  "rank_description rank =
     (if rank = int rank_compatible then ''Stromboli verified compatible''
      else if rank = int rank_claude_cli then ''Claude CLI pre-installed''
      else if rank = int rank_glibc then ''Standard glibc-based (compatible)''
      else if rank = int rank_incompatible then ''Incompatible (Alpine/musl/distroless)''
      else ''Unknown'')"

section \<open>The validator\<close>

record image_validator =
  iv_patterns :: "string list"
  iv_default :: string
  iv_check_compat :: bool

definition new_image_validator :: "string list \<Rightarrow> string \<Rightarrow> image_validator" where
  "new_image_validator pats d = \<lparr>iv_patterns = pats, iv_default = d, iv_check_compat = False\<rparr>"

definition new_image_validator_with_compat_check :: "string list \<Rightarrow> string \<Rightarrow> image_validator" where
  "new_image_validator_with_compat_check pats d = \<lparr>iv_patterns = pats, iv_default = d, iv_check_compat = True\<rparr>"

definition normalize_image_name :: "string \<Rightarrow> string" where
  "normalize_image_name img =
     (if str_contains img ''/'' \<and>
         (str_contains (hd (split_on slash img)) ''.'' \<or> str_contains (hd (split_on slash img)) '':'')
      then img
      else if has_prefix img ''library/'' then ''docker.io/'' @ img
      else if \<not> str_contains img ''/'' then ''docker.io/library/'' @ img
      else img)"

definition match_image_pattern :: "string \<Rightarrow> string \<Rightarrow> bool" where
  "match_image_pattern pat img =
     (let ni = normalize_image_name img; np = normalize_image_name pat
      in if np = ni then True else if glob_match np ni then True else glob_match pat img)"

definition is_allowed :: "image_validator \<Rightarrow> string \<Rightarrow> bool" where
  "is_allowed v img \<longleftrightarrow>
     (if length (iv_patterns v) = 0 then True else list_ex (\<lambda>pat. match_image_pattern pat img) (iv_patterns v))"

definition validate_image :: "(string \<Rightarrow> string) \<Rightarrow> image_validator \<Rightarrow> string \<Rightarrow> go_error option" where
  "validate_image q v img =
     (if img = [] then None
      else if \<not> is_allowed v img then Some (Msg (''image '' @ q img @ '' not in allowed patterns''))
      else if iv_check_compat v \<and> is_incompatible_image img
      then Some (Msg (''image '' @ q img @ '' is incompatible with Claude CLI mount (Alpine/musl-based images not supported, use glibc-based alternatives like debian/slim)''))
      else None)"

definition resolve_image :: "image_validator \<Rightarrow> string \<Rightarrow> string" where
  "resolve_image v img = (if img \<noteq> [] then img else iv_default v)"

section \<open>What the compatibility check refuses\<close>

lemma glob_star_end:
  assumes s: "lit_text s" "s \<noteq> []" and g: "glob_match (CHR ''*'' # s) n"
  shows "str_contains n s"
proof -
  have "glob_match (CHR ''*'' # s @ []) n" using g by simp
  from glob_star_sound [OF s this] obtain a where "n = a @ s @ []" by auto
  then show ?thesis unfolding str_contains_sublist sublist_def by blast
qed

lemma glob_star_mid:
  assumes s: "lit_text s" "s \<noteq> []" and g: "glob_match (CHR ''*'' # s @ ''*'') n"
  shows "str_contains n s"
  using glob_star_sound [OF s g] by (auto simp: str_contains_sublist sublist_def)

lemma contains_trans: "str_contains n s \<Longrightarrow> str_contains s r \<Longrightarrow> str_contains n r"
  by (auto simp: str_contains_sublist intro: sublist_order.order_trans)

lemma contains_prefix: "n = s @ t \<Longrightarrow> str_contains n s"
  by (auto simp: str_contains_sublist sublist_def)

definition below_dir :: "string \<Rightarrow> string \<Rightarrow> bool" where
  "below_dir dir n \<longleftrightarrow> (\<exists>t. n = dir @ t \<and> slash \<notin> set t)"

lemma glob_below: "lit_text s \<Longrightarrow> s \<noteq> [] \<Longrightarrow> glob_match (s @ ''*'') n \<longleftrightarrow> below_dir s n"
  by (simp add: glob_prefix below_dir_def)

lemma incompatible_iff:
  "is_incompatible_image img \<longleftrightarrow>
     str_contains (to_lower img) ''alpine'' \<or> str_contains (to_lower img) ''scratch'' \<or>
     str_contains (to_lower img) ''busybox'' \<or>
     below_dir ''gcr.io/distroless/'' (to_lower img) \<or> below_dir ''distroless/'' (to_lower img)"
proof -
  let ?n = "to_lower img"
  have lit: "lit_text ''alpine''" "lit_text ''-alpine''" "lit_text ''alpine:''" "lit_text ''gcr.io/distroless/''"
    "lit_text ''distroless/''" "lit_text ''scratch''" "lit_text ''busybox''"
    by (simp_all add: lit_char_def)
  have a1: "glob_match ''*alpine*'' ?n \<Longrightarrow> str_contains ?n ''alpine''"
    using glob_star_mid [OF lit(1), of ?n] by simp
  have a2: "glob_match ''*-alpine'' ?n \<Longrightarrow> str_contains ?n ''alpine''"
    using glob_star_end [OF lit(2), of ?n] contains_trans [of ?n "''-alpine''" "''alpine''"] by simp
  have a3: "glob_match ''alpine:*'' ?n \<Longrightarrow> str_contains ?n ''alpine''"
    using glob_prefix [OF lit(3), of ?n] contains_prefix [of ?n "''alpine:''"]
      contains_trans [of ?n "''alpine:''" "''alpine''"] by auto
  have a4: "glob_match ''alpine'' ?n \<Longrightarrow> str_contains ?n ''alpine''"
    using glob_literal [OF lit(1), of ?n] contains_prefix [of ?n "''alpine''" "[]"] by simp
  have d1: "glob_match ''gcr.io/distroless/*'' ?n \<longleftrightarrow> below_dir ''gcr.io/distroless/'' ?n"
    using glob_below [OF lit(4), of ?n] by simp
  have d2: "glob_match ''distroless/*'' ?n \<longleftrightarrow> below_dir ''distroless/'' ?n"
    using glob_below [OF lit(5), of ?n] by simp
  have s1: "glob_match ''scratch'' ?n \<Longrightarrow> str_contains ?n ''scratch''"
    using glob_literal [OF lit(6), of ?n] contains_prefix [of ?n "''scratch''" "[]"] by simp
  have b1: "glob_match ''busybox*'' ?n \<Longrightarrow> str_contains ?n ''busybox''"
    using glob_prefix [OF lit(7), of ?n] contains_prefix [of ?n "''busybox''"] by auto
  have b2: "glob_match ''busybox'' ?n \<Longrightarrow> str_contains ?n ''busybox''"
    using glob_literal [OF lit(7), of ?n] contains_prefix [of ?n "''busybox''" "[]"] by simp
  have "is_incompatible_image img \<longleftrightarrow>
      glob_match ''*alpine*'' ?n \<or> glob_match ''*-alpine'' ?n \<or> glob_match ''alpine:*'' ?n \<or>
      (glob_match ''alpine'' ?n \<or> str_contains ?n ''alpine'') \<or>
      glob_match ''gcr.io/distroless/*'' ?n \<or> glob_match ''distroless/*'' ?n \<or>
      (glob_match ''scratch'' ?n \<or> str_contains ?n ''scratch'') \<or>
      glob_match ''busybox*'' ?n \<or> (glob_match ''busybox'' ?n \<or> str_contains ?n ''busybox'')"
    by (simp add: is_incompatible_image_def incompatible_image_patterns_def Let_def)
  with a1 a2 a3 a4 d1 d2 s1 b1 b2 show ?thesis by argo
qed

text \<open>An image is refused as incompatible exactly when its name holds \<^verbatim>\<open>alpine\<close>, \<^verbatim>\<open>scratch\<close> or \<^verbatim>\<open>busybox\<close>
  anywhere, in any case, or it stands directly in one of the two distroless registries: so a name such as
  \<^verbatim>\<open>acme/scratchpad\<close> is refused, and a distroless image one level deeper, or in a mirror, is not.
\<close>

lemma incompatible_image_exact:
  "(is_incompatible_image img \<longleftrightarrow>
      str_contains (to_lower img) ''alpine'' \<or> str_contains (to_lower img) ''scratch'' \<or>
      str_contains (to_lower img) ''busybox'' \<or>
      below_dir ''gcr.io/distroless/'' (to_lower img) \<or> below_dir ''distroless/'' (to_lower img)) \<and>
   is_incompatible_image ''acme/scratchpad:2'' \<and>
   \<not> is_incompatible_image ''gcr.io/distroless/cc/debug''"
proof (intro conjI)
  show "is_incompatible_image ''acme/scratchpad:2''"
    by code_simp
  show "\<not> is_incompatible_image ''gcr.io/distroless/cc/debug''"
    by code_simp
qed (rule incompatible_iff)

section \<open>What an allowed pattern lets through\<close>

lemma normalize_registry:
  "str_contains (hd (split_on slash dir)) ''.'' \<Longrightarrow> str_contains dir ''/'' \<or> rest \<noteq> [] \<Longrightarrow>
   normalize_image_name (dir @ slash # rest) = dir @ slash # rest"
proof -
  assume d: "str_contains (hd (split_on slash dir)) ''.''"
  have "hd (split_on slash (dir @ slash # rest)) = hd (split_on slash dir)"
    by (simp add: split_on_app)
  moreover have "str_contains (dir @ slash # rest) ''/''"
    by (auto simp: str_contains_sublist sublist_def)
  ultimately show ?thesis
    using d by (simp add: normalize_image_name_def)
qed

text \<open>An allowlist entry \<^verbatim>\<open>registry/path/*\<close> admits exactly the images directly in that path: with the
  default registry written out, or as the request names them. Deeper paths, other registries and
  names that merely start alike are refused.
\<close>

lemma image_pattern_contained:
  assumes "lit_text dir" and "str_contains (hd (split_on slash dir)) ''.''" and "img \<noteq> []"
  shows "validate_image q (new_image_validator [dir @ ''/*''] d) img = None \<longleftrightarrow>
    below_dir (dir @ ''/'') (normalize_image_name img) \<or> below_dir (dir @ ''/'') img"
proof -
  have l: "lit_text (dir @ ''/'')" using assms(1) by (simp add: lit_char_def)
  have g: "glob_match (dir @ ''/*'') n \<longleftrightarrow> below_dir (dir @ ''/'') n" for n
    using glob_below [OF l, of n] by simp
  have n: "normalize_image_name (dir @ ''/*'') = dir @ ''/*''"
    using normalize_registry [OF assms(2), of "''*''"] by simp
  have e: "dir @ ''/*'' = m \<Longrightarrow> below_dir (dir @ ''/'') m" for m
    by (auto simp: below_dir_def intro!: exI [of _ "''*''"])
  have "match_image_pattern (dir @ ''/*'') img \<longleftrightarrow>
      below_dir (dir @ ''/'') (normalize_image_name img) \<or> below_dir (dir @ ''/'') img"
    unfolding match_image_pattern_def Let_def n g using e by auto
  then show ?thesis
    using assms(3) by (simp add: validate_image_def is_allowed_def new_image_validator_def)
qed

lemma image_pattern_contained_witness:
  "validate_image id (new_image_validator [''ghcr.io/acme/*''] []) ''ghcr.io/acme/tool:1'' = None \<and>
   validate_image id (new_image_validator [''ghcr.io/acme/*''] []) ''ghcr.io/acme/evil/tool'' \<noteq> None"
proof -
  have p: "''ghcr.io/acme/*'' = ''ghcr.io/acme'' @ ''/*''" by simp
  have a: "lit_text ''ghcr.io/acme''" "str_contains (hd (split_on slash ''ghcr.io/acme'')) ''.''"
    by code_simp+
  have t: "below_dir (''ghcr.io/acme'' @ ''/'') ''ghcr.io/acme/tool:1''"
    by (auto simp: below_dir_def)
  have n: "normalize_image_name ''ghcr.io/acme/evil/tool'' = ''ghcr.io/acme/evil/tool''" by code_simp
  have e: "\<not> below_dir (''ghcr.io/acme'' @ ''/'') ''ghcr.io/acme/evil/tool''"
    by (auto simp: below_dir_def)
  have "''ghcr.io/acme/tool:1'' \<noteq> []" "''ghcr.io/acme/evil/tool'' \<noteq> []" by simp_all
  with image_pattern_contained [OF a, of "''ghcr.io/acme/tool:1''" id "[]"]
    image_pattern_contained [OF a, of "''ghcr.io/acme/evil/tool''" id "[]"] t e n
  show ?thesis unfolding p by (simp only: simp_thms)
qed

end
