(* ===== verification/Secrets.thy ===== *)
theory Secrets
  imports Go_Path
begin

text \<open>
  The Claude credentials as a Podman secret, \<^verbatim>\<open>internal/secrets/secrets.go\<close>. The credentials file belongs to
  somebody else and may change at any time: \<open>fa p t\<close> is its content (if it exists) at the \<open>t\<close>-th access,
  and the state counts the accesses. The hash is a parameter. The Podman commands are the store of secrets,
  with failures of their own.
\<close>

section \<open>State and environment\<close>

record secrets_manager =
  sm_file :: string
  sm_name :: string
  sm_cached :: string

record podman_state =
  ps_clock :: nat
  ps_store :: "string \<rightharpoonup> string"

text \<open>
  How the commands of one call fail: the check with an error that is not exit status 1, removal and creation
  with an error and their output; and whether the file can be opened and read.
\<close>

record secret_faults =
  sf_check :: "go_error option"
  sf_remove :: "(go_error \<times> string) option"
  sf_create :: "(go_error \<times> string) option"
  sf_open :: "go_error option"
  sf_read :: "go_error option"

definition no_faults :: secret_faults where
  "no_faults = \<lparr>sf_check = None, sf_remove = None, sf_create = None, sf_open = None, sf_read = None\<rparr>"

type_synonym file_at = "string \<Rightarrow> nat \<Rightarrow> string option"

definition default_credentials_file :: string where
  "default_credentials_file = ''~/.claude/.credentials.json''"

definition default_secret_name :: string where
  "default_secret_name = ''claude-credentials''"

section \<open>Operations\<close>

definition expand_path :: "string option \<Rightarrow> string \<Rightarrow> string" where
  "expand_path home p =
     (if has_prefix p ''~/'' then (case home of None \<Rightarrow> p | Some h \<Rightarrow> path_join [h, drop 2 p]) else p)"

definition new_secrets_manager :: "string option \<Rightarrow> string \<Rightarrow> secrets_manager" where
  "new_secrets_manager home name =
     \<lparr>sm_file = expand_path home default_credentials_file,
      sm_name = (if name = [] then default_secret_name else name), sm_cached = []\<rparr>"

definition new_secrets_manager_with_path :: "string option \<Rightarrow> string \<Rightarrow> secrets_manager" where
  "new_secrets_manager_with_path home p =
     \<lparr>sm_file = expand_path home (if p = [] then default_credentials_file else p),
      sm_name = default_secret_name, sm_cached = []\<rparr>"

definition read_file :: "file_at \<Rightarrow> string \<Rightarrow> podman_state \<Rightarrow> string option \<times> podman_state" where
  "read_file fa p s = (fa p (ps_clock s), s\<lparr>ps_clock := ps_clock s + 1\<rparr>)"

definition file_exists :: "file_at \<Rightarrow> secrets_manager \<Rightarrow> podman_state \<Rightarrow> bool \<times> podman_state" where
  "file_exists fa m s = (let (c, s') = read_file fa (sm_file m) s in (c \<noteq> None, s'))"

definition secret_exists :: "secret_faults \<Rightarrow> secrets_manager \<Rightarrow> podman_state \<Rightarrow> bool result" where
  "secret_exists fl m s =
     (case sf_check fl of
        Some e \<Rightarrow> Inl (Wrap ''failed to check secret: '' e [])
      | None \<Rightarrow> Inr (ps_store s (sm_name m) \<noteq> None))"

definition err_no_file :: "secrets_manager \<Rightarrow> go_error" where
  "err_no_file m = Msg (''credentials file not found: '' @ sm_file m @ '' (run 'claude' to authenticate)'')"

text \<open>Creating fails when the secret exists already or the file is gone by then; Podman reads the file itself.\<close>

definition create_secret ::
    "file_at \<Rightarrow> secret_faults \<Rightarrow> secrets_manager \<Rightarrow> podman_state \<Rightarrow> go_error option \<times> podman_state" where
  "create_secret fa fl m s =
     (let (ok, s1) = file_exists fa m s
      in if \<not> ok then (Some (err_no_file m), s1)
         else
           (case sf_create fl of
              Some (e, out) \<Rightarrow> (Some (Wrap ''failed to create secret: '' e ('', output: '' @ trim_space out)), s1)
            | None \<Rightarrow>
                (let (c, s2) = read_file fa (sm_file m) s1
                 in case c of
                      None \<Rightarrow> (Some (Wrap ''failed to create secret: '' (ExitError (Exited 125)) '', output: ''), s2)
                    | Some content \<Rightarrow>
                        if ps_store s2 (sm_name m) \<noteq> None
                        then (Some (Wrap ''failed to create secret: '' (ExitError (Exited 125)) '', output: ''), s2)
                        else (None, s2\<lparr>ps_store := (ps_store s2)(sm_name m \<mapsto> content)\<rparr>))))"

definition remove_secret :: "secret_faults \<Rightarrow> secrets_manager \<Rightarrow> podman_state \<Rightarrow> go_error option \<times> podman_state" where
  "remove_secret fl m s =
     (case sf_remove fl of
        Some (e, out) \<Rightarrow> (Some (Wrap ''failed to remove secret: '' e ('', output: '' @ trim_space out)), s)
      | None \<Rightarrow> (None, s\<lparr>ps_store := (ps_store s)(sm_name m := None)\<rparr>))"

definition update_secret ::
    "file_at \<Rightarrow> secret_faults \<Rightarrow> secrets_manager \<Rightarrow> podman_state \<Rightarrow> go_error option \<times> podman_state" where
  "update_secret fa fl m s =
     (case secret_exists fl m s of
        Inl e \<Rightarrow> (Some e, s)
      | Inr True \<Rightarrow>
          (case remove_secret fl m s of
             (Some e, s') \<Rightarrow> (Some e, s')
           | (None, s') \<Rightarrow> create_secret fa fl m s')
      | Inr False \<Rightarrow> create_secret fa fl m s)"

definition get_file_hash ::
    "(string \<Rightarrow> string) \<Rightarrow> file_at \<Rightarrow> secret_faults \<Rightarrow> secrets_manager \<Rightarrow> podman_state \<Rightarrow> string result \<times> podman_state" where
  "get_file_hash sha fa fl m s =
     (case sf_open fl of
        Some e \<Rightarrow> (Inl (Wrap ''failed to open credentials file: '' e []), s)
      | None \<Rightarrow>
          (let (c, s') = read_file fa (sm_file m) s
           in case c of
                None \<Rightarrow> (Inl (Wrap ''failed to open credentials file: '' (Msg (''open '' @ sm_file m @ '': no such file or directory'')) []), s')
              | Some content \<Rightarrow>
                  (case sf_read fl of
                     Some e \<Rightarrow> (Inl (Wrap ''failed to hash credentials file: '' e []), s')
                   | None \<Rightarrow> (Inr (hex_encode (sha content)), s'))))"

definition ensure_exists ::
    "(string \<Rightarrow> string) \<Rightarrow> string option \<Rightarrow> file_at \<Rightarrow> secret_faults \<Rightarrow> string \<Rightarrow> secrets_manager \<Rightarrow> podman_state \<Rightarrow>
     go_error option \<times> secrets_manager \<times> podman_state" where
  "ensure_exists sha home fa fl path m0 s0 =
     (let m = (if path \<noteq> [] then m0\<lparr>sm_file := expand_path home path\<rparr> else m0);
          (ok, s1) = file_exists fa m s0
      in if \<not> ok then (Some (err_no_file m), m, s1)
         else
           (case secret_exists fl m s1 of
              Inl e \<Rightarrow> (Some e, m, s1)
            | Inr ex \<Rightarrow>
                (case (if \<not> ex then create_secret fa fl m s1 else update_secret fa fl m s1) of
                   (Some e, s2) \<Rightarrow> (Some e, m, s2)
                 | (None, s2) \<Rightarrow>
                     (case get_file_hash sha fa fl m s2 of
                        (Inl e, s3) \<Rightarrow> (Some (Wrap ''failed to initialize credentials hash: '' e []), m, s3)
                      | (Inr h, s3) \<Rightarrow> (None, m\<lparr>sm_cached := h\<rparr>, s3)))))"

definition sync_if_changed ::
    "(string \<Rightarrow> string) \<Rightarrow> file_at \<Rightarrow> secret_faults \<Rightarrow> secrets_manager \<Rightarrow> podman_state \<Rightarrow>
     bool result \<times> secrets_manager \<times> podman_state" where
  "sync_if_changed sha fa fl m s =
     (case get_file_hash sha fa fl m s of
        (Inl e, s1) \<Rightarrow> (Inl e, m, s1)
      | (Inr h, s1) \<Rightarrow>
          if h = sm_cached m then (Inr False, m, s1)
          else
            (case update_secret fa fl m s1 of
               (Some e, s2) \<Rightarrow> (Inl (Wrap ''failed to sync secret: '' e []), m, s2)
             | (None, s2) \<Rightarrow> (Inr True, m\<lparr>sm_cached := h\<rparr>, s2)))"

section \<open>What a synchronisation achieves\<close>

text \<open>The cached hash, when it is that of some content, is that of the content of the secret.\<close>

definition cache_ok :: "(string \<Rightarrow> string) \<Rightarrow> secrets_manager \<Rightarrow> podman_state \<Rightarrow> bool" where
  "cache_ok sha m s \<longleftrightarrow> (\<forall>c. sm_cached m = hex_encode (sha c) \<longrightarrow> ps_store s (sm_name m) = Some c)"

text \<open>The file does not change from the \<open>t\<close>-th access on.\<close>

definition quiet :: "file_at \<Rightarrow> string \<Rightarrow> nat \<Rightarrow> string option \<Rightarrow> bool" where
  "quiet fa p t c \<longleftrightarrow> (\<forall>u \<ge> t. fa p u = c)"

lemma quiet_at: "quiet fa p t c \<Longrightarrow> t \<le> u \<Longrightarrow> fa p u = c"
  by (simp add: quiet_def)

lemma create_secret_done:
  "create_secret fa fl m s = (None, s') \<Longrightarrow>
   ps_clock s' = ps_clock s + 2 \<and>
   (\<exists>c. fa (sm_file m) (ps_clock s + 1) = Some c \<and> ps_store s' = (ps_store s)(sm_name m \<mapsto> c))"
  by (auto simp: create_secret_def file_exists_def read_file_def split: option.splits if_splits prod.splits)

lemma create_secret_failed:
  "create_secret fa fl m s = (Some e, s') \<Longrightarrow> ps_store s' = ps_store s"
  by (auto simp: create_secret_def file_exists_def read_file_def Let_def split: option.splits if_splits prod.splits)

lemma update_secret_done:
  assumes "update_secret fa fl m s = (None, s')"
  shows "ps_clock s' = ps_clock s + 2 \<and>
    (\<exists>c. fa (sm_file m) (ps_clock s + 1) = Some c \<and> ps_store s' = (ps_store s)(sm_name m \<mapsto> c))"
proof (cases "secret_exists fl m s")
  case (Inl e)
  with assms show ?thesis by (simp add: update_secret_def)
next
  case (Inr b)
  show ?thesis
  proof (cases b)
    case False
    with assms Inr show ?thesis using create_secret_done by (simp add: update_secret_def)
  next
    case True
    with assms Inr have "sf_remove fl = None"
      by (cases "sf_remove fl") (auto simp: update_secret_def remove_secret_def)
    with assms Inr True show ?thesis
      using create_secret_done [of fa fl m "s\<lparr>ps_store := (ps_store s)(sm_name m := None)\<rparr>" s']
      by (simp add: update_secret_def remove_secret_def)
  qed
qed

lemma update_secret_failed:
  assumes "update_secret fa fl m s = (Some e, s')"
  shows "ps_store s' = ps_store s \<or> ps_store s' = (ps_store s)(sm_name m := None)"
proof (cases "secret_exists fl m s")
  case (Inl e')
  with assms show ?thesis by (simp add: update_secret_def)
next
  case (Inr b)
  show ?thesis
  proof (cases b)
    case False
    with assms Inr show ?thesis using create_secret_failed by (simp add: update_secret_def)
  next
    case True
    show ?thesis
    proof (cases "sf_remove fl")
      case None
      with assms Inr True show ?thesis
        using create_secret_failed [of fa fl m "s\<lparr>ps_store := (ps_store s)(sm_name m := None)\<rparr>" e s']
        by (simp add: update_secret_def remove_secret_def)
    next
      case (Some x)
      with assms Inr True show ?thesis by (cases x) (simp add: update_secret_def remove_secret_def)
    qed
  qed
qed

lemma get_file_hash_done:
  "get_file_hash sha fa fl m s = (Inr h, s') \<Longrightarrow>
   (\<exists>c. fa (sm_file m) (ps_clock s) = Some c \<and> h = hex_encode (sha c)) \<and> s' = s\<lparr>ps_clock := ps_clock s + 1\<rparr>"
  by (auto simp: get_file_hash_def read_file_def Let_def split: option.splits)

lemma get_file_hash_failed:
  "get_file_hash sha fa fl m s = (Inl e, s') \<Longrightarrow> ps_store s' = ps_store s"
  by (auto simp: get_file_hash_def read_file_def Let_def split: option.splits)

text \<open>When the credentials file is left alone during a synchronisation and the cached hash belongs to the
  secret's content, a successful one leaves the file's content in the secret, reports an update exactly
  when it made one, and keeps the cached hash in order. A failed one keeps the manager as it was, so
  that the next call tries again, but may already have removed the secret.
\<close>

lemma sync_if_changed_fresh:
  assumes "inj sha" and "cache_ok sha m s" and "quiet fa (sm_file m) (ps_clock s) (Some c)"
    and "sync_if_changed sha fa fl m s = (r, m', s')"
  shows "case r of
      Inl e \<Rightarrow> m' = m \<and> (ps_store s' = ps_store s \<or> ps_store s' = (ps_store s)(sm_name m := None))
    | Inr b \<Rightarrow> ps_store s' (sm_name m) = Some c \<and> cache_ok sha m' s' \<and>
        (b \<longleftrightarrow> sm_cached m \<noteq> hex_encode (sha c)) \<and> sm_cached m' = hex_encode (sha c)"
proof (cases "get_file_hash sha fa fl m s")
  case (Pair h s1)
  show ?thesis
  proof (cases h)
    case (Inl e)
    with Pair assms(4) get_file_hash_failed show ?thesis by (auto simp: sync_if_changed_def)
  next
    case (Inr x)
    with Pair have s1: "s1 = s\<lparr>ps_clock := ps_clock s + 1\<rparr>" and x: "x = hex_encode (sha c)"
      using get_file_hash_done [of sha fa fl m s x s1] quiet_at [OF assms(3)] by auto
    show ?thesis
    proof (cases "x = sm_cached m")
      case True
      then have "ps_store s (sm_name m) = Some c"
        using assms(2) x by (simp add: cache_ok_def)
      with True Inr Pair assms(2,4) s1 x show ?thesis
        by (auto simp: sync_if_changed_def cache_ok_def)
    next
      case False
      obtain f s2 where u: "update_secret fa fl m s1 = (f, s2)" by (cases "update_secret fa fl m s1")
      show ?thesis
      proof (cases f)
        case (Some e)
        with False Inr Pair u assms(4) s1 update_secret_failed [of fa fl m s1 e s2] show ?thesis
          by (auto simp: sync_if_changed_def)
      next
        case None
        with u obtain d where d: "fa (sm_file m) (ps_clock s1 + 1) = Some d" "ps_store s2 = (ps_store s1)(sm_name m \<mapsto> d)"
          using update_secret_done [of fa fl m s1 s2] by auto
        moreover have "fa (sm_file m) (ps_clock s1 + 1) = Some c"
          by (rule quiet_at [OF assms(3)]) (simp add: s1)
        ultimately have "ps_store s2 (sm_name m) = Some c" by simp
        moreover have "hex_encode (sha c) = hex_encode (sha c') \<Longrightarrow> c' = c" for c'
          using hex_encode_inj [of "sha c" "sha c'"] injD [OF assms(1)] by metis
        ultimately show ?thesis
          using False Inr Pair u None assms(4) x by (auto simp: sync_if_changed_def cache_ok_def)
      qed
    qed
  qed
qed

definition sample_manager :: secrets_manager where
  "sample_manager = \<lparr>sm_file = ''/c'', sm_name = ''n'', sm_cached = []\<rparr>"

definition sample_podman :: podman_state where
  "sample_podman = \<lparr>ps_clock = 0, ps_store = [''n'' \<mapsto> ''old'']\<rparr>"

definition sample_sha :: "string \<Rightarrow> string" where
  "sample_sha c = CHR ''h'' # c"

lemma sync_if_changed_fresh_witness:
  "fst (sync_if_changed sample_sha (\<lambda>p t. Some ''new'') no_faults sample_manager sample_podman) = Inr True \<and>
   ps_store (snd (snd (sync_if_changed sample_sha (\<lambda>p t. Some ''new'') no_faults sample_manager sample_podman))) ''n'' =
     Some ''new''"
proof -
  let ?r = "sync_if_changed sample_sha (\<lambda>p t. Some ''new'') no_faults sample_manager sample_podman"
  have i: "inj sample_sha" by (auto simp: inj_def sample_sha_def)
  have h: "hex_encode (sample_sha x) \<noteq> []" for x
    by (simp add: hex_encode_def sample_sha_def Let_def)
  have c: "cache_ok sample_sha sample_manager sample_podman"
    using h by (auto simp: cache_ok_def sample_manager_def dest: sym)
  have q: "quiet (\<lambda>p t. Some ''new'') (sm_file sample_manager) (ps_clock sample_podman) (Some ''new'')"
    by (simp add: quiet_def)
  have r: "fst ?r = Inr True" by code_simp
  have e: "?r = (Inr True, fst (snd ?r), snd (snd ?r))" by (simp add: r [symmetric])
  from sync_if_changed_fresh [OF i c q e] r show ?thesis
    by (simp add: sample_manager_def)
qed

text \<open>Two orders of events that leave containers with stale or no credentials while every later
  synchronisation reports that nothing has changed. At start-up the hash is taken after the secret was
  created: a file renewed in between is taken for already synchronised. And a synchronisation whose
  \<^verbatim>\<open>podman secret create\<close> fails has removed the secret but keeps the old hash: once the old file is back,
  the secret is never created again.
\<close>

lemma credentials_sync_gaps:
  assumes "sha ''new'' \<noteq> sha ''old''"
  shows
    "(let fa = (\<lambda>p t. Some (if t < 3 then ''old'' else ''new''));
          (r, m, s) = ensure_exists sha None fa no_faults [] sample_manager (sample_podman\<lparr>ps_store := Map.empty\<rparr>);
          (r', m', s') = sync_if_changed sha fa no_faults m s
      in r = None \<and> fa (sm_file m) (ps_clock s) = Some ''new'' \<and> r' = Inr False \<and> ps_store s' ''n'' = Some ''old'') \<and>
     (let m0 = sample_manager\<lparr>sm_cached := hex_encode (sha ''old'')\<rparr>;
          (r, m, s) = sync_if_changed sha (\<lambda>p t. Some ''new'')
            (no_faults\<lparr>sf_create := Some (ExitError (Exited 125), ''disk full'')\<rparr>) m0 sample_podman;
          (r', m', s') = sync_if_changed sha (\<lambda>p t. Some ''old'') no_faults m s
      in isl r \<and> r' = Inr False \<and> ps_store s' ''n'' = None)"
proof -
  have "hex_encode (sha ''new'') \<noteq> hex_encode (sha ''old'')"
    using assms hex_encode_inj by blast
  then show ?thesis
    by (simp add: ensure_exists_def sync_if_changed_def update_secret_def create_secret_def remove_secret_def
        secret_exists_def get_file_hash_def file_exists_def read_file_def no_faults_def sample_manager_def sample_podman_def)
qed

lemma credentials_sync_gaps_witness:
  "sample_sha ''new'' \<noteq> sample_sha ''old'' \<and>
   (let m0 = sample_manager\<lparr>sm_cached := hex_encode (sample_sha ''old'')\<rparr>;
        (r, m, s) = sync_if_changed sample_sha (\<lambda>p t. Some ''new'')
          (no_faults\<lparr>sf_create := Some (ExitError (Exited 125), ''disk full'')\<rparr>) m0 sample_podman;
        (r', m', s') = sync_if_changed sample_sha (\<lambda>p t. Some ''old'') no_faults m s
    in isl r \<and> r' = Inr False \<and> ps_store s' ''n'' = None)"
proof -
  have n: "sample_sha ''new'' \<noteq> sample_sha ''old''" by (simp add: sample_sha_def)
  from n conjunct2 [OF credentials_sync_gaps [OF n]] show ?thesis by (rule conjI)
qed

end
