(* ===== verification/Keyed_Store.thy ===== *)
theory Keyed_Store
  imports Prelude
begin

text \<open>
  The contract that the in-place updates of the managers share: an update with key \<open>k\<close> changes the
  entry of \<open>k\<close> by a fixed function, and does nothing when there is none. The clients' invariant
  proofs use the lemmas of the locale; each manager interprets it on its own operations.
\<close>

locale touching =
  fixes upd :: "'k \<Rightarrow> ('k \<rightharpoonup> 'v) \<Rightarrow> ('k \<rightharpoonup> 'v)"
    and f :: "'v \<Rightarrow> 'v"
  assumes upd_apply: "upd k m k' = (if k' = k then map_option f (m k) else m k')"
begin

lemma upd_is_touch: "upd k m = map_touch k f m"
  by (rule ext) (simp add: upd_apply map_touch_apply)

lemma dom_eq: "dom (upd k m) = dom m"
  by (simp add: upd_is_touch)

lemma frame: "k' \<noteq> k \<Longrightarrow> upd k m k' = m k'"
  by (simp add: upd_apply)

lemma missing: "m k = None \<Longrightarrow> upd k m = m"
  by (simp add: upd_is_touch)

lemma hit: "m k = Some v \<Longrightarrow> upd k m k = Some (f v)"
  by (simp add: upd_apply)

lemma keeps_all:
  assumes "\<And>k v. m k = Some v \<Longrightarrow> P k v"
    and "\<And>v. m k = Some v \<Longrightarrow> P k v \<Longrightarrow> P k (f v)"
    and "upd k m k' = Some v'"
  shows "P k' v'"
  using assms by (auto simp: upd_apply split: if_splits)

text \<open>What the update reads off an entry does not change for the projections it leaves alone.\<close>

lemma keeps_projection:
  assumes "\<And>v. g (f v) = g v"
  shows "map_option g (upd k m k') = map_option g (m k')"
  using assms by (auto simp: upd_apply option.map_comp comp_def)

end

text \<open>Two updates on different keys commute.\<close>

lemma touching_commute:
  assumes "touching u f" and "touching w g" and "k \<noteq> k'"
  shows "u k (w k' m) = w k' (u k m)"
  using assms by (auto simp: touching_def)

end
