(* ===== verification/Reaper.thy ===== *)
theory Reaper
  imports Prelude
begin

text \<open>
  Several components keep a map with entries that expire and sweep it from a background
  goroutine: the job manager, both token blacklists and the rate limiter. This theory holds what
  they share: the sweep loop over a map (Go iterates in an unspecified order, so the order is an
  argument), the contract of a sweep as a locale, and the goroutine control with its stop
  channel.
\<close>

section \<open>The sweep loop\<close>

definition reap_loop :: "('v \<Rightarrow> bool) \<Rightarrow> 'k list \<Rightarrow> ('k \<rightharpoonup> 'v) \<Rightarrow> ('k \<rightharpoonup> 'v)" where
  "reap_loop dead ks m =
     fold (\<lambda>k m. case m k of
                   None \<Rightarrow> m
                 | Some v \<Rightarrow> if dead v then m(k := None) else m) ks m"

lemma reap_loop_Nil [simp]: "reap_loop dead [] m = m"
  by (simp add: reap_loop_def)

lemma reap_loop_apply:
  "reap_loop dead ks m k =
     (case m k of None \<Rightarrow> None | Some v \<Rightarrow> if k \<in> set ks \<and> dead v then None else Some v)"
proof (induction ks arbitrary: m)
  case Nil
  then show ?case by (simp split: option.split)
next
  case (Cons k' ks)
  let ?m' = "case m k' of None \<Rightarrow> m | Some v \<Rightarrow> if dead v then m(k' := None) else m"
  have "reap_loop dead (k' # ks) m = reap_loop dead ks ?m'"
    by (simp add: reap_loop_def)
  with Cons.IH [of ?m'] show ?case
    by (auto split: option.splits if_splits)
qed

section \<open>The contract of a sweep\<close>

text \<open>
  \<open>sweep now ks m\<close> visits the keys \<open>ks\<close> at time \<open>now\<close>; \<open>dead now v\<close> says that the entry \<open>v\<close> may go.
  Death is permanent: an entry dead now is dead at every later time.
\<close>

locale reaper =
  fixes sweep :: "gtime \<Rightarrow> 'k list \<Rightarrow> ('k \<rightharpoonup> 'v) \<Rightarrow> ('k \<rightharpoonup> 'v)"
    and dead :: "gtime \<Rightarrow> 'v \<Rightarrow> bool"
  assumes sweep_apply:
      "sweep now ks m k =
         (case m k of None \<Rightarrow> None | Some v \<Rightarrow> if k \<in> set ks \<and> dead now v then None else Some v)"
    and dead_mono: "dead t v \<Longrightarrow> t \<le> t' \<Longrightarrow> dead t' v"
begin

lemma keeps_live: "m k = Some v \<Longrightarrow> \<not> dead now v \<Longrightarrow> sweep now ks m k = Some v"
  by (simp add: sweep_apply)

lemma drops_dead: "m k = Some v \<Longrightarrow> dead now v \<Longrightarrow> k \<in> set ks \<Longrightarrow> sweep now ks m k = None"
  by (simp add: sweep_apply)

lemma only_removes: "sweep now ks m k = Some v \<Longrightarrow> m k = Some v"
  by (simp add: sweep_apply split: option.splits if_splits)

lemma submap: "sweep now ks m \<subseteq>\<^sub>m m"
  unfolding map_le_def using only_removes by (metis domD)

text \<open>When the loop visits every key, its order does not matter.\<close>

lemma order_irrelevant:
  assumes "dom m \<subseteq> set ks" and "dom m \<subseteq> set ks'"
  shows "sweep now ks m = sweep now ks' m"
proof
  fix k
  show "sweep now ks m k = sweep now ks' m k"
    using assms by (auto simp: sweep_apply split: option.splits)
qed

lemma complete:
  assumes "dom m \<subseteq> set ks"
  shows "sweep now ks m k = Some v \<longleftrightarrow> m k = Some v \<and> \<not> dead now v"
  using assms by (auto simp: sweep_apply split: option.splits)

text \<open>A later sweep subsumes an earlier one.\<close>

lemma later_subsumes:
  assumes "dom m \<subseteq> set ks" and "t \<le> t'"
  shows "sweep t' ks (sweep t ks' m) = sweep t' ks m"
proof
  fix k
  show "sweep t' ks (sweep t ks' m) k = sweep t' ks m k"
    using assms by (auto simp: sweep_apply split: option.splits dest: dead_mono)
qed

lemma idempotent: "sweep t ks (sweep t ks m) = sweep t ks m"
  by (rule ext) (auto simp: sweep_apply split: option.splits)

text \<open>An entry that no sweep of a run finds dead survives the run.\<close>

lemma live_survives_run:
  "m k = Some v \<Longrightarrow> (\<forall>(t, ks) \<in> set runs. \<not> dead t v) \<Longrightarrow>
   fold (\<lambda>(t, ks). sweep t ks) runs m k = Some v"
proof (induction runs arbitrary: m)
  case Nil
  then show ?case by simp
next
  case (Cons r runs)
  obtain t ks where r: "r = (t, ks)" by (cases r)
  with Cons.prems have "sweep t ks m k = Some v" by (auto intro: keeps_live)
  with Cons r show ?case by simp
qed

end

section \<open>The cleanup goroutine and its stop channel\<close>

text \<open>
  \<^verbatim>\<open>StartCleanup\<close> makes a stop channel and starts a loop that selects on it, unless one is
  installed already; \<^verbatim>\<open>StopCleanup\<close> closes the channel and clears the field. The state keeps the
  installed channel, the channels closed so far and the goroutines that have not returned yet, each
  by the number of its channel.
\<close>

record cleanup_ctl =
  ctl_chan :: "nat option"
  ctl_next :: nat
  ctl_closed :: "nat set"
  ctl_loops :: "nat set"

definition ctl_init :: cleanup_ctl where
  "ctl_init = \<lparr>ctl_chan = None, ctl_next = 0, ctl_closed = {}, ctl_loops = {}\<rparr>"

definition ctl_start :: "cleanup_ctl \<Rightarrow> cleanup_ctl" where
  "ctl_start c =
     (case ctl_chan c of
        Some _ \<Rightarrow> c
      | None \<Rightarrow> c\<lparr>ctl_chan := Some (ctl_next c),
                 ctl_next := Suc (ctl_next c),
                 ctl_loops := insert (ctl_next c) (ctl_loops c)\<rparr>)"

text \<open>Closing a closed channel panics in Go; the result is then \<open>None\<close>.\<close>

definition ctl_stop :: "cleanup_ctl \<Rightarrow> cleanup_ctl option" where
  "ctl_stop c =
     (case ctl_chan c of
        None \<Rightarrow> Some c
      | Some ch \<Rightarrow>
          if ch \<in> ctl_closed c then None
          else Some (c\<lparr>ctl_chan := None, ctl_closed := insert ch (ctl_closed c)\<rparr>))"

text \<open>A loop returns when it sees its channel closed.\<close>

inductive ctl_step :: "cleanup_ctl \<Rightarrow> cleanup_ctl \<Rightarrow> bool" where
  start: "ctl_step c (ctl_start c)"
| stop: "ctl_stop c = Some c' \<Longrightarrow> ctl_step c c'"
| loop_return: "ch \<in> ctl_loops c \<Longrightarrow> ch \<in> ctl_closed c \<Longrightarrow>
    ctl_step c (c\<lparr>ctl_loops := ctl_loops c - {ch}\<rparr>)"

definition ctl_inv :: "cleanup_ctl \<Rightarrow> bool" where
  "ctl_inv c \<longleftrightarrow>
     (\<forall>ch. ctl_chan c = Some ch \<longrightarrow> ch \<notin> ctl_closed c \<and> ch < ctl_next c \<and> ch \<in> ctl_loops c) \<and>
     (\<forall>ch \<in> ctl_closed c. ch < ctl_next c) \<and>
     (\<forall>ch \<in> ctl_loops c. ch \<in> ctl_closed c \<or> ctl_chan c = Some ch)"

lemma ctl_inv_init [inv_intros]: "ctl_inv ctl_init"
  by (simp add: ctl_inv_def ctl_init_def)

lemma ctl_inv_start [inv_intros]: "ctl_inv c \<Longrightarrow> ctl_inv (ctl_start c)"
  by (auto simp: ctl_inv_def ctl_start_def split: option.splits)

lemma ctl_inv_stop [inv_intros]: "ctl_inv c \<Longrightarrow> ctl_stop c = Some c' \<Longrightarrow> ctl_inv c'"
  by (auto simp: ctl_inv_def ctl_stop_def split: option.splits if_splits)

lemma ctl_stop_no_panic: "ctl_inv c \<Longrightarrow> ctl_stop c \<noteq> None"
  by (auto simp: ctl_inv_def ctl_stop_def split: option.splits)

lemma ctl_inv_step: "ctl_step c c' \<Longrightarrow> ctl_inv c \<Longrightarrow> ctl_inv c'"
proof (induction rule: ctl_step.induct)
  case (loop_return ch c)
  then show ?case by (auto simp: ctl_inv_def)
qed (auto intro: inv_intros)

lemma ctl_inv_reachable: "ctl_step\<^sup>*\<^sup>* ctl_init c \<Longrightarrow> ctl_inv c"
  by (induction rule: rtranclp_induct) (auto intro: ctl_inv_init ctl_inv_step)

text \<open>At most one loop keeps ticking: all others have a closed channel and are about to return.\<close>

lemma ctl_one_live_loop:
  "ctl_inv c \<Longrightarrow> a \<in> ctl_loops c - ctl_closed c \<Longrightarrow> b \<in> ctl_loops c - ctl_closed c \<Longrightarrow> a = b"
  unfolding ctl_inv_def by (metis DiffE option.inject)

end
