(* ===== verification/Jobs.thy ===== *)
theory Jobs
  imports Keyed_Store Reaper
begin

text \<open>
  The job manager, \<^verbatim>\<open>internal/job/job.go\<close>: a map from job id to job under one mutex, so every
  method is one atomic step; \<^verbatim>\<open>time.Now()\<close> is an argument of the operations that read the clock.
\<close>

section \<open>Data\<close>

datatype job_status = Pending | Running | Completed | Failed | Crashed | Cancelled

record crash_info =
  ci_exit_code :: int
  ci_signal :: string
  ci_reason :: string
  ci_partial_output :: string
  ci_task_completed :: bool

record usage =
  us_model :: string
  us_input :: int
  us_output :: int
  us_cache_creation :: int
  us_cache_read :: int
  us_total :: int
  us_cost :: rat

record job =
  job_id :: string
  job_status :: job_status
  job_output :: string
  job_error :: string
  job_session :: string
  job_usage :: "usage option"
  job_crash :: "crash_info option"
  job_created :: gtime
  job_updated :: gtime
  job_cancelled_at :: "gtime option"

type_synonym jobs = "string \<rightharpoonup> job"

record job_manager =
  jm_jobs :: jobs
  jm_ctl :: cleanup_ctl

definition new_job_manager :: job_manager where
  "new_job_manager = \<lparr>jm_jobs = Map.empty, jm_ctl = ctl_init\<rparr>"

section \<open>Operations\<close>

definition new_job :: "string \<Rightarrow> gtime \<Rightarrow> job" where
  "new_job jid now =
     \<lparr>job_id = jid, job_status = Pending, job_output = [], job_error = [], job_session = [],
      job_usage = None, job_crash = None, job_created = now, job_updated = now,
      job_cancelled_at = None\<rparr>"

definition job_create :: "gtime \<Rightarrow> string \<Rightarrow> jobs \<Rightarrow> jobs" where
  "job_create now jid m = m(jid \<mapsto> new_job jid now)"

definition job_get :: "string \<Rightarrow> jobs \<Rightarrow> job option" where
  "job_get jid m = m jid"

definition job_update ::
    "gtime \<Rightarrow> job_status \<Rightarrow> string \<Rightarrow> string \<Rightarrow> string \<Rightarrow> string \<Rightarrow> jobs \<Rightarrow> jobs" where
  "job_update now status out err sid jid m =
     (case m jid of
        None \<Rightarrow> m
      | Some j \<Rightarrow> m(jid \<mapsto> j\<lparr>job_status := status, job_output := out, job_error := err,
                          job_session := sid, job_updated := now\<rparr>))"

definition job_set_usage :: "gtime \<Rightarrow> usage option \<Rightarrow> string \<Rightarrow> jobs \<Rightarrow> jobs" where
  "job_set_usage now u jid m =
     (case m jid of
        None \<Rightarrow> m
      | Some j \<Rightarrow> m(jid \<mapsto> j\<lparr>job_usage := u, job_updated := now\<rparr>))"

definition job_update_with_crash ::
    "gtime \<Rightarrow> crash_info option \<Rightarrow> string \<Rightarrow> string \<Rightarrow> string \<Rightarrow> jobs \<Rightarrow> jobs" where
  "job_update_with_crash now ci out sid jid m =
     (case m jid of
        None \<Rightarrow> m
      | Some j \<Rightarrow> m(jid \<mapsto> j\<lparr>job_status := Crashed, job_crash := ci, job_output := out,
                          job_session := sid, job_updated := now\<rparr>))"

text \<open>\<^verbatim>\<open>List\<close> copies the jobs out in the iteration order of the map, here the order of \<open>ks\<close>.\<close>

definition job_list :: "string list \<Rightarrow> jobs \<Rightarrow> job list" where
  "job_list ks m = List.map_filter m ks"

definition job_delete :: "string \<Rightarrow> jobs \<Rightarrow> bool \<times> jobs" where
  "job_delete jid m = (case m jid of None \<Rightarrow> (False, m) | Some _ \<Rightarrow> (True, m(jid := None)))"

definition job_cancel :: "gtime \<Rightarrow> string \<Rightarrow> jobs \<Rightarrow> bool \<times> jobs" where
  "job_cancel now jid m =
     (case m jid of
        None \<Rightarrow> (False, m)
      | Some j \<Rightarrow>
          if job_status j \<noteq> Pending \<and> job_status j \<noteq> Running then (False, m)
          else (True, m(jid \<mapsto> j\<lparr>job_status := Cancelled, job_cancelled_at := Some now,
                               job_updated := now\<rparr>)))"

definition job_terminal :: "job_status \<Rightarrow> bool" where
  "job_terminal s \<longleftrightarrow> \<not> (s \<noteq> Completed \<and> s \<noteq> Failed \<and> s \<noteq> Cancelled \<and> s \<noteq> Crashed)"

definition job_expired :: "gtime \<Rightarrow> gtime \<Rightarrow> job \<Rightarrow> bool" where
  "job_expired ttl now j \<longleftrightarrow>
     job_terminal (job_status j) \<and> time_sub now (job_updated j) > ttl"

definition job_cleanup :: "gtime \<Rightarrow> gtime \<Rightarrow> string list \<Rightarrow> jobs \<Rightarrow> jobs" where
  "job_cleanup ttl now ks m = reap_loop (job_expired ttl now) ks m"

definition job_start_cleanup :: "job_manager \<Rightarrow> job_manager" where
  "job_start_cleanup jm = jm\<lparr>jm_ctl := ctl_start (jm_ctl jm)\<rparr>"

definition job_stop_cleanup :: "job_manager \<Rightarrow> job_manager option" where
  "job_stop_cleanup jm = map_option (\<lambda>c. jm\<lparr>jm_ctl := c\<rparr>) (ctl_stop (jm_ctl jm))"

section \<open>The shared contracts\<close>

interpretation jupd: touching "job_update now s out err sid"
    "\<lambda>j. j\<lparr>job_status := s, job_output := out, job_error := err, job_session := sid,
          job_updated := now\<rparr>"
  for now s out err sid
  by unfold_locales (simp add: job_update_def split: option.split)

interpretation jusage: touching "job_set_usage now u"
    "\<lambda>j. j\<lparr>job_usage := u, job_updated := now\<rparr>" for now u
  by unfold_locales (simp add: job_set_usage_def split: option.split)

interpretation jcrash: touching "job_update_with_crash now ci out sid"
    "\<lambda>j. j\<lparr>job_status := Crashed, job_crash := ci, job_output := out, job_session := sid,
          job_updated := now\<rparr>"
  for now ci out sid
  by unfold_locales (simp add: job_update_with_crash_def split: option.split)

interpretation jcancel: touching "\<lambda>jid m. snd (job_cancel now jid m)"
    "\<lambda>j. if job_status j \<noteq> Pending \<and> job_status j \<noteq> Running then j
         else j\<lparr>job_status := Cancelled, job_cancelled_at := Some now, job_updated := now\<rparr>"
  for now
  by unfold_locales (auto simp: job_cancel_def split: option.split)

interpretation jreap: reaper "job_cleanup ttl" "job_expired ttl" for ttl
proof
  show "job_cleanup ttl now ks m k = (case m k of None \<Rightarrow> None
          | Some v \<Rightarrow> if k \<in> set ks \<and> job_expired ttl now v then None else Some v)"
    for now ks m k
    by (simp add: job_cleanup_def reap_loop_apply)
  show "job_expired ttl t v \<Longrightarrow> t \<le> t' \<Longrightarrow> job_expired ttl t' v" for t t' v
    using time_sub_mono [of t t' "job_updated v"] by (auto simp: job_expired_def)
qed

section \<open>Each operation on every branch\<close>

lemma job_update_apply [model_simps]:
  "job_update now s out err sid jid m k =
     (if k = jid then map_option (\<lambda>j. j\<lparr>job_status := s, job_output := out, job_error := err,
                                      job_session := sid, job_updated := now\<rparr>) (m jid)
      else m k)"
  by (rule jupd.upd_apply)

lemma job_set_usage_apply [model_simps]:
  "job_set_usage now u jid m k =
     (if k = jid then map_option (\<lambda>j. j\<lparr>job_usage := u, job_updated := now\<rparr>) (m jid) else m k)"
  by (rule jusage.upd_apply)

lemma job_crash_apply [model_simps]:
  "job_update_with_crash now ci out sid jid m k =
     (if k = jid then map_option (\<lambda>j. j\<lparr>job_status := Crashed, job_crash := ci,
                                      job_output := out, job_session := sid,
                                      job_updated := now\<rparr>) (m jid)
      else m k)"
  by (rule jcrash.upd_apply)

lemma job_create_apply [model_simps]:
  "job_create now jid m k = (if k = jid then Some (new_job jid now) else m k)"
  by (simp add: job_create_def)

lemma job_terminal_iff: "job_terminal s \<longleftrightarrow> s \<noteq> Pending \<and> s \<noteq> Running"
  by (cases s) (simp_all add: job_terminal_def)

lemma job_cancel_refused_iff:
  "\<not> fst (job_cancel now jid m) \<longleftrightarrow>
     m jid = None \<or> (\<exists>j. m jid = Some j \<and> job_terminal (job_status j))"
  by (auto simp: job_cancel_def job_terminal_iff split: option.splits)

lemma job_cancel_refused_same: "\<not> fst (job_cancel now jid m) \<Longrightarrow> snd (job_cancel now jid m) = m"
  by (auto simp: job_cancel_def split: option.splits if_splits)

lemma job_cancel_accepted:
  "fst (job_cancel now jid m) \<Longrightarrow>
   \<exists>j. m jid = Some j \<and> job_status j \<in> {Pending, Running} \<and>
       snd (job_cancel now jid m) =
         m(jid \<mapsto> j\<lparr>job_status := Cancelled, job_cancelled_at := Some now, job_updated := now\<rparr>)"
  by (auto simp: job_cancel_def split: option.splits if_splits)

text \<open>A listing shows every job once, whatever the iteration order of the map was.\<close>

lemma job_list_set: "dom m \<subseteq> set ks \<Longrightarrow> set (job_list ks m) = ran m"
  by (force simp: job_list_def map_filter_def ran_def image_def dom_def)

lemma job_list_length:
  "distinct ks \<Longrightarrow> set ks = dom m \<Longrightarrow> length (job_list ks m) = card (dom m)"
proof -
  assume d: "distinct ks" and s: "set ks = dom m"
  then have "filter (\<lambda>k. m k \<noteq> None) ks = ks"
    by (auto simp: filter_id_conv)
  then have "length (job_list ks m) = length ks"
    by (simp add: job_list_def map_filter_def comp_def)
  with d s show ?thesis
    by (metis distinct_card)
qed

section \<open>Properties\<close>

text \<open>A cleanup pass that visits the whole map removes exactly the jobs that are completed, failed,
  cancelled or crashed and were last updated more than the retention time ago, in whatever order the
  map is iterated; pending and running jobs always stay.\<close>

lemma job_cleanup_exact:
  assumes "dom m \<subseteq> set ks"
  shows "job_cleanup ttl now ks m jid = Some j \<longleftrightarrow>
           m jid = Some j \<and>
           (job_status j \<in> {Pending, Running} \<or> time_sub now (job_updated j) \<le> ttl)"
  by (auto simp: jreap.complete [OF assms] job_expired_def job_terminal_iff)

definition demo_jobs :: jobs where
  "demo_jobs = job_update 5 Completed ''out'' [] ''s'' ''a'' (job_create 1 ''b'' (job_create 0 ''a'' Map.empty))"

lemma job_cleanup_exact_witness:
  "job_cleanup 10 100 [''b'', ''a''] demo_jobs ''b'' = Some (new_job ''b'' 1) \<and>
   job_cleanup 10 100 [''b'', ''a''] demo_jobs ''a'' = None"
proof -
  have d: "dom demo_jobs \<subseteq> set [''b'', ''a'']"
    by (auto simp: demo_jobs_def model_simps split: if_splits)
  have "job_cleanup 10 100 [''b'', ''a''] demo_jobs ''a'' \<noteq> Some j" for j
    unfolding job_cleanup_exact [OF d]
    by (auto simp: demo_jobs_def model_simps new_job_def time_sub_def)
  moreover have "job_cleanup 10 100 [''b'', ''a''] demo_jobs ''b'' = Some (new_job ''b'' 1)"
    unfolding job_cleanup_exact [OF d] by (auto simp: demo_jobs_def model_simps new_job_def)
  ultimately show ?thesis
    by (metis not_Some_eq)
qed

text \<open>However starts, stops and returns of cleanup goroutines interleave, at most one cleanup loop
  keeps ticking (every other has its stop channel closed), stopping never panics by closing a
  channel twice, and after a stop no loop keeps ticking.\<close>

lemma job_cleanup_single_loop:
  assumes "ctl_step\<^sup>*\<^sup>* ctl_init (jm_ctl jm)"
  shows "card (ctl_loops (jm_ctl (job_start_cleanup jm)) - ctl_closed (jm_ctl (job_start_cleanup jm))) = 1 \<and>
         (\<exists>jm'. job_stop_cleanup jm = Some jm' \<and> ctl_loops (jm_ctl jm') \<subseteq> ctl_closed (jm_ctl jm'))"
proof -
  let ?c = "jm_ctl (job_start_cleanup jm)"
  have inv: "ctl_inv (jm_ctl jm)"
    using assms by (rule ctl_inv_reachable)
  then have inv': "ctl_inv ?c"
    by (simp add: job_start_cleanup_def ctl_inv_start)
  obtain ch where "ch \<in> ctl_loops ?c - ctl_closed ?c"
    using inv' by (fastforce simp: ctl_inv_def job_start_cleanup_def ctl_start_def split: option.splits)
  then have "ctl_loops ?c - ctl_closed ?c = {ch}"
    using ctl_one_live_loop [OF inv'] by blast
  then have "card (ctl_loops ?c - ctl_closed ?c) = 1"
    by simp
  moreover obtain c' where c': "ctl_stop (jm_ctl jm) = Some c'"
    using ctl_stop_no_panic [OF inv] by blast
  then have "ctl_loops c' \<subseteq> ctl_closed c'"
    using inv by (auto simp: ctl_inv_def ctl_stop_def split: option.splits if_splits)
  with c' have "\<exists>jm'. job_stop_cleanup jm = Some jm' \<and> ctl_loops (jm_ctl jm') \<subseteq> ctl_closed (jm_ctl jm')"
    by (simp add: job_stop_cleanup_def)
  ultimately show ?thesis
    by blast
qed

lemma job_cleanup_single_loop_witness:
  "let c = jm_ctl (job_start_cleanup new_job_manager) in card (ctl_loops c - ctl_closed c) = 1"
  using job_cleanup_single_loop [of new_job_manager]
  by (simp add: Let_def new_job_manager_def)

end
