(* ===== verification/Async_Api.thy ===== *)
theory Async_Api
  imports Jobs Go_Text
begin

text \<open>
  Asynchronous runs and the job endpoints, \<^verbatim>\<open>internal/api/async.go\<close>: \<open>POST /run/async\<close> creates a job
  and starts a goroutine whose callback stores the outcome; the other endpoints read or cancel
  jobs while it runs. Every access takes the job manager's mutex, so a run is a sequence of atomic
  steps that interleave with those of other requests: the steps of \<open>async_step\<close>.
\<close>

section \<open>Requests, results and responses\<close>

datatype 'b http = Http (http_code: nat) 'b

record run_result =
  rr_id :: string
  rr_output :: string
  rr_session :: string
  rr_crash :: "crash_info option"

record job_result =
  jr_job_id :: string
  jr_status :: string
  jr_output :: string
  jr_error :: string
  jr_session :: string
  jr_usage :: "usage option"

record job_response =
  jp_id :: string
  jp_status :: job_status
  jp_output :: string
  jp_structured :: "string option"
  jp_error :: string
  jp_session :: string
  jp_crash :: "crash_info option"
  jp_created :: string
  jp_updated :: string

datatype job_body =
    JobError string
  | JobBody job_response
  | JobsBody "job_response list"
  | JobCancelled string
  | JobAccepted string string

definition status_text :: "job_status \<Rightarrow> string" where
  "status_text s =
     (case s of Pending \<Rightarrow> ''pending'' | Running \<Rightarrow> ''running'' | Completed \<Rightarrow> ''completed''
      | Failed \<Rightarrow> ''failed'' | Crashed \<Rightarrow> ''crashed'' | Cancelled \<Rightarrow> ''cancelled'')"

lemma status_text_inj: "status_text s = status_text t \<longleftrightarrow> s = t"
  by (cases s; cases t) (simp_all add: status_text_def)

definition generate_job_id :: "string \<Rightarrow> string" where
  "generate_job_id bytes = ''job-'' @ hex_encode bytes"

lemma generate_job_id_inj: "generate_job_id a = generate_job_id b \<Longrightarrow> a = b"
  by (auto simp: generate_job_id_def dest: hex_encode_inj)

text \<open>
  \<open>envelope\<close> is what \<^verbatim>\<open>encoding/json\<close> finds under \<^verbatim>\<open>structured_output\<close> in the output: \<open>None\<close> when the
  output is not a JSON object, otherwise the raw bytes of the field (empty when absent).
\<close>

definition extract_structured_output :: "(string \<Rightarrow> string option) \<Rightarrow> string \<Rightarrow> string option" where
  "extract_structured_output envelope out =
     (case envelope out of
        None \<Rightarrow> None
      | Some raw \<Rightarrow> if length raw = 0 \<or> raw = ''null'' then None else Some raw)"

definition job_view ::
    "(string \<Rightarrow> string option) \<Rightarrow> (gtime \<Rightarrow> string) \<Rightarrow> job \<Rightarrow> job_response" where
  "job_view envelope fmt j =
     \<lparr>jp_id = job_id j, jp_status = job_status j, jp_output = job_output j,
      jp_structured = extract_structured_output envelope (job_output j),
      jp_error = job_error j, jp_session = job_session j, jp_crash = job_crash j,
      jp_created = fmt (job_created j), jp_updated = fmt (job_updated j)\<rparr>"

definition get_job_handler ::
    "(string \<Rightarrow> string option) \<Rightarrow> (gtime \<Rightarrow> string) \<Rightarrow> string \<Rightarrow> jobs \<Rightarrow> job_body http" where
  "get_job_handler envelope fmt jid m =
     (case job_get jid m of
        None \<Rightarrow> Http 404 (JobError ''job not found'')
      | Some j \<Rightarrow> Http 200 (JobBody (job_view envelope fmt j)))"

definition list_jobs_handler ::
    "(string \<Rightarrow> string option) \<Rightarrow> (gtime \<Rightarrow> string) \<Rightarrow> string list \<Rightarrow> jobs \<Rightarrow> job_body http" where
  "list_jobs_handler envelope fmt ks m =
     Http 200 (JobsBody (map (job_view envelope fmt) (job_list ks m)))"

text \<open>
  The cancel handler takes the mutex twice: the lookup reads the map \<open>m0\<close>, the cancellation acts
  on the possibly later map \<open>m\<close>.
\<close>

definition cancel_job_handler ::
    "gtime \<Rightarrow> string \<Rightarrow> jobs \<Rightarrow> jobs \<Rightarrow> job_body http \<times> jobs" where
  "cancel_job_handler now jid m0 m =
     (case job_get jid m0 of
        None \<Rightarrow> (Http 404 (JobError ''job not found''), m)
      | Some _ \<Rightarrow>
          (case job_cancel now jid m of
             (False, m') \<Rightarrow>
               (Http 409 (JobError ''cannot cancel job (already completed, failed, or cancelled)''), m')
           | (True, m') \<Rightarrow> (Http 200 (JobCancelled jid), m')))"

section \<open>The completion callback\<close>

text \<open>\<open>ws\<close> is the operating system's text for a wait status, used by the error's text.\<close>

definition async_outcome ::
    "(wait_status \<Rightarrow> string) \<Rightarrow> run_result result \<Rightarrow> job_status \<times> string \<times> string \<times> string" where
  "async_outcome ws r =
     (case r of
        Inl e \<Rightarrow> (Failed, [], err_text ws e, [])
      | Inr res \<Rightarrow>
          (case rr_crash res of
             Some _ \<Rightarrow> (Crashed, rr_output res, [], rr_session res)
           | None \<Rightarrow> (Completed, rr_output res, [], rr_session res)))"

definition async_store ::
    "(wait_status \<Rightarrow> string) \<Rightarrow> gtime \<Rightarrow> run_result result \<Rightarrow> string \<Rightarrow> jobs \<Rightarrow> jobs" where
  "async_store ws now r jid m =
     (let (status, out, err, sid) = async_outcome ws r;
          m1 = (case r of
                  Inl _ \<Rightarrow> m
                | Inr res \<Rightarrow>
                    (case rr_crash res of
                       None \<Rightarrow> m
                     | Some ci \<Rightarrow> job_update_with_crash now (Some ci) (rr_output res) (rr_session res) jid m))
      in if status \<noteq> Crashed then job_update now status out err sid jid m1 else m1)"

definition async_account :: "gtime \<Rightarrow> usage option \<Rightarrow> string \<Rightarrow> jobs \<Rightarrow> jobs" where
  "async_account now u jid m = (case u of None \<Rightarrow> m | Some us \<Rightarrow> job_set_usage now (Some us) jid m)"

definition async_payload ::
    "(wait_status \<Rightarrow> string) \<Rightarrow> run_result result \<Rightarrow> usage option \<Rightarrow> string \<Rightarrow> job_result" where
  "async_payload ws r u jid =
     (let (status, out, err, sid) = async_outcome ws r
      in \<lparr>jr_job_id = jid, jr_status = status_text status, jr_output = out, jr_error = err,
          jr_session = sid, jr_usage = u\<rparr>)"

text \<open>The job the callback leaves behind, whatever the job was before.\<close>

definition finished_job ::
    "(wait_status \<Rightarrow> string) \<Rightarrow> gtime \<Rightarrow> run_result result \<Rightarrow> job \<Rightarrow> job" where
  "finished_job ws now r j =
     (case r of
        Inl e \<Rightarrow> j\<lparr>job_status := Failed, job_output := [], job_error := err_text ws e,
                  job_session := [], job_updated := now\<rparr>
      | Inr res \<Rightarrow>
          (case rr_crash res of
             None \<Rightarrow> j\<lparr>job_status := Completed, job_output := rr_output res, job_error := [],
                       job_session := rr_session res, job_updated := now\<rparr>
           | Some ci \<Rightarrow> j\<lparr>job_status := Crashed, job_crash := Some ci, job_output := rr_output res,
                          job_session := rr_session res, job_updated := now\<rparr>))"

interpretation jstore: touching "async_store ws now r" "finished_job ws now r" for ws now r
proof
  show "async_store ws now r k m k' = (if k' = k then map_option (finished_job ws now r) (m k) else m k')"
    for k k' m
    by (cases r)
       (auto simp: async_store_def async_outcome_def finished_job_def [abs_def] model_simps
             split: option.split)
qed

interpretation jaccount: touching "async_account now u"
    "case u of None \<Rightarrow> (\<lambda>j. j) | Some us \<Rightarrow> (\<lambda>j. j\<lparr>job_usage := Some us, job_updated := now\<rparr>)"
  for now u
  by unfold_locales (auto simp: async_account_def model_simps option.map_ident split: option.split)

lemma finished_job_simps [simp]:
  "job_id (finished_job ws now r j) = job_id j"
  "job_created (finished_job ws now r j) = job_created j"
  "job_updated (finished_job ws now r j) = now"
  "job_cancelled_at (finished_job ws now r j) = job_cancelled_at j"
  "job_status (finished_job ws now r j) = fst (async_outcome ws r)"
  "job_output (finished_job ws now r j) = fst (snd (async_outcome ws r))"
  "job_session (finished_job ws now r j) = snd (snd (snd (async_outcome ws r)))"
  by (cases r; simp add: finished_job_def async_outcome_def split: option.split)+

lemma async_outcome_terminal: "fst (async_outcome ws r) \<in> {Completed, Failed, Crashed}"
  by (cases r) (auto simp: async_outcome_def split: option.split)

section \<open>Interleavings\<close>

text \<open>
  The state of the asynchronous side of the server: the job map, the clock, the job ids drawn so
  far, the runs between \<^verbatim>\<open>Create\<close> and the first \<^verbatim>\<open>Update\<close>, the runs whose goroutine has not called
  back, and the callbacks between their store and their \<^verbatim>\<open>SetUsage\<close>.
\<close>

record async_state =
  as_jobs :: jobs
  as_clock :: gtime
  as_drawn :: "string set"
  as_starting :: "string set"
  as_running :: "string set"
  as_accounting :: "(string \<times> run_result result) set"
  as_outbox :: "job_result list"

definition async_init :: async_state where
  "async_init = \<lparr>as_jobs = Map.empty, as_clock = 0, as_drawn = {}, as_starting = {},
                 as_running = {}, as_accounting = {}, as_outbox = []\<rparr>"

definition run_create :: "gtime \<Rightarrow> string \<Rightarrow> async_state \<Rightarrow> async_state" where
  "run_create now jid s =
     s\<lparr>as_jobs := job_create now jid (as_jobs s), as_clock := now,
       as_drawn := insert jid (as_drawn s), as_starting := insert jid (as_starting s)\<rparr>"

definition run_begin :: "gtime \<Rightarrow> string \<Rightarrow> string \<Rightarrow> async_state \<Rightarrow> async_state" where
  "run_begin now sid jid s =
     s\<lparr>as_jobs := job_update now Running [] [] sid jid (as_jobs s), as_clock := now,
       as_starting := as_starting s - {jid}, as_running := insert jid (as_running s)\<rparr>"

definition run_finish ::
    "(wait_status \<Rightarrow> string) \<Rightarrow> gtime \<Rightarrow> run_result result \<Rightarrow> string \<Rightarrow> async_state \<Rightarrow> async_state" where
  "run_finish ws now r jid s =
     s\<lparr>as_jobs := async_store ws now r jid (as_jobs s), as_clock := now,
       as_running := as_running s - {jid}, as_accounting := insert (jid, r) (as_accounting s)\<rparr>"

text \<open>\<open>build\<close> is \<^verbatim>\<open>buildUsage\<close> on the session files as they are now; \<open>hook\<close> says that the request named
  a webhook.\<close>

definition run_account ::
    "(wait_status \<Rightarrow> string) \<Rightarrow> gtime \<Rightarrow> (string \<Rightarrow> usage option) \<Rightarrow> bool \<Rightarrow> run_result result \<Rightarrow> string \<Rightarrow>
     async_state \<Rightarrow> async_state" where
  "run_account ws now build hook r jid s =
     (let sid = snd (snd (snd (async_outcome ws r))); u = build sid
      in s\<lparr>as_jobs := async_account now u jid (as_jobs s), as_clock := now,
           as_accounting := as_accounting s - {(jid, r)},
           as_outbox := (if hook then as_outbox s @ [async_payload ws r u jid] else as_outbox s)\<rparr>)"

definition run_cancel :: "gtime \<Rightarrow> string \<Rightarrow> async_state \<Rightarrow> async_state" where
  "run_cancel now jid s = s\<lparr>as_jobs := snd (job_cancel now jid (as_jobs s)), as_clock := now\<rparr>"

definition run_sweep :: "gtime \<Rightarrow> gtime \<Rightarrow> string list \<Rightarrow> async_state \<Rightarrow> async_state" where
  "run_sweep ttl now ks s = s\<lparr>as_jobs := job_cleanup ttl now ks (as_jobs s), as_clock := now\<rparr>"

text \<open>Job ids are drawn from \<^verbatim>\<open>crypto/rand\<close>: no id is drawn twice. The clock does not go back.\<close>

inductive async_step :: "(wait_status \<Rightarrow> string) \<Rightarrow> gtime \<Rightarrow> async_state \<Rightarrow> async_state \<Rightarrow> bool"
  for ws ttl where
  create: "as_clock s \<le> now \<Longrightarrow> jid \<notin> as_drawn s \<Longrightarrow> async_step ws ttl s (run_create now jid s)"
| begin_run: "as_clock s \<le> now \<Longrightarrow> jid \<in> as_starting s \<Longrightarrow>
    async_step ws ttl s (run_begin now sid jid s)"
| finish: "as_clock s \<le> now \<Longrightarrow> jid \<in> as_running s \<Longrightarrow>
    async_step ws ttl s (run_finish ws now r jid s)"
| account: "as_clock s \<le> now \<Longrightarrow> (jid, r) \<in> as_accounting s \<Longrightarrow>
    async_step ws ttl s (run_account ws now build hook r jid s)"
| cancel: "as_clock s \<le> now \<Longrightarrow> async_step ws ttl s (run_cancel now jid s)"
| sweep: "as_clock s \<le> now \<Longrightarrow> async_step ws ttl s (run_sweep ttl now ks s)"

abbreviation async_reachable :: "(wait_status \<Rightarrow> string) \<Rightarrow> gtime \<Rightarrow> async_state \<Rightarrow> bool" where
  "async_reachable ws ttl s \<equiv> (async_step ws ttl)\<^sup>*\<^sup>* async_init s"

lemmas run_defs = run_create_def run_begin_def run_finish_def run_account_def run_cancel_def
  run_sweep_def

subsection \<open>The invariant\<close>

definition job_ok :: "async_state \<Rightarrow> string \<Rightarrow> job \<Rightarrow> bool" where
  "job_ok s jid j \<longleftrightarrow>
     job_id j = jid \<and> jid \<in> as_drawn s \<and>
     job_created j \<le> job_updated j \<and> job_updated j \<le> as_clock s \<and>
     (job_status j = Pending \<longrightarrow> jid \<in> as_starting s) \<and>
     (job_status j = Running \<longrightarrow> jid \<in> as_running s) \<and>
     (jid \<in> as_starting s \<union> as_running s \<longrightarrow> job_error j = []) \<and>
     (job_status j = Crashed \<longrightarrow> job_crash j \<noteq> None) \<and>
     (job_status j = Completed \<longrightarrow> job_error j = []) \<and>
     (job_status j = Failed \<longrightarrow> job_output j = [] \<and> job_session j = []) \<and>
     (job_status j = Cancelled \<longrightarrow>
        (\<exists>t. job_cancelled_at j = Some t \<and> job_created j \<le> t \<and> t \<le> job_updated j))"

definition async_inv :: "async_state \<Rightarrow> bool" where
  "async_inv s \<longleftrightarrow>
     (\<forall>jid j. as_jobs s jid = Some j \<longrightarrow> job_ok s jid j) \<and>
     as_starting s \<union> as_running s \<subseteq> as_drawn s \<and> as_starting s \<inter> as_running s = {}"

lemma async_invI:
  assumes "\<And>jid j. as_jobs s jid = Some j \<Longrightarrow> job_ok s jid j"
    and "as_starting s \<union> as_running s \<subseteq> as_drawn s" and "as_starting s \<inter> as_running s = {}"
  shows "async_inv s"
  using assms by (simp add: async_inv_def)

lemma async_invD: "async_inv s \<Longrightarrow> as_jobs s jid = Some j \<Longrightarrow> job_ok s jid j"
  by (simp add: async_inv_def)

lemma async_inv_sets:
  "async_inv s \<Longrightarrow> as_starting s \<union> as_running s \<subseteq> as_drawn s \<and> as_starting s \<inter> as_running s = {}"
  by (simp add: async_inv_def)

lemma async_inv_init [inv_intros]: "async_inv async_init"
  by (simp add: async_inv_def async_init_def)

lemma inv_create [inv_intros]:
  assumes "async_inv s" and "as_clock s \<le> now" and "jid \<notin> as_drawn s"
  shows "async_inv (run_create now jid s)"
proof (rule async_invI)
  fix k j
  assume j: "as_jobs (run_create now jid s) k = Some j"
  show "job_ok (run_create now jid s) k j"
  proof (cases "k = jid")
    case True
    with j show ?thesis
      by (auto simp: job_ok_def run_create_def job_create_apply new_job_def)
  next
    case False
    with j have "as_jobs s k = Some j"
      by (simp add: run_create_def job_create_apply)
    with assms(1) have "job_ok s k j" by (rule async_invD)
    with assms(2) False show ?thesis
      by (auto simp: job_ok_def run_create_def)
  qed
qed (use assms async_inv_sets [OF assms(1)] in \<open>auto simp: run_create_def\<close>)

text \<open>An operation that rewrites one entry by \<open>f\<close> and leaves the others alone.\<close>

lemma async_inv_touch:
  assumes inv: "async_inv s"
    and touch: "\<And>k. as_jobs s' k = (if k = jid then map_option f (as_jobs s jid) else as_jobs s k)"
    and hit: "\<And>j. job_ok s jid j \<Longrightarrow> job_ok s' jid (f j)"
    and frame: "\<And>k j. k \<noteq> jid \<Longrightarrow> job_ok s k j \<Longrightarrow> job_ok s' k j"
    and "as_starting s' \<union> as_running s' \<subseteq> as_drawn s'" "as_starting s' \<inter> as_running s' = {}"
  shows "async_inv s'"
proof (rule async_invI)
  fix k j'
  assume j': "as_jobs s' k = Some j'"
  show "job_ok s' k j'"
  proof (cases "k = jid")
    case True
    with j' touch obtain j where "as_jobs s jid = Some j" "j' = f j" by auto
    with True hit async_invD [OF inv] show ?thesis by blast
  next
    case False
    with j' touch have "as_jobs s k = Some j'" by simp
    with False frame async_invD [OF inv] show ?thesis by blast
  qed
qed fact+

lemma inv_begin [inv_intros]:
  assumes inv: "async_inv s" and t: "as_clock s \<le> now" and st: "jid \<in> as_starting s"
  shows "async_inv (run_begin now sid jid s)"
proof (rule async_inv_touch [OF inv])
  show "as_jobs (run_begin now sid jid s) k =
          (if k = jid then map_option (\<lambda>j. j\<lparr>job_status := Running, job_output := [], job_error := [],
             job_session := sid, job_updated := now\<rparr>) (as_jobs s jid) else as_jobs s k)" for k
    by (simp add: run_begin_def job_update_apply)
qed (use t st async_inv_sets [OF inv] in \<open>auto simp: job_ok_def run_begin_def\<close>)

lemma job_ok_finished:
  "job_ok s jid j \<Longrightarrow> as_clock s \<le> now \<Longrightarrow> jid \<notin> as_starting s \<Longrightarrow>
   job_ok (run_finish ws now r jid s) jid (finished_job ws now r j)"
  by (cases r) (auto simp: job_ok_def run_finish_def finished_job_def split: option.split)

lemma inv_finish [inv_intros]:
  assumes inv: "async_inv s" and t: "as_clock s \<le> now" and st: "jid \<in> as_running s"
  shows "async_inv (run_finish ws now r jid s)"
proof (rule async_inv_touch [OF inv])
  show "as_jobs (run_finish ws now r jid s) k =
          (if k = jid then map_option (finished_job ws now r) (as_jobs s jid) else as_jobs s k)" for k
    by (simp add: run_finish_def jstore.upd_apply)
  show "job_ok s jid j \<Longrightarrow> job_ok (run_finish ws now r jid s) jid (finished_job ws now r j)" for j
    using t st async_inv_sets [OF inv] by (auto intro: job_ok_finished)
qed (use t st async_inv_sets [OF inv] in \<open>auto simp: job_ok_def run_finish_def\<close>)

lemma inv_account [inv_intros]:
  assumes inv: "async_inv s" and t: "as_clock s \<le> now"
  shows "async_inv (run_account ws now build hook r jid s)"
proof -
  let ?u = "build (snd (snd (snd (async_outcome ws r))))"
  show ?thesis
  proof (rule async_inv_touch [OF inv])
    show "as_jobs (run_account ws now build hook r jid s) k =
            (if k = jid
             then map_option (case ?u of None \<Rightarrow> (\<lambda>j. j)
                              | Some us \<Rightarrow> (\<lambda>j. j\<lparr>job_usage := Some us, job_updated := now\<rparr>)) (as_jobs s jid)
             else as_jobs s k)" for k
      by (simp add: run_account_def Let_def jaccount.upd_apply)
  qed (use t async_inv_sets [OF inv] in
        \<open>auto simp: job_ok_def run_account_def Let_def split: option.split\<close>)
qed

lemma inv_cancel [inv_intros]:
  assumes inv: "async_inv s" and t: "as_clock s \<le> now"
  shows "async_inv (run_cancel now jid s)"
proof (rule async_inv_touch [OF inv])
  show "as_jobs (run_cancel now jid s) k =
          (if k = jid
           then map_option (\<lambda>j. if job_status j \<noteq> Pending \<and> job_status j \<noteq> Running then j
                   else j\<lparr>job_status := Cancelled, job_cancelled_at := Some now, job_updated := now\<rparr>)
                  (as_jobs s jid)
           else as_jobs s k)" for k
    using jcancel.upd_apply [of now jid "as_jobs s" k] by (simp add: run_cancel_def)
qed (use t async_inv_sets [OF inv] in \<open>auto simp: job_ok_def run_cancel_def\<close>)

lemma inv_sweep [inv_intros]:
  assumes "async_inv s" and "as_clock s \<le> now"
  shows "async_inv (run_sweep ttl now ks s)"
proof (rule async_invI)
  fix k j
  assume "as_jobs (run_sweep ttl now ks s) k = Some j"
  then have "as_jobs s k = Some j"
    by (auto simp: run_sweep_def dest: jreap.only_removes)
  with assms(1) have "job_ok s k j" by (rule async_invD)
  with assms(2) show "job_ok (run_sweep ttl now ks s) k j"
    by (auto simp: job_ok_def run_sweep_def)
qed (use async_inv_sets [OF assms(1)] in \<open>auto simp: run_sweep_def\<close>)

lemma async_inv_step: "async_step ws ttl s s' \<Longrightarrow> async_inv s \<Longrightarrow> async_inv s'"
  by (induction rule: async_step.induct) (auto intro: inv_intros)

lemma async_inv_reachable: "async_reachable ws ttl s \<Longrightarrow> async_inv s"
  by (induction rule: rtranclp_induct) (auto intro: async_inv_init async_inv_step)

inductive_cases async_stepE: "async_step ws ttl s s'"

section \<open>Properties\<close>

text \<open>A run that has begun, one that was cancelled meanwhile: inputs for the examples below.\<close>

definition demo_begun :: async_state where
  "demo_begun = run_begin 2 ''s1'' ''job-1'' (run_create 1 ''job-1'' async_init)"

definition demo_cancelled :: async_state where
  "demo_cancelled = run_cancel 3 ''job-1'' demo_begun"

definition demo_result :: "run_result result" where
  "demo_result = Inr \<lparr>rr_id = ''run-1'', rr_output = ''out'', rr_session = ''s1'', rr_crash = None\<rparr>"

lemma demo_begun_reachable: "async_reachable ws ttl demo_begun"
proof -
  let ?s = "run_create 1 ''job-1'' async_init"
  have "async_step ws ttl async_init ?s"
    by (rule create) (simp_all add: async_init_def)
  moreover have "async_step ws ttl ?s demo_begun"
    unfolding demo_begun_def by (rule begin_run) (simp_all add: run_create_def)
  ultimately show ?thesis
    by (metis rtranclp.rtrancl_into_rtrancl rtranclp.rtrancl_refl)
qed

lemma demo_cancelled_reachable: "async_reachable ws ttl demo_cancelled"
proof -
  have "async_step ws ttl demo_begun demo_cancelled"
    unfolding demo_cancelled_def by (rule cancel) (simp add: demo_begun_def run_begin_def)
  with demo_begun_reachable [of ws ttl] show ?thesis
    by (rule rtranclp.rtrancl_into_rtrancl)
qed

lemmas demo_simps = demo_begun_def demo_cancelled_def demo_result_def async_init_def run_defs
  job_create_def new_job_def job_update_def job_cancel_def

text \<open>C1: in every reachable interleaving of creations, callbacks, cancellations and sweeps, the job
  stored under an id carries that id and ordered time stamps; a pending job's run has been accepted
  but not started, a running job's goroutine has not called back yet (so no running job is lost),
  a crashed job has its crash details, a completed job has no error, a failed job has neither
  output nor session, and a cancelled job has its cancellation time.\<close>

theorem reachable_jobs_consistent:
  assumes "async_reachable ws ttl s" and "as_jobs s jid = Some j"
  shows "job_id j = jid \<and> job_created j \<le> job_updated j \<and> job_updated j \<le> as_clock s \<and>
         (case job_status j of
            Pending \<Rightarrow> jid \<in> as_starting s
          | Running \<Rightarrow> jid \<in> as_running s
          | Crashed \<Rightarrow> job_crash j \<noteq> None
          | Completed \<Rightarrow> job_error j = []
          | Failed \<Rightarrow> job_output j = [] \<and> job_session j = []
          | Cancelled \<Rightarrow> (\<exists>t. job_cancelled_at j = Some t \<and> t \<le> job_updated j))"
  using async_invD [OF async_inv_reachable [OF assms(1)] assms(2)]
  by (auto simp: job_ok_def split: job_status.split)

theorem reachable_jobs_consistent_witness:
  "\<exists>j. as_jobs demo_cancelled ''job-1'' = Some j \<and> job_status j = Cancelled \<and>
       (\<exists>t. job_cancelled_at j = Some t \<and> t \<le> job_updated j)"
proof -
  obtain j where j: "as_jobs demo_cancelled ''job-1'' = Some j" "job_status j = Cancelled"
    by (simp add: demo_simps)
  show ?thesis
    using reachable_jobs_consistent [OF demo_cancelled_reachable [of "\<lambda>_. []" 0] j(1)] j by auto
qed



text \<open>When a run's goroutine calls back, the job it stored (unless the entry is gone) and the
  webhook payload it sends agree: id, status, output, error and session are the same.\<close>

lemma webhook_agrees_with_job:
  assumes "async_reachable ws ttl s" and "jid \<in> as_running s"
    and "as_jobs (run_finish ws now r jid s) jid = Some j"
  shows "async_payload ws r u jid =
           \<lparr>jr_job_id = job_id j, jr_status = status_text (job_status j), jr_output = job_output j,
            jr_error = job_error j, jr_session = job_session j, jr_usage = u\<rparr>"
proof -
  obtain j0 where j0: "as_jobs s jid = Some j0" and j: "j = finished_job ws now r j0"
    using assms(3) by (auto simp: run_finish_def jstore.upd_apply)
  have "job_id j0 = jid" "job_error j0 = []"
    using async_invD [OF async_inv_reachable [OF assms(1)] j0] assms(2) by (auto simp: job_ok_def)
  then show ?thesis
    by (cases r)
       (auto simp: j async_payload_def async_outcome_def finished_job_def split: option.split)
qed

lemma webhook_agrees_with_job_witness:
  "\<exists>j. as_jobs (run_finish (\<lambda>_. []) 4 demo_result ''job-1'' demo_begun) ''job-1'' = Some j \<and>
       async_payload (\<lambda>_. []) demo_result None ''job-1'' =
         \<lparr>jr_job_id = job_id j, jr_status = status_text (job_status j), jr_output = job_output j,
          jr_error = job_error j, jr_session = job_session j, jr_usage = None\<rparr>"
proof -
  obtain j where j: "as_jobs (run_finish (\<lambda>_. []) 4 demo_result ''job-1'' demo_begun) ''job-1'' = Some j"
    by (simp add: demo_simps async_store_def async_outcome_def)
  have "''job-1'' \<in> as_running demo_begun"
    by (simp add: demo_simps)
  from webhook_agrees_with_job [OF demo_begun_reachable [of _ 0] this j] j show ?thesis
    by blast
qed

text \<open>C20: a cancellation does not last. When the goroutine of a job that was cancelled while running
  calls back, the job becomes completed, failed or crashed again, with its cancellation time still
  set: the callback stores its outcome without looking at the job's status.\<close>

theorem cancelled_job_overwritten:
  assumes "async_reachable ws ttl s" and "jid \<in> as_running s"
    and "as_jobs s jid = Some j" and "job_status j = Cancelled"
  shows "\<exists>j' t. as_jobs (run_finish ws now r jid s) jid = Some j' \<and>
                job_status j' = fst (async_outcome ws r) \<and> job_status j' \<noteq> Cancelled \<and>
                job_cancelled_at j' = Some t"
proof -
  obtain t where "job_cancelled_at j = Some t"
    using async_invD [OF async_inv_reachable [OF assms(1)] assms(3)] assms(4)
    by (auto simp: job_ok_def)
  with assms(3) async_outcome_terminal [of ws r] show ?thesis
    by (auto simp: run_finish_def jstore.upd_apply)
qed

theorem cancelled_job_overwritten_witness:
  "\<exists>j'. as_jobs (run_finish (\<lambda>_. []) 4 demo_result ''job-1'' demo_cancelled) ''job-1'' = Some j' \<and>
        job_status j' \<noteq> Cancelled \<and> job_cancelled_at j' \<noteq> None"
proof -
  obtain j where j: "as_jobs demo_cancelled ''job-1'' = Some j" "job_status j = Cancelled"
    by (simp add: demo_simps)
  have "''job-1'' \<in> as_running demo_cancelled"
    by (simp add: demo_simps)
  from cancelled_job_overwritten [OF demo_cancelled_reachable [of _ 0] this j, of "\<lambda>_. []" 4 demo_result]
  show ?thesis
    by auto
qed

text \<open>A listing shows each stored job exactly once, under its own id, whatever order the map is
  iterated in.\<close>

lemma list_jobs_each_once:
  assumes "async_reachable ws ttl s" and "distinct ks" and "set ks = dom (as_jobs s)"
  shows "\<exists>views. list_jobs_handler envelope fmt ks (as_jobs s) = Http 200 (JobsBody views) \<and>
                 map jp_id views = ks"
proof -
  have "map jp_id (map (job_view envelope fmt) (job_list ks' (as_jobs s))) = ks'"
    if "set ks' \<subseteq> dom (as_jobs s)" for ks'
    using that
  proof (induction ks')
    case (Cons k ks')
    then obtain j where j: "as_jobs s k = Some j" by auto
    with async_invD [OF async_inv_reachable [OF assms(1)] j] have "job_id j = k"
      by (simp add: job_ok_def)
    with Cons j show ?case
      by (simp add: job_list_def map_filter_simps job_view_def)
  qed (simp add: job_list_def map_filter_simps)
  with assms(3) show ?thesis
    by (simp add: list_jobs_handler_def)
qed

lemma list_jobs_each_once_witness:
  "\<exists>views. list_jobs_handler (\<lambda>_. None) (\<lambda>_. []) [''job-1''] (as_jobs demo_begun) =
             Http 200 (JobsBody views) \<and> map jp_id views = [''job-1'']"
  by (rule list_jobs_each_once [OF demo_begun_reachable [of "\<lambda>_. []" 0]]) (simp_all add: demo_simps)

end
