(* ===== verification/Crash.thy ===== *)
theory Crash
  imports Async_Api
begin

text \<open>
  Crashes and ordinary failures of a container, \<^verbatim>\<open>internal/runner/crash.go\<close>, and the logs fetched after a
  crash, \<^verbatim>\<open>internal/runner/cleanup.go\<close>.
\<close>

section \<open>Classification\<close>

definition crash_signals :: "(int \<times> string) list" where
  "crash_signals =
     [(2, ''SIGINT''), (9, ''SIGKILL''), (11, ''SIGSEGV''), (15, ''SIGTERM''), (6, ''SIGABRT''), (8, ''SIGFPE''),
      (4, ''SIGILL''), (7, ''SIGBUS'')]"

definition task_completed_patterns :: "string list" where
  "task_completed_patterns = [''No messages returned'', ''Task completed'', ''finished successfully'']"

text \<open>The type assertion looks at the error itself, not at what it wraps.\<close>

definition is_crash :: "go_error option \<Rightarrow> bool" where
  "is_crash err =
     (case err of
        None \<Rightarrow> False
      | Some e \<Rightarrow>
          (case err_assert_exit e of
             None \<Rightarrow> False
           | Some (Signaled _) \<Rightarrow> True
           | Some (Exited code) \<Rightarrow> code > 128))"

text \<open>\<^verbatim>\<open>string(rune(n))\<close> for the numbers below 2048: the UTF-8 encoding of the character with that number.\<close>

definition rune_string :: "int \<Rightarrow> string" where
  "rune_string n =
     (if n < 128 then [char_of (nat n)]
      else [char_of (192 + nat n div 64), char_of (128 + nat n mod 64)])"

text \<open>\<^verbatim>\<open>Signal.String()\<close> on Linux.\<close>

definition signal_names :: "(int \<times> string) list" where
  "signal_names =
     [(1, ''hangup''), (2, ''interrupt''), (3, ''quit''), (4, ''illegal instruction''), (5, ''trace/breakpoint trap''),
      (6, ''aborted''), (7, ''bus error''), (8, ''floating point exception''), (9, ''killed''),
      (10, ''user defined signal 1''), (11, ''segmentation fault''), (12, ''user defined signal 2''),
      (13, ''broken pipe''), (14, ''alarm clock''), (15, ''terminated'')]"

definition signal_text :: "int \<Rightarrow> string" where
  "signal_text n = (case map_of signal_names n of Some t \<Rightarrow> t | None \<Rightarrow> ''signal '' @ show_int n)"

definition check_task_completed :: "string \<Rightarrow> string \<Rightarrow> bool" where
  "check_task_completed out msg = list_ex (\<lambda>p. str_contains (out @ msg) p) task_completed_patterns"

text \<open>The last bytes of a text.\<close>

definition tail_of :: "nat \<Rightarrow> string \<Rightarrow> string" where
  "tail_of n s = (if length s > n then ''...'' @ drop (length s - n) s else s)"

definition no_crash :: crash_info where
  "no_crash = \<lparr>ci_exit_code = 0, ci_signal = [], ci_reason = [], ci_partial_output = [], ci_task_completed = False\<rparr>"

definition extract_crash_info ::
    "(wait_status \<Rightarrow> string) \<Rightarrow> go_error option \<Rightarrow> string \<Rightarrow> crash_info option" where
  "extract_crash_info ws err out =
     (case err of
        None \<Rightarrow> None
      | Some e \<Rightarrow>
          (let info =
             (case err_assert_exit e of
                None \<Rightarrow> no_crash
              | Some (Signaled n) \<Rightarrow>
                  no_crash\<lparr>ci_exit_code := 128 + n, ci_signal := signal_text n,
                           ci_reason := ''Process killed by '' @ signal_text n\<rparr>
              | Some (Exited code) \<Rightarrow>
                  (if code > 128
                   then (case map_of crash_signals (code - 128) of
                           Some name \<Rightarrow>
                             no_crash\<lparr>ci_exit_code := code, ci_signal := name, ci_reason := ''Process exited with '' @ name\<rparr>
                         | None \<Rightarrow>
                             no_crash\<lparr>ci_exit_code := code,
                                      ci_reason := ''Process crashed with exit code '' @ rune_string code\<rparr>)
                   else no_crash\<lparr>ci_exit_code := code\<rparr>))
           in Some (info\<lparr>ci_partial_output := (if length out > 0 then tail_of 2000 out else []),
                         ci_task_completed := check_task_completed out (err_text ws e)\<rparr>)))"

text \<open>\<open>logs\<close> is the outcome of \<^verbatim>\<open>podman logs\<close> for a container.\<close>

definition fetch_container_logs :: "(string \<Rightarrow> string result) \<Rightarrow> string \<Rightarrow> nat \<Rightarrow> string" where
  "fetch_container_logs logs name max_bytes =
     (case logs name of Inl e \<Rightarrow> [] | Inr out \<Rightarrow> tail_of max_bytes (trim_space out))"

section \<open>What the classification says\<close>

lemma is_crash_iff: "is_crash (Some e) \<longleftrightarrow> (\<exists>n. e = ExitError (Signaled n)) \<or> (\<exists>c. e = ExitError (Exited c) \<and> c > 128)"
proof (cases e)
  case (ExitError w)
  then show ?thesis by (cases w) (simp_all add: is_crash_def)
qed (simp_all add: is_crash_def)

lemma is_crash_wrapped [simp]: "\<not> is_crash (Some (Wrap a e b))"
  by (simp add: is_crash_def)

lemma length_tail_of: "length (tail_of n s) \<le> n + 3"
  by (auto simp: tail_of_def)

lemma suffix_tail_of: "length s \<le> n \<Longrightarrow> tail_of n s = s"
  by (simp add: tail_of_def)

end
