(* ===== verification/Compose_Validator.thy ===== *)
theory Compose_Validator
  imports Go_Path
begin

text \<open>
  The compose file validator, \<^verbatim>\<open>internal/compose/validator.go\<close>, with the configuration of
  \<^verbatim>\<open>internal/compose/types.go\<close>. The YAML library and the file system are parameters; the services of a
  file are listed in the order in which Go iterates the map.
\<close>

section \<open>Configuration and files\<close>

record compose_config =
  cc_allow_privileged :: bool
  cc_allow_host_network :: bool
  cc_allow_host_volumes :: bool
  cc_build_timeout :: gtime
  cc_health_timeout :: gtime
  cc_stack_ttl :: gtime

definition default_compose_config :: compose_config where
  "default_compose_config =
     \<lparr>cc_allow_privileged = False, cc_allow_host_network = False, cc_allow_host_volumes = False,
      cc_build_timeout = 10 * minute, cc_health_timeout = 2 * minute, cc_stack_ttl = 1 * hour\<rparr>"

text \<open>What the YAML library decodes into an \<^verbatim>\<open>interface{}\<close>: a map with string keys only is \<open>YMap\<close>.\<close>

datatype yaml_value = YString string | YMap "(string \<times> yaml_value) list" | YOther

record compose_service =
  sv_image :: string
  sv_build :: "yaml_value option"
  sv_privileged :: bool
  sv_network_mode :: string
  sv_volumes :: "yaml_value list"
  sv_cap_add :: "string list"
  sv_ipc :: string
  sv_pid :: string
  sv_userns :: string
  sv_security_opt :: "string list"
  sv_devices :: "yaml_value list"
  sv_sysctls :: "(string \<times> string) list"

type_synonym services = "(string \<times> compose_service) list"

definition plain_service :: compose_service where
  "plain_service =
     \<lparr>sv_image = ''alpine'', sv_build = None, sv_privileged = False, sv_network_mode = [],
      sv_volumes = [], sv_cap_add = [], sv_ipc = [], sv_pid = [], sv_userns = [],
      sv_security_opt = [], sv_devices = [], sv_sysctls = []\<rparr>"

datatype file_stat = NotExist string | StatFails string | Directory | NonDirectory

text \<open>\<^verbatim>\<open>Lstat\<close> and \<^verbatim>\<open>Stat\<close>; the error texts are the operating system's. The file system as the path check sees it.\<close>

record fs_view =
  fs_lstat :: "string \<Rightarrow> file_stat"
  fs_stat :: "string \<Rightarrow> file_stat"
  fs_resolve :: "string \<Rightarrow> string + string"

text \<open>Opening and reading a file: the steps that may fail, the size from \<^verbatim>\<open>Stat\<close>, the bytes read.\<close>

datatype file_read =
    OpenNotExist
  | OpenFails string
  | FStatFails string
  | ReadFails nat string
  | ReadOk nat string

definition err_compose_not_found :: go_error where
  "err_compose_not_found = Sentinel ''compose.ErrComposeFileNotFound'' ''compose file not found''"

definition err_compose_path :: go_error where
  "err_compose_path = Sentinel ''compose.ErrInvalidComposePath'' ''invalid compose file path''"

definition err_privileged :: go_error where
  "err_privileged = Sentinel ''compose.ErrPrivilegedNotAllowed'' ''privileged containers not allowed''"

definition err_host_network :: go_error where
  "err_host_network = Sentinel ''compose.ErrHostNetworkNotAllowed'' ''host network mode not allowed''"

definition err_host_volume :: go_error where
  "err_host_volume = Sentinel ''compose.ErrHostVolumeNotAllowed'' ''host volume mounts not allowed''"

definition err_service_not_found :: go_error where
  "err_service_not_found = Sentinel ''compose.ErrServiceNotFound'' ''service not found in compose file''"

definition err_compose_file :: go_error where
  "err_compose_file = Sentinel ''compose.ErrInvalidComposeFile'' ''invalid compose file''"

section \<open>The path\<close>

definition yaml_ext :: "string \<Rightarrow> bool" where
  "yaml_ext p \<longleftrightarrow> to_lower (path_ext p) = ''.yml'' \<or> to_lower (path_ext p) = ''.yaml''"

definition wrap_msg :: "go_error \<Rightarrow> string \<Rightarrow> go_error" where
  "wrap_msg e t = Wrap [] e ('': '' @ t)"

definition validate_compose_path :: "fs_view \<Rightarrow> string \<Rightarrow> go_error option" where
  "validate_compose_path fs p =
     (if \<not> is_abs p then Some (wrap_msg err_compose_path ''path must be absolute'')
      else if path_clean p \<noteq> p
      then Some (wrap_msg err_compose_path ''path contains traversal sequence or is not canonical'')
      else if \<not> yaml_ext p then Some (wrap_msg err_compose_path ''must be .yml or .yaml file'')
      else
        (case fs_lstat fs p of
           NotExist _ \<Rightarrow> Some (wrap_msg err_compose_not_found p)
         | StatFails e \<Rightarrow> Some (wrap_msg err_compose_path (''cannot access file: '' @ e))
         | Directory \<Rightarrow> Some (wrap_msg err_compose_path ''path is a directory'')
         | NonDirectory \<Rightarrow>
             (case fs_resolve fs p of
                Inl e \<Rightarrow> Some (wrap_msg err_compose_path (''cannot resolve symlinks: '' @ e))
              | Inr target \<Rightarrow>
                  if \<not> yaml_ext target
                  then Some (wrap_msg err_compose_path ''symlink target must be .yml or .yaml file'')
                  else
                    (case fs_stat fs target of
                       NotExist e \<Rightarrow>
                         Some (wrap_msg err_compose_path (''cannot access resolved path: '' @ e))
                     | StatFails e \<Rightarrow>
                         Some (wrap_msg err_compose_path (''cannot access resolved path: '' @ e))
                     | Directory \<Rightarrow> Some (wrap_msg err_compose_path ''resolved path is a directory'')
                     | NonDirectory \<Rightarrow> None))))"

section \<open>The contents\<close>

definition max_compose_file_size :: nat where
  "max_compose_file_size = 1 * 1024 * 1024"

text \<open>\<open>yaml\<close> decodes the bytes: an error, or the services (\<open>None\<close> when there is no \<^verbatim>\<open>services\<close> key).\<close>

definition parse_compose_file ::
    "(string \<Rightarrow> string + services option) \<Rightarrow> string \<Rightarrow> file_read \<Rightarrow> services result" where
  "parse_compose_file yaml path r =
     (case r of
        OpenNotExist \<Rightarrow> Inl (wrap_msg err_compose_not_found path)
      | OpenFails e \<Rightarrow> Inl (wrap_msg err_compose_file (''cannot open file: '' @ e))
      | FStatFails e \<Rightarrow> Inl (wrap_msg err_compose_file (''cannot stat file: '' @ e))
      | ReadFails fsz e \<Rightarrow>
          if fsz > max_compose_file_size
          then Inl (wrap_msg err_compose_file
                 (''file too large (max '' @ show_nat max_compose_file_size @ '' bytes, got '' @ show_nat fsz @ '')''))
          else Inl (wrap_msg err_compose_file (''cannot read file: '' @ e))
      | ReadOk fsz file \<Rightarrow>
          if fsz > max_compose_file_size
          then Inl (wrap_msg err_compose_file
                 (''file too large (max '' @ show_nat max_compose_file_size @ '' bytes, got '' @ show_nat fsz @ '')''))
          else
            (let bytes = take (max_compose_file_size + 1) file
             in if length bytes > max_compose_file_size
                then Inl (wrap_msg err_compose_file
                       (''file too large (max '' @ show_nat max_compose_file_size @ '' bytes)''))
                else
                  (case yaml bytes of
                     Inl e \<Rightarrow> Inl (wrap_msg err_compose_file (''cannot parse YAML: '' @ e))
                   | Inr None \<Rightarrow> Inl (wrap_msg err_compose_file ''no services defined'')
                   | Inr (Some svs) \<Rightarrow> Inr svs)))"

definition is_host_path :: "string \<Rightarrow> bool" where
  "is_host_path src \<longleftrightarrow>
     has_prefix src ''/'' \<or> has_prefix src ''.'' \<or> has_prefix src ''~'' \<or>
     has_prefix src ''$'' \<or> str_contains src ''${'' \<or>
     (length src \<ge> 2 \<and> src ! 1 = CHR '':'')"

text \<open>A type assertion on a map entry: its string, if it is present and a string.\<close>

definition map_string :: "(string \<times> yaml_value) list \<Rightarrow> string \<Rightarrow> string option" where
  "map_string m k = (case map_of m k of Some (YString s) \<Rightarrow> Some s | _ \<Rightarrow> None)"

definition is_host_volume :: "yaml_value \<Rightarrow> bool" where
  "is_host_volume v =
     (case v of
        YString s \<Rightarrow>
          (let parts = split_on (CHR '':'') s
           in length parts \<ge> 2 \<and> is_host_path (hd parts))
      | YMap m \<Rightarrow>
          map_string m ''type'' = Some ''bind'' \<or>
          (case map_string m ''source'' of None \<Rightarrow> False | Some s \<Rightarrow> is_host_path s)
      | YOther \<Rightarrow> False)"

definition dangerous_cap :: "string \<Rightarrow> bool" where
  "dangerous_cap c \<longleftrightarrow> c = ''ALL'' \<or> c = ''SYS_ADMIN''"

definition dangerous_opt :: "string \<Rightarrow> bool" where
  "dangerous_opt opt \<longleftrightarrow>
     (let o' = to_lower opt
      in str_contains o' ''seccomp:unconfined'' \<or> str_contains o' ''seccomp=unconfined'' \<or>
         str_contains o' ''apparmor:unconfined'' \<or> str_contains o' ''apparmor=unconfined'')"

definition dangerous_sysctl :: "string \<Rightarrow> bool" where
  "dangerous_sysctl k \<longleftrightarrow>
     has_prefix k ''kernel.'' \<or> has_prefix k ''net.'' \<or> has_prefix k ''fs.'' \<or>
     has_prefix k ''vm.'' \<or> has_prefix k ''debug.''"

text \<open>The first error of a sequence of checks.\<close>

fun first_error :: "go_error option list \<Rightarrow> go_error option" where
  "first_error [] = None"
| "first_error (None # es) = first_error es"
| "first_error (Some e # es) = Some e"

lemma first_error_None: "first_error es = None \<longleftrightarrow> (\<forall>e \<in> set es. e = None)"
  by (induction es rule: first_error.induct) auto

definition guard :: "bool \<Rightarrow> go_error \<Rightarrow> go_error option" where
  "guard bad e = (if bad then Some e else None)"

text \<open>A loop that returns at its first offending element.\<close>

definition reject_first :: "('a \<Rightarrow> bool) \<Rightarrow> ('a \<Rightarrow> go_error) \<Rightarrow> 'a list \<Rightarrow> go_error option" where
  "reject_first bad mk xs = map_option mk (find bad xs)"

lemma reject_first_None: "reject_first bad mk xs = None \<longleftrightarrow> (\<forall>x \<in> set xs. \<not> bad x)"
  by (auto simp: reject_first_def find_None_iff)

lemma guard_None: "guard bad e = None \<longleftrightarrow> \<not> bad"
  by (simp add: guard_def)

text \<open>\<open>q\<close> is the quoting of \<^verbatim>\<open>fmt\<close>'s \<^verbatim>\<open>%q\<close>, used in the error texts.\<close>

definition validate_service ::
    "(string \<Rightarrow> string) \<Rightarrow> compose_config \<Rightarrow> string \<Rightarrow> compose_service \<Rightarrow> go_error option" where
  "validate_service q cfg name sv =
     (let strict = \<not> cc_allow_privileged cfg; svc = ''service '' @ q name
      in first_error
        [guard (sv_privileged sv \<and> strict)
           (wrap_msg err_privileged (svc @ '' has privileged: true'')),
         (if strict
          then reject_first dangerous_cap
                 (\<lambda>c. wrap_msg err_privileged (svc @ '' has dangerous capability: '' @ c)) (sv_cap_add sv)
          else None),
         guard (sv_ipc sv = ''host'' \<and> strict) (wrap_msg err_privileged (svc @ '' has ipc: host'')),
         guard (sv_pid sv = ''host'' \<and> strict) (wrap_msg err_privileged (svc @ '' has pid: host'')),
         guard (sv_userns sv = ''host'' \<and> strict)
           (wrap_msg err_privileged (svc @ '' has userns_mode: host'')),
         (if strict
          then reject_first dangerous_opt
                 (\<lambda>x. wrap_msg err_privileged (svc @ '' has dangerous security_opt: '' @ x))
                 (sv_security_opt sv)
          else None),
         guard (length (sv_devices sv) > 0 \<and> strict)
           (wrap_msg err_privileged (svc @ '' has device mounts'')),
         (if strict
          then reject_first (\<lambda>(k, v). dangerous_sysctl k)
                 (\<lambda>(k, v). wrap_msg err_privileged (svc @ '' has potentially dangerous sysctl: '' @ k))
                 (sv_sysctls sv)
          else None),
         guard (sv_network_mode sv = ''host'' \<and> \<not> cc_allow_host_network cfg)
           (wrap_msg err_host_network (svc @ '' has network_mode: host'')),
         (if \<not> cc_allow_host_volumes cfg
          then reject_first is_host_volume
                 (\<lambda>_. wrap_msg err_host_volume (svc @ '' has host volume mount'')) (sv_volumes sv)
          else None)])"

definition validate_contents ::
    "(string \<Rightarrow> string) \<Rightarrow> compose_config \<Rightarrow> services result \<Rightarrow> go_error option" where
  "validate_contents q cfg parsed =
     (case parsed of
        Inl e \<Rightarrow> Some e
      | Inr svs \<Rightarrow> first_error (map (\<lambda>(name, sv). validate_service q cfg name sv) svs))"

text \<open>\<open>r\<close> is what reading the file gives when the contents are validated.\<close>

definition validate_compose ::
    "(string \<Rightarrow> string) \<Rightarrow> compose_config \<Rightarrow> fs_view \<Rightarrow> (string \<Rightarrow> string + services option) \<Rightarrow> string \<Rightarrow>
     file_read \<Rightarrow> go_error option" where
  "validate_compose q cfg fs yaml p r =
     (case validate_compose_path fs p of
        Some e \<Rightarrow> Some (Wrap (''compose: validate path '' @ q p @ '': '') e [])
      | None \<Rightarrow>
          (case validate_contents q cfg (parse_compose_file yaml p r) of
             Some e \<Rightarrow> Some (Wrap (''compose: validate contents of '' @ q p @ '': '') e [])
           | None \<Rightarrow> None))"

text \<open>The service lookup reads the file again, with the outcome \<open>r2\<close>.\<close>

definition validate_with_service ::
    "(string \<Rightarrow> string) \<Rightarrow> compose_config \<Rightarrow> fs_view \<Rightarrow> (string \<Rightarrow> string + services option) \<Rightarrow> string \<Rightarrow>
     string \<Rightarrow> file_read \<Rightarrow> file_read \<Rightarrow> go_error option" where
  "validate_with_service q cfg fs yaml p service r r2 =
     (case validate_compose q cfg fs yaml p r of
        Some e \<Rightarrow> Some e
      | None \<Rightarrow>
          (case parse_compose_file yaml p r2 of
             Inl e \<Rightarrow> Some (Wrap (''compose: parse '' @ q p @ '' for service lookup: '') e [])
           | Inr svs \<Rightarrow>
               if map_of svs service = None then Some (wrap_msg err_service_not_found service)
               else None))"

definition get_services ::
    "(string \<Rightarrow> string + services option) \<Rightarrow> string \<Rightarrow> file_read \<Rightarrow> string list result" where
  "get_services yaml p r =
     (case parse_compose_file yaml p r of Inl e \<Rightarrow> Inl e | Inr svs \<Rightarrow> Inr (map fst svs))"

section \<open>What a safe file is\<close>

definition service_safe :: "compose_config \<Rightarrow> compose_service \<Rightarrow> bool" where
  "service_safe cfg sv \<longleftrightarrow>
     (cc_allow_privileged cfg \<or>
        \<not> sv_privileged sv \<and>
        set (sv_cap_add sv) \<inter> {''ALL'', ''SYS_ADMIN''} = {} \<and>
        ''host'' \<notin> {sv_ipc sv, sv_pid sv, sv_userns sv} \<and>
        (\<forall>opt \<in> set (sv_security_opt sv). \<forall>kind \<in> {''seccomp'', ''apparmor''}. \<forall>sep \<in> {'':'', ''=''}.
           \<not> sublist (kind @ sep @ ''unconfined'') (to_lower opt)) \<and>
        sv_devices sv = [] \<and>
        (\<forall>k \<in> fst ` set (sv_sysctls sv). \<forall>ns \<in> {''kernel.'', ''net.'', ''fs.'', ''vm.'', ''debug.''}.
           \<not> prefix ns k)) \<and>
     (cc_allow_host_network cfg \<or> sv_network_mode sv \<noteq> ''host'') \<and>
     (cc_allow_host_volumes cfg \<or> (\<forall>v \<in> set (sv_volumes sv). \<not> is_host_volume v))"

lemma dangerous_opt_iff:
  "dangerous_opt opt \<longleftrightarrow>
     (\<exists>kind \<in> {''seccomp'', ''apparmor''}. \<exists>sep \<in> {'':'', ''=''}.
        sublist (kind @ sep @ ''unconfined'') (to_lower opt))"
  by (simp add: dangerous_opt_def Let_def str_contains_sublist)

lemma dangerous_caps_iff: "(\<forall>c \<in> set cs. \<not> dangerous_cap c) \<longleftrightarrow> set cs \<inter> {''ALL'', ''SYS_ADMIN''} = {}"
  unfolding dangerous_cap_def by blast

lemma dangerous_sysctls_iff:
  "(\<forall>(k, v) \<in> set m. \<not> dangerous_sysctl k) \<longleftrightarrow>
     (\<forall>k \<in> fst ` set m. \<forall>ns \<in> {''kernel.'', ''net.'', ''fs.'', ''vm.'', ''debug.''}. \<not> prefix ns k)"
  unfolding dangerous_sysctl_def by force

lemma dangerous_opts_iff:
  "(\<forall>opt \<in> set opts. \<not> dangerous_opt opt) \<longleftrightarrow>
     (\<forall>opt \<in> set opts. \<forall>kind \<in> {''seccomp'', ''apparmor''}. \<forall>sep \<in> {'':'', ''=''}.
        \<not> sublist (kind @ sep @ ''unconfined'') (to_lower opt))"
  unfolding dangerous_opt_iff by blast

lemma validate_service_None: "validate_service q cfg name sv = None \<longleftrightarrow> service_safe cfg sv"
proof -
  have "validate_service q cfg name sv = None \<longleftrightarrow>
      (cc_allow_privileged cfg \<or>
         \<not> sv_privileged sv \<and> (\<forall>c \<in> set (sv_cap_add sv). \<not> dangerous_cap c) \<and>
         sv_ipc sv \<noteq> ''host'' \<and> sv_pid sv \<noteq> ''host'' \<and> sv_userns sv \<noteq> ''host'' \<and>
         (\<forall>opt \<in> set (sv_security_opt sv). \<not> dangerous_opt opt) \<and> sv_devices sv = [] \<and>
         (\<forall>(k, v) \<in> set (sv_sysctls sv). \<not> dangerous_sysctl k)) \<and>
      (cc_allow_host_network cfg \<or> sv_network_mode sv \<noteq> ''host'') \<and>
      (cc_allow_host_volumes cfg \<or> (\<forall>v \<in> set (sv_volumes sv). \<not> is_host_volume v))"
    unfolding validate_service_def Let_def first_error_None guard_None reject_first_None
    by (cases "cc_allow_privileged cfg"; cases "cc_allow_host_volumes cfg"; cases "cc_allow_host_network cfg")
       (simp_all add: guard_None reject_first_None split_beta)
  also have "\<dots> \<longleftrightarrow> service_safe cfg sv"
  proof -
    have "\<And>a b c. ''host'' \<notin> {a, b, c} \<longleftrightarrow> a \<noteq> ''host'' \<and> b \<noteq> ''host'' \<and> c \<noteq> ''host''"
      by auto
    then show ?thesis
      by (simp only: service_safe_def dangerous_caps_iff dangerous_sysctls_iff dangerous_opts_iff conj_assoc)
  qed
  finally show ?thesis .
qed

lemma validate_contents_None:
  "validate_contents q cfg parsed = None \<longleftrightarrow>
     (\<exists>svs. parsed = Inr svs \<and> (\<forall>(name, sv) \<in> set svs. service_safe cfg sv))"
  by (cases parsed) (auto simp: validate_contents_def first_error_None validate_service_None)

section \<open>Properties\<close>

text \<open>C17: the validator accepts a compose file exactly when its path is an absolute canonical path to a
  YAML file whose link target is a YAML file too, the file decodes within 1 MiB and has services, and
  every service is safe for the configuration: no privileged mode or equivalent setting, host network
  or host volume that is not allowed. The order in which the services are visited does not matter.\<close>

theorem compose_validator_accepts_iff:
  assumes "set svs' = set svs"
  shows "validate_compose q cfg fs yaml p (ReadOk sz file) = None \<and>
         yaml (take (max_compose_file_size + 1) file) = Inr (Some svs) \<longleftrightarrow>
         is_abs p \<and> path_clean p = p \<and> yaml_ext p \<and> fs_lstat fs p = NonDirectory \<and>
         (\<exists>target. fs_resolve fs p = Inr target \<and> yaml_ext target \<and> fs_stat fs target = NonDirectory) \<and>
         sz \<le> max_compose_file_size \<and> length file \<le> max_compose_file_size \<and>
         yaml (take (max_compose_file_size + 1) file) = Inr (Some svs) \<and>
         (\<forall>(name, sv) \<in> set svs'. service_safe cfg sv)"
proof -
  have path: "validate_compose_path fs p = None \<longleftrightarrow>
      is_abs p \<and> path_clean p = p \<and> yaml_ext p \<and> fs_lstat fs p = NonDirectory \<and>
      (\<exists>target. fs_resolve fs p = Inr target \<and> yaml_ext target \<and> fs_stat fs target = NonDirectory)"
    by (auto simp: validate_compose_path_def split: file_stat.split sum.split)
  have parse: "parse_compose_file yaml p (ReadOk sz file) = Inr svs0 \<longleftrightarrow>
      sz \<le> max_compose_file_size \<and> length file \<le> max_compose_file_size \<and>
      yaml (take (max_compose_file_size + 1) file) = Inr (Some svs0)" for svs0
    by (auto simp: parse_compose_file_def Let_def split: sum.split option.split)
  have "validate_compose q cfg fs yaml p (ReadOk sz file) = None \<longleftrightarrow>
      validate_compose_path fs p = None \<and>
      (\<exists>svs0. parse_compose_file yaml p (ReadOk sz file) = Inr svs0 \<and>
         (\<forall>(name, sv) \<in> set svs0. service_safe cfg sv))"
    unfolding validate_contents_None [of q cfg, symmetric]
    by (simp add: validate_compose_def split: option.split)
  then show ?thesis
    unfolding path parse assms by auto
qed

definition demo_fs :: fs_view where
  "demo_fs = \<lparr>fs_lstat = (\<lambda>_. NonDirectory), fs_stat = (\<lambda>_. NonDirectory), fs_resolve = Inr\<rparr>"

theorem compose_validator_accepts_iff_witness:
  "validate_compose (\<lambda>s. s) default_compose_config demo_fs (\<lambda>_. Inr (Some [(''web'', plain_service)]))
     ''/p/c.yml'' (ReadOk 0 []) = None"
proof -
  have p: "is_abs ''/p/c.yml'' \<and> path_clean ''/p/c.yml'' = ''/p/c.yml'' \<and> yaml_ext ''/p/c.yml''"
    by code_simp
  have s: "service_safe default_compose_config plain_service"
    by (simp add: service_safe_def plain_service_def)
  have r: "set [(''web'', plain_service)] = set [(''web'', plain_service)]"
    by (rule refl)
  show ?thesis
    using compose_validator_accepts_iff [OF r, of "\<lambda>s. s" default_compose_config demo_fs
      "\<lambda>_. Inr (Some [(''web'', plain_service)])" "''/p/c.yml''" 0 "[]"] p s
    by (simp add: demo_fs_def max_compose_file_size_def)
qed

text \<open>Settings that give a service the powers the validator refuses are accepted in another spelling
  under the default configuration: the capability \<^verbatim>\<open>CAP_SYS_ADMIN\<close> and the lower-case \<^verbatim>\<open>all\<close>, and a
  short-syntax bind of a Windows drive, whose source is cut at its own colon.\<close>

lemma compose_validator_spelling_gaps:
  "validate_service q default_compose_config name
     (plain_service\<lparr>sv_cap_add := [''CAP_SYS_ADMIN'', ''all'', ''sys_admin'']\<rparr>) = None \<and>
   validate_service q default_compose_config name (plain_service\<lparr>sv_cap_add := [''SYS_ADMIN'']\<rparr>) \<noteq> None \<and>
   validate_service q default_compose_config name
     (plain_service\<lparr>sv_volumes := [YString (''C:'' @ CHR 0x5C # ''data:/data'')]\<rparr>) = None"
  by (auto simp: validate_service_None service_safe_def plain_service_def default_compose_config_def
        is_host_volume_def is_host_path_def)

end
