(* ===== verification/Compose_Manager.thy ===== *)
theory Compose_Manager
  imports Compose_Validator Go_Time Keyed_Store
begin

text \<open>
  Compose stacks: the command builder (\<^verbatim>\<open>internal/compose/builder.go\<close>), the health checker
  (\<^verbatim>\<open>internal/compose/health.go\<close>) and the manager (\<^verbatim>\<open>internal/compose/manager.go\<close>). The executor is a
  parameter: from a command to its output and error. Each operation also returns the commands it ran,
  in order.
\<close>

section \<open>Commands\<close>

record command_builder =
  cb_file :: string
  cb_project :: string
  cb_command :: string
  cb_service :: string
  cb_exec_args :: "string list"
  cb_detached :: bool
  cb_build :: bool
  cb_remove_volumes :: bool
  cb_no_tty :: bool
  cb_format_json :: bool

definition new_command_builder :: command_builder where
  "new_command_builder =
     \<lparr>cb_file = [], cb_project = [], cb_command = [], cb_service = [], cb_exec_args = [],
      cb_detached = False, cb_build = False, cb_remove_volumes = False, cb_no_tty = False,
      cb_format_json = False\<rparr>"

definition with_file :: "string \<Rightarrow> command_builder \<Rightarrow> command_builder" where
  "with_file p b = b\<lparr>cb_file := p\<rparr>"

definition with_project :: "string \<Rightarrow> command_builder \<Rightarrow> command_builder" where
  "with_project n b = b\<lparr>cb_project := n\<rparr>"

definition cmd_up :: "command_builder \<Rightarrow> command_builder" where
  "cmd_up b = b\<lparr>cb_command := ''up''\<rparr>"

definition cmd_down :: "command_builder \<Rightarrow> command_builder" where
  "cmd_down b = b\<lparr>cb_command := ''down''\<rparr>"

definition cmd_exec :: "string \<Rightarrow> string list \<Rightarrow> command_builder \<Rightarrow> command_builder" where
  "cmd_exec service args b =
     b\<lparr>cb_command := ''exec'', cb_service := service, cb_exec_args := args, cb_no_tty := True\<rparr>"

definition cmd_ps :: "command_builder \<Rightarrow> command_builder" where
  "cmd_ps b = b\<lparr>cb_command := ''ps''\<rparr>"

definition detached :: "command_builder \<Rightarrow> command_builder" where
  "detached b = b\<lparr>cb_detached := True\<rparr>"

definition with_build :: "command_builder \<Rightarrow> command_builder" where
  "with_build b = b\<lparr>cb_build := True\<rparr>"

definition remove_volumes :: "command_builder \<Rightarrow> command_builder" where
  "remove_volumes b = b\<lparr>cb_remove_volumes := True\<rparr>"

definition with_tty :: "command_builder \<Rightarrow> command_builder" where
  "with_tty b = b\<lparr>cb_no_tty := False\<rparr>"

definition format_json :: "command_builder \<Rightarrow> command_builder" where
  "format_json b = b\<lparr>cb_format_json := True\<rparr>"

definition compose_command :: "command_builder \<Rightarrow> string list" where
  "compose_command b =
     [''podman'', ''compose''] @
     (if cb_file b \<noteq> [] then [''-f'', cb_file b] else []) @
     (if cb_project b \<noteq> [] then [''-p'', cb_project b] else []) @
     (if cb_command b \<noteq> [] then [cb_command b] else []) @
     (if cb_command b = ''up'' then
        (if cb_detached b then [''-d''] else []) @ (if cb_build b then [''--build''] else [])
      else if cb_command b = ''down'' then
        (if cb_remove_volumes b then [''-v''] else [])
      else if cb_command b = ''exec'' then
        (if cb_no_tty b then [''-T''] else []) @
        (if cb_service b \<noteq> [] then [cb_service b] else []) @ cb_exec_args b
      else if cb_command b = ''ps'' then
        (if cb_format_json b then [''--format'', ''json''] else [])
      else [])"

lemmas cb_defs = new_command_builder_def with_file_def with_project_def cmd_up_def cmd_down_def
  cmd_exec_def cmd_ps_def detached_def with_build_def remove_volumes_def with_tty_def format_json_def

definition project_name :: "string \<Rightarrow> string" where
  "project_name sid = ''stromboli-'' @ sid"

definition up_command :: "string \<Rightarrow> string \<Rightarrow> string list" where
  "up_command path project =
     compose_command (with_build (detached (cmd_up (with_project project (with_file path new_command_builder)))))"

definition down_command :: "string \<Rightarrow> string list" where
  "down_command project =
     compose_command (remove_volumes (cmd_down (with_project project new_command_builder)))"

definition exec_command :: "string \<Rightarrow> string \<Rightarrow> string list \<Rightarrow> string list" where
  "exec_command project service cmd =
     compose_command (cmd_exec service cmd (with_project project new_command_builder))"

definition ps_command :: "string \<Rightarrow> string list" where
  "ps_command project = compose_command (format_json (cmd_ps (with_project project new_command_builder)))"

lemma exec_command_shape:
  "service \<noteq> [] \<Longrightarrow>
   exec_command (project_name sid) service cmd =
     [''podman'', ''compose'', ''-p'', project_name sid, ''exec'', ''-T'', service] @ cmd"
  by (simp add: exec_command_def compose_command_def cb_defs project_name_def)

section \<open>Health checks\<close>

record service_status =
  ss_name :: string
  ss_state :: string
  ss_health :: string
  ss_exit_code :: int

definition is_service_healthy :: "service_status \<Rightarrow> bool" where
  "is_service_healthy s =
     (let state = to_lower (ss_state s);
          running = (state = ''running'' \<or> state = ''up'' \<or> has_prefix state ''up '');
          health = to_lower (ss_health s)
      in if \<not> running \<and> ss_exit_code s \<noteq> 0 then False
         else if \<not> running then False
         else if health \<noteq> [] \<and> health \<noteq> ''healthy'' \<and> health \<noteq> ''none'' \<and> health \<noteq> ''-'' then False
         else True)"

definition service_summary :: "service_status \<Rightarrow> string" where
  "service_summary s =
     ss_name s @ '' (state='' @ ss_state s @
     (if ss_health s \<noteq> [] \<and> ss_health s \<noteq> ''-'' then '', health='' @ ss_health s else []) @
     (if ss_exit_code s \<noteq> 0 then '', exit_code='' @ show_int (ss_exit_code s) else []) @ '')''"

definition format_unhealthy :: "service_status list \<Rightarrow> string" where
  "format_unhealthy svs =
     (let bad = map service_summary (filter (\<lambda>s. \<not> is_service_healthy s) svs)
      in if bad = [] then ''unknown'' else str_join '', '' bad)"

text \<open>
  \<open>many\<close> and \<open>one\<close> decode \<^verbatim>\<open>podman compose ps\<close> output as an array of services or as a single one.
\<close>

definition parse_services ::
    "(string \<Rightarrow> go_error + service_status list) \<Rightarrow> (string \<Rightarrow> service_status option) \<Rightarrow> string \<Rightarrow>
     service_status list result" where
  "parse_services many one out =
     (if length out = 0 \<or> trim_space out = [] then Inr []
      else
        (case many out of
           Inr svs \<Rightarrow> Inr svs
         | Inl e \<Rightarrow>
             (case one out of
                None \<Rightarrow> Inl (Wrap ''failed to parse ps output: '' e [])
              | Some s \<Rightarrow> Inr [s])))"

text \<open>One check: an error, or the services and whether all of them are healthy.\<close>

definition check_health ::
    "(string \<Rightarrow> go_error + service_status list) \<Rightarrow> (string \<Rightarrow> service_status option) \<Rightarrow>
     string \<times> go_error option \<Rightarrow> (bool \<times> service_status list) result" where
  "check_health many one ps =
     (case snd ps of
        Some e \<Rightarrow> Inl e
      | None \<Rightarrow>
          (case parse_services many one (fst ps) of
             Inl e \<Rightarrow> Inl e
           | Inr svs \<Rightarrow> Inr (list_all is_service_healthy svs, svs)))"

definition err_health_timeout :: go_error where
  "err_health_timeout =
     Sentinel ''errors.ErrComposeHealthTimeout'' ''compose services did not become healthy''"

type_synonym health_result = "(bool \<times> service_status list) result"

text \<open>
  The polling loop. \<open>ticks\<close> are the results of the checks at the ticks before the deadline, in order;
  \<open>final\<close> is the check made after the deadline for the error message; \<open>good\<close> is the last result without
  an error.
\<close>

fun poll_healthy :: "service_status list \<Rightarrow> health_result list \<Rightarrow> health_result \<Rightarrow> go_error option" where
  "poll_healthy good [] final =
     (case final of
        Inl _ \<Rightarrow>
          if length good > 0 then Some (Wrap [] err_health_timeout ('': '' @ format_unhealthy good))
          else Some (Wrap [] err_health_timeout '': timeout waiting for services to become healthy'')
      | Inr (_, svs) \<Rightarrow> Some (Wrap [] err_health_timeout ('': '' @ format_unhealthy svs)))"
| "poll_healthy good (r # rs) final =
     (case r of
        Inl _ \<Rightarrow> poll_healthy good rs final
      | Inr (ok, svs) \<Rightarrow> if ok then None else poll_healthy svs rs final)"

definition wait_for_healthy ::
    "health_result \<Rightarrow> health_result list \<Rightarrow> health_result \<Rightarrow> go_error option" where
  "wait_for_healthy first ticks final =
     (case first of
        Inl e \<Rightarrow> Some (Wrap ''health check failed: '' e [])
      | Inr (ok, svs) \<Rightarrow> if ok then None else poll_healthy svs ticks final)"

lemma poll_healthy_None:
  "poll_healthy good ticks final = None \<longleftrightarrow> (\<exists>svs. Inr (True, svs) \<in> set ticks)"
proof (induction good ticks final rule: poll_healthy.induct)
  case (1 good final)
  then show ?case by (auto split: sum.split)
next
  case (2 good r rs final)
  show ?case
  proof (cases r)
    case (Inl e)
    with 2 show ?thesis by simp
  next
    case (Inr p)
    with 2 show ?thesis by (cases p) auto
  qed
qed

lemma wait_for_healthy_None:
  "wait_for_healthy first ticks final = None \<longleftrightarrow>
     (\<exists>ok svs. first = Inr (ok, svs) \<and> (ok \<or> (\<exists>svs'. Inr (True, svs') \<in> set ticks)))"
  by (auto simp: wait_for_healthy_def poll_healthy_None split: sum.split)

section \<open>The manager\<close>

datatype stack_state = StackStarting | StackRunning | StackStopping

record stack =
  st_project :: string
  st_path :: string
  st_service :: string
  st_session :: string
  st_started :: gtime
  st_state :: stack_state

record environment =
  en_type :: string
  en_path :: string
  en_service :: string
  en_build_timeout :: string

type_synonym stacks = "string \<rightharpoonup> stack"
type_synonym runner = "string list \<Rightarrow> string \<times> go_error option"

text \<open>The error texts \<^verbatim>\<open>down\<close> takes for a project that does not exist, and any exit status.\<close>

definition down_tolerated :: "(wait_status \<Rightarrow> string) \<Rightarrow> go_error \<Rightarrow> bool" where
  "down_tolerated ws e \<longleftrightarrow>
     err_as_exit e \<noteq> None \<or>
     (let t = err_text ws e
      in str_contains t ''not found'' \<or> str_contains t ''no such'' \<or> str_contains t ''does not exist'')"

definition cleanup_project ::
    "(wait_status \<Rightarrow> string) \<Rightarrow> runner \<Rightarrow> string \<Rightarrow> go_error option \<times> string list list" where
  "cleanup_project ws run project =
     (let cmd = down_command project
      in (case snd (run cmd) of
            None \<Rightarrow> None
          | Some e \<Rightarrow> if down_tolerated ws e then None else Some e,
          [cmd]))"

text \<open>The timeouts of the contexts: of \<^verbatim>\<open>up\<close> itself and of the cleanups after a failure.\<close>

definition build_timeout_of ::
    "(string \<Rightarrow> string) \<Rightarrow> compose_config \<Rightarrow> environment \<Rightarrow> gtime result" where
  "build_timeout_of q cfg env =
     (if en_build_timeout env = [] then Inr (cc_build_timeout cfg)
      else
        (case parse_duration (en_build_timeout env) of
           None \<Rightarrow> Inl (Wrap (''invalid build timeout '' @ q (en_build_timeout env) @ '': '')
                          (Msg (''time: invalid duration '' @ q (en_build_timeout env))) [])
         | Some d \<Rightarrow> Inr d))"

definition up_cleanup_timeout :: "gtime \<Rightarrow> gtime" where
  "up_cleanup_timeout build = (let t = go_quot build 2 in if t < 1 * minute then 1 * minute else t)"

definition health_cleanup_timeout :: "compose_config \<Rightarrow> gtime" where
  "health_cleanup_timeout cfg =
     (if cc_health_timeout cfg < 1 * minute then 1 * minute else cc_health_timeout cfg)"

text \<open>
  \<open>v\<close> is the result of \<^verbatim>\<open>ValidateWithService\<close>, \<open>health\<close> that of \<^verbatim>\<open>WaitForHealthy\<close>; the result is the error
  or the stack, the tracked stacks afterwards, and the commands run.
\<close>

definition compose_up ::
    "(wait_status \<Rightarrow> string) \<Rightarrow> (string \<Rightarrow> string) \<Rightarrow> compose_config \<Rightarrow> runner \<Rightarrow> gtime \<Rightarrow>
     go_error option \<Rightarrow> go_error option \<Rightarrow> environment \<Rightarrow> string \<Rightarrow> stacks \<Rightarrow>
     stack result \<times> stacks \<times> string list list" where
  "compose_up ws q cfg run now v health env sid m =
     (case v of
        Some e \<Rightarrow> (Inl (Wrap ''compose file validation failed: '' e []), m, [])
      | None \<Rightarrow>
          (let project = project_name sid
           in case build_timeout_of q cfg env of
                Inl e \<Rightarrow> (Inl e, m, [])
              | Inr _ \<Rightarrow>
                  (let cmd = up_command (en_path env) project
                   in case snd (run cmd) of
                        Some e \<Rightarrow>
                          (Inl (Wrap ''failed to start compose stack: '' e []), m,
                           cmd # snd (cleanup_project ws run project))
                      | None \<Rightarrow>
                          (let st = \<lparr>st_project = project, st_path = en_path env,
                                     st_service = en_service env, st_session = sid, st_started = now,
                                     st_state = StackStarting\<rparr>
                           in case health of
                                Some e \<Rightarrow> (Inl e, m, cmd # snd (cleanup_project ws run project))
                              | None \<Rightarrow>
                                  (let st' = st\<lparr>st_state := StackRunning\<rparr>
                                   in (Inr st', m(sid \<mapsto> st'), [cmd]))))))"

text \<open>\<^verbatim>\<open>Down\<close> marks the stack, forgets it, and only then stops it.\<close>

definition compose_down ::
    "(wait_status \<Rightarrow> string) \<Rightarrow> runner \<Rightarrow> string \<Rightarrow> stacks \<Rightarrow>
     go_error option \<times> stacks \<times> string list list" where
  "compose_down ws run sid m =
     (let m' = (map_touch sid (\<lambda>st. st\<lparr>st_state := StackStopping\<rparr>) m)(sid := None);
          cmd = down_command (project_name sid)
      in (case snd (run cmd) of
            None \<Rightarrow> None
          | Some e \<Rightarrow>
              if down_tolerated ws e then None
              else Some (Wrap ''failed to stop compose stack: '' e []),
          m', [cmd]))"

text \<open>What \<^verbatim>\<open>Exec\<close> and \<^verbatim>\<open>ExecStream\<close> check before they run anything.\<close>

definition exec_guard ::
    "(string \<Rightarrow> string) \<Rightarrow> string \<Rightarrow> string \<Rightarrow> string list \<Rightarrow> stacks \<Rightarrow> (string list) result" where
  "exec_guard q sid service cmd m =
     (case m sid of
        None \<Rightarrow> Inl (Msg (''stack not found for session '' @ sid))
      | Some st \<Rightarrow>
          if service \<noteq> st_service st
          then Inl (Msg (''service '' @ q service @ '' not allowed; only '' @ q (st_service st) @
                         '' is configured for this stack''))
          else Inr (exec_command (project_name sid) service cmd))"

definition compose_exec ::
    "(string \<Rightarrow> string) \<Rightarrow> runner \<Rightarrow> string \<Rightarrow> string \<Rightarrow> string list \<Rightarrow> stacks \<Rightarrow>
     (string \<times> go_error option) \<times> string list list" where
  "compose_exec q run sid service cmd m =
     (case exec_guard q sid service cmd m of
        Inl e \<Rightarrow> (([], Some e), [])
      | Inr c \<Rightarrow>
          (case run c of
             (out, Some e) \<Rightarrow> ((out, Some (Wrap ''compose exec failed: '' e [])), [c])
           | (out, None) \<Rightarrow> ((out, None), [c])))"

definition is_active :: "string \<Rightarrow> stacks \<Rightarrow> bool" where
  "is_active sid m \<longleftrightarrow> m sid \<noteq> None"

definition is_ready :: "string \<Rightarrow> stacks \<Rightarrow> bool" where
  "is_ready sid m = (case m sid of None \<Rightarrow> False | Some st \<Rightarrow> st_state st = StackRunning)"

definition list_stacks :: "string list \<Rightarrow> stacks \<Rightarrow> stack list" where
  "list_stacks ks m = List.map_filter m ks"

text \<open>The first phase of the orphan cleanup: mark the stacks to stop and collect them.\<close>

definition stack_stale :: "gtime \<Rightarrow> gtime \<Rightarrow> stack \<Rightarrow> bool" where
  "stack_stale max_age now st \<longleftrightarrow>
     st_state st = StackRunning \<and> time_sub now (st_started st) > max_age"

fun cleanup_mark ::
    "gtime \<Rightarrow> gtime \<Rightarrow> string list \<Rightarrow> stacks \<Rightarrow> stacks \<times> stack list" where
  "cleanup_mark max_age now [] m = (m, [])"
| "cleanup_mark max_age now (k # ks) m =
     (case m k of
        None \<Rightarrow> cleanup_mark max_age now ks m
      | Some st \<Rightarrow>
          if stack_stale max_age now st
          then (let st' = st\<lparr>st_state := StackStopping\<rparr>;
                    (m', todo) = cleanup_mark max_age now ks (m(k \<mapsto> st'))
                in (m', st' # todo))
          else cleanup_mark max_age now ks m)"

text \<open>The second phase: bring each one down, and restore the state of one that failed.\<close>

fun cleanup_each ::
    "(wait_status \<Rightarrow> string) \<Rightarrow> runner \<Rightarrow> stack list \<Rightarrow> stacks \<Rightarrow>
     go_error list \<times> stacks \<times> string list list" where
  "cleanup_each ws run [] m = ([], m, [])"
| "cleanup_each ws run (st # todo) m =
     (case compose_down ws run (st_session st) m of
        (None, m1, cmds) \<Rightarrow>
          (case cleanup_each ws run todo m1 of (errs, m2, cmds2) \<Rightarrow> (errs, m2, cmds @ cmds2))
      | (Some e, m1, cmds) \<Rightarrow>
          (let m1' = (case m1 (st_session st) of
                        None \<Rightarrow> m1
                      | Some s \<Rightarrow>
                          if st_state s = StackStopping
                          then m1(st_session st \<mapsto> s\<lparr>st_state := StackRunning\<rparr>) else m1)
           in case cleanup_each ws run todo m1' of
                (errs, m2, cmds2) \<Rightarrow>
                  (Wrap (''cleanup '' @ st_session st @ '': '') e [] # errs, m2, cmds @ cmds2)))"

definition cleanup_orphaned ::
    "(wait_status \<Rightarrow> string) \<Rightarrow> runner \<Rightarrow> gtime \<Rightarrow> gtime \<Rightarrow> string list \<Rightarrow> stacks \<Rightarrow>
     go_error option \<times> stacks \<times> string list list" where
  "cleanup_orphaned ws run max_age now ks m =
     (case cleanup_mark max_age now ks m of
        (m1, todo) \<Rightarrow>
          if length todo = 0 then (None, m1, [])
          else
            (case cleanup_each ws run todo m1 of
               (errs, m2, cmds) \<Rightarrow>
                 (if length errs > 0
                  then Some (Msg (''cleanup errors: ['' @ str_join '' '' (map (err_text ws) errs) @ '']''))
                  else None, m2, cmds)))"

text \<open>\<open>projects\<close> decodes the listing of \<^verbatim>\<open>podman compose ls\<close> into project names.\<close>

definition discover_orphaned ::
    "runner \<Rightarrow> (string \<Rightarrow> go_error + string list) \<Rightarrow> stacks \<Rightarrow> string list result" where
  "discover_orphaned run projects m =
     (case run [''podman'', ''compose'', ''ls'', ''--format'', ''json''] of
        (out, Some e) \<Rightarrow> Inl (Wrap ''failed to list compose projects: '' e [])
      | (out, None) \<Rightarrow>
          if length out = 0 \<or> trim_space out = [] then Inr []
          else
            (case projects out of
               Inl e \<Rightarrow> Inl (Wrap ''failed to parse compose ls output: '' e [])
             | Inr names \<Rightarrow>
                 Inr (filter (\<lambda>sid. \<not> is_active sid m)
                        (map (\<lambda>n. trim_prefix n ''stromboli-'')
                           (filter (\<lambda>n. has_prefix n ''stromboli-'') names)))))"

subsection \<open>Facts about the operations\<close>

lemma compose_down_forgets: "fst (snd (compose_down ws run sid m)) = m(sid := None)"
  by (auto simp: compose_down_def Let_def map_touch_def split: option.split)

lemma cleanup_each_forgets:
  "fst (snd (cleanup_each ws run todo m)) k = (if k \<in> st_session ` set todo then None else m k)"
proof (induction todo arbitrary: m)
  case (Cons st todo)
  let ?m = "m(st_session st := None)"
  obtain e cmds where d: "compose_down ws run (st_session st) m = (e, ?m, cmds)"
    using compose_down_forgets [of ws run "st_session st" m] by (metis prod.collapse)
  obtain errs m2 cmds2 where r: "cleanup_each ws run todo ?m = (errs, m2, cmds2)"
    by (metis prod_cases3)
  have "fst (snd (cleanup_each ws run (st # todo) m)) = m2"
    by (cases e) (simp_all add: d r)
  moreover have "fst (snd (cleanup_each ws run todo ?m)) k =
      (if k \<in> st_session ` set todo then None else ?m k)"
    by (rule Cons.IH)
  then have "m2 k = (if k \<in> st_session ` set todo then None else ?m k)"
    unfolding r fst_conv snd_conv .
  ultimately show ?case
    by (metis fun_upd_apply image_insert insert_iff list.simps(15))
qed simp

lemma cleanup_mark_step:
  "m k = Some st \<Longrightarrow> stack_stale max_age now st \<Longrightarrow>
   cleanup_mark max_age now (k # ks) m =
     (let r = cleanup_mark max_age now ks (m(k \<mapsto> st\<lparr>st_state := StackStopping\<rparr>))
      in (fst r, st\<lparr>st_state := StackStopping\<rparr> # snd r))"
  by (simp add: Let_def split: prod.split)

lemma stale_not_stopping [simp]: "\<not> stack_stale max_age now (st\<lparr>st_state := StackStopping\<rparr>)"
  by (simp add: stack_stale_def)

lemma cleanup_mark_todo:
  "\<forall>k st. m k = Some st \<longrightarrow> st_session st = k \<Longrightarrow>
   st_session ` set (snd (cleanup_mark max_age now ks m)) =
     {k \<in> set ks. \<exists>st. m k = Some st \<and> stack_stale max_age now st}"
proof (induction ks arbitrary: m)
  case (Cons k ks)
  show ?case
  proof (cases "\<exists>st. m k = Some st \<and> stack_stale max_age now st")
    case True
    then obtain st where st: "m k = Some st" "stack_stale max_age now st" by blast
    let ?m = "m(k \<mapsto> st\<lparr>st_state := StackStopping\<rparr>)"
    have "\<forall>x s. ?m x = Some s \<longrightarrow> st_session s = x"
      using Cons.prems st(1) by auto
    then have ih: "st_session ` set (snd (cleanup_mark max_age now ks ?m)) =
        {x \<in> set ks. \<exists>s. ?m x = Some s \<and> stack_stale max_age now s}"
      by (rule Cons.IH)
    have "{x \<in> set ks. \<exists>s. ?m x = Some s \<and> stack_stale max_age now s} =
        {x \<in> set ks. x \<noteq> k \<and> (\<exists>s. m x = Some s \<and> stack_stale max_age now s)}"
      by auto
    moreover have "st_session st = k"
      using Cons.prems st(1) by blast
    moreover have "st_session ` set (snd (cleanup_mark max_age now (k # ks) m)) =
        insert (st_session st) (st_session ` set (snd (cleanup_mark max_age now ks ?m)))"
      unfolding cleanup_mark_step [of m k st, OF st] Let_def by simp
    ultimately have "st_session ` set (snd (cleanup_mark max_age now (k # ks) m)) =
        insert k {x \<in> set ks. x \<noteq> k \<and> (\<exists>s. m x = Some s \<and> stack_stale max_age now s)}"
      unfolding ih by simp
    with st show ?thesis
      by auto
  next
    case False
    then have "cleanup_mark max_age now (k # ks) m = cleanup_mark max_age now ks m"
      by (auto split: option.split)
    with Cons.IH [OF Cons.prems] False show ?thesis
      by auto
  qed
qed simp

lemma cleanup_mark_frame:
  "\<not> stack_stale max_age now st \<Longrightarrow> m k = Some st \<Longrightarrow>
   fst (cleanup_mark max_age now ks m) k = Some st"
proof (induction ks arbitrary: m)
  case (Cons x ks)
  show ?case
  proof (cases "\<exists>s. m x = Some s \<and> stack_stale max_age now s")
    case True
    then obtain s where s: "m x = Some s" "stack_stale max_age now s" by blast
    have "x \<noteq> k"
      using Cons.prems s by auto
    then have "(m(x \<mapsto> s\<lparr>st_state := StackStopping\<rparr>)) k = Some st"
      using Cons.prems(2) by simp
    with Cons.prems(1)
    have "fst (cleanup_mark max_age now ks (m(x \<mapsto> s\<lparr>st_state := StackStopping\<rparr>))) k = Some st"
      by (rule Cons.IH)
    then show ?thesis
      unfolding cleanup_mark_step [of m x s, OF s] Let_def by simp
  next
    case False
    then have "cleanup_mark max_age now (x # ks) m = cleanup_mark max_age now ks m"
      by (auto split: option.split)
    moreover have "fst (cleanup_mark max_age now ks m) k = Some st"
      using Cons.prems by (rule Cons.IH)
    ultimately show ?thesis by simp
  qed
qed simp

lemma cleanup_mark_dom: "m k = None \<Longrightarrow> fst (cleanup_mark max_age now ks m) k = None"
proof (induction ks arbitrary: m)
  case (Cons x ks)
  show ?case
  proof (cases "\<exists>s. m x = Some s \<and> stack_stale max_age now s")
    case True
    then obtain s where s: "m x = Some s" "stack_stale max_age now s" by blast
    have "(m(x \<mapsto> s\<lparr>st_state := StackStopping\<rparr>)) k = None"
      using Cons.prems s(1) by auto
    then have "fst (cleanup_mark max_age now ks (m(x \<mapsto> s\<lparr>st_state := StackStopping\<rparr>))) k = None"
      by (rule Cons.IH)
    then show ?thesis
      unfolding cleanup_mark_step [of m x s, OF s] Let_def by simp
  next
    case False
    then have "cleanup_mark max_age now (x # ks) m = cleanup_mark max_age now ks m"
      by (auto split: option.split)
    moreover have "fst (cleanup_mark max_age now ks m) k = None"
      using Cons.prems by (rule Cons.IH)
    ultimately show ?thesis by simp
  qed
qed simp

section \<open>The stacks over time\<close>

text \<open>
  \<open>V path service\<close> says that \<^verbatim>\<open>ValidateWithService\<close> accepted the service of the file; an up that passed
  validation establishes it.
\<close>

inductive stacks_step ::
    "(wait_status \<Rightarrow> string) \<Rightarrow> (string \<Rightarrow> string) \<Rightarrow> compose_config \<Rightarrow> (string \<Rightarrow> string \<Rightarrow> bool) \<Rightarrow>
     stacks \<Rightarrow> stacks \<Rightarrow> bool" for ws q cfg V where
  up: "(v = None \<Longrightarrow> V (en_path env) (en_service env)) \<Longrightarrow>
    compose_up ws q cfg run now v health env sid m = (r, m', cmds) \<Longrightarrow> stacks_step ws q cfg V m m'"
| down: "compose_down ws run sid m = (e, m', cmds) \<Longrightarrow> stacks_step ws q cfg V m m'"
| cleanup: "cleanup_orphaned ws run max_age now ks m = (e, m', cmds) \<Longrightarrow> stacks_step ws q cfg V m m'"

definition stack_ok :: "(string \<Rightarrow> string \<Rightarrow> bool) \<Rightarrow> string \<Rightarrow> stack \<Rightarrow> bool" where
  "stack_ok V sid st \<longleftrightarrow>
     st_session st = sid \<and> st_project st = project_name sid \<and> V (st_path st) (st_service st)"

definition stacks_ok :: "(string \<Rightarrow> string \<Rightarrow> bool) \<Rightarrow> stacks \<Rightarrow> bool" where
  "stacks_ok V m \<longleftrightarrow> (\<forall>sid st. m sid = Some st \<longrightarrow> stack_ok V sid st)"

lemma stacks_ok_mark: "stacks_ok V m \<Longrightarrow> stacks_ok V (fst (cleanup_mark max_age now ks m))"
proof (induction ks arbitrary: m)
  case (Cons k ks)
  show ?case
  proof (cases "\<exists>s. m k = Some s \<and> stack_stale max_age now s")
    case True
    then obtain s where s: "m k = Some s" "stack_stale max_age now s" by blast
    have "stacks_ok V (m(k \<mapsto> s\<lparr>st_state := StackStopping\<rparr>))"
      using Cons.prems s(1) by (auto simp: stacks_ok_def stack_ok_def)
    with Cons.IH show ?thesis
      unfolding cleanup_mark_step [of m k s, OF s] Let_def by simp
  next
    case False
    then have "cleanup_mark max_age now (k # ks) m = cleanup_mark max_age now ks m"
      by (auto split: option.split)
    with Cons show ?thesis by simp
  qed
qed simp

lemma stacks_ok_step: "stacks_step ws q cfg V m m' \<Longrightarrow> stacks_ok V m \<Longrightarrow> stacks_ok V m'"
proof (induction rule: stacks_step.induct)
  case (up v env run now health sid m r m' cmds)
  then show ?case
    by (auto simp: compose_up_def Let_def stacks_ok_def stack_ok_def split: option.splits sum.splits if_splits)
next
  case (down run sid m e m' cmds)
  then have "m' = m(sid := None)"
    using compose_down_forgets [of ws run sid m] by simp
  with down(2) show ?case
    by (auto simp: stacks_ok_def split: if_splits)
next
  case (cleanup run max_age now ks m e m' cmds)
  obtain m1 todo where m1: "cleanup_mark max_age now ks m = (m1, todo)"
    by (cases "cleanup_mark max_age now ks m")
  have ok: "stacks_ok V m1"
    using stacks_ok_mark [OF cleanup(2), of max_age now ks] m1 by simp
  obtain errs m2 cmds2 where r: "cleanup_each ws run todo m1 = (errs, m2, cmds2)"
    by (metis prod_cases3)
  have "m' = m1 \<or> m' = m2"
    using cleanup(1) m1 r by (auto simp: cleanup_orphaned_def split: if_splits)
  moreover have "m2 k = (if k \<in> st_session ` set todo then None else m1 k)" for k
    using cleanup_each_forgets [of ws run todo m1 k] r by simp
  ultimately show ?case
    using ok by (auto simp: stacks_ok_def split: if_splits)
qed

lemma stacks_ok_empty: "stacks_ok V Map.empty"
  by (simp add: stacks_ok_def)

lemma stacks_ok_reachable: "(stacks_step ws q cfg V)\<^sup>*\<^sup>* Map.empty m \<Longrightarrow> stacks_ok V m"
  by (induction rule: rtranclp_induct) (auto intro: stacks_ok_step stacks_ok_empty)

section \<open>What the manager guarantees\<close>

lemma compose_up_outcome:
  "compose_up ws q cfg run now v health env sid m = (r, m', cmds) \<Longrightarrow>
   (\<exists>st. r = Inr st \<and> m' = m(sid \<mapsto> st) \<and> cmds = [up_command (en_path env) (project_name sid)]) \<or>
   (\<exists>e. r = Inl e \<and> m' = m)"
  by (auto simp: compose_up_def Let_def split: option.splits sum.splits)

text \<open>C14: Starting a stack is all or nothing. If it succeeds, the file and its service passed validation,
  \<^verbatim>\<open>up\<close> ran without error, the services became healthy, and exactly this session is now tracked, as
  running. If it fails, the tracked stacks are as before, and if \<^verbatim>\<open>up\<close> was run at all, the last command
  run is \<^verbatim>\<open>down -v\<close> of the session's own project.\<close>

theorem compose_up_all_or_nothing:
  assumes "compose_up ws q cfg run now v health env sid m = (r, m', cmds)"
  shows "case r of
      Inr st \<Rightarrow>
        v = None \<and> snd (run (up_command (en_path env) (project_name sid))) = None \<and> health = None \<and>
        st = \<lparr>st_project = project_name sid, st_path = en_path env, st_service = en_service env,
              st_session = sid, st_started = now, st_state = StackRunning\<rparr> \<and>
        m' = m(sid \<mapsto> st) \<and> is_ready sid m'
    | Inl e \<Rightarrow>
        m' = m \<and>
        (if v \<noteq> None \<or> (\<exists>e'. build_timeout_of q cfg env = Inl e') then cmds = []
         else cmds = [up_command (en_path env) (project_name sid),
                      [''podman'', ''compose'', ''-p'', project_name sid, ''down'', ''-v'']])"
proof -
  have d: "down_command (project_name sid) = [''podman'', ''compose'', ''-p'', project_name sid, ''down'', ''-v'']"
    by (simp add: down_command_def compose_command_def cb_defs project_name_def)
  show ?thesis
    using assms
    by (auto simp: compose_up_def Let_def cleanup_project_def d is_ready_def split: option.splits sum.splits)
qed

definition sample_environment :: environment where
  "sample_environment =
     \<lparr>en_type = ''compose'', en_path = ''/w/c.yml'', en_service = ''dev'', en_build_timeout = []\<rparr>"

theorem compose_up_all_or_nothing_witness:
  "let (r, m', cmds) =
         compose_up (\<lambda>_. ''exit status 1'') (\<lambda>s. s) default_compose_config (\<lambda>_. ([], Some (Msg ''boom''))) 0 None None
           sample_environment ''s1'' Map.empty
   in m' = Map.empty \<and> length cmds = 2"
proof -
  let ?u = "compose_up (\<lambda>_. ''exit status 1'') (\<lambda>s. s) default_compose_config (\<lambda>_. ([], Some (Msg ''boom''))) 0 None None
           sample_environment ''s1'' Map.empty"
  obtain r m' cmds where u: "?u = (r, m', cmds)" by (metis prod_cases3)
  have r: "\<exists>e. r = Inl e"
    using u by (auto simp: compose_up_def Let_def sample_environment_def build_timeout_of_def split: sum.splits)
  have "build_timeout_of (\<lambda>s. s) default_compose_config sample_environment = Inr (10 * minute)"
    by (simp add: build_timeout_of_def sample_environment_def default_compose_config_def)
  with compose_up_all_or_nothing [OF u] r show ?thesis
    by (auto simp: u)
qed

text \<open>C9: In every reachable state, a command is executed in a container only for a session whose stack is
  tracked, only in the service the stack was configured with, and that service of that file passed
  validation; the command line is exactly \<^verbatim>\<open>podman compose -p stromboli-<session> exec -T <service>\<close>
  followed by the arguments. Every other request runs nothing and is answered with an error.\<close>

theorem exec_only_validated_service:
  assumes "(stacks_step ws q cfg V)\<^sup>*\<^sup>* Map.empty m" and "service \<noteq> []"
  shows "snd (compose_exec q run sid service cmd m) =
      (if \<exists>st. m sid = Some st \<and> st_service st = service \<and> V (st_path st) service
       then [[''podman'', ''compose'', ''-p'', ''stromboli-'' @ sid, ''exec'', ''-T'', service] @ cmd]
       else []) \<and>
    (snd (compose_exec q run sid service cmd m) = [] \<longrightarrow>
       (\<exists>e. fst (compose_exec q run sid service cmd m) = ([], Some e)))"
proof (cases "m sid")
  case None
  then show ?thesis
    by (simp add: compose_exec_def exec_guard_def)
next
  case (Some st)
  have V: "V (st_path st) (st_service st)"
    using stacks_ok_reachable [OF assms(1)] Some by (simp add: stacks_ok_def stack_ok_def)
  show ?thesis
  proof (cases "service = st_service st")
    case True
    with Some V show ?thesis
      using exec_command_shape [OF assms(2), of sid cmd]
      by (simp add: compose_exec_def exec_guard_def project_name_def split: prod.split option.split)
  next
    case False
    with Some show ?thesis
      by (simp add: compose_exec_def exec_guard_def)
  qed
qed

definition sample_stack :: stack where
  "sample_stack = \<lparr>st_project = ''stromboli-s1'', st_path = ''/w/c.yml'', st_service = ''dev'',
     st_session = ''s1'', st_started = 0, st_state = StackRunning\<rparr>"

lemma sample_stack_reachable:
  "(stacks_step (\<lambda>_. ''exit status 1'') (\<lambda>s. s) default_compose_config (\<lambda>p s. p = ''/w/c.yml'' \<and> s = ''dev''))\<^sup>*\<^sup>*
     Map.empty [''s1'' \<mapsto> sample_stack]"
proof -
  have "compose_up (\<lambda>_. ''exit status 1'') (\<lambda>s. s) default_compose_config (\<lambda>_. ([], None)) 0 None None
      sample_environment ''s1'' Map.empty =
      (Inr sample_stack, [''s1'' \<mapsto> sample_stack], [up_command ''/w/c.yml'' ''stromboli-s1''])"
    by (simp add: compose_up_def Let_def sample_environment_def build_timeout_of_def sample_stack_def
        project_name_def)
  moreover have "None = None \<Longrightarrow>
      (\<lambda>p s. p = ''/w/c.yml'' \<and> s = ''dev'') (en_path sample_environment) (en_service sample_environment)"
    by (simp only: sample_environment_def environment.simps)
  ultimately show ?thesis
    by (intro r_into_rtranclp stacks_step.up)
qed

theorem exec_only_validated_service_witness:
  "snd (compose_exec (\<lambda>s. s) (\<lambda>_. (''hi'', None)) ''s1'' ''db'' [''sh''] [''s1'' \<mapsto> sample_stack]) = []"
  using exec_only_validated_service [OF sample_stack_reachable,
      of "''db''" "\<lambda>_. (''hi'', None)" "''s1''" "[''sh'']"]
  by (simp add: sample_stack_def)

text \<open>A pass of the orphan cleanup forgets exactly the running stacks older than the limit and leaves
  every other stack as it was, whether or not stopping them succeeded: a stack whose \<^verbatim>\<open>down\<close> fails is no
  longer tracked either, so the branch that would restore it for a retry never applies.\<close>

lemma cleanup_orphans_exact:
  assumes "(stacks_step ws q cfg V)\<^sup>*\<^sup>* Map.empty m" and "dom m \<subseteq> set ks"
    and "cleanup_orphaned ws run max_age now ks m = (e, m', cmds)"
  shows "m' = (\<lambda>sid. case m sid of
                None \<Rightarrow> None
              | Some st \<Rightarrow> if stack_stale max_age now st then None else Some st)"
proof
  fix k
  obtain m1 todo where m1: "cleanup_mark max_age now ks m = (m1, todo)"
    by (cases "cleanup_mark max_age now ks m")
  obtain errs m2 cmds2 where r: "cleanup_each ws run todo m1 = (errs, m2, cmds2)"
    by (metis prod_cases3)
  have ids: "\<forall>x st. m x = Some st \<longrightarrow> st_session st = x"
    using stacks_ok_reachable [OF assms(1)] by (auto simp: stacks_ok_def stack_ok_def)
  have todo: "st_session ` set todo = {x \<in> set ks. \<exists>st. m x = Some st \<and> stack_stale max_age now st}"
    using cleanup_mark_todo [OF ids, of max_age now ks] m1 by simp
  have "m2 k = (if k \<in> st_session ` set todo then None else m1 k)"
    using cleanup_each_forgets [of ws run todo m1 k] r by simp
  then have m': "m' k = (if k \<in> st_session ` set todo then None else m1 k)"
    using assms(3) m1 r by (auto simp: cleanup_orphaned_def split: if_splits)
  show "m' k = (case m k of None \<Rightarrow> None | Some st \<Rightarrow> if stack_stale max_age now st then None else Some st)"
  proof (cases "m k")
    case None
    have "m1 k = None"
      using cleanup_mark_dom [of m k max_age now ks] None m1 by simp
    with None m' show ?thesis by simp
  next
    case (Some st)
    have k: "k \<in> set ks" using Some assms(2) by blast
    show ?thesis
    proof (cases "stack_stale max_age now st")
      case True
      with Some k have "k \<in> st_session ` set todo" unfolding todo by simp
      with m' True Some show ?thesis by simp
    next
      case False
      then have "k \<notin> st_session ` set todo" unfolding todo using Some by simp
      moreover have "fst (cleanup_mark max_age now ks m) k = Some st"
        using False Some by (rule cleanup_mark_frame)
      ultimately show ?thesis using m' m1 False Some by simp
    qed
  qed
qed

lemma cleanup_orphans_exact_witness:
  "fst (snd (cleanup_orphaned (\<lambda>_. ''exit status 1'') (\<lambda>_. ([], Some (Msg ''timeout''))) minute (hour + 1) [''s1'']
      [''s1'' \<mapsto> sample_stack])) = Map.empty"
proof -
  obtain e m' cmds where c: "cleanup_orphaned (\<lambda>_. ''exit status 1'') (\<lambda>_. ([], Some (Msg ''timeout'')))
      minute (hour + 1) [''s1''] [''s1'' \<mapsto> sample_stack] = (e, m', cmds)"
    by (metis prod_cases3)
  have "stack_stale minute (hour + 1) sample_stack"
    by (simp add: stack_stale_def sample_stack_def time_units time_sub_def)
  then show ?thesis
    using cleanup_orphans_exact [OF sample_stack_reachable _ c] by (auto simp: c fun_eq_iff)
qed

text \<open>Waiting for a stack succeeds exactly when the first check could be made and it, or one of the checks
  at a later tick, found every listed service healthy; a failed later check is skipped. An empty listing
  counts as healthy, so a stack without a single container is reported as up.\<close>

lemma health_wait_exact:
  "(wait_for_healthy (check_health many one p) (map (check_health many one) ps) final = None \<longleftrightarrow>
     (\<exists>ok svs. check_health many one p = Inr (ok, svs)) \<and>
     (\<exists>x \<in> set (p # ps). \<exists>svs. snd x = None \<and> parse_services many one (fst x) = Inr svs \<and>
        (\<forall>s \<in> set svs. is_service_healthy s))) \<and>
   wait_for_healthy (check_health many one ([], None)) [] final = None"
proof -
  have h: "(\<exists>svs. check_health many one x = Inr (True, svs)) \<longleftrightarrow>
      (\<exists>svs. snd x = None \<and> parse_services many one (fst x) = Inr svs \<and> (\<forall>s \<in> set svs. is_service_healthy s))"
    for x
    by (auto simp: check_health_def list_all_iff split: option.split sum.split)
  have t: "(\<exists>svs. Inr (True, svs) \<in> set (map (check_health many one) ps)) \<longleftrightarrow>
      (\<exists>x \<in> set ps. \<exists>svs. check_health many one x = Inr (True, svs))"
    by (auto simp: image_iff) (metis)+
  have "wait_for_healthy (check_health many one ([], None)) [] final = None"
    by (simp add: wait_for_healthy_def check_health_def parse_services_def)
  moreover have "wait_for_healthy (check_health many one p) (map (check_health many one) ps) final = None \<longleftrightarrow>
      (\<exists>ok svs. check_health many one p = Inr (ok, svs)) \<and>
      (\<exists>x \<in> set (p # ps). \<exists>svs. check_health many one x = Inr (True, svs))"
    unfolding wait_for_healthy_None t by (auto, (case_tac ok; auto)?)
  ultimately show ?thesis
    unfolding h by (rule conjI [rotated])
qed

lemma health_wait_exact_witness:
  "wait_for_healthy (check_health (\<lambda>_. Inr []) (\<lambda>_. None) ([], None)) [] (Inl (Msg ''x'')) = None"
  using health_wait_exact [of "\<lambda>_. Inr []" "\<lambda>_. None" "([], None)" "[]" "Inl (Msg ''x'')"] by blast

end
