(* ===== verification/Runner.thy ===== *)
theory Runner
  imports Volumes Session_Init Podman_Builder Claude_Args Images Secrets Crash Compose_Manager
begin

text \<open>
  A run of Claude in a container: \<^verbatim>\<open>internal/runner/runner.go\<close> and, for compose environments,
  \<^verbatim>\<open>internal/runner/compose.go\<close>. The components it goes through are those of the theories above; what is
  outside the program (system calls, symbolic links, the executor, random numbers, the order in which maps
  are ranged over) is the record \<open>outside\<close>.
\<close>

section \<open>Requests and configuration\<close>

record podman_options =
  po_image :: string
  po_volumes :: "string list"
  po_secrets_env :: "string \<rightharpoonup> string"
  po_timeout :: string
  po_memory :: string
  po_cpus :: string
  po_cpu_shares :: "int option"
  po_lifecycle :: lifecycle_hooks
  po_environment :: environment

record run_request =
  rq_prompt :: string
  rq_workdir :: string
  rq_claude :: claude_options
  rq_podman :: podman_options

record resource_defaults =
  rd_memory :: string
  rd_cpus :: string
  rd_timeout :: string

record image_config =
  ic_allowed :: "string list"
  ic_mount_cli :: bool

record volume_config =
  vc_allowed :: "string list"
  vc_allow_all :: bool
  vc_workdir_auto :: bool
  vc_volume_auto :: bool

text \<open>The credentials manager, which runs change, is in the state below.\<close>

record podman_runner =
  pr_image :: string
  pr_sessions_dir :: string
  pr_sessions_host_dir :: string
  pr_volumes :: workspace_validator
  pr_images :: image_validator
  pr_mount_cli :: bool
  pr_workdir_auto :: bool
  pr_volume_auto :: bool
  pr_defaults :: resource_defaults
  pr_compose :: "compose_config option"

definition container_name_prefix :: string where
  "container_name_prefix = ''stromboli-agent-''"

definition claude_cli_image_name :: string where
  "claude_cli_image_name = ''stromboli-claude-cli''"

definition claude_cli_mount_path :: string where
  "claude_cli_mount_path = ''/opt/claude''"

section \<open>The world of a run\<close>

record world =
  wd_secrets :: secrets_manager
  wd_podman :: podman_state
  wd_store :: store
  wd_stacks :: stacks
  wd_log :: "string list list"

record outside =
  ou_quote :: "string \<Rightarrow> string"
  ou_status :: "wait_status \<Rightarrow> string"
  ou_sys :: sys
  ou_links :: "string \<Rightarrow> resolved"
  ou_sha :: "string \<Rightarrow> string"
  ou_home :: "string option"
  ou_file :: file_at
  ou_faults :: secret_faults
  ou_exec :: runner
  ou_logs :: "string \<Rightarrow> string result"
  ou_uid :: nat
  ou_gid :: nat
  ou_session_bytes :: string
  ou_run_bytes :: string
  ou_temp :: string
  ou_stamp :: string
  ou_handle :: nat
  ou_now :: gtime
  ou_compose_check :: "environment \<Rightarrow> go_error option"
  ou_health :: "string \<Rightarrow> go_error option"

text \<open>The orders in which the secrets are validated and applied, and the environment of the container is listed.\<close>

record orders =
  od_check :: "(string \<times> string) list"
  od_apply :: "(string \<times> string) list"
  od_env :: "(string \<times> string) list"

section \<open>Construction\<close>

definition new_podman_runner ::
    "outside \<Rightarrow> string \<Rightarrow> string \<Rightarrow> string \<Rightarrow> string \<Rightarrow> resource_defaults \<Rightarrow> image_config \<Rightarrow> volume_config \<Rightarrow> podman_state \<Rightarrow>
     (podman_runner \<times> secrets_manager) result \<times> podman_state" where
  "new_podman_runner ou img credentials sessions_dir host_dir defaults ic vc ps =
     (let m = new_secrets_manager_with_path (ou_home ou) credentials
      in case ensure_exists (ou_sha ou) (ou_home ou) (ou_file ou) (ou_faults ou) [] m ps of
           (Some e, _, ps') \<Rightarrow> (Inl (Wrap ''failed to setup credentials: '' e []), ps')
         | (None, m', ps') \<Rightarrow>
             (Inr (\<lparr>pr_image = img, pr_sessions_dir = sessions_dir, pr_sessions_host_dir = host_dir,
                    pr_volumes = new_validator_with_allow_all (vc_allowed vc) (vc_allow_all vc),
                    pr_images = (if ic_mount_cli ic then new_image_validator_with_compat_check (ic_allowed ic) img
                                 else new_image_validator (ic_allowed ic) img),
                    pr_mount_cli = ic_mount_cli ic, pr_workdir_auto = vc_workdir_auto vc,
                    pr_volume_auto = vc_volume_auto vc, pr_defaults = defaults, pr_compose = None\<rparr>, m'), ps'))"

definition set_compose_config :: "compose_config \<Rightarrow> podman_runner \<Rightarrow> podman_runner" where
  "set_compose_config cfg r = r\<lparr>pr_compose := Some cfg\<rparr>"

section \<open>Steps\<close>

definition apply_defaults :: "podman_runner \<Rightarrow> podman_options \<Rightarrow> podman_options" where
  "apply_defaults r o0 =
     (let d = pr_defaults r;
          o1 = (if po_memory o0 = [] \<and> rd_memory d \<noteq> [] then o0\<lparr>po_memory := rd_memory d\<rparr> else o0);
          o2 = (if po_cpus o1 = [] \<and> rd_cpus d \<noteq> [] then o1\<lparr>po_cpus := rd_cpus d\<rparr> else o1)
      in if po_timeout o2 = [] \<and> rd_timeout d \<noteq> [] then o2\<lparr>po_timeout := rd_timeout d\<rparr> else o2)"

definition get_host_session_path :: "podman_runner \<Rightarrow> string \<Rightarrow> string" where
  "get_host_session_path r sid = path_join [pr_sessions_host_dir r, sid]"

definition generate_run_id :: "string \<Rightarrow> string" where
  "generate_run_id bytes = ''run-'' @ hex_encode bytes"

text \<open>The pairs are taken two by two and each variable is cut at its first equals sign.\<close>

fun env_pairs :: "string list \<Rightarrow> podman_builder \<Rightarrow> podman_builder" where
  "env_pairs (f # kv # rest) b =
     env_pairs rest (case cut_at (CHR ''='') kv of None \<Rightarrow> b | Some (k, v) \<Rightarrow> with_env k v b)"
| "env_pairs _ b = b"

definition apply_claude_env_vars :: "claude_options \<Rightarrow> podman_builder \<Rightarrow> podman_builder" where
  "apply_claude_env_vars opts b = env_pairs (env_vars opts) b"

text \<open>
  Validation of what the request asks for, and the builder with it; \<open>None\<close> if a check does not return. The
  host directories may have been created even when a later check fails.
\<close>

definition apply_request_config ::
    "outside \<Rightarrow> orders \<Rightarrow> podman_runner \<Rightarrow> run_request \<Rightarrow> podman_builder \<Rightarrow> fsys \<Rightarrow>
     (podman_builder result \<times> fsys) option" where
  "apply_request_config ou od r req b m =
     (let q = ou_quote ou; sy = ou_sys ou; po = rq_podman req
      in case validate_workdir (rq_workdir req) of
           Some e \<Rightarrow> Some (Inl (Wrap ''workdir validation failed: '' e []), m)
         | None \<Rightarrow>
             (case validate_volumes q (validate_workspace q sy (ou_links ou) (pr_volumes r)) (po_volumes po) of
                None \<Rightarrow> None
              | Some (Some e) \<Rightarrow> Some (Inl (Wrap ''volume validation failed: '' e []), m)
              | Some None \<Rightarrow>
                  (case (if pr_volume_auto r then ensure_volume_host_dirs q sy (po_volumes po) m else (None, m)) of
                     (Some e, m1) \<Rightarrow> Some (Inl (Wrap ''failed to create volume host directories: '' e []), m1)
                   | (None, m1) \<Rightarrow>
                       (let b1 = fold with_volume_raw (po_volumes po) b;
                            b2 = (if rq_workdir req \<noteq> [] then with_workdir (rq_workdir req) b1 else b1)
                        in case validate_secrets_env q (od_check od) of
                             Some e \<Rightarrow> Some (Inl (Wrap ''secrets validation failed: '' e []), m1)
                           | None \<Rightarrow>
                               (let b3 = fold (\<lambda>(v, s). with_secret_env s v) (od_apply od) b2;
                                    b4 = (if po_memory po \<noteq> [] then with_memory (po_memory po) b3 else b3);
                                    b5 = (if po_cpus po \<noteq> [] then with_cpus (po_cpus po) b4 else b4);
                                    b6 = (case po_cpu_shares po of None \<Rightarrow> b5 | Some n \<Rightarrow> with_cpu_shares n b5)
                                in Some (Inr (apply_claude_env_vars (rq_claude req) b6), m1))))))"

text \<open>The container before the request's own configuration.\<close>

definition base_container :: "outside \<Rightarrow> podman_runner \<Rightarrow> secrets_manager \<Rightarrow> string \<Rightarrow> string \<Rightarrow> podman_builder" where
  "base_container ou r m img sid =
     (let b0 = with_image img (with_env ''HOME'' ''/home/user''
                 (with_user (show_nat (ou_uid ou) @ '':'' @ show_nat (ou_gid ou))
                   (with_keep_id (with_name (container_name_prefix @ sid) new_command))));
          b1 = (if pr_mount_cli r
                then with_env ''PATH'' (claude_cli_mount_path @ ''/usr/local/bin:/usr/local/sbin:/usr/local/bin:/usr/sbin:/usr/bin:/sbin:/bin'')
                       (with_mount_image claude_cli_image_name claude_cli_mount_path b0)
                else b0)
      in with_secret_target (sm_name m) ''/home/user/.claude/.credentials.json''
           (with_volume (get_host_session_path r sid) ''/home/user'' b1))"

text \<open>
  Everything before the container starts, the same in \<^verbatim>\<open>Run\<close> and \<^verbatim>\<open>RunStream\<close>: the result is an error, or
  the session, the command, whether the init hooks are in it, and the init lock held.
\<close>

record prepared =
  pd_session :: string
  pd_command :: "string list"
  pd_init :: bool
  pd_lock :: "nat option"

definition parse_timeout :: "(string \<Rightarrow> string) \<Rightarrow> string \<Rightarrow> go_error option" where
  "parse_timeout q t =
     (if t \<noteq> [] \<and> parse_duration t = None
      then Some (Wrap ''invalid timeout duration: '' (Msg (''time: invalid duration '' @ q t)) []) else None)"

definition prepare_run ::
    "outside \<Rightarrow> orders \<Rightarrow> podman_runner \<Rightarrow> run_request \<Rightarrow> world \<Rightarrow> (prepared result \<times> world) option" where
  "prepare_run ou od r req0 w0 =
     (case sync_if_changed (ou_sha ou) (ou_file ou) (ou_faults ou) (wd_secrets w0) (wd_podman w0) of
        (Inl e, m, ps) \<Rightarrow> Some (Inl (Wrap ''failed to sync credentials: '' e []), w0\<lparr>wd_secrets := m, wd_podman := ps\<rparr>)
      | (Inr _, m, ps) \<Rightarrow>
          (let w1 = w0\<lparr>wd_secrets := m, wd_podman := ps\<rparr>; q = ou_quote ou; sy = ou_sys ou;
               po = apply_defaults r (rq_podman req0); req = req0\<lparr>rq_podman := po\<rparr>
           in case parse_timeout q (po_timeout po) of
                Some e \<Rightarrow> Some (Inl e, w1)
              | None \<Rightarrow>
           case validate_image q (pr_images r) (po_image po) of
                Some e \<Rightarrow> Some (Inl (Wrap ''image validation failed: '' e []), w1)
              | None \<Rightarrow>
           case create_session sy (pr_sessions_dir r) (ou_session_bytes ou) (co_session_id (rq_claude req))
                  (so_files (wd_store w1)) of
                (Inl e, fs) \<Rightarrow> Some (Inl e, w1\<lparr>wd_store := (wd_store w1)\<lparr>so_files := fs\<rparr>\<rparr>)
              | (Inr (sid, _), fs) \<Rightarrow>
           (let claude_cmd = claude_build (claude_request (rq_prompt req) sid (rq_claude req));
                base = base_container ou r m (resolve_image (pr_images r) (po_image po)) sid
            in case apply_request_config ou od r req base fs of
                 None \<Rightarrow> None
               | Some (Inl e, fs') \<Rightarrow> Some (Inl e, w1\<lparr>wd_store := (wd_store w1)\<lparr>so_files := fs'\<rparr>\<rparr>)
               | Some (Inr b, fs') \<Rightarrow>
                   (let st = (wd_store w1)\<lparr>so_files := fs'\<rparr>;
                        cmd = (if pr_mount_cli r then ''claude'' # claude_cmd else claude_cmd)
                    in case prepare_lifecycle_hooks q sy (pr_sessions_dir r) (ou_handle ou) (po_lifecycle po) sid st of
                         (Inl e, st') \<Rightarrow> Some (Inl e, w1\<lparr>wd_store := st'\<rparr>)
                       | (Inr (needs_init, lock), st') \<Rightarrow>
                           (let wrapped = wrap_command_with_hooks cmd (po_lifecycle po) needs_init;
                                final = wrap_command_with_workdir (rq_workdir req) wrapped (pr_workdir_auto r)
                            in Some (Inr \<lparr>pd_session = sid, pd_command = podman_build (od_env od) (with_command final b),
                                          pd_init = needs_init, pd_lock = lock\<rparr>, w1\<lparr>wd_store := st'\<rparr>))))))"

section \<open>Running\<close>

text \<open>The deferred calls: the container is removed by force, and the init lock released.\<close>

definition remove_container_command :: "string \<Rightarrow> string list" where
  "remove_container_command name = [''podman'', ''rm'', ''-f'', name]"

definition release_lock :: "nat option \<Rightarrow> store \<Rightarrow> store" where
  "release_lock l st = (case l of None \<Rightarrow> st | Some i \<Rightarrow> release_init_lock i st)"

text \<open>
  From the outcome of the command to the result: \<open>failed\<close> is the error of a failure that is no crash,
  \<open>fallback\<close> says whether empty crash output is replaced by the container's logs.
\<close>

definition finish_run ::
    "outside \<Rightarrow> podman_runner \<Rightarrow> bool \<Rightarrow> (go_error \<Rightarrow> go_error) \<Rightarrow> prepared \<Rightarrow> string \<Rightarrow> go_error option \<Rightarrow> world \<Rightarrow>
     run_result result \<times> world" where
  "finish_run ou r fallback failed pd out err w =
     (let sid = pd_session pd;
          unlock = (\<lambda>st. release_lock (pd_lock pd) st)
      in case err of
           Some e \<Rightarrow>
             (if is_crash err
              then
                (let crash_out =
                       (if fallback \<and> trim_space out = []
                        then fetch_container_logs (ou_logs ou) (container_name_prefix @ sid) 4000 else out)
                 in (Inr \<lparr>rr_id = generate_run_id (ou_run_bytes ou), rr_output = trim_space crash_out, rr_session = sid,
                          rr_crash = extract_crash_info (ou_status ou) err crash_out\<rparr>,
                     w\<lparr>wd_store := unlock (wd_store w)\<rparr>))
              else (Inl (failed e), w\<lparr>wd_store := unlock (wd_store w)\<rparr>))
         | None \<Rightarrow>
             (let (mark, st) = (if pd_init pd
                  then mark_initialized (ou_sys ou) (pr_sessions_dir r) (ou_temp ou) (ou_stamp ou) sid (wd_store w)
                  else (None, wd_store w))
              in case mark of
                   Some e \<Rightarrow> (Inl (Wrap ''failed to mark session as initialized: '' e []), w\<lparr>wd_store := unlock st\<rparr>)
                 | None \<Rightarrow>
                     (Inr \<lparr>rr_id = generate_run_id (ou_run_bytes ou), rr_output = trim_space out, rr_session = sid,
                           rr_crash = None\<rparr>, w\<lparr>wd_store := unlock st\<rparr>)))"

definition log_commands :: "string list list \<Rightarrow> world \<Rightarrow> world" where
  "log_commands cmds w = w\<lparr>wd_log := wd_log w @ cmds\<rparr>"

definition run_container ::
    "outside \<Rightarrow> orders \<Rightarrow> podman_runner \<Rightarrow> run_request \<Rightarrow> world \<Rightarrow> (run_result result \<times> world) option" where
  "run_container ou od r req w =
     (case prepare_run ou od r req w of
        None \<Rightarrow> None
      | Some (Inl e, w1) \<Rightarrow> Some (Inl e, w1)
      | Some (Inr pd, w1) \<Rightarrow>
          (let (out, err) = ou_exec ou (pd_command pd);
               (res, w2) = finish_run ou r True (\<lambda>e. Wrap ''execution failed: '' e ('', output: '' @ out)) pd out err
                             (log_commands [pd_command pd] w1)
           in Some (res, log_commands [remove_container_command (container_name_prefix @ pd_session pd)] w2)))"

section \<open>Streaming\<close>

text \<open>
  \<^verbatim>\<open>bufio.Scanner\<close> with its default limit: the lines of a pipe without their ends, up to the first that
  does not fit into 64 KiB with its newline; what follows is never read.
\<close>

definition strip_cr :: "string \<Rightarrow> string" where
  "strip_cr l = (if l \<noteq> [] \<and> last l = CHR 0x0D then butlast l else l)"

definition scan_lines :: "string \<Rightarrow> string list" where
  "scan_lines s =
     (let ps = split_on (CHR 0x0A) s;
          ls = (if last ps = [] then butlast ps else ps)
      in map strip_cr (takeWhile (\<lambda>l. length l < 65536) ls))"

text \<open>The lines of the two pipes, in the order in which the two goroutines write them.\<close>

fun interleave :: "bool list \<Rightarrow> 'a list \<Rightarrow> 'a list \<Rightarrow> 'a list" where
  "interleave _ [] ys = ys"
| "interleave _ xs [] = xs"
| "interleave [] xs ys = xs @ ys"
| "interleave (True # bs) (x # xs) ys = x # interleave bs xs ys"
| "interleave (False # bs) xs (y # ys) = y # interleave bs xs ys"

record streamed =
  sd_setup :: "go_error option"
  sd_start :: "go_error option"
  sd_stdout :: string
  sd_stderr :: string
  sd_order :: "bool list"
  sd_wait :: "go_error option"

text \<open>The lines sent to the channel, and the text collected, for a stream that is not cancelled.\<close>

definition streamed_lines :: "streamed \<Rightarrow> string list" where
  "streamed_lines sd = interleave (sd_order sd) (scan_lines (sd_stdout sd)) (scan_lines (sd_stderr sd))"

definition collected :: "string list \<Rightarrow> string" where
  "collected ls = concat (map (\<lambda>l. l @ [CHR 0x0A]) ls)"

definition run_stream_container ::
    "outside \<Rightarrow> orders \<Rightarrow> podman_runner \<Rightarrow> (string list \<Rightarrow> streamed) \<Rightarrow> run_request \<Rightarrow> world \<Rightarrow>
     (run_result result \<times> string list \<times> world) option" where
  "run_stream_container ou od r strm req w =
     (case prepare_run ou od r req w of
        None \<Rightarrow> None
      | Some (Inl e, w1) \<Rightarrow> Some (Inl e, [], w1)
      | Some (Inr pd, w1) \<Rightarrow>
          (let sd = strm (pd_command pd); unlock = (\<lambda>st. release_lock (pd_lock pd) st);
               removed = log_commands [remove_container_command (container_name_prefix @ pd_session pd)]
           in case sd_setup sd of
                Some e \<Rightarrow> Some (Inl (Wrap ''failed to setup streaming: '' e []), [], removed (w1\<lparr>wd_store := unlock (wd_store w1)\<rparr>))
              | None \<Rightarrow>
                  (case sd_start sd of
                     Some e \<Rightarrow> Some (Inl (Wrap ''failed to start command: '' e []), [], removed (w1\<lparr>wd_store := unlock (wd_store w1)\<rparr>))
                   | None \<Rightarrow>
                       (let ls = streamed_lines sd;
                            (res, w2) = finish_run ou r True (\<lambda>e. Wrap ''execution failed: '' e []) pd (collected ls)
                                          (sd_wait sd) (log_commands [pd_command pd] w1)
                        in Some (res, ls, removed w2)))))"

section \<open>Compose environments\<close>

definition is_compose_environment :: "run_request \<Rightarrow> bool" where
  "is_compose_environment req \<longleftrightarrow> en_type (po_environment (rq_podman req)) = ''compose''"

definition wrap_compose_command :: "podman_runner \<Rightarrow> string \<Rightarrow> string list \<Rightarrow> string list" where
  "wrap_compose_command r workdir cmd =
     (let setup = (if workdir \<noteq> [] \<and> pr_workdir_auto r
                   then [''mkdir -p '' @ escape_shell_arg workdir, ''cd '' @ escape_shell_arg workdir]
                   else if workdir \<noteq> [] then [''cd '' @ escape_shell_arg workdir] else []);
          parts = setup @ [str_join '' '' (map escape_shell_arg cmd)]
      in if length parts = 1 then cmd else [''sh'', ''-c'', str_join '' && '' parts])"

text \<open>The prologue of \<^verbatim>\<open>runWithCompose\<close> and \<^verbatim>\<open>runStreamWithCompose\<close>: here the command is that for \<^verbatim>\<open>Exec\<close>.\<close>

definition prepare_compose ::
    "outside \<Rightarrow> podman_runner \<Rightarrow> run_request \<Rightarrow> world \<Rightarrow> (prepared \<times> string) result \<times> world" where
  "prepare_compose ou r req0 w0 =
     (case pr_compose r of
        None \<Rightarrow> (Inl (Msg ''compose support not configured''), w0)
      | Some cfg \<Rightarrow>
          (let po = apply_defaults r (rq_podman req0); req = req0\<lparr>rq_podman := po\<rparr>; q = ou_quote ou; sy = ou_sys ou;
               env = po_environment po
           in case create_session sy (pr_sessions_dir r) (ou_session_bytes ou) (co_session_id (rq_claude req))
                     (so_files (wd_store w0)) of
                (Inl e, fs) \<Rightarrow> (Inl e, w0\<lparr>wd_store := (wd_store w0)\<lparr>so_files := fs\<rparr>\<rparr>)
              | (Inr (sid, _), fs) \<Rightarrow>
                  (let w1 = w0\<lparr>wd_store := (wd_store w0)\<lparr>so_files := fs\<rparr>\<rparr>;
                       (up, w2) =
                         (case (if is_ready sid (wd_stacks w1) then wd_stacks w1 sid else None) of
                            Some st \<Rightarrow> (Inr st, w1)
                          | None \<Rightarrow>
                              (case compose_up (ou_status ou) q cfg (ou_exec ou) (ou_now ou) (ou_compose_check ou env)
                                      (ou_health ou sid) env sid (wd_stacks w1) of
                                 (res, ss, cmds) \<Rightarrow> (res, log_commands cmds (w1\<lparr>wd_stacks := ss\<rparr>))))
                   in case up of
                        Inl e \<Rightarrow> (Inl (Wrap ''failed to start compose stack: '' e []), w2)
                      | Inr st \<Rightarrow>
                          (let claude_cmd = claude_build (claude_request (rq_prompt req) sid (rq_claude req));
                               cmd = (if pr_mount_cli r then ''claude'' # claude_cmd else claude_cmd)
                           in case prepare_lifecycle_hooks q sy (pr_sessions_dir r) (ou_handle ou) (po_lifecycle po) sid
                                     (wd_store w2) of
                                (Inl e, st') \<Rightarrow> (Inl e, w2\<lparr>wd_store := st'\<rparr>)
                              | (Inr (needs_init, lock), st') \<Rightarrow>
                                  (Inr (\<lparr>pd_session = sid,
                                         pd_command = wrap_compose_command r (rq_workdir req)
                                           (wrap_command_with_hooks cmd (po_lifecycle po) needs_init),
                                         pd_init = needs_init, pd_lock = lock\<rparr>, st_service st),
                                   w2\<lparr>wd_store := st'\<rparr>)))))"

definition run_with_compose ::
    "outside \<Rightarrow> podman_runner \<Rightarrow> run_request \<Rightarrow> world \<Rightarrow> run_result result \<times> world" where
  "run_with_compose ou r req w =
     (case prepare_compose ou r req w of
        (Inl e, w1) \<Rightarrow> (Inl e, w1)
      | (Inr (pd, service), w1) \<Rightarrow>
          (case compose_exec (ou_quote ou) (ou_exec ou) (pd_session pd) service (pd_command pd) (wd_stacks w1) of
             ((out, err), cmds) \<Rightarrow>
               finish_run ou r False (\<lambda>e. Wrap ''execution failed: '' e ('', output: '' @ out)) pd out err
                 (log_commands cmds w1)))"

text \<open>\<^verbatim>\<open>ExecStream\<close> makes the checks of \<^verbatim>\<open>Exec\<close>, and its errors are those of the executor's pipes.\<close>

definition run_stream_with_compose ::
    "outside \<Rightarrow> podman_runner \<Rightarrow> (string list \<Rightarrow> streamed) \<Rightarrow> run_request \<Rightarrow> world \<Rightarrow>
     run_result result \<times> string list \<times> world" where
  "run_stream_with_compose ou r strm req w =
     (case prepare_compose ou r req w of
        (Inl e, w1) \<Rightarrow> (Inl e, [], w1)
      | (Inr (pd, service), w1) \<Rightarrow>
          (let unlocked = w1\<lparr>wd_store := release_lock (pd_lock pd) (wd_store w1)\<rparr>
           in case exec_guard (ou_quote ou) (pd_session pd) service (pd_command pd) (wd_stacks w1) of
                Inl e \<Rightarrow> (Inl (Wrap ''failed to setup streaming: '' e []), [], unlocked)
              | Inr c \<Rightarrow>
                  (let sd = strm c
                   in case sd_setup sd of
                        Some e \<Rightarrow> (Inl (Wrap ''failed to setup streaming: '' e []), [], unlocked)
                      | None \<Rightarrow>
                          (case sd_start sd of
                             Some e \<Rightarrow> (Inl (Wrap ''failed to start command: '' e []), [], unlocked)
                           | None \<Rightarrow>
                               (let ls = streamed_lines sd;
                                    (res, w2) = finish_run ou r False (\<lambda>e. Wrap ''execution failed: '' e []) pd (collected ls)
                                                  (sd_wait sd) (log_commands [c] w1)
                                in (res, ls, w2))))))"

section \<open>The runner's interface\<close>

definition run :: "outside \<Rightarrow> orders \<Rightarrow> podman_runner \<Rightarrow> run_request \<Rightarrow> world \<Rightarrow> (run_result result \<times> world) option" where
  "run ou od r req w =
     (if is_compose_environment req then Some (run_with_compose ou r req w) else run_container ou od r req w)"

definition run_stream ::
    "outside \<Rightarrow> orders \<Rightarrow> podman_runner \<Rightarrow> (string list \<Rightarrow> streamed) \<Rightarrow> run_request \<Rightarrow> world \<Rightarrow>
     (run_result result \<times> string list \<times> world) option" where
  "run_stream ou od r strm req w =
     (if is_compose_environment req then Some (run_stream_with_compose ou r strm req w)
      else run_stream_container ou od r strm req w)"

text \<open>The error of stopping a stack is ignored.\<close>

definition destroy_run_session ::
    "outside \<Rightarrow> podman_runner \<Rightarrow> string \<Rightarrow> world \<Rightarrow> go_error option \<times> world" where
  "destroy_run_session ou r sid w =
     (let w1 = (case pr_compose r of
                  None \<Rightarrow> w
                | Some _ \<Rightarrow>
                    (case compose_down (ou_status ou) (ou_exec ou) sid (wd_stacks w) of
                       (_, ss, cmds) \<Rightarrow> log_commands cmds (w\<lparr>wd_stacks := ss\<rparr>)));
          (e, fs) = destroy_session (ou_sys ou) (pr_sessions_dir r) sid (so_files (wd_store w1))
      in (e, w1\<lparr>wd_store := (wd_store w1)\<lparr>so_files := fs\<rparr>\<rparr>))"

definition list_run_sessions :: "outside \<Rightarrow> podman_runner \<Rightarrow> string list \<Rightarrow> world \<Rightarrow> string list result" where
  "list_run_sessions ou r entries w =
     list_sessions (ou_sys ou) (pr_sessions_dir r) entries (so_files (wd_store w))"

definition cleanup_compose_stacks ::
    "outside \<Rightarrow> podman_runner \<Rightarrow> gtime \<Rightarrow> string list \<Rightarrow> world \<Rightarrow> go_error option \<times> world" where
  "cleanup_compose_stacks ou r max_age ks w =
     (case pr_compose r of
        None \<Rightarrow> (None, w)
      | Some _ \<Rightarrow>
          (case cleanup_orphaned (ou_status ou) (ou_exec ou) max_age (ou_now ou) ks (wd_stacks w) of
             (e, ss, cmds) \<Rightarrow> (e, log_commands cmds (w\<lparr>wd_stacks := ss\<rparr>))))"

definition is_compose_active :: "podman_runner \<Rightarrow> string \<Rightarrow> world \<Rightarrow> bool" where
  "is_compose_active r sid w = (case pr_compose r of None \<Rightarrow> False | Some _ \<Rightarrow> is_active sid (wd_stacks w))"

end
