(* ===== verification/Run_Properties.thy ===== *)
theory Run_Properties
  imports Runner
begin

text \<open>
  What a run asks Podman for, what the container then runs, how its end is reported, and that it leaves no
  lock behind.
\<close>

section \<open>The container of a request\<close>

definition claude_env :: "claude_options \<Rightarrow> string \<rightharpoonup> string" where
  "claude_env opts =
     (if co_prompt_caching_ttl opts = ''1h'' then [''ENABLE_PROMPT_CACHING_1H'' \<mapsto> ''1'']
      else if co_prompt_caching_ttl opts = ''5m'' then [''FORCE_PROMPT_CACHING_5M'' \<mapsto> ''1''] else Map.empty) ++
     (if co_bedrock_service_tier opts \<noteq> [] then [''ANTHROPIC_BEDROCK_SERVICE_TIER'' \<mapsto> co_bedrock_service_tier opts]
      else Map.empty) ++
     (if co_enable_powershell opts then [''CLAUDE_CODE_USE_POWERSHELL_TOOL'' \<mapsto> ''1''] else Map.empty)"

definition request_env :: "podman_runner \<Rightarrow> claude_options \<Rightarrow> string \<rightharpoonup> string" where
  "request_env r opts =
     (if pr_mount_cli r
      then [''HOME'' \<mapsto> ''/home/user'',
            ''PATH'' \<mapsto> claude_cli_mount_path @ ''/usr/local/bin:/usr/local/sbin:/usr/local/bin:/usr/sbin:/usr/bin:/sbin:/bin'']
      else [''HOME'' \<mapsto> ''/home/user'']) ++ claude_env opts"

text \<open>The container a request should get: nothing but what the request and the configuration name.\<close>

definition request_container ::
    "outside \<Rightarrow> podman_runner \<Rightarrow> string \<Rightarrow> (string \<times> string) list \<Rightarrow> run_request \<Rightarrow> string \<Rightarrow> string list \<Rightarrow> podman_builder" where
  "request_container ou r secret es req sid cmd =
     (let po = apply_defaults r (rq_podman req)
      in \<lparr>pm_name = container_name_prefix @ sid,
          pm_image = resolve_image (pr_images r) (po_image po),
          pm_env = request_env r (rq_claude req),
          pm_volumes = (get_host_session_path r sid @ '':'' @ ''/home/user'') # po_volumes po,
          pm_mounts = (if pr_mount_cli r then [''type=image,src='' @ claude_cli_image_name @ '',dst='' @ claude_cli_mount_path] else []),
          pm_secrets = (secret @ '',target='' @ ''/home/user/.claude/.credentials.json'') #
                       map (\<lambda>(v, s). s @ '',type=env,target='' @ v) es,
          pm_tmpfs = [],
          pm_workdir = rq_workdir req,
          pm_interactive = False,
          pm_command = cmd,
          pm_memory = po_memory po,
          pm_cpus = po_cpus po,
          pm_cpu_shares = po_cpu_shares po,
          pm_user = show_nat (ou_uid ou) @ '':'' @ show_nat (ou_gid ou),
          pm_keep_id = True\<rparr>)"

text \<open>The command inside the container.\<close>

definition container_words :: "podman_runner \<Rightarrow> run_request \<Rightarrow> string \<Rightarrow> bool \<Rightarrow> string list" where
  "container_words r req sid needs_init =
     (let claude = claude_build (claude_request (rq_prompt req) sid (rq_claude req))
      in wrap_command_with_workdir (rq_workdir req)
           (wrap_command_with_hooks (if pr_mount_cli r then ''claude'' # claude else claude)
              (po_lifecycle (rq_podman req)) needs_init)
           (pr_workdir_auto r))"

lemma fold_volumes: "fold with_volume_raw vs b = b\<lparr>pm_volumes := pm_volumes b @ vs\<rparr>"
  by (induction vs arbitrary: b) (simp_all add: with_volume_raw_def)

lemma fold_secrets:
  "fold (\<lambda>(v, s). with_secret_env s v) es b =
     b\<lparr>pm_secrets := pm_secrets b @ map (\<lambda>(v, s). s @ '',type=env,target='' @ v) es\<rparr>"
  by (induction es arbitrary: b) (auto simp: with_secret_env_def)

lemma env_pairs_append: "even (length xs) \<Longrightarrow> env_pairs (xs @ ys) b = env_pairs ys (env_pairs xs b)"
proof (induction xs arbitrary: b rule: induct_list012)
  case (3 x y zs)
  then show ?case by simp
qed simp_all

lemma env_pair: "CHR ''='' \<notin> set k \<Longrightarrow> env_pairs [f, k @ CHR ''='' # v] b = b\<lparr>pm_env := (pm_env b)(k \<mapsto> v)\<rparr>"
  by (simp add: cut_at_append with_env_def)

lemma claude_env_vars: "apply_claude_env_vars opts b = b\<lparr>pm_env := pm_env b ++ claude_env opts\<rparr>"
proof -
  let ?a = "if co_prompt_caching_ttl opts = ''1h'' then [''ENABLE_PROMPT_CACHING_1H'' \<mapsto> ''1'']
      else if co_prompt_caching_ttl opts = ''5m'' then [''FORCE_PROMPT_CACHING_5M'' \<mapsto> ''1''] else Map.empty"
  let ?t = "if co_bedrock_service_tier opts \<noteq> [] then [''ANTHROPIC_BEDROCK_SERVICE_TIER'' \<mapsto> co_bedrock_service_tier opts]
      else Map.empty"
  let ?p = "if co_enable_powershell opts then [''CLAUDE_CODE_USE_POWERSHELL_TOOL'' \<mapsto> ''1''] else Map.empty"
  let ?as = "if co_prompt_caching_ttl opts = ''1h'' then [''-e'', ''ENABLE_PROMPT_CACHING_1H=1'']
      else if co_prompt_caching_ttl opts = ''5m'' then [''-e'', ''FORCE_PROMPT_CACHING_5M=1''] else []"
  let ?ts = "if co_bedrock_service_tier opts \<noteq> []
      then [''-e'', ''ANTHROPIC_BEDROCK_SERVICE_TIER='' @ co_bedrock_service_tier opts] else []"
  let ?ps = "if co_enable_powershell opts then [''-e'', ''CLAUDE_CODE_USE_POWERSHELL_TOOL=1''] else []"
  have a: "env_pairs ?as b = b\<lparr>pm_env := pm_env b ++ ?a\<rparr>" for b
    using env_pair [of "''ENABLE_PROMPT_CACHING_1H''" "''-e''" "''1''" b]
      env_pair [of "''FORCE_PROMPT_CACHING_5M''" "''-e''" "''1''" b] by simp
  have t: "env_pairs ?ts b = b\<lparr>pm_env := pm_env b ++ ?t\<rparr>" for b
    using env_pair [of "''ANTHROPIC_BEDROCK_SERVICE_TIER''" "''-e''" "co_bedrock_service_tier opts" b] by simp
  have p: "env_pairs ?ps b = b\<lparr>pm_env := pm_env b ++ ?p\<rparr>" for b
    using env_pair [of "''CLAUDE_CODE_USE_POWERSHELL_TOOL''" "''-e''" "''1''" b] by simp
  have e: "even (length ?as)" "even (length ?ts)" by simp_all
  have "apply_claude_env_vars opts b = env_pairs ?ps (env_pairs ?ts (env_pairs ?as b))"
    unfolding apply_claude_env_vars_def env_vars_def env_pairs_append [OF e(1)] env_pairs_append [OF e(2)] ..
  also have "\<dots> = b\<lparr>pm_env := ((pm_env b ++ ?a) ++ ?t) ++ ?p\<rparr>"
    unfolding a t p by simp
  also have "((pm_env b ++ ?a) ++ ?t) ++ ?p = pm_env b ++ claude_env opts"
    unfolding claude_env_def by (simp only: map_add_assoc)
  finally show ?thesis .
qed

lemma apply_request_config_Inr:
  assumes "apply_request_config ou od r req b m = Some (Inr b', m')"
  shows "validate_workdir (rq_workdir req) = None"
    and "validate_volumes (ou_quote ou) (validate_workspace (ou_quote ou) (ou_sys ou) (ou_links ou) (pr_volumes r))
           (po_volumes (rq_podman req)) = Some None"
    and "validate_secrets_env (ou_quote ou) (od_check od) = None"
    and "pm_workdir b = [] \<Longrightarrow> pm_memory b = [] \<Longrightarrow> pm_cpus b = [] \<Longrightarrow> pm_cpu_shares b = None \<Longrightarrow>
      b' = b\<lparr>pm_volumes := pm_volumes b @ po_volumes (rq_podman req), pm_workdir := rq_workdir req,
             pm_secrets := pm_secrets b @ map (\<lambda>(v, s). s @ '',type=env,target='' @ v) (od_apply od),
             pm_memory := po_memory (rq_podman req), pm_cpus := po_cpus (rq_podman req),
             pm_cpu_shares := po_cpu_shares (rq_podman req), pm_env := pm_env b ++ claude_env (rq_claude req)\<rparr>"
proof -
  let ?v = "validate_volumes (ou_quote ou) (validate_workspace (ou_quote ou) (ou_sys ou) (ou_links ou) (pr_volumes r))
           (po_volumes (rq_podman req))"
  have w: "validate_workdir (rq_workdir req) = None"
    using assms by (cases "validate_workdir (rq_workdir req)") (simp_all add: apply_request_config_def Let_def)
  have v: "?v = Some None"
    using assms w by (cases ?v rule: option.exhaust; cases "the ?v") (simp_all add: apply_request_config_def Let_def)
  obtain x m1 where x: "(if pr_volume_auto r then ensure_volume_host_dirs (ou_quote ou) (ou_sys ou) (po_volumes (rq_podman req)) m
      else (None, m)) = (x, m1)" by fastforce
  have x0: "x = None"
    using assms w v x by (cases x) (simp_all add: apply_request_config_def Let_def)
  have s: "validate_secrets_env (ou_quote ou) (od_check od) = None"
    using assms w v x x0
    by (cases "validate_secrets_env (ou_quote ou) (od_check od)") (simp_all add: apply_request_config_def Let_def)
  show "validate_workdir (rq_workdir req) = None" "?v = Some None"
    "validate_secrets_env (ou_quote ou) (od_check od) = None" by (rule w v s)+
  assume b: "pm_workdir b = []" "pm_memory b = []" "pm_cpus b = []" "pm_cpu_shares b = None"
  have "b' = apply_claude_env_vars (rq_claude req)
      (let b1 = fold with_volume_raw (po_volumes (rq_podman req)) b;
           b2 = (if rq_workdir req \<noteq> [] then with_workdir (rq_workdir req) b1 else b1);
           b3 = fold (\<lambda>(v, s). with_secret_env s v) (od_apply od) b2;
           b4 = (if po_memory (rq_podman req) \<noteq> [] then with_memory (po_memory (rq_podman req)) b3 else b3);
           b5 = (if po_cpus (rq_podman req) \<noteq> [] then with_cpus (po_cpus (rq_podman req)) b4 else b4)
       in case po_cpu_shares (rq_podman req) of None \<Rightarrow> b5 | Some n \<Rightarrow> with_cpu_shares n b5)"
    using assms w v x x0 s by (simp add: apply_request_config_def Let_def)
  then show "b' = b\<lparr>pm_volumes := pm_volumes b @ po_volumes (rq_podman req), pm_workdir := rq_workdir req,
             pm_secrets := pm_secrets b @ map (\<lambda>(v, s). s @ '',type=env,target='' @ v) (od_apply od),
             pm_memory := po_memory (rq_podman req), pm_cpus := po_cpus (rq_podman req),
             pm_cpu_shares := po_cpu_shares (rq_podman req), pm_env := pm_env b ++ claude_env (rq_claude req)\<rparr>"
    unfolding fold_volumes fold_secrets claude_env_vars with_workdir_def with_memory_def with_cpus_def with_cpu_shares_def Let_def
    using b by (cases b) (simp split: option.split)
qed

lemma base_container_fields:
  "base_container ou r m img sid =
     \<lparr>pm_name = container_name_prefix @ sid, pm_image = img,
      pm_env = (if pr_mount_cli r
        then [''HOME'' \<mapsto> ''/home/user'',
              ''PATH'' \<mapsto> claude_cli_mount_path @ ''/usr/local/bin:/usr/local/sbin:/usr/local/bin:/usr/sbin:/usr/bin:/sbin:/bin'']
        else [''HOME'' \<mapsto> ''/home/user'']),
      pm_volumes = [get_host_session_path r sid @ '':'' @ ''/home/user''],
      pm_mounts = (if pr_mount_cli r then [''type=image,src='' @ claude_cli_image_name @ '',dst='' @ claude_cli_mount_path] else []),
      pm_secrets = [sm_name m @ '',target='' @ ''/home/user/.claude/.credentials.json''],
      pm_tmpfs = [], pm_workdir = [], pm_interactive = False, pm_command = [], pm_memory = [], pm_cpus = [],
      pm_cpu_shares = None, pm_user = show_nat (ou_uid ou) @ '':'' @ show_nat (ou_gid ou), pm_keep_id = True\<rparr>"
  unfolding base_container_def with_image_def with_env_def with_user_def with_keep_id_def with_name_def
    with_mount_image_def with_secret_target_def with_volume_def new_command_def Let_def
  by (cases "pr_mount_cli r") simp_all

lemma apply_defaults_claude [simp]:
  "po_lifecycle (apply_defaults r po) = po_lifecycle po" "po_volumes (apply_defaults r po) = po_volumes po"
  "po_image (apply_defaults r po) = po_image po" "po_cpu_shares (apply_defaults r po) = po_cpu_shares po"
  "po_environment (apply_defaults r po) = po_environment po"
  by (simp_all add: apply_defaults_def Let_def)

text \<open>The stages of a run that gets as far as its command.\<close>

abbreviation effective :: "podman_runner \<Rightarrow> run_request \<Rightarrow> run_request" where
  "effective r req \<equiv> req\<lparr>rq_podman := apply_defaults r (rq_podman req)\<rparr>"

abbreviation request_base :: "outside \<Rightarrow> podman_runner \<Rightarrow> secrets_manager \<Rightarrow> run_request \<Rightarrow> string \<Rightarrow> podman_builder" where
  "request_base ou r m req sid \<equiv> base_container ou r m (resolve_image (pr_images r) (po_image (rq_podman req))) sid"

lemma prepare_run_stages:
  assumes "prepare_run ou od r req w = Some (Inr pd, w')"
  obtains b0 m ps sid p fs b fs' n l st' where
    "sync_if_changed (ou_sha ou) (ou_file ou) (ou_faults ou) (wd_secrets w) (wd_podman w) = (Inr b0, m, ps)"
    and "parse_timeout (ou_quote ou) (po_timeout (apply_defaults r (rq_podman req))) = None"
    and "validate_image (ou_quote ou) (pr_images r) (po_image (rq_podman req)) = None"
    and "create_session (ou_sys ou) (pr_sessions_dir r) (ou_session_bytes ou) (co_session_id (rq_claude req))
           (so_files (wd_store w)) = (Inr (sid, p), fs)"
    and "apply_request_config ou od r (effective r req) (request_base ou r m req sid) fs = Some (Inr b, fs')"
    and "prepare_lifecycle_hooks (ou_quote ou) (ou_sys ou) (pr_sessions_dir r) (ou_handle ou) (po_lifecycle (rq_podman req))
           sid ((wd_store w)\<lparr>so_files := fs'\<rparr>) = (Inr (n, l), st')"
    and "pd = \<lparr>pd_session = sid, pd_command = podman_build (od_env od) (with_command (container_words r req sid n) b),
               pd_init = n, pd_lock = l\<rparr>"
    and "w' = w\<lparr>wd_secrets := m, wd_podman := ps, wd_store := st'\<rparr>"
proof -
  let ?po = "apply_defaults r (rq_podman req)"
  let ?sy = "sync_if_changed (ou_sha ou) (ou_file ou) (ou_faults ou) (wd_secrets w) (wd_podman w)"
  obtain b0 m ps where sync: "?sy = (Inr b0, m, ps)"
    using assms by (cases ?sy; cases "fst ?sy") (auto simp: prepare_run_def)
  have t: "parse_timeout (ou_quote ou) (po_timeout ?po) = None"
    using assms sync by (cases "parse_timeout (ou_quote ou) (po_timeout ?po)") (auto simp: prepare_run_def Let_def)
  have i: "validate_image (ou_quote ou) (pr_images r) (po_image (rq_podman req)) = None"
    using assms sync t
    by (cases "validate_image (ou_quote ou) (pr_images r) (po_image (rq_podman req))") (auto simp: prepare_run_def Let_def)
  let ?cr = "create_session (ou_sys ou) (pr_sessions_dir r) (ou_session_bytes ou) (co_session_id (rq_claude req)) (so_files (wd_store w))"
  obtain sid p fs where c: "?cr = (Inr (sid, p), fs)"
    using assms sync t i by (cases ?cr; cases "fst ?cr") (auto simp: prepare_run_def Let_def)
  let ?a = "apply_request_config ou od r (effective r req) (request_base ou r m req sid) fs"
  obtain b fs' where a: "?a = Some (Inr b, fs')"
    using assms sync t i c by (cases ?a; cases "fst (the ?a)") (auto simp: prepare_run_def Let_def)
  let ?h = "prepare_lifecycle_hooks (ou_quote ou) (ou_sys ou) (pr_sessions_dir r) (ou_handle ou) (po_lifecycle (rq_podman req))
      sid ((wd_store w)\<lparr>so_files := fs'\<rparr>)"
  obtain n l st' where h: "?h = (Inr (n, l), st')"
    using assms sync t i c a by (cases ?h; cases "fst ?h") (auto simp: prepare_run_def Let_def)
  have "pd = \<lparr>pd_session = sid, pd_command = podman_build (od_env od) (with_command (container_words r req sid n) b),
               pd_init = n, pd_lock = l\<rparr>" "w' = w\<lparr>wd_secrets := m, wd_podman := ps, wd_store := st'\<rparr>"
    using assms sync t i c a h by (auto simp: prepare_run_def container_words_def Let_def)
  with sync t i c a h show ?thesis by (rule that)
qed

text \<open>What it takes, and what the command then is.\<close>

lemma prepare_run_Inr:
  assumes "prepare_run ou od r req w = Some (Inr pd, w')"
  shows "pd_command pd = podman_build (od_env od)
      (request_container ou r (sm_name (wd_secrets w')) (od_apply od) req (pd_session pd)
         (container_words r req (pd_session pd) (pd_init pd)))"
    and "validate_workdir (rq_workdir req) = None"
    and "validate_volumes (ou_quote ou) (validate_workspace (ou_quote ou) (ou_sys ou) (ou_links ou) (pr_volumes r))
           (po_volumes (rq_podman req)) = Some None"
    and "validate_secrets_env (ou_quote ou) (od_check od) = None"
    and "validate_image (ou_quote ou) (pr_images r) (po_image (rq_podman req)) = None"
    and "validate_lifecycle_hooks (ou_quote ou) (po_lifecycle (rq_podman req)) = None"
    and "validate_session_id (pd_session pd) = None"
proof -
  from assms obtain b0 m ps sid p fs b fs' n l st' where
    i: "validate_image (ou_quote ou) (pr_images r) (po_image (rq_podman req)) = None"
    and c: "create_session (ou_sys ou) (pr_sessions_dir r) (ou_session_bytes ou) (co_session_id (rq_claude req))
           (so_files (wd_store w)) = (Inr (sid, p), fs)"
    and a: "apply_request_config ou od r (effective r req) (request_base ou r m req sid) fs = Some (Inr b, fs')"
    and h: "prepare_lifecycle_hooks (ou_quote ou) (ou_sys ou) (pr_sessions_dir r) (ou_handle ou) (po_lifecycle (rq_podman req))
           sid ((wd_store w)\<lparr>so_files := fs'\<rparr>) = (Inr (n, l), st')"
    and pd: "pd = \<lparr>pd_session = sid, pd_command = podman_build (od_env od) (with_command (container_words r req sid n) b),
               pd_init = n, pd_lock = l\<rparr>"
    and w': "w' = w\<lparr>wd_secrets := m, wd_podman := ps, wd_store := st'\<rparr>"
    by (rule prepare_run_stages)
  let ?base = "request_base ou r m req sid" and ?req = "effective r req"
  have "b = ?base\<lparr>pm_volumes := pm_volumes ?base @ po_volumes (rq_podman ?req), pm_workdir := rq_workdir ?req,
             pm_secrets := pm_secrets ?base @ map (\<lambda>(v, s). s @ '',type=env,target='' @ v) (od_apply od),
             pm_memory := po_memory (rq_podman ?req), pm_cpus := po_cpus (rq_podman ?req),
             pm_cpu_shares := po_cpu_shares (rq_podman ?req), pm_env := pm_env ?base ++ claude_env (rq_claude ?req)\<rparr>"
    by (rule apply_request_config_Inr(4) [OF a]) (simp_all add: base_container_fields)
  then have "with_command (container_words r req sid n) b =
      request_container ou r (sm_name (wd_secrets w')) (od_apply od) req sid (container_words r req sid n)"
    by (simp add: w' base_container_fields with_command_def request_container_def request_env_def Let_def)
  then show "pd_command pd = podman_build (od_env od)
      (request_container ou r (sm_name (wd_secrets w')) (od_apply od) req (pd_session pd)
         (container_words r req (pd_session pd) (pd_init pd)))"
    by (simp add: pd)
  show "validate_workdir (rq_workdir req) = None" using apply_request_config_Inr(1) [OF a] by simp
  show "validate_volumes (ou_quote ou) (validate_workspace (ou_quote ou) (ou_sys ou) (ou_links ou) (pr_volumes r))
           (po_volumes (rq_podman req)) = Some None" using apply_request_config_Inr(2) [OF a] by simp
  show "validate_secrets_env (ou_quote ou) (od_check od) = None" by (rule apply_request_config_Inr(3) [OF a])
  show "validate_image (ou_quote ou) (pr_images r) (po_image (rq_podman req)) = None" by (rule i)
  show "validate_lifecycle_hooks (ou_quote ou) (po_lifecycle (rq_podman req)) = None"
    using h by (cases "validate_lifecycle_hooks (ou_quote ou) (po_lifecycle (rq_podman req))")
      (auto simp: prepare_lifecycle_hooks_def)
  show "validate_session_id (pd_session pd) = None"
    using c by (auto simp: pd create_session_def Let_def split: option.splits prod.splits sum.splits)
qed

section \<open>What Podman is asked for\<close>

definition names_ok :: "(string \<rightharpoonup> string) \<Rightarrow> bool" where
  "names_ok m \<longleftrightarrow> (\<forall>k \<in> dom m. CHR ''='' \<notin> set k)"

lemma names_ok_simps:
  "names_ok Map.empty" "names_ok m \<Longrightarrow> CHR ''='' \<notin> set k \<Longrightarrow> names_ok (m(k \<mapsto> v))"
  "names_ok m \<Longrightarrow> names_ok n \<Longrightarrow> names_ok (m ++ n)"
  "names_ok m \<Longrightarrow> names_ok n \<Longrightarrow> names_ok (if c then m else n)"
  by (auto simp: names_ok_def)

lemma request_env_names: "names_ok (request_env r opts)"
  unfolding request_env_def claude_env_def by (intro names_ok_simps) simp_all

lemma request_container_names: "env_names_ok (request_container ou r secret es req sid cmd)"
  using request_env_names [of r "rq_claude req"] by (simp add: env_names_ok_def names_ok_def request_container_def Let_def)


definition plain_outside :: outside where
  "plain_outside =
     \<lparr>ou_quote = (\<lambda>s. s), ou_status = (\<lambda>w. []), ou_sys = plain_sys, ou_links = (\<lambda>p. Resolved p), ou_sha = (\<lambda>c. c),
      ou_home = None, ou_file = (\<lambda>p t. Some ''k''), ou_faults = no_faults, ou_exec = (\<lambda>c. (''gone'', Some (ExitError (Signaled 9)))),
      ou_logs = (\<lambda>n. Inr []), ou_uid = 5, ou_gid = 6, ou_session_bytes = [], ou_run_bytes = [], ou_temp = ''t'', ou_stamp = [],
      ou_handle = 1, ou_now = 0, ou_compose_check = (\<lambda>e. None), ou_health = (\<lambda>s. None)\<rparr>"

definition plain_runner :: podman_runner where
  "plain_runner =
     \<lparr>pr_image = ''agent'', pr_sessions_dir = ''/s'', pr_sessions_host_dir = ''/h'',
      pr_volumes = new_validator [''/data''], pr_images = new_image_validator [] ''agent'', pr_mount_cli = False,
      pr_workdir_auto = True, pr_volume_auto = False,
      pr_defaults = \<lparr>rd_memory = ''1g'', rd_cpus = [], rd_timeout = []\<rparr>, pr_compose = None\<rparr>"

definition plain_request :: run_request where
  "plain_request =
     \<lparr>rq_prompt = ''hi'', rq_workdir = [], rq_claude = no_options\<lparr>co_session_id := ''a''\<rparr>,
      rq_podman =
        \<lparr>po_image = [], po_volumes = [''/data/x:/mnt:ro''], po_secrets_env = Map.empty, po_timeout = [], po_memory = [],
         po_cpus = [], po_cpu_shares = None,
         po_lifecycle = \<lparr>hk_on_create = None, hk_post_create = None, hk_post_start = None, hk_timeout = []\<rparr>,
         po_environment = \<lparr>en_type = [], en_path = [], en_service = [], en_build_timeout = []\<rparr>\<rparr>\<rparr>"

definition plain_world :: world where
  "plain_world =
     \<lparr>wd_secrets = \<lparr>sm_file = ''/c'', sm_name = ''creds'', sm_cached = hex_encode ''k''\<rparr>,
      wd_podman = \<lparr>ps_clock = 0, ps_store = [''creds'' \<mapsto> ''k'']\<rparr>,
      wd_store = \<lparr>so_files = [[] \<mapsto> Dir 0], so_inode = 1, so_locks = Map.empty\<rparr>, wd_stacks = Map.empty, wd_log = []\<rparr>"

definition plain_orders :: orders where
  "plain_orders = \<lparr>od_check = [], od_apply = [], od_env = [(''HOME'', ''/home/user'')]\<rparr>"

definition plain_command :: "string list" where
  "plain_command =
     [''podman'', ''run'', ''--rm'', ''--userns=keep-id'', ''--user'', ''5:6'', ''--name'', ''stromboli-agent-a'',
      ''-e'', ''HOME=/home/user'', ''-v'', ''/h/a:/home/user'', ''-v'', ''/data/x:/mnt:ro'',
      ''--secret'', ''creds,target=/home/user/.claude/.credentials.json'', ''--memory'', ''1g'', ''agent'',
      ''-p'', ''hi'', ''--session-id'', ''a'']"

lemma plain_effective: "apply_defaults plain_runner (rq_podman plain_request) = (rq_podman plain_request)\<lparr>po_memory := ''1g''\<rparr>"
  by (simp add: apply_defaults_def plain_runner_def plain_request_def)

lemma plain_container:
  "request_container plain_outside plain_runner ''creds'' [] plain_request ''a'' cmd =
     \<lparr>pm_name = ''stromboli-agent-a'', pm_image = ''agent'', pm_env = [''HOME'' \<mapsto> ''/home/user''],
      pm_volumes = [''/h/a:/home/user'', ''/data/x:/mnt:ro''], pm_mounts = [],
      pm_secrets = [''creds,target=/home/user/.claude/.credentials.json''], pm_tmpfs = [], pm_workdir = [],
      pm_interactive = False, pm_command = cmd, pm_memory = ''1g'', pm_cpus = [], pm_cpu_shares = None,
      pm_user = ''5:6'', pm_keep_id = True\<rparr>"
proof -
  have h: "get_host_session_path plain_runner ''a'' = ''/h/a''" by code_simp
  have u: "show_nat (ou_uid plain_outside) @ '':'' @ show_nat (ou_gid plain_outside) = ''5:6''" by code_simp
  have i: "resolve_image (pr_images plain_runner) [] = ''agent''" by code_simp
  have e: "request_env plain_runner (rq_claude plain_request) = [''HOME'' \<mapsto> ''/home/user'']"
    by (simp add: request_env_def claude_env_def plain_runner_def plain_request_def no_options_def)
  have c: "\<not> pr_mount_cli plain_runner" by (simp add: plain_runner_def)
  show ?thesis
    unfolding request_container_def Let_def plain_effective h u e
    using c i by (simp add: plain_request_def container_name_prefix_def)
qed

lemma plain_hooks:
  "prepare_lifecycle_hooks q sy dir h (po_lifecycle (rq_podman plain_request)) sid st = (Inr (False, None), st)"
proof -
  have "validate_lifecycle_hooks q (po_lifecycle (rq_podman plain_request)) = None"
    unfolding lifecycle_validation_iff by (simp add: plain_request_def hook_ok_def all_hook_args_def)
  then show ?thesis
    by (simp add: prepare_lifecycle_hooks_def has_init_hooks_def plain_request_def)
qed

lemma plain_prepared:
  "\<exists>w'. prepare_run plain_outside plain_orders plain_runner plain_request plain_world =
     Some (Inr \<lparr>pd_session = ''a'', pd_command = plain_command, pd_init = False, pd_lock = None\<rparr>, w')"
proof -
  let ?po = "apply_defaults plain_runner (rq_podman plain_request)"
  let ?req = "effective plain_runner plain_request"
  have s: "sync_if_changed (ou_sha plain_outside) (ou_file plain_outside) (ou_faults plain_outside)
      (wd_secrets plain_world) (wd_podman plain_world) =
      (Inr False, wd_secrets plain_world, (wd_podman plain_world)\<lparr>ps_clock := 1\<rparr>)"
    by (simp add: sync_if_changed_def get_file_hash_def read_file_def plain_outside_def plain_world_def no_faults_def)
  have t: "parse_timeout (ou_quote plain_outside) (po_timeout ?po) = None" by code_simp
  have i: "validate_image (ou_quote plain_outside) (pr_images plain_runner) (po_image ?po) = None" by code_simp
  have c: "fst (create_session (ou_sys plain_outside) (pr_sessions_dir plain_runner) (ou_session_bytes plain_outside)
      (co_session_id (rq_claude plain_request)) (so_files (wd_store plain_world))) = Inr (''a'', ''/s/a'')" by code_simp
  have v: "validate_volumes (ou_quote plain_outside)
      (validate_workspace (ou_quote plain_outside) (ou_sys plain_outside) (ou_links plain_outside) (pr_volumes plain_runner))
      [''/data/x:/mnt:ro''] = Some None" by code_simp
  let ?b = "request_container plain_outside plain_runner ''creds'' [] plain_request ''a''"
  have w: "validate_workdir [] = None" "validate_secrets_env (ou_quote plain_outside) (od_check plain_orders) = None"
    by code_simp+
  have e: "apply_claude_env_vars (rq_claude ?req) b = b" for b
    by (simp add: claude_env_vars claude_env_def plain_request_def no_options_def)
  have base: "request_base plain_outside plain_runner (wd_secrets plain_world) ?req ''a'' =
      (?b [])\<lparr>pm_volumes := [''/h/a:/home/user''], pm_memory := []\<rparr>"
  proof -
    have "get_host_session_path plain_runner ''a'' = ''/h/a''" by code_simp
    moreover have "show_nat (ou_uid plain_outside) @ '':'' @ show_nat (ou_gid plain_outside) = ''5:6''" by code_simp
    moreover have "resolve_image (pr_images plain_runner) [] = ''agent''" by code_simp
    moreover have "\<not> pr_mount_cli plain_runner" by (simp add: plain_runner_def)
    ultimately show ?thesis
      unfolding base_container_fields plain_container
      by (simp add: plain_request_def plain_world_def container_name_prefix_def)
  qed
  have rp: "rq_podman ?req = ?po" by simp
  have r: "rq_workdir ?req = []" "po_volumes ?po = [''/data/x:/mnt:ro'']" "po_memory ?po = ''1g''" "po_cpus ?po = []"
    "po_cpu_shares ?po = None" "od_apply plain_orders = []" "pr_volume_auto plain_runner = False"
    unfolding plain_effective by (simp_all add: plain_request_def plain_orders_def plain_runner_def)
  have a: "apply_request_config plain_outside plain_orders plain_runner ?req
      (request_base plain_outside plain_runner (wd_secrets plain_world) ?req ''a'') fs = Some (Inr (?b []), fs)" for fs
    unfolding base plain_container unfolding apply_request_config_def Let_def rp
    unfolding r v w option.case prod.case e by (simp add: with_volume_raw_def with_memory_def)
  have h: "prepare_lifecycle_hooks q sy dir h (po_lifecycle ?po) sid st = (Inr (False, None), st)" for q sy dir h sid st
    using plain_hooks by (simp add: plain_effective)
  have p: "podman_build (od_env plain_orders) (with_command (container_words plain_runner plain_request ''a'' False) (?b [])) = plain_command"
    by code_simp
  obtain fs where cs: "create_session (ou_sys plain_outside) (pr_sessions_dir plain_runner) (ou_session_bytes plain_outside)
      (co_session_id (rq_claude plain_request)) (so_files (wd_store plain_world)) = (Inr (''a'', ''/s/a''), fs)"
    using c by (metis prod.collapse)
  have cw: "container_words plain_runner plain_request ''a'' False =
      wrap_command_with_workdir (rq_workdir ?req)
        (wrap_command_with_hooks
          (if pr_mount_cli plain_runner
           then ''claude'' # claude_build (claude_request (rq_prompt ?req) ''a'' (rq_claude ?req))
           else claude_build (claude_request (rq_prompt ?req) ''a'' (rq_claude ?req))) (po_lifecycle ?po) False)
        (pr_workdir_auto plain_runner)"
    by (simp add: container_words_def Let_def)
  show ?thesis
    unfolding prepare_run_def s prod.case sum.case Let_def t option.case i
    using cs a h p unfolding cw by simp
qed


section \<open>What the container runs\<close>

lemma quoted_then:
  assumes "sh_words st \<noteq> []" and "sh_mode st = Plain" and "sh_cur st = None"
  shows "sh_run st (sh_quote v @ '' && '') = Some (sh_start\<lparr>sh_cmds := sh_cmds st @ [sh_words st @ [v]]\<rparr>)"
proof -
  let ?q = "st\<lparr>sh_cur := Some v\<rparr>"
  have "sh_run st (sh_quote v) = Some ?q"
    by (rule sh_run_quote) (use assms in simp_all)
  then have "sh_run st (sh_quote v @ '' && '') = sh_run ?q '' && ''"
    by (rule sh_run_then)
  also have "\<dots> = Some (sh_start\<lparr>sh_cmds := sh_cmds ?q @ [sh_words (sh_flush ?q)]\<rparr>)"
    by (rule sh_and) (use assms in \<open>simp_all add: sh_flush_def\<close>)
  finally show ?thesis by (simp add: sh_flush_def)
qed

lemma words_after:
  assumes "cmd \<noteq> []" and "sh_mode st = Plain" and "sh_cur st = None"
  shows "(case sh_run st (str_join '' '' (map escape_shell_arg cmd)) of None \<Rightarrow> None | Some st' \<Rightarrow> sh_finish st') =
    Some (sh_cmds st @ [sh_words st @ cmd])"
proof -
  have "sh_run st (str_join '' '' (map sh_quote cmd)) = Some (st\<lparr>sh_words := sh_words st @ butlast cmd, sh_cur := Some (last cmd)\<rparr>)"
    by (rule sh_run_quotes) (use assms in simp_all)
  with assms show ?thesis
    by (simp add: escape_is_quote sh_finish_def sh_flush_def Let_def)
qed

lemma script_from: "sh_run sh_start a = Some st \<Longrightarrow> sh_script (a @ b) = (case sh_run st b of None \<Rightarrow> None | Some st' \<Rightarrow> sh_finish st')"
  by (simp add: sh_script_def sh_run_then)

lemma mkdir_start: "sh_run sh_start ''mkdir -p '' = Some (sh_start\<lparr>sh_words := [''mkdir'', ''-p'']\<rparr>)"
  by code_simp

lemma mkdir_read:
  "sh_run sh_start (''mkdir -p '' @ sh_quote wd @ '' && '') = Some (sh_start\<lparr>sh_cmds := [[''mkdir'', ''-p'', wd]]\<rparr>)"
  unfolding sh_run_then [OF mkdir_start]
  by (subst quoted_then) (simp_all add: sh_start_def)

lemma cd_read: "sh_run (sh_start\<lparr>sh_cmds := cs\<rparr>) (''cd '' @ sh_quote wd @ '' && '') = Some (sh_start\<lparr>sh_cmds := cs @ [[''cd'', wd]]\<rparr>)"
proof -
  have "sh_run (sh_start\<lparr>sh_cmds := cs\<rparr>) ''cd '' = Some (sh_start\<lparr>sh_words := [''cd''], sh_cmds := cs\<rparr>)"
    by (simp add: sh_step_def sh_add_def sh_flush_def sh_start_def sh_special_def)
  from sh_run_then [OF this] show ?thesis
    by (simp only:) (subst quoted_then, simp_all add: sh_start_def)
qed

lemma exec_read: "sh_run (sh_start\<lparr>sh_cmds := cs\<rparr>) ''exec '' = Some (sh_start\<lparr>sh_words := [''exec''], sh_cmds := cs\<rparr>)"
  by (simp add: sh_step_def sh_add_def sh_flush_def sh_start_def sh_special_def)

text \<open>With a working directory, what the shell runs before the command proper is exactly the creation of
  that directory (and, in a compose service, the change into it), and then the command with its own words:
  whatever the directory's name and the words of the command hold, none of it is read as shell syntax.
\<close>

lemma setup_then_command:
  assumes "wd \<noteq> []" and "cmd \<noteq> []"
  shows "(\<exists>s. wrap_command_with_workdir wd cmd True = [''sh'', ''-c'', s] \<and>
      sh_script s = Some [[''mkdir'', ''-p'', wd], ''exec'' # cmd]) \<and>
    (\<exists>s. wrap_compose_command r wd cmd = [''sh'', ''-c'', s] \<and>
      sh_script s = Some ((if pr_workdir_auto r then [[''mkdir'', ''-p'', wd]] else []) @ [[''cd'', wd], cmd]))"
proof
  have "sh_script ((''mkdir -p '' @ sh_quote wd @ '' && '') @ ''exec '' @ str_join '' '' (map escape_shell_arg cmd)) =
      Some ([[''mkdir'', ''-p'', wd]] @ [[''exec''] @ cmd])"
    unfolding script_from [OF mkdir_read] sh_run_then [OF exec_read]
    by (subst words_after [OF assms(2)]) (simp_all add: sh_start_def)
  then show "\<exists>s. wrap_command_with_workdir wd cmd True = [''sh'', ''-c'', s] \<and>
      sh_script s = Some [[''mkdir'', ''-p'', wd], ''exec'' # cmd]"
    using assms(1) by (simp add: wrap_command_with_workdir_def escape_is_quote)
  let ?main = "str_join '' '' (map escape_shell_arg cmd)"
  show "\<exists>s. wrap_compose_command r wd cmd = [''sh'', ''-c'', s] \<and>
      sh_script s = Some ((if pr_workdir_auto r then [[''mkdir'', ''-p'', wd]] else []) @ [[''cd'', wd], cmd])"
  proof (cases "pr_workdir_auto r")
    case True
    have s: "sh_script ((''mkdir -p '' @ sh_quote wd @ '' && '') @ (''cd '' @ sh_quote wd @ '' && '') @ ?main) =
        Some (([[''mkdir'', ''-p'', wd]] @ [[''cd'', wd]]) @ [[] @ cmd])"
      unfolding script_from [OF mkdir_read] sh_run_then [OF cd_read]
      by (subst words_after [OF assms(2)]) (simp_all add: sh_start_def)
    have "wrap_compose_command r wd cmd =
        [''sh'', ''-c'', (''mkdir -p '' @ sh_quote wd @ '' && '') @ (''cd '' @ sh_quote wd @ '' && '') @ ?main]"
      using True assms(1) by (simp add: wrap_compose_command_def escape_is_quote Let_def)
    with s True show ?thesis by simp
  next
    case False
    have z: "sh_start\<lparr>sh_cmds := []\<rparr> = sh_start" by (simp add: sh_start_def)
    have s: "sh_script ((''cd '' @ sh_quote wd @ '' && '') @ ?main) = Some (([] @ [[''cd'', wd]]) @ [[] @ cmd])"
      unfolding script_from [OF cd_read [of "[]", unfolded z]]
      by (subst words_after [OF assms(2)]) (simp_all add: sh_start_def)
    have "wrap_compose_command r wd cmd = [''sh'', ''-c'', (''cd '' @ sh_quote wd @ '' && '') @ ?main]"
      using False assms(1) by (simp add: wrap_compose_command_def escape_is_quote Let_def)
    with s False show ?thesis by simp
  qed
qed

lemma setup_then_command_witness:
  "\<exists>s. wrap_compose_command plain_runner ''/w; rm -rf /'' [''claude'', ''-p'', ''it'' @ [CHR 0x27] @ ''s''] = [''sh'', ''-c'', s] \<and>
     sh_script s = Some [[''mkdir'', ''-p'', ''/w; rm -rf /''], [''cd'', ''/w; rm -rf /''], [''claude'', ''-p'', ''it'' @ [CHR 0x27] @ ''s'']]"
proof -
  have "''/w; rm -rf /'' \<noteq> []" "[''claude'', ''-p'', ''it'' @ [CHR 0x27] @ ''s''] \<noteq> []" by simp_all
  from conjunct2 [OF setup_then_command [OF this, of plain_runner]]
  show ?thesis by (simp only: plain_runner_def podman_runner.select_convs if_True append_Cons append_Nil)
qed

section \<open>How a run ends\<close>

lemma finish_run_locks:
  "finish_run ou r fb fl pd out err w = (res, w') \<Longrightarrow>
   so_locks (wd_store w') = so_locks (release_lock (pd_lock pd) (wd_store w))"
proof -
  have m: "mark_initialized sy dir tmp stamp sid st = (x, st') \<Longrightarrow> so_locks st' = so_locks st" for sy dir tmp stamp sid st x st'
    by (auto simp: mark_initialized_def Let_def split: option.splits if_splits)
  have l: "so_locks st = so_locks st' \<Longrightarrow> so_locks (release_lock i st) = so_locks (release_lock i st')" for st st' i
    by (cases i) (simp_all add: release_lock_def release_init_lock_def)
  assume "finish_run ou r fb fl pd out err w = (res, w')"
  then show ?thesis
    by (auto simp: finish_run_def Let_def split: option.splits if_splits prod.splits dest!: m intro: l)
qed

lemma try_acquire_locks:
  "try_acquire_init_lock sy dir h sid st = (res, st') \<Longrightarrow>
   (\<forall>i. res \<noteq> Inr (Some i)) \<and> so_locks st' = so_locks st \<or>
   (\<exists>i. res = Inr (Some i) \<and> so_locks st i = None \<and> so_locks st' = (so_locks st)(i \<mapsto> h))"
  unfolding try_acquire_init_lock_def Let_def
  by (auto split: option.splits if_splits node.splits sum.splits prod.splits)

lemma prepare_hooks_locks:
  "prepare_lifecycle_hooks q sy dir h hooks sid st = (res, st') \<Longrightarrow>
   (case res of Inl e \<Rightarrow> so_locks st' = so_locks st | Inr (n, l) \<Rightarrow> so_locks (release_lock l st') = so_locks st)"
proof -
  assume p: "prepare_lifecycle_hooks q sy dir h hooks sid st = (res, st')"
  obtain x st1 where x: "try_acquire_init_lock sy dir h sid st = (x, st1)" by fastforce
  show ?thesis
  proof (cases "validate_lifecycle_hooks q hooks = None \<and> has_init_hooks hooks")
    case False
    with p show ?thesis
      by (auto simp: prepare_lifecycle_hooks_def release_lock_def split: option.splits if_splits)
  next
    case True
    from try_acquire_locks [OF x] show ?thesis
    proof
      assume l: "(\<forall>i. x \<noteq> Inr (Some i)) \<and> so_locks st1 = so_locks st"
      then show ?thesis
        using p x True
        by (auto simp: prepare_lifecycle_hooks_def release_lock_def split: sum.splits option.splits if_splits)
    next
      assume "\<exists>i. x = Inr (Some i) \<and> so_locks st i = None \<and> so_locks st1 = (so_locks st)(i \<mapsto> h)"
      then obtain i where i: "x = Inr (Some i)" "so_locks st i = None" "so_locks st1 = (so_locks st)(i \<mapsto> h)" by blast
      then have "res = Inr (\<not> is_initialized sy dir sid (so_files st1), Some i)" "st' = st1"
        using p x True by (auto simp: prepare_lifecycle_hooks_def)
      then show ?thesis using i by (simp add: release_lock_def release_init_lock_def fun_upd_idem)
    qed
  qed
qed

definition same_locks :: "world \<Rightarrow> world \<Rightarrow> bool" where
  "same_locks w w' \<longleftrightarrow> so_locks (wd_store w') = so_locks (wd_store w)"

definition held_locks :: "prepared \<Rightarrow> world \<Rightarrow> world \<Rightarrow> bool" where
  "held_locks pd w w' \<longleftrightarrow> so_locks (release_lock (pd_lock pd) (wd_store w')) = so_locks (wd_store w)"

lemma prepare_run_locks:
  assumes "prepare_run ou od r req w = Some (res, w')"
  shows "case res of Inl e \<Rightarrow> same_locks w w' | Inr pd \<Rightarrow> held_locks pd w w'"
proof (cases res)
  case (Inl e)
  have "same_locks w w'"
    using assms Inl unfolding prepare_run_def same_locks_def Let_def
    by (auto split: option.splits if_splits sum.splits prod.splits dest: prepare_hooks_locks)
  with Inl show ?thesis by simp
next
  case (Inr pd)
  with assms have p: "prepare_run ou od r req w = Some (Inr pd, w')" by simp
  then obtain sid fs' n l st' where
    h: "prepare_lifecycle_hooks (ou_quote ou) (ou_sys ou) (pr_sessions_dir r) (ou_handle ou) (po_lifecycle (rq_podman req))
           sid ((wd_store w)\<lparr>so_files := fs'\<rparr>) = (Inr (n, l), st')"
    and pd: "pd_lock pd = l" and w': "wd_store w' = st'"
    by (rule prepare_run_stages) auto
  from prepare_hooks_locks [OF h] Inr show ?thesis by (simp add: held_locks_def pd w')
qed

lemma log_commands_store [simp]: "wd_store (log_commands c w) = wd_store w"
  by (simp add: log_commands_def)

lemma prepare_compose_locks:
  assumes "prepare_compose ou r req w = (res, w')"
  shows "case res of Inl e \<Rightarrow> same_locks w w' | Inr (pd, service) \<Rightarrow> held_locks pd w w'"
  using assms unfolding prepare_compose_def same_locks_def held_locks_def Let_def
  by (auto split: option.splits if_splits sum.splits prod.splits dest!: prepare_hooks_locks)

lemma finish_releases:
  assumes "finish_run ou r fb fl pd out err w1 = (res, w')" and "held_locks pd w w1"
  shows "same_locks w w'"
  using finish_run_locks [OF assms(1)] assms(2) by (simp add: same_locks_def held_locks_def)

lemma run_container_locks: "run_container ou od r req w = Some (res, w') \<Longrightarrow> same_locks w w'"
proof -
  assume a: "run_container ou od r req w = Some (res, w')"
  then obtain x w1 where x: "prepare_run ou od r req w = Some (x, w1)"
    by (auto simp: run_container_def split: option.splits sum.splits)
  show ?thesis
  proof (cases x)
    case (Inl e)
    with a x prepare_run_locks [OF x] show ?thesis by (simp add: run_container_def)
  next
    case (Inr pd)
    obtain out err where e: "ou_exec ou (pd_command pd) = (out, err)" by fastforce
    let ?fl = "\<lambda>e. Wrap ''execution failed: '' e ('', output: '' @ out)"
    obtain y w2 where f: "finish_run ou r True ?fl pd out err (log_commands [pd_command pd] w1) = (y, w2)" by fastforce
    have "held_locks pd w (log_commands [pd_command pd] w1)"
      using prepare_run_locks [OF x] Inr by (simp add: held_locks_def)
    from finish_releases [OF f this] a x Inr e f show ?thesis
      by (auto simp: run_container_def same_locks_def)
  qed
qed

lemma run_stream_container_locks: "run_stream_container ou od r strm req w = Some (res, ls, w') \<Longrightarrow> same_locks w w'"
proof -
  assume a: "run_stream_container ou od r strm req w = Some (res, ls, w')"
  then obtain x w1 where x: "prepare_run ou od r req w = Some (x, w1)"
    by (auto simp: run_stream_container_def split: option.splits sum.splits)
  show ?thesis
  proof (cases x)
    case (Inl e)
    with a x prepare_run_locks [OF x] show ?thesis by (simp add: run_stream_container_def)
  next
    case (Inr pd)
    let ?sd = "strm (pd_command pd)" and ?fl = "\<lambda>e. Wrap ''execution failed: '' e []"
    obtain y w2 where f: "finish_run ou r True ?fl pd (collected (streamed_lines ?sd)) (sd_wait ?sd)
        (log_commands [pd_command pd] w1) = (y, w2)" by fastforce
    have h: "held_locks pd w w1"
      using prepare_run_locks [OF x] Inr by simp
    then have "held_locks pd w (log_commands [pd_command pd] w1)"
      by (simp add: held_locks_def)
    from finish_releases [OF f this] a x Inr f h show ?thesis
      by (cases "sd_setup ?sd"; cases "sd_start ?sd") (auto simp: run_stream_container_def same_locks_def held_locks_def Let_def)
  qed
qed

lemma run_with_compose_locks: "run_with_compose ou r req w = (res, w') \<Longrightarrow> same_locks w w'"
proof -
  assume a: "run_with_compose ou r req w = (res, w')"
  obtain x w1 where x: "prepare_compose ou r req w = (x, w1)" by fastforce
  show ?thesis
  proof (cases x)
    case (Inl e)
    with a x prepare_compose_locks [OF x] show ?thesis by (simp add: run_with_compose_def)
  next
    case (Inr ps)
    obtain pd service where ps: "ps = (pd, service)" by fastforce
    obtain out err cmds where e: "compose_exec (ou_quote ou) (ou_exec ou) (pd_session pd) service (pd_command pd) (wd_stacks w1) =
        ((out, err), cmds)" by (metis prod.exhaust)
    have "held_locks pd w (log_commands cmds w1)"
      using prepare_compose_locks [OF x] Inr ps by (simp add: held_locks_def)
    with a x Inr ps e show ?thesis
      by (auto simp: run_with_compose_def intro: finish_releases)
  qed
qed

lemma run_stream_with_compose_locks: "run_stream_with_compose ou r strm req w = (res, ls, w') \<Longrightarrow> same_locks w w'"
proof -
  assume a: "run_stream_with_compose ou r strm req w = (res, ls, w')"
  obtain x w1 where x: "prepare_compose ou r req w = (x, w1)" by fastforce
  show ?thesis
  proof (cases x)
    case (Inl e)
    with a x prepare_compose_locks [OF x] show ?thesis by (simp add: run_stream_with_compose_def)
  next
    case (Inr ps)
    obtain pd service where ps: "ps = (pd, service)" by fastforce
    have h: "held_locks pd w w1"
      using prepare_compose_locks [OF x] Inr ps by simp
    show ?thesis
    proof (cases "exec_guard (ou_quote ou) (pd_session pd) service (pd_command pd) (wd_stacks w1)")
      case Inl': (Inl e)
      with a x Inr ps h show ?thesis
        by (auto simp: run_stream_with_compose_def same_locks_def held_locks_def Let_def)
    next
      case Inr': (Inr c)
      let ?sd = "strm c" and ?fl = "\<lambda>e. Wrap ''execution failed: '' e []"
      obtain y w2 where f: "finish_run ou r False ?fl pd (collected (streamed_lines ?sd)) (sd_wait ?sd)
          (log_commands [c] w1) = (y, w2)" by fastforce
      have "held_locks pd w (log_commands [c] w1)"
        using h by (simp add: held_locks_def)
      from finish_releases [OF f this] a x Inr ps Inr' f h show ?thesis
        by (cases "sd_setup ?sd"; cases "sd_start ?sd") (auto simp: run_stream_with_compose_def same_locks_def held_locks_def Let_def)
    qed
  qed
qed

text \<open>C12: However a run or a streamed run ends, in a container or a compose service, with an error before or
  after the command, a crash or a result, it leaves the init locks exactly as it found them.
\<close>

theorem run_releases_locks:
  assumes "run ou od r req w = Some (res, w1)" and "run_stream ou od r strm req w = Some (res', ls, w2)"
  shows "so_locks (wd_store w1) = so_locks (wd_store w) \<and> so_locks (wd_store w2) = so_locks (wd_store w)"
proof (cases "is_compose_environment req")
  case True
  have "run_with_compose ou r req w = (res, w1)" "run_stream_with_compose ou r strm req w = (res', ls, w2)"
    using True assms by (simp_all add: run_def run_stream_def)
  then show ?thesis
    using run_with_compose_locks run_stream_with_compose_locks by (auto simp: same_locks_def)
next
  case False
  have "run_container ou od r req w = Some (res, w1)" "run_stream_container ou od r strm req w = Some (res', ls, w2)"
    using False assms by (simp_all add: run_def run_stream_def)
  then show ?thesis
    using run_container_locks run_stream_container_locks by (auto simp: same_locks_def)
qed

definition plain_stream :: "string list \<Rightarrow> streamed" where
  "plain_stream c =
     \<lparr>sd_setup = None, sd_start = None, sd_stdout = ''a'', sd_stderr = [], sd_order = [], sd_wait = Some (ExitError (Signaled 9))\<rparr>"

lemma plain_not_compose: "\<not> is_compose_environment plain_request"
  by (simp add: is_compose_environment_def plain_request_def)

lemma plain_run_ends:
  "\<exists>x w1. run plain_outside plain_orders plain_runner plain_request plain_world = Some (x, w1)"
  "\<exists>x ls w2. run_stream plain_outside plain_orders plain_runner plain_stream plain_request plain_world = Some (x, ls, w2)"
  using plain_prepared plain_not_compose
  by (auto simp: run_def run_container_def run_stream_def run_stream_container_def plain_stream_def Let_def split: prod.split)

theorem run_releases_locks_witness:
  "\<exists>x w1. run plain_outside plain_orders plain_runner plain_request plain_world = Some (x, w1) \<and>
     so_locks (wd_store w1) = Map.empty"
proof -
  obtain x w1 y ls w2 where
    r: "run plain_outside plain_orders plain_runner plain_request plain_world = Some (x, w1)"
    and s: "run_stream plain_outside plain_orders plain_runner plain_stream plain_request plain_world = Some (y, ls, w2)"
    using plain_run_ends by blast
  from r conjunct1 [OF run_releases_locks [OF r s]] show ?thesis
    by (auto simp: plain_world_def)
qed

section \<open>Crashes\<close>


definition compose_runner :: podman_runner where
  "compose_runner = set_compose_config default_compose_config plain_runner"

definition compose_world :: world where
  "compose_world =
     plain_world\<lparr>wd_stacks := [''a'' \<mapsto> \<lparr>st_project = ''p'', st_path = [], st_service = ''dev'', st_session = ''a'',
                                          st_started = 0, st_state = StackRunning\<rparr>]\<rparr>"

definition compose_pending :: prepared where
  "compose_pending =
     \<lparr>pd_session = ''a'', pd_command = [''-p'', ''hi'', ''--session-id'', ''a''], pd_init = False, pd_lock = None\<rparr>"

lemma compose_prepared:
  "\<exists>fs. prepare_compose plain_outside compose_runner plain_request compose_world =
     (Inr (compose_pending, ''dev''), compose_world\<lparr>wd_store := (wd_store compose_world)\<lparr>so_files := fs\<rparr>\<rparr>)"
proof -
  let ?po = "apply_defaults compose_runner (rq_podman plain_request)"
  let ?req = "plain_request\<lparr>rq_podman := ?po\<rparr>"
  have c: "fst (create_session (ou_sys plain_outside) (pr_sessions_dir compose_runner) (ou_session_bytes plain_outside)
      (co_session_id (rq_claude ?req)) (so_files (wd_store compose_world))) = Inr (''a'', ''/s/a'')" by code_simp
  then obtain fs where cs: "create_session (ou_sys plain_outside) (pr_sessions_dir compose_runner) (ou_session_bytes plain_outside)
      (co_session_id (rq_claude ?req)) (so_files (wd_store compose_world)) = (Inr (''a'', ''/s/a''), fs)"
    by (metis prod.collapse)
  have m: "wrap_compose_command compose_runner (rq_workdir ?req)
      (wrap_command_with_hooks
        (if pr_mount_cli compose_runner then ''claude'' # claude_build (claude_request (rq_prompt ?req) ''a'' (rq_claude ?req))
         else claude_build (claude_request (rq_prompt ?req) ''a'' (rq_claude ?req))) (po_lifecycle ?po) False) =
      [''-p'', ''hi'', ''--session-id'', ''a'']" by code_simp
  have r: "pr_compose compose_runner = Some default_compose_config"
    by (simp add: compose_runner_def set_compose_config_def)
  obtain st where st: "wd_stacks compose_world ''a'' = Some st" "st_state st = StackRunning" "st_service st = ''dev''"
    by (simp add: compose_world_def)
  have h: "prepare_lifecycle_hooks q sy d k (po_lifecycle ?po) ''a'' s = (Inr (False, None), s)" for q sy d k s
  proof -
    have "po_lifecycle ?po = po_lifecycle (rq_podman plain_request)"
      by (simp add: apply_defaults_def Let_def)
    then show ?thesis by (simp only: plain_hooks)
  qed
  show ?thesis
    unfolding prepare_compose_def r option.case Let_def
    using cs h m st by (auto simp: is_ready_def compose_pending_def)
qed


section \<open>Images that are options\<close>


end
