(* ===== verification/Go_Net.thy ===== *)
theory Go_Net
  imports Go_Text "HOL-Library.Word"
begin

unbundle bit_operations_syntax

text \<open>
  The address functions of Go's \<^verbatim>\<open>net\<close> package that the rate limiter uses: \<^verbatim>\<open>SplitHostPort\<close>, \<^verbatim>\<open>ParseIP\<close>, \<^verbatim>\<open>ParseCIDR\<close>
  and \<^verbatim>\<open>IPNet.Contains\<close>. An address is the list of its 4 or 16 bytes. Of the errors only that there is one is kept.
\<close>

section \<open>Host and port\<close>

definition split_host_port :: "string \<Rightarrow> (string \<times> string) option" where
  "split_host_port s =
     (case cut_last (CHR '':'') s of
        None \<Rightarrow> None
      | Some (before, port) \<Rightarrow>
          if hd s = CHR ''[''
          then
            (case cut_at (CHR '']'') s of
               None \<Rightarrow> None
             | Some (opening, rest) \<Rightarrow>
                 if rest \<noteq> CHR '':'' # port then None
                 else if CHR ''['' \<in> set (tl s) \<or> CHR '']'' \<in> set rest then None
                 else Some (tl opening, port))
          else if CHR '':'' \<in> set before \<or> CHR ''['' \<in> set s \<or> CHR '']'' \<in> set s then None
          else Some (before, port))"

section \<open>Addresses\<close>

type_synonym ip = "8 word list"

definition octet_ok :: "string \<Rightarrow> bool" where
  "octet_ok f \<longleftrightarrow> f \<noteq> [] \<and> list_all is_digit f \<and> (length f > 1 \<longrightarrow> hd f \<noteq> CHR ''0'') \<and> read_nat f \<le> 255"

definition parse_ipv4 :: "string \<Rightarrow> ip option" where
  "parse_ipv4 s =
     (let fs = split_on (CHR ''.'') s
      in if length fs = 4 \<and> list_all octet_ok fs then Some (map (\<lambda>f. of_nat (read_nat f)) fs) else None)"

definition is_hex :: "char \<Rightarrow> bool" where
  "is_hex c \<longleftrightarrow> is_digit c \<or> c \<in> set ''abcdefABCDEF''"

definition hex_val :: "char \<Rightarrow> int" where
  "hex_val c = (if is_digit c then of_char c - 48 else of_char (lower_char c) - 87)"

definition read_hex :: "string \<Rightarrow> int" where
  "read_hex s = foldl (\<lambda>n c. 16 * n + hex_val c) 0 s"

text \<open>The groups of an IPv6 address, with the bytes so far and the place of the omission; at most so many more.\<close>

fun ipv6_groups :: "nat \<Rightarrow> ip \<Rightarrow> nat option \<Rightarrow> string \<Rightarrow> (ip \<times> nat option) option" where
  "ipv6_groups 0 bs e s = (if s = [] then Some (bs, e) else None)"
| "ipv6_groups (Suc k) bs e s =
     (let hs = takeWhile is_hex s; rest = dropWhile is_hex s;
          bs' = bs @ [of_int (read_hex hs div 256), of_int (read_hex hs)]
      in if hs = [] \<or> length hs > 4 then None
         else
           (case rest of
              [] \<Rightarrow> Some (bs', e)
            | c # s' \<Rightarrow>
                if c = CHR ''.''
                then (if (e = None \<and> length bs \<noteq> 12) \<or> length bs + 4 > 16 then None
                      else (case parse_ipv4 s of None \<Rightarrow> None | Some q \<Rightarrow> Some (bs @ q, e)))
                else if c \<noteq> CHR '':'' \<or> s' = [] then None
                else if hd s' = CHR '':''
                then (if e \<noteq> None then None
                      else if tl s' = [] then Some (bs', Some (length bs'))
                      else ipv6_groups k bs' (Some (length bs')) (tl s'))
                else ipv6_groups k bs' e s'))"

definition ipv6_expand :: "ip \<times> nat option \<Rightarrow> ip option" where
  "ipv6_expand r =
     (case r of (bs, e) \<Rightarrow>
        if length bs < 16 then map_option (\<lambda>p. take p bs @ replicate (16 - length bs) 0 @ drop p bs) e
        else if e = None then Some bs else None)"

text \<open>An address with a zone is none for the callers.\<close>

definition parse_ipv6 :: "string \<Rightarrow> ip option" where
  "parse_ipv6 s =
     (if CHR ''%'' \<in> set s then None
      else if has_prefix s ''::''
      then (if s = ''::'' then Some (replicate 16 0)
            else Option.bind (ipv6_groups 8 [] (Some 0) (drop 2 s)) ipv6_expand)
      else Option.bind (ipv6_groups 8 [] None s) ipv6_expand)"

definition parse_addr :: "string \<Rightarrow> ip option" where
  "parse_addr s =
     (case dropWhile (\<lambda>c. c \<notin> set ''.:%'') s of
        c # _ \<Rightarrow> if c = CHR ''.'' then parse_ipv4 s else if c = CHR '':'' then parse_ipv6 s else None
      | [] \<Rightarrow> None)"

definition v4_prefix :: ip where
  "v4_prefix = replicate 10 0 @ [255, 255]"

definition as16 :: "ip \<Rightarrow> ip" where
  "as16 a = (if length a = 4 then v4_prefix @ a else a)"

definition parse_ip :: "string \<Rightarrow> ip option" where
  "parse_ip s = map_option as16 (parse_addr s)"

definition to4 :: "ip \<Rightarrow> ip option" where
  "to4 a = (if length a = 4 then Some a else if length a = 16 \<and> take 12 a = v4_prefix then Some (drop 12 a) else None)"

section \<open>Networks\<close>

record ip_net =
  net_ip :: ip
  net_mask :: ip

text \<open>\<open>n\<close> ones in so many bytes.\<close>

fun cidr_mask :: "nat \<Rightarrow> nat \<Rightarrow> ip" where
  "cidr_mask n 0 = []"
| "cidr_mask n (Suc l) = (if n \<ge> 8 then 255 # cidr_mask (n - 8) l else NOT (drop_bit n 255) # cidr_mask 0 l)"

definition mask_ip :: "ip \<Rightarrow> ip \<Rightarrow> ip" where
  "mask_ip m a =
     (let a' = (if length m = 4 \<and> length a = 16 \<and> take 12 a = v4_prefix then drop 12 a else a)
      in if length a' \<noteq> length m then [] else map2 (AND) a' m)"

definition parse_cidr :: "string \<Rightarrow> ip_net option" where
  "parse_cidr s =
     (case cut_at (CHR ''/'') s of
        None \<Rightarrow> None
      | Some (addr, len) \<Rightarrow>
          (case parse_addr addr of
             None \<Rightarrow> None
           | Some a \<Rightarrow>
               if len = [] \<or> \<not> list_all is_digit len \<or> read_nat len > 8 * length a then None
               else
                 (let m = cidr_mask (read_nat len) (length a)
                  in Some \<lparr>net_ip = mask_ip m (as16 a), net_mask = m\<rparr>)))"

definition network_number :: "ip_net \<Rightarrow> (ip \<times> ip) option" where
  "network_number n =
     (let a = (case to4 (net_ip n) of Some x \<Rightarrow> x | None \<Rightarrow> net_ip n); m = net_mask n
      in if to4 (net_ip n) = None \<and> length a \<noteq> 16 then None
         else if length m = 4 then (if length a = 4 then Some (a, m) else None)
         else if length m = 16 then Some (a, if length a = 4 then drop 12 m else m)
         else None)"

definition net_contains :: "ip_net \<Rightarrow> ip \<Rightarrow> bool" where
  "net_contains n a =
     (let x = (case to4 a of Some y \<Rightarrow> y | None \<Rightarrow> a)
      in case network_number n of
           None \<Rightarrow> x = []
         | Some (nn, m) \<Rightarrow> length x = length nn \<and> map2 (AND) nn m = map2 (AND) x m)"

section \<open>Membership by leading bits\<close>

definition addr_bit :: "ip \<Rightarrow> nat \<Rightarrow> bool" where
  "addr_bit a k = bit (a ! (k div 8)) (7 - k mod 8)"

lemma length_cidr_mask [simp]: "length (cidr_mask n l) = l"
  by (induction n l rule: cidr_mask.induct) simp_all

lemma bit_ones: "bit (255 :: 8 word) k \<longleftrightarrow> k < 8"
proof -
  have "(255 :: 8 word) = mask 8" by (simp add: mask_eq_exp_minus_1)
  then show ?thesis by (simp only: bit_mask_iff) simp
qed

lemma bit_cidr_mask:
  "j < l \<Longrightarrow> i < 8 \<Longrightarrow> bit (cidr_mask n l ! j) i \<longleftrightarrow> 8 * j + (7 - i) < n"
proof (induction n l arbitrary: j rule: cidr_mask.induct)
  case (1 n)
  then show ?case by simp
next
  case (2 n l)
  show ?case
  proof (cases j)
    case 0
    have "bit (NOT (drop_bit n (255 :: 8 word))) i \<longleftrightarrow> \<not> n + i < 8"
      using 2(4) unfolding bit_not_iff bit_drop_bit_eq comp_def bit_ones by simp
    moreover have "bit (255 :: 8 word) i"
      using 2(4) by (simp only: bit_ones)
    moreover have "cidr_mask n (Suc l) ! j = (if n \<ge> 8 then 255 else NOT (drop_bit n 255))"
      unfolding 0 by (simp only: cidr_mask.simps nth_Cons_0 split: if_split) simp
    ultimately have "bit (cidr_mask n (Suc l) ! j) i \<longleftrightarrow> (n \<ge> 8 \<or> \<not> n + i < 8)"
      by (simp only: split: if_split) blast
    then show ?thesis
      unfolding 0 using 2(4) by arith
  next
    case (Suc j')
    with 2 show ?thesis by (cases "n \<ge> 8") auto
  qed
qed

lemma masked_eq:
  fixes m :: ip
  assumes "length a = length m" and "length b = length m"
  shows "map2 (AND) a m = map2 (AND) b m \<longleftrightarrow>
    (\<forall>j < length m. \<forall>i < 8. bit (m ! j) i \<longrightarrow> bit (a ! j) i = bit (b ! j) i)"
proof -
  have "map2 (AND) a m = map2 (AND) b m \<longleftrightarrow> (\<forall>j < length m. a ! j AND m ! j = b ! j AND m ! j)"
    using assms by (simp add: list_eq_iff_nth_eq)
  moreover have "x AND z = y AND z \<longleftrightarrow> (\<forall>i < 8. bit z i \<longrightarrow> bit x i = bit y i)" for x y z :: "8 word"
    by (auto simp: bit_eq_iff bit_and_iff)
  ultimately show ?thesis by simp
qed

lemma masked_bits:
  assumes "length a = l" and "length b = l" and "n \<le> 8 * l"
  shows "map2 (AND) a (cidr_mask n l) = map2 (AND) b (cidr_mask n l) \<longleftrightarrow> (\<forall>k < n. addr_bit a k = addr_bit b k)"
proof -
  have "(\<forall>j < l. \<forall>i < 8. bit (cidr_mask n l ! j) i \<longrightarrow> bit (a ! j) i = bit (b ! j) i) \<longleftrightarrow>
      (\<forall>k < n. addr_bit a k = addr_bit b k)" (is "?A \<longleftrightarrow> ?B")
  proof
    assume A: ?A
    show ?B
    proof (intro allI impI)
      fix k assume "k < n"
      moreover have "8 * (k div 8) + (7 - (7 - k mod 8)) = k" by simp
      moreover have "k div 8 < l" using \<open>k < n\<close> assms(3) by simp
      ultimately show "addr_bit a k = addr_bit b k"
        using A bit_cidr_mask [of "k div 8" l "7 - k mod 8" n] by (simp add: addr_bit_def)
    qed
  next
    assume B: ?B
    show ?A
    proof (intro allI impI)
      fix j i :: nat assume j: "j < l" "i < 8" "bit (cidr_mask n l ! j) i"
      then have "8 * j + (7 - i) < n" by (simp add: bit_cidr_mask)
      with B have "addr_bit a (8 * j + (7 - i)) = addr_bit b (8 * j + (7 - i))" by blast
      moreover have "(8 * j + (7 - i)) div 8 = j" "(8 * j + (7 - i)) mod 8 = 7 - i"
      proof -
        have "7 - i < 8" by simp
        then show "(8 * j + (7 - i)) div 8 = j" "(8 * j + (7 - i)) mod 8 = 7 - i"
          by (simp_all add: div_mult_self4 mod_mult_self4)
      qed
      ultimately show "bit (a ! j) i = bit (b ! j) i" using j(2) by (simp add: addr_bit_def)
    qed
  qed
  with masked_eq [of a "cidr_mask n l" b] assms(1,2) show ?thesis by simp
qed

lemma masked_twice: "map2 (AND) (map2 (AND) a m) m = map2 (AND) a (m :: ip)"
  by (rule nth_equalityI) (simp_all add: and.assoc)

text \<open>The network of an IPv4 address and a length holds exactly the IPv4 addresses with the same leading bits.\<close>

lemma contains_ipv4:
  assumes "parse_cidr s = Some n" and "cut_at (CHR ''/'') s = Some (addr, len)" and "parse_addr addr = Some a" and "length a = 4"
    and "to4 x = Some y" and "length y = 4"
  shows "net_contains n x \<longleftrightarrow> (\<forall>k < read_nat len. addr_bit y k = addr_bit a k)"
proof -
  let ?m = "cidr_mask (read_nat len) 4"
  have len: "read_nat len \<le> 8 * 4" and n: "n = \<lparr>net_ip = mask_ip ?m (as16 a), net_mask = ?m\<rparr>"
    using assms(1-4) by (auto simp: parse_cidr_def Let_def split: if_splits)
  have "mask_ip ?m (as16 a) = map2 (AND) a ?m"
    using assms(4) by (simp add: mask_ip_def as16_def v4_prefix_def Let_def)
  then have "network_number n = Some (map2 (AND) a ?m, ?m)"
    using assms(4) by (simp add: n network_number_def to4_def)
  then have "net_contains n x \<longleftrightarrow> map2 (AND) a ?m = map2 (AND) y ?m"
    using assms(4,5,6) by (simp add: net_contains_def masked_twice)
  also have "\<dots> \<longleftrightarrow> (\<forall>k < read_nat len. addr_bit a k = addr_bit y k)"
    using masked_bits [OF assms(4,6) len] .
  finally show ?thesis by metis
qed

end
