(* ===== verification/Rate_Limit.thy ===== *)
theory Rate_Limit
  imports Go_Net Reaper
begin

text \<open>
  Rate limiting by client address, \<^verbatim>\<open>internal/api/ratelimit.go\<close>. The limiter of \<^verbatim>\<open>golang.org/x/time/rate\<close> is a parameter: a
  full bucket \<open>fresh\<close> at a time, \<open>allow\<close> at a time, and the whole \<open>tokens\<close> left at a time.
\<close>

section \<open>Who the client is\<close>

record http_peer =
  rp_remote :: string
  rp_forwarded :: string
  rp_real_ip :: string

definition remote_addr_ip :: "string \<Rightarrow> string" where
  "remote_addr_ip addr =
     (if addr = [] then [] else (case split_host_port addr of Some (host, _) \<Rightarrow> host | None \<Rightarrow> addr))"

definition trusted_proxy :: "string \<Rightarrow> ip_net option" where
  "trusted_proxy raw0 =
     (let raw = trim_space raw0
      in if raw = [] then None
         else
           (let raw' = (if \<not> str_contains raw ''/''
                        then (case parse_ip raw of
                                Some a \<Rightarrow> (if to4 a \<noteq> None then raw @ ''/32'' else raw @ ''/128'')
                              | None \<Rightarrow> raw)
                        else raw)
            in parse_cidr raw'))"

definition parse_trusted_proxies :: "string list \<Rightarrow> ip_net list" where
  "parse_trusted_proxies cidrs = List.map_filter trusted_proxy cidrs"

definition peer_is_trusted :: "string \<Rightarrow> ip_net list \<Rightarrow> bool" where
  "peer_is_trusted ip nets \<longleftrightarrow>
     (if nets = [] \<or> ip = [] then False
      else (case parse_ip ip of None \<Rightarrow> False | Some a \<Rightarrow> list_ex (\<lambda>n. net_contains n a) nets))"

definition get_client_ip :: "http_peer \<Rightarrow> ip_net list \<Rightarrow> string" where
  "get_client_ip r nets =
     (let peer = remote_addr_ip (rp_remote r)
      in if \<not> peer_is_trusted peer nets then peer
         else if rp_forwarded r \<noteq> []
         then
           (let first = (case cut_at (CHR '','') (rp_forwarded r) of
                           None \<Rightarrow> rp_forwarded r
                         | Some (a, _) \<Rightarrow> trim_space a)
            in (case split_host_port first of Some (host, _) \<Rightarrow> host | None \<Rightarrow> first))
         else if rp_real_ip r \<noteq> [] then rp_real_ip r
         else peer)"

section \<open>The limiters\<close>

record rate_config =
  rc_enabled :: bool
  rc_rate :: int
  rc_period :: gtime
  rc_burst :: int
  rc_interval :: gtime
  rc_proxies :: "string list"

record 'l limiter_entry =
  le_limiter :: 'l
  le_access :: gtime

record 'l bucket_ops =
  bo_fresh :: "gtime \<Rightarrow> 'l"
  bo_allow :: "gtime \<Rightarrow> 'l \<Rightarrow> bool \<times> 'l"
  bo_tokens :: "gtime \<Rightarrow> 'l \<Rightarrow> int"

type_synonym 'l limiters = "string \<rightharpoonup> 'l limiter_entry"

definition get_limiter :: "'l bucket_ops \<Rightarrow> gtime \<Rightarrow> string \<Rightarrow> 'l limiters \<Rightarrow> 'l \<times> 'l limiters" where
  "get_limiter ops now ip m =
     (case m ip of
        None \<Rightarrow> (let l = bo_fresh ops now in (l, m(ip \<mapsto> \<lparr>le_limiter = l, le_access = now\<rparr>)))
      | Some e \<Rightarrow> (le_limiter e, m(ip \<mapsto> e\<lparr>le_access := now\<rparr>)))"

definition limiter_stale :: "gtime \<Rightarrow> gtime \<Rightarrow> 'l limiter_entry \<Rightarrow> bool" where
  "limiter_stale interval now e \<longleftrightarrow> time_sub now (le_access e) > interval"

definition cleanup_stale_entries :: "gtime \<Rightarrow> gtime \<Rightarrow> string list \<Rightarrow> 'l limiters \<Rightarrow> 'l limiters" where
  "cleanup_stale_entries interval now ks m = reap_loop (limiter_stale interval now) ks m"

definition cleanup_interval :: "rate_config \<Rightarrow> gtime" where
  "cleanup_interval cfg = (if rc_interval cfg = 0 then 10 * minute else rc_interval cfg)"

text \<open>The headers: limit, tokens left, and the Unix time of the end of the period.\<close>

record rate_headers =
  rh_limit :: string
  rh_remaining :: string
  rh_reset :: string

definition rate_limit_headers :: "int \<Rightarrow> int \<Rightarrow> gtime \<Rightarrow> rate_headers" where
  "rate_limit_headers limit remaining reset =
     \<lparr>rh_limit = show_int limit, rh_remaining = show_int remaining, rh_reset = show_int (reset div second)\<rparr>"

datatype rate_answer = PassUnlimited | PassLimited rate_headers | TooManyRequests rate_headers

definition rate_limit_middleware ::
    "'l bucket_ops \<Rightarrow> rate_config \<Rightarrow> gtime \<Rightarrow> http_peer \<Rightarrow> 'l limiters \<Rightarrow> rate_answer \<times> 'l limiters" where
  "rate_limit_middleware ops cfg now r m =
     (if \<not> rc_enabled cfg then (PassUnlimited, m)
      else
        (let ip = get_client_ip r (parse_trusted_proxies (rc_proxies cfg));
             (l, m1) = get_limiter ops now ip m;
             (ok, l') = bo_allow ops now l;
             m2 = map_touch ip (\<lambda>e. e\<lparr>le_limiter := l'\<rparr>) m1
         in if \<not> ok then (TooManyRequests (rate_limit_headers (rc_rate cfg) 0 (now + rc_period cfg)), m2)
            else
              (PassLimited (rate_limit_headers (rc_rate cfg) (max 0 (bo_tokens ops now l')) (now + rc_period cfg)), m2)))"

interpretation lreap: reaper "cleanup_stale_entries interval" "limiter_stale interval" for interval
proof
  show "cleanup_stale_entries interval now ks m k = (case m k of None \<Rightarrow> None
          | Some v \<Rightarrow> if k \<in> set ks \<and> limiter_stale interval now v then None else Some v)"
    for now ks and m :: "'l limiters" and k
    by (simp add: cleanup_stale_entries_def reap_loop_apply)
  show "limiter_stale interval t v \<Longrightarrow> t \<le> t' \<Longrightarrow> limiter_stale interval t' v" for t t' and v :: "'l limiter_entry"
    using time_sub_mono [of t t' "le_access v"] by (simp add: limiter_stale_def)
qed

section \<open>Whom the headers can name\<close>

text \<open>An IPv4 network as an operator writes it, and an address that agrees with it in the leading bits.\<close>

definition v4_network :: "string \<Rightarrow> bool" where
  "v4_network c \<longleftrightarrow> trim_space c = c \<and>
     (case cut_at (CHR ''/'') c of
        None \<Rightarrow> False
      | Some (addr, len) \<Rightarrow>
          (case parse_addr addr of None \<Rightarrow> False | Some a \<Rightarrow> length a = 4) \<and>
          len \<noteq> [] \<and> list_all is_digit len \<and> read_nat len \<le> 32)"

definition v4_match :: "string \<Rightarrow> ip \<Rightarrow> bool" where
  "v4_match c y \<longleftrightarrow>
     (case cut_at (CHR ''/'') c of
        None \<Rightarrow> False
      | Some (addr, len) \<Rightarrow>
          (case parse_addr addr of
             None \<Rightarrow> False
           | Some a \<Rightarrow> list_all (\<lambda>k. addr_bit y k = addr_bit a k) [0..<read_nat len]))"

lemma v4_trusted:
  assumes "v4_network c" and "to4 x = Some y" and "length y = 4"
  shows "\<exists>n. trusted_proxy c = Some n \<and> (net_contains n x \<longleftrightarrow> v4_match c y)"
proof -
  obtain addr len a where c: "cut_at (CHR ''/'') c = Some (addr, len)" and a: "parse_addr addr = Some a" "length a = 4"
    and len: "len \<noteq> []" "list_all is_digit len" "read_nat len \<le> 32" and t: "trim_space c = c"
    using assms(1) by (auto simp: v4_network_def split: option.splits)
  obtain n where n: "parse_cidr c = Some n"
    using c a len by (simp add: parse_cidr_def Let_def)
  have "c = addr @ CHR ''/'' # len" using cut_at_Some [OF c] by simp
  then have "c \<noteq> []" "str_contains c ''/''"
    by (auto simp: str_contains_sublist intro: sublist_appendI [of "''/''" addr len, simplified])
  with n t have "trusted_proxy c = Some n"
    by (simp add: trusted_proxy_def Let_def)
  moreover have "net_contains n x \<longleftrightarrow> v4_match c y"
    unfolding contains_ipv4 [OF n c a assms(2,3)] by (auto simp: v4_match_def c a list_all_iff)
  ultimately show ?thesis by blast
qed

lemma parse_ip_v4: "parse_addr s = Some y \<Longrightarrow> length y = 4 \<Longrightarrow> \<exists>x. parse_ip s = Some x \<and> to4 x = Some y"
  by (simp add: parse_ip_def as16_def to4_def v4_prefix_def)

lemma peer_trusted_v4:
  assumes "list_all v4_network cidrs" and "parse_addr ip = Some y" and "length y = 4"
  shows "peer_is_trusted ip (parse_trusted_proxies cidrs) \<longleftrightarrow> list_ex (\<lambda>c. v4_match c y) cidrs"
proof -
  obtain x where x: "parse_ip ip = Some x" "to4 x = Some y"
    using parse_ip_v4 [OF assms(2,3)] by blast
  have ip: "ip \<noteq> []" using assms(2) by (auto simp: parse_addr_def)
  have "list_ex (\<lambda>n. net_contains n x) (parse_trusted_proxies cidrs) \<longleftrightarrow> list_ex (\<lambda>c. v4_match c y) cidrs"
    using assms(1)
  proof (induction cidrs)
    case Nil
    then show ?case by (simp add: parse_trusted_proxies_def map_filter_simps)
  next
    case (Cons c cs)
    then obtain n where "trusted_proxy c = Some n" "net_contains n x \<longleftrightarrow> v4_match c y"
      using v4_trusted [OF _ x(2) assms(3)] by auto
    with Cons show ?case by (simp add: parse_trusted_proxies_def map_filter_simps)
  qed
  with ip x(1) show ?thesis
    by (cases "parse_trusted_proxies cidrs") (simp_all add: peer_is_trusted_def)
qed

text \<open>C25: With IPv4 networks as trusted proxies, a client that is in none of them is identified by its own address,
  whatever headers it sends. Behind a trusted proxy the first entry of \<^verbatim>\<open>X-Forwarded-For\<close> counts: when the proxy
  appends to that header, as proxies commonly do, the identity is the one the client has written itself.
\<close>

theorem client_ip_exact:
  assumes "list_all v4_network cidrs" and "parse_addr (remote_addr_ip (rp_remote r)) = Some y" and "length y = 4"
  shows "(\<not> list_ex (\<lambda>c. v4_match c y) cidrs \<longrightarrow>
      get_client_ip r (parse_trusted_proxies cidrs) = remote_addr_ip (rp_remote r)) \<and>
    (list_ex (\<lambda>c. v4_match c y) cidrs \<and> rp_forwarded r = forged @ '', '' @ real_ip \<and>
        CHR '','' \<notin> set forged \<and> CHR '':'' \<notin> set forged \<and> trim_space forged = forged \<longrightarrow>
      get_client_ip r (parse_trusted_proxies cidrs) = forged)"
proof (intro conjI impI)
  assume "\<not> list_ex (\<lambda>c. v4_match c y) cidrs"
  with peer_trusted_v4 [OF assms] show "get_client_ip r (parse_trusted_proxies cidrs) = remote_addr_ip (rp_remote r)"
    by (simp add: get_client_ip_def)
next
  assume a: "list_ex (\<lambda>c. v4_match c y) cidrs \<and> rp_forwarded r = forged @ '', '' @ real_ip \<and>
    CHR '','' \<notin> set forged \<and> CHR '':'' \<notin> set forged \<and> trim_space forged = forged"
  then have "cut_at (CHR '','') (rp_forwarded r) = Some (forged, CHR '' '' # real_ip)" and "rp_forwarded r \<noteq> []"
    by (simp_all add: cut_at_append)
  moreover have "cut_last (CHR '':'') forged = None"
    using a cut_at_None [of "CHR '':''" "rev forged"] by (simp add: cut_last_def)
  ultimately show "get_client_ip r (parse_trusted_proxies cidrs) = forged"
    using a peer_trusted_v4 [OF assms] by (simp add: get_client_ip_def split_host_port_def)
qed

definition sample_peer :: "string \<Rightarrow> http_peer" where
  "sample_peer addr = \<lparr>rp_remote = addr, rp_forwarded = ''1.2.3.4, 203.0.113.9'', rp_real_ip = []\<rparr>"

theorem client_ip_exact_witness:
  "get_client_ip (sample_peer ''203.0.113.9:4711'') (parse_trusted_proxies [''10.0.0.0/8'']) = ''203.0.113.9'' \<and>
   get_client_ip (sample_peer ''10.9.8.7:80'') (parse_trusted_proxies [''10.0.0.0/8'']) = ''1.2.3.4''"
proof
  have n: "list_all v4_network [''10.0.0.0/8'']" by code_simp
  have p: "remote_addr_ip (rp_remote (sample_peer ''203.0.113.9:4711'')) = ''203.0.113.9''"
    "remote_addr_ip (rp_remote (sample_peer ''10.9.8.7:80'')) = ''10.9.8.7''"
    by code_simp+
  have q: "parse_addr ''203.0.113.9'' = Some [203, 0, 113, 9]" "parse_addr ''10.9.8.7'' = Some [10, 9, 8, 7]"
    by code_simp+
  have m: "\<not> list_ex (\<lambda>c. v4_match c [203, 0, 113, 9]) [''10.0.0.0/8'']" "list_ex (\<lambda>c. v4_match c [10, 9, 8, 7]) [''10.0.0.0/8'']"
    by code_simp+
  show "get_client_ip (sample_peer ''203.0.113.9:4711'') (parse_trusted_proxies [''10.0.0.0/8'']) = ''203.0.113.9''"
    using client_ip_exact [OF n, of "sample_peer ''203.0.113.9:4711''" "[203, 0, 113, 9]"] p q m(1) by simp
  have f: "rp_forwarded (sample_peer ''10.9.8.7:80'') = ''1.2.3.4'' @ '', '' @ ''203.0.113.9''"
    by (simp add: sample_peer_def)
  have t: "trim_space ''1.2.3.4'' = ''1.2.3.4''" by code_simp
  show "get_client_ip (sample_peer ''10.9.8.7:80'') (parse_trusted_proxies [''10.0.0.0/8'']) = ''1.2.3.4''"
    using client_ip_exact [OF n, of "sample_peer ''10.9.8.7:80''" "[10, 9, 8, 7]" "''1.2.3.4''" "''203.0.113.9''"] p q m(2) f t
    by simp
qed

text \<open>A proxy written as an IPv4-mapped IPv6 address is not trusted, but every IPv6 address beginning with 32 zero
  bits is, the loopback address for one: the length \<^verbatim>\<open>/32\<close> is appended to what is read as an IPv6 address.\<close>

lemma mapped_proxy_gap:
  "(let nets = parse_trusted_proxies [''::ffff:10.0.0.1'']
    in \<not> peer_is_trusted ''10.0.0.1'' nets \<and> \<not> peer_is_trusted ''::ffff:10.0.0.1'' nets \<and> peer_is_trusted ''::1'' nets)"
  by code_simp

section \<open>Clients do not disturb each other\<close>

datatype limiter_event = Request gtime http_peer | Sweep gtime "string list"

text \<open>The answers to a sequence of requests, each with the identity of its client, with sweeps in between.\<close>

fun limiter_run ::
    "'l bucket_ops \<Rightarrow> rate_config \<Rightarrow> limiter_event list \<Rightarrow> 'l limiters \<Rightarrow> (string \<times> rate_answer) list \<times> 'l limiters" where
  "limiter_run ops cfg [] m = ([], m)"
| "limiter_run ops cfg (Sweep now ks # evs) m =
     limiter_run ops cfg evs (cleanup_stale_entries (cleanup_interval cfg) now ks m)"
| "limiter_run ops cfg (Request now r # evs) m =
     (let (a, m1) = rate_limit_middleware ops cfg now r m; (rest, m2) = limiter_run ops cfg evs m1
      in ((get_client_ip r (parse_trusted_proxies (rc_proxies cfg)), a) # rest, m2))"

definition event_of :: "rate_config \<Rightarrow> string \<Rightarrow> limiter_event \<Rightarrow> bool" where
  "event_of cfg ip ev =
     (case ev of Request now r \<Rightarrow> get_client_ip r (parse_trusted_proxies (rc_proxies cfg)) = ip | Sweep now ks \<Rightarrow> True)"

lemma middleware_other:
  assumes "get_client_ip r (parse_trusted_proxies (rc_proxies cfg)) \<noteq> ip"
  shows "snd (rate_limit_middleware ops cfg now r m) ip = m ip"
  using assms by (simp add: rate_limit_middleware_def get_limiter_def Let_def map_touch_apply split: option.split prod.split)

lemma middleware_own:
  assumes "m ip = m' ip" and "get_client_ip r (parse_trusted_proxies (rc_proxies cfg)) = ip"
  shows "fst (rate_limit_middleware ops cfg now r m) = fst (rate_limit_middleware ops cfg now r m') \<and>
    snd (rate_limit_middleware ops cfg now r m) ip = snd (rate_limit_middleware ops cfg now r m') ip"
  using assms by (simp add: rate_limit_middleware_def get_limiter_def Let_def map_touch_apply split: option.split prod.split)

lemma limiter_run_local:
  "m ip = m' ip \<Longrightarrow>
   filter (\<lambda>(i, a). i = ip) (fst (limiter_run ops cfg evs m)) = fst (limiter_run ops cfg (filter (event_of cfg ip) evs) m')"
proof (induction evs arbitrary: m m')
  case Nil
  then show ?case by simp
next
  case (Cons ev evs)
  show ?case
  proof (cases ev)
    case (Sweep now ks)
    have "cleanup_stale_entries (cleanup_interval cfg) now ks m ip = cleanup_stale_entries (cleanup_interval cfg) now ks m' ip"
      using Cons.prems by (simp add: lreap.sweep_apply)
    from Cons.IH [where m = "cleanup_stale_entries (cleanup_interval cfg) now ks m"
        and m' = "cleanup_stale_entries (cleanup_interval cfg) now ks m'", OF this] Sweep show ?thesis by (simp add: event_of_def)
  next
    case (Request now r)
    obtain a m1 where a: "rate_limit_middleware ops cfg now r m = (a, m1)" by fastforce
    obtain xs m2 where xs: "limiter_run ops cfg evs m1 = (xs, m2)" by fastforce
    show ?thesis
    proof (cases "get_client_ip r (parse_trusted_proxies (rc_proxies cfg)) = ip")
      case False
      with middleware_other [OF this, of ops now m] a Cons.prems have "m1 ip = m' ip" by simp
      from Cons.IH [where m = m1 and m' = m', OF this] False Request a xs show ?thesis by (simp add: event_of_def)
    next
      case True
      obtain m1' where a': "rate_limit_middleware ops cfg now r m' = (a, m1')" and "m1 ip = m1' ip"
        using middleware_own [where ops = ops and now = now and m = m and m' = m', OF Cons.prems True] a by (cases "rate_limit_middleware ops cfg now r m'") auto
      from Cons.IH [where m = m1 and m' = m1', OF this(2)] True Request a a' xs show ?thesis
        by (simp add: event_of_def case_prod_unfold Let_def)
    qed
  qed
qed

text \<open>C26: What a client is answered, and how much it has left, depends on its own requests only: the answers to it
  are the same when all other clients' requests are taken away, with sweeps at any times and in any order.
\<close>

theorem clients_isolated:
  "filter (\<lambda>(i, a). i = ip) (fst (limiter_run ops cfg evs m)) = fst (limiter_run ops cfg (filter (event_of cfg ip) evs) m)"
  by (rule limiter_run_local) simp

section \<open>The sweep forgets what was used up\<close>

text \<open>A client that stays away for longer than the clean-up interval is forgotten by the next sweep, however long
  its bucket takes to fill: its next request finds a full bucket and is admitted, where without the sweep the
  used-up bucket would have decided.
\<close>

lemma idle_client_fresh_bucket:
  assumes "rc_enabled cfg" and "m ip = Some e" and "time_sub t (le_access e) > cleanup_interval cfg" and "ip \<in> set ks"
    and "get_client_ip r (parse_trusted_proxies (rc_proxies cfg)) = ip" and "fst (bo_allow ops now (bo_fresh ops now))"
  shows "\<exists>h. fst (rate_limit_middleware ops cfg now r (cleanup_stale_entries (cleanup_interval cfg) t ks m)) = PassLimited h \<and>
    ((\<exists>h'. fst (rate_limit_middleware ops cfg now r m) = TooManyRequests h') \<longleftrightarrow> \<not> fst (bo_allow ops now (le_limiter e)))"
proof -
  have "cleanup_stale_entries (cleanup_interval cfg) t ks m ip = None"
    using assms(2,3,4) by (intro lreap.drops_dead) (simp_all add: limiter_stale_def)
  then show ?thesis
    using assms(1,2,5,6)
    by (auto simp: rate_limit_middleware_def get_limiter_def Let_def split: prod.split)
qed

text \<open>A bucket of two requests that fills up by one in an hour: its contents in nanoseconds, and their time.\<close>

definition hourly :: "(int \<times> gtime) bucket_ops" where
  "hourly =
     \<lparr>bo_fresh = (\<lambda>now. (2 * hour, now)),
      bo_allow = (\<lambda>now (c, t). let c' = min (2 * hour) (c + (now - t))
                               in if c' \<ge> hour then (True, (c' - hour, now)) else (False, (c', now))),
      bo_tokens = (\<lambda>now (c, t). min (2 * hour) (c + (now - t)) div hour)\<rparr>"

definition hourly_config :: rate_config where
  "hourly_config =
     \<lparr>rc_enabled = True, rc_rate = 1, rc_period = hour, rc_burst = 2, rc_interval = 0, rc_proxies = []\<rparr>"

lemma idle_client_fresh_bucket_witness:
  "\<exists>h h'. fst (rate_limit_middleware hourly hourly_config (12 * minute) (sample_peer ''a'')
       (cleanup_stale_entries (10 * minute) (11 * minute) [''a''] [''a'' \<mapsto> \<lparr>le_limiter = (0, 0), le_access = 0\<rparr>])) = PassLimited h \<and>
     fst (rate_limit_middleware hourly hourly_config (12 * minute) (sample_peer ''a'')
       [''a'' \<mapsto> \<lparr>le_limiter = (0, 0), le_access = 0\<rparr>]) = TooManyRequests h'"
proof -
  have ip: "get_client_ip (sample_peer ''a'') (parse_trusted_proxies (rc_proxies hourly_config)) = ''a''" by code_simp
  have i: "cleanup_interval hourly_config = 10 * minute" by code_simp
  have t: "time_sub (11 * minute) 0 > 10 * minute" by code_simp
  have f: "fst (bo_allow hourly (12 * minute) (bo_fresh hourly (12 * minute)))" "\<not> fst (bo_allow hourly (12 * minute) (0, 0))"
    by code_simp+
  show ?thesis
    using idle_client_fresh_bucket [of hourly_config "[''a'' \<mapsto> \<lparr>le_limiter = (0, 0), le_access = 0\<rparr>]" "''a''"
        "\<lparr>le_limiter = (0, 0), le_access = 0\<rparr>" "11 * minute" "[''a'']" "sample_peer ''a''" hourly "12 * minute"]
    using ip i t f by (simp add: hourly_config_def)
qed

end
