(* ===== verification/Blacklist.thy ===== *)
theory Blacklist
  imports Reaper "HOL-Library.Word"
begin

text \<open>
  The token blacklists, \<^verbatim>\<open>internal/auth/blacklist.go\<close> and \<^verbatim>\<open>internal/auth/blacklist_bolt.go\<close>: the interface
  \<^verbatim>\<open>Blacklist\<close> as a locale with the laws its clients need, and its two implementations, one on a map
  in memory and one on a bbolt bucket of 8-byte big-endian expiry times.
\<close>

unbundle bit_operations_syntax

section \<open>The interface\<close>

text \<open>The times whose \<^verbatim>\<open>UnixNano\<close> is defined.\<close>

definition unix_nano :: "gtime \<Rightarrow> bool" where
  "unix_nano t \<longleftrightarrow> - (2 ^ 63) \<le> t \<and> t < 2 ^ 63"

datatype deny_op = DAdd string gtime | DReap gtime "string list"

definition deny_step ::
    "(string \<Rightarrow> gtime \<Rightarrow> 's \<Rightarrow> 's result) \<Rightarrow> (gtime \<Rightarrow> string list \<Rightarrow> 's \<Rightarrow> 's) \<Rightarrow> deny_op \<Rightarrow> 's \<Rightarrow> 's" where
  "deny_step add reap op s =
     (case op of
        DAdd j e \<Rightarrow> (case add j e s of Inl _ \<Rightarrow> s | Inr s' \<Rightarrow> s')
      | DReap now ks \<Rightarrow> reap now ks s)"

text \<open>An operation that does not shorten the denial of \<open>j\<close> up to \<open>e\<close>.\<close>

definition harmless :: "string \<Rightarrow> gtime \<Rightarrow> deny_op \<Rightarrow> bool" where
  "harmless j e op = (case op of DAdd j' e' \<Rightarrow> j' \<noteq> j \<or> e' = e | DReap now ks \<Rightarrow> now \<le> e)"

text \<open>
  \<open>add\<close> takes the id and its expiry, \<open>blocked\<close> the current time; \<open>reap\<close> is one cleanup pass. The
  provider states what it means that an id is denied up to a time.
\<close>

locale deny_store =
  fixes add :: "string \<Rightarrow> gtime \<Rightarrow> 's \<Rightarrow> 's result"
    and blocked :: "gtime \<Rightarrow> string \<Rightarrow> 's \<Rightarrow> bool result"
    and reap :: "gtime \<Rightarrow> string list \<Rightarrow> 's \<Rightarrow> 's"
    and denies :: "'s \<Rightarrow> string \<Rightarrow> gtime \<Rightarrow> bool"
  assumes add_denies: "add j e s = Inr s' \<Longrightarrow> unix_nano e \<Longrightarrow> denies s' j e"
    and add_keeps: "denies s j e \<Longrightarrow> add j' e' s = Inr s' \<Longrightarrow> j' \<noteq> j \<Longrightarrow> denies s' j e"
    and denies_blocked: "denies s j e \<Longrightarrow> now < e \<Longrightarrow> blocked now j s = Inr True"
    and reap_keeps: "denies s j e \<Longrightarrow> now \<le> e \<Longrightarrow> denies (reap now ks s) j e"
begin

abbreviation step :: "deny_op \<Rightarrow> 's \<Rightarrow> 's" where
  "step \<equiv> deny_step add reap"

lemma step_keeps:
  assumes "denies s j e" and "harmless j e op" and "unix_nano e"
  shows "denies (step op s) j e"
proof (cases op)
  case (DAdd j' e')
  with assms show ?thesis
    by (cases "j' = j")
       (auto simp: deny_step_def harmless_def intro: add_keeps add_denies split: sum.split)
next
  case (DReap now ks)
  with assms show ?thesis
    by (simp add: deny_step_def harmless_def reap_keeps)
qed

lemma run_keeps:
  "denies s j e \<Longrightarrow> unix_nano e \<Longrightarrow> \<forall>op \<in> set ops. harmless j e op \<Longrightarrow> denies (fold step ops s) j e"
  by (induction ops arbitrary: s) (auto intro: step_keeps)

text \<open>An id that was added stays blocked until its expiry, whatever happens to the store in between.\<close>

lemma blocked_until_expiry:
  assumes "add j e s = Inr s'" and "unix_nano e" and "now < e"
    and "\<forall>op \<in> set ops. harmless j e op"
  shows "blocked now j (fold step ops s') = Inr True"
  by (rule denies_blocked [OF run_keeps [OF add_denies [OF assms(1,2)] assms(2,4)] assms(3)])

end

section \<open>The blacklist in memory\<close>

record memory_blacklist =
  mb_tokens :: "string \<rightharpoonup> gtime"
  mb_ctl :: cleanup_ctl

definition new_memory_blacklist :: memory_blacklist where
  "new_memory_blacklist = \<lparr>mb_tokens = Map.empty, mb_ctl = ctl_init\<rparr>"

definition mem_add :: "string \<Rightarrow> gtime \<Rightarrow> memory_blacklist \<Rightarrow> memory_blacklist result" where
  "mem_add j e b = Inr (b\<lparr>mb_tokens := (mb_tokens b)(j \<mapsto> e)\<rparr>)"

definition mem_blocked :: "gtime \<Rightarrow> string \<Rightarrow> memory_blacklist \<Rightarrow> bool result" where
  "mem_blocked now j b = Inr (mb_tokens b j \<noteq> None)"

definition mem_size :: "memory_blacklist \<Rightarrow> nat result" where
  "mem_size b = Inr (card (dom (mb_tokens b)))"

definition mem_dead :: "gtime \<Rightarrow> gtime \<Rightarrow> bool" where
  "mem_dead now e \<longleftrightarrow> now > e"

definition mem_cleanup :: "gtime \<Rightarrow> string list \<Rightarrow> memory_blacklist \<Rightarrow> memory_blacklist" where
  "mem_cleanup now ks b = b\<lparr>mb_tokens := reap_loop (mem_dead now) ks (mb_tokens b)\<rparr>"

definition mem_start_cleanup :: "memory_blacklist \<Rightarrow> memory_blacklist" where
  "mem_start_cleanup b = b\<lparr>mb_ctl := ctl_start (mb_ctl b)\<rparr>"

definition mem_stop_cleanup :: "memory_blacklist \<Rightarrow> memory_blacklist option" where
  "mem_stop_cleanup b = map_option (\<lambda>c. b\<lparr>mb_ctl := c\<rparr>) (ctl_stop (mb_ctl b))"

definition mem_close :: "memory_blacklist \<Rightarrow> memory_blacklist option" where
  "mem_close b = mem_stop_cleanup b"

interpretation mreap: reaper "\<lambda>now ks. reap_loop (mem_dead now) ks" mem_dead
  by unfold_locales (simp_all add: reap_loop_apply mem_dead_def)

definition mem_denies :: "memory_blacklist \<Rightarrow> string \<Rightarrow> gtime \<Rightarrow> bool" where
  "mem_denies b j e \<longleftrightarrow> (case mb_tokens b j of None \<Rightarrow> False | Some x \<Rightarrow> e \<le> x)"

interpretation mem: deny_store mem_add mem_blocked mem_cleanup mem_denies
proof
  show "mem_denies (mem_cleanup now ks s) j e" if d: "mem_denies s j e" and "now \<le> e" for s j e now ks
  proof -
    from d obtain x where x: "mb_tokens s j = Some x" "e \<le> x"
      by (auto simp: mem_denies_def split: option.splits)
    with \<open>now \<le> e\<close> have "reap_loop (mem_dead now) ks (mb_tokens s) j = Some x"
      by (intro mreap.keeps_live) (simp_all add: mem_dead_def)
    with x show ?thesis
      by (simp add: mem_denies_def mem_cleanup_def)
  qed
qed (auto simp: mem_add_def mem_denies_def mem_blocked_def split: option.splits if_splits)

section \<open>Expiry times as eight bytes\<close>

text \<open>\<^verbatim>\<open>binary.BigEndian.PutUint64\<close> and \<^verbatim>\<open>Uint64\<close>, and the conversions to and from \<^verbatim>\<open>int64\<close>.\<close>

definition put_uint64 :: "64 word \<Rightarrow> 8 word list" where
  "put_uint64 w = map (\<lambda>i. ucast (drop_bit (8 * i) w)) [7, 6, 5, 4, 3, 2, 1, 0]"

definition get_uint64 :: "8 word list \<Rightarrow> 64 word" where
  "get_uint64 bs = foldl (\<lambda>a b. push_bit 8 a OR ucast b) 0 bs"

definition encode_time :: "gtime \<Rightarrow> 8 word list" where
  "encode_time t = put_uint64 (word_of_int t)"

definition decode_time :: "8 word list \<Rightarrow> gtime" where
  "decode_time bs = sint (get_uint64 bs)"

lemma put_uint64_length [simp]: "length (put_uint64 w) = 8"
  by (simp add: put_uint64_def)

lemma next_byte:
  "push_bit 8 (drop_bit (k + 8) w) OR ucast (ucast (drop_bit k w) :: 8 word) = drop_bit k (w :: 64 word)"
proof (rule bit_word_eqI)
  fix n :: nat
  assume n: "n < LENGTH(64)"
  show "bit (push_bit 8 (drop_bit (k + 8) w) OR ucast (ucast (drop_bit k w) :: 8 word)) n =
        bit (drop_bit k w) n"
  proof (cases "n < 8")
    case False
    then have "k + 8 + (n - 8) = k + n" by simp
    with n False show ?thesis by (simp add: bit_simps)
  qed (use n in \<open>simp add: bit_simps\<close>)
qed
lemma get_put_uint64: "get_uint64 (put_uint64 w) = w"
proof -
  have "drop_bit 64 w = 0"
    by (rule bit_word_eqI) (simp add: bit_simps)
  then have "get_uint64 (put_uint64 w) =
      foldl (\<lambda>a b. push_bit 8 a OR ucast b) (drop_bit (56 + 8) w) (put_uint64 w)"
    by (simp add: get_uint64_def)
  also have "\<dots> = w"
    using next_byte [of 56 w] next_byte [of 48 w] next_byte [of 40 w] next_byte [of 32 w]
      next_byte [of 24 w] next_byte [of 16 w] next_byte [of 8 w] next_byte [of 0 w]
    by (simp add: put_uint64_def)
  finally show ?thesis .
qed

lemma encode_time_length [simp]: "length (encode_time t) = 8"
  by (simp add: encode_time_def)

lemma decode_encode_time: "unix_nano t \<Longrightarrow> decode_time (encode_time t) = t"
  by (simp add: unix_nano_def decode_time_def encode_time_def get_put_uint64 signed_of_int signed_take_bit_int_eq_self)

section \<open>The blacklist in a bbolt bucket\<close>

text \<open>
  A bucket maps ids to byte strings. \<open>io\<close> is the error of the database transaction, if it fails; an
  entry that is not eight bytes long is corrupt and counts as denied until a cleanup removes it.
\<close>

record bolt_blacklist =
  bb_data :: "string \<rightharpoonup> 8 word list"
  bb_ctl :: cleanup_ctl

definition bolt_add ::
    "go_error option \<Rightarrow> string \<Rightarrow> gtime \<Rightarrow> bolt_blacklist \<Rightarrow> bolt_blacklist result" where
  "bolt_add io j e b =
     (if j = [] then Inl (Msg ''auth: jti is empty'')
      else
        (case io of
           Some er \<Rightarrow> Inl er
         | None \<Rightarrow> Inr (b\<lparr>bb_data := (bb_data b)(j \<mapsto> encode_time e)\<rparr>)))"

definition bolt_blocked ::
    "go_error option \<Rightarrow> gtime \<Rightarrow> string \<Rightarrow> bolt_blacklist \<Rightarrow> bool result" where
  "bolt_blocked io now j b =
     (case io of
        Some er \<Rightarrow> Inl er
      | None \<Rightarrow>
          (case bb_data b j of
             None \<Rightarrow> Inr False
           | Some v \<Rightarrow> if length v \<noteq> 8 then Inr True else Inr (now < decode_time v)))"

definition bolt_size :: "go_error option \<Rightarrow> bolt_blacklist \<Rightarrow> nat result" where
  "bolt_size io b = (case io of Some er \<Rightarrow> Inl er | None \<Rightarrow> Inr (card (dom (bb_data b))))"

definition bolt_dead :: "gtime \<Rightarrow> 8 word list \<Rightarrow> bool" where
  "bolt_dead now v \<longleftrightarrow> length v \<noteq> 8 \<or> decode_time v < now"

text \<open>The two phases of a cleanup: collect the dead keys, then delete them in one transaction.\<close>

definition bolt_scan :: "gtime \<Rightarrow> string list \<Rightarrow> bolt_blacklist \<Rightarrow> string list" where
  "bolt_scan now ks b =
     filter (\<lambda>k. case bb_data b k of None \<Rightarrow> False | Some v \<Rightarrow> bolt_dead now v) ks"

definition bolt_delete :: "string list \<Rightarrow> bolt_blacklist \<Rightarrow> bolt_blacklist" where
  "bolt_delete ks b = b\<lparr>bb_data := fold (\<lambda>k m. m(k := None)) ks (bb_data b)\<rparr>"

definition bolt_cleanup ::
    "go_error option \<Rightarrow> go_error option \<Rightarrow> gtime \<Rightarrow> string list \<Rightarrow> bolt_blacklist \<Rightarrow>
     go_error option \<times> bolt_blacklist" where
  "bolt_cleanup io_view io_update now ks b =
     (case io_view of
        Some er \<Rightarrow> (Some (Wrap ''auth: bolt cleanup scan: '' er []), b)
      | None \<Rightarrow>
          (let expired = bolt_scan now ks b
           in if length expired = 0 then (None, b)
              else (case io_update of
                      Some er \<Rightarrow> (Some er, b)
                    | None \<Rightarrow> (None, bolt_delete expired b))))"

text \<open>Opening reaps what expired while the server was down; a failed reap only logs.\<close>

definition new_bolt_blacklist ::
    "string \<Rightarrow> (string \<rightharpoonup> 8 word list) result \<Rightarrow> go_error option \<Rightarrow> go_error option \<Rightarrow> gtime \<Rightarrow>
     string list \<Rightarrow> bolt_blacklist result" where
  "new_bolt_blacklist path opened io_view io_update now ks =
     (if path = [] then Inl (Msg ''auth: bolt blacklist path is empty'')
      else
        (case opened of
           Inl er \<Rightarrow> Inl er
         | Inr d \<Rightarrow> Inr (snd (bolt_cleanup io_view io_update now ks \<lparr>bb_data = d, bb_ctl = ctl_init\<rparr>))))"

definition bolt_start_cleanup :: "bolt_blacklist \<Rightarrow> bolt_blacklist" where
  "bolt_start_cleanup b = b\<lparr>bb_ctl := ctl_start (bb_ctl b)\<rparr>"

definition bolt_stop_cleanup :: "bolt_blacklist \<Rightarrow> bolt_blacklist option" where
  "bolt_stop_cleanup b = map_option (\<lambda>c. b\<lparr>bb_ctl := c\<rparr>) (ctl_stop (bb_ctl b))"

lemma fold_delete_apply: "fold (\<lambda>k m. m(k := None)) ks m j = (if j \<in> set ks then None else m j)"
  by (induction ks arbitrary: m) auto

lemma bolt_cleanup_apply:
  "bb_data (snd (bolt_cleanup None None now ks b)) j =
     (case bb_data b j of None \<Rightarrow> None | Some v \<Rightarrow> if j \<in> set ks \<and> bolt_dead now v then None else Some v)"
  by (auto simp: bolt_cleanup_def Let_def bolt_delete_def bolt_scan_def fold_delete_apply
        filter_empty_conv split: option.splits)

lemma bolt_cleanup_failed:
  "io_view \<noteq> None \<or> io_update \<noteq> None \<Longrightarrow> snd (bolt_cleanup io_view io_update now ks b) = b"
  by (auto simp: bolt_cleanup_def Let_def split: option.splits)

text \<open>A successful pass meets the contract of a sweep.\<close>

definition bolt_sweep ::
    "gtime \<Rightarrow> string list \<Rightarrow> (string \<rightharpoonup> 8 word list) \<Rightarrow> (string \<rightharpoonup> 8 word list)" where
  "bolt_sweep now ks d = bb_data (snd (bolt_cleanup None None now ks \<lparr>bb_data = d, bb_ctl = ctl_init\<rparr>))"

interpretation breap: reaper bolt_sweep bolt_dead
  by unfold_locales (auto simp: bolt_sweep_def bolt_cleanup_apply bolt_dead_def)

definition bolt_denies :: "bolt_blacklist \<Rightarrow> string \<Rightarrow> gtime \<Rightarrow> bool" where
  "bolt_denies b j e \<longleftrightarrow>
     (case bb_data b j of None \<Rightarrow> False | Some v \<Rightarrow> length v = 8 \<and> e \<le> decode_time v)"

lemma bolt_cleanup_sweep:
  "bb_data (snd (bolt_cleanup io_view io_update now ks b)) =
     (if io_view = None \<and> io_update = None then bolt_sweep now ks (bb_data b) else bb_data b)"
  using bolt_cleanup_failed [of io_view io_update now ks b]
  by (auto simp: bolt_sweep_def bolt_cleanup_apply)

interpretation bolt: deny_store "bolt_add io_add" "bolt_blocked None"
    "\<lambda>now ks b. snd (bolt_cleanup io_view io_update now ks b)" bolt_denies
  for io_add io_view io_update
proof
  show "bolt_denies (snd (bolt_cleanup io_view io_update now ks s)) j e"
    if d: "bolt_denies s j e" and "now \<le> e" for s j e now ks
  proof -
    from d obtain v where v: "bb_data s j = Some v" "length v = 8" "e \<le> decode_time v"
      by (auto simp: bolt_denies_def split: option.splits)
    with \<open>now \<le> e\<close> have "bolt_sweep now ks (bb_data s) j = Some v"
      by (intro breap.keeps_live) (simp_all add: bolt_dead_def)
    with v show ?thesis
      by (simp add: bolt_denies_def bolt_cleanup_sweep)
  qed
qed (auto simp: bolt_add_def bolt_denies_def bolt_blocked_def decode_encode_time
       split: if_splits option.splits)

end
