(* ===== verification/Auth.thy ===== *)
theory Auth
  imports Blacklist Async_Api
begin

text \<open>
  Tokens and authentication: \<^verbatim>\<open>internal/auth/token.go\<close>, \<^verbatim>\<open>internal/auth/jwt.go\<close> and the token endpoints of
  \<^verbatim>\<open>internal/api/auth.go\<close>. The JWT library is a parameter: a signing function and a parser that takes
  the clock and the key function of the caller.
\<close>

section \<open>Claims and the library\<close>

record claims =
  cl_subject :: string
  cl_id :: string
  cl_issued :: "gtime option"
  cl_expires :: "gtime option"
  cl_refresh :: bool

text \<open>
  \<^verbatim>\<open>jwt.ParseWithClaims\<close>: the clock, the key function (from the algorithm a token names to the key),
  the token; the result is an error or the claims and the \<^verbatim>\<open>Valid\<close> flag.
\<close>

record jwt_lib =
  jwt_parse :: "gtime \<Rightarrow> (string \<Rightarrow> string result) \<Rightarrow> string \<Rightarrow> (claims \<times> bool) result"
  jwt_sign :: "string \<Rightarrow> string \<Rightarrow> claims \<Rightarrow> string result"

text \<open>What the library documents: a token is valid before its expiry only; the claims of a token are
  read off its text; a signed token parses back, until it expires, when the key function answers with
  the signing key for the signing algorithm.\<close>

definition jwt_checks_expiry :: "jwt_lib \<Rightarrow> bool" where
  "jwt_checks_expiry lib \<longleftrightarrow>
     (\<forall>now kf tok c e. jwt_parse lib now kf tok = Inr (c, True) \<longrightarrow> cl_expires c = Some e \<longrightarrow> now < e)"

definition jwt_claims_fixed :: "jwt_lib \<Rightarrow> bool" where
  "jwt_claims_fixed lib \<longleftrightarrow>
     (\<forall>now now' kf tok c c' v v'. jwt_parse lib now kf tok = Inr (c, v) \<longrightarrow>
        jwt_parse lib now' kf tok = Inr (c', v') \<longrightarrow> c' = c)"

definition jwt_signs :: "jwt_lib \<Rightarrow> bool" where
  "jwt_signs lib \<longleftrightarrow>
     (\<forall>alg key c tok now kf e. jwt_sign lib alg key c = Inr tok \<longrightarrow> kf alg = Inr key \<longrightarrow>
        cl_expires c = Some e \<longrightarrow> now < e \<longrightarrow> jwt_parse lib now kf tok = Inr (c, True))"

record jwt_config =
  jc_secret :: string
  jc_access_expiry :: gtime
  jc_refresh_expiry :: gtime

definition default_access_expiry :: gtime where
  "default_access_expiry = 24 * hour"

definition default_refresh_expiry :: gtime where
  "default_refresh_expiry = 7 * 24 * hour"

definition err_invalid_token :: go_error where
  "err_invalid_token = Sentinel ''auth.ErrInvalidToken'' ''invalid or expired token''"

definition err_token_expired :: go_error where
  "err_token_expired = Sentinel ''jwt.ErrTokenExpired'' ''token is expired''"

text \<open>\<^verbatim>\<open>jwt.NewNumericDate\<close> truncates to seconds.\<close>

definition numeric_date :: "gtime \<Rightarrow> gtime" where
  "numeric_date t = (t div second) * second"

definition hs256 :: string where
  "hs256 = ''HS256''"

definition access_claims :: "gtime \<Rightarrow> string \<Rightarrow> string \<Rightarrow> jwt_config \<Rightarrow> claims" where
  "access_claims now uuid subject cfg =
     (let expiry = (if jc_access_expiry cfg = 0 then default_access_expiry else jc_access_expiry cfg)
      in \<lparr>cl_subject = subject, cl_id = uuid, cl_issued = Some (numeric_date now),
          cl_expires = Some (numeric_date (now + expiry)), cl_refresh = False\<rparr>)"

definition generate_token ::
    "jwt_lib \<Rightarrow> gtime \<Rightarrow> string \<Rightarrow> string \<Rightarrow> jwt_config \<Rightarrow> string result" where
  "generate_token lib now uuid subject cfg =
     (case jwt_sign lib hs256 (jc_secret cfg) (access_claims now uuid subject cfg) of
        Inl e \<Rightarrow> Inl (Wrap ''failed to sign token: '' e [])
      | Inr tok \<Rightarrow> Inr tok)"

definition refresh_claims :: "gtime \<Rightarrow> string \<Rightarrow> string \<Rightarrow> jwt_config \<Rightarrow> claims" where
  "refresh_claims now uuid subject cfg =
     (let expiry = (if jc_refresh_expiry cfg = 0 then default_refresh_expiry else jc_refresh_expiry cfg)
      in \<lparr>cl_subject = subject, cl_id = uuid, cl_issued = Some (numeric_date now),
          cl_expires = Some (numeric_date (now + expiry)), cl_refresh = True\<rparr>)"

definition generate_refresh_token ::
    "jwt_lib \<Rightarrow> gtime \<Rightarrow> string \<Rightarrow> string \<Rightarrow> jwt_config \<Rightarrow> string result" where
  "generate_refresh_token lib now uuid subject cfg =
     (case jwt_sign lib hs256 (jc_secret cfg) (refresh_claims now uuid subject cfg) of
        Inl e \<Rightarrow> Inl (Wrap ''failed to sign refresh token: '' e [])
      | Inr tok \<Rightarrow> Inr tok)"

definition key_func :: "string \<Rightarrow> string \<Rightarrow> string result" where
  "key_func secret alg =
     (if alg \<noteq> hs256 then Inl (Msg (''unexpected signing method: '' @ alg)) else Inr secret)"

definition validate_token ::
    "(wait_status \<Rightarrow> string) \<Rightarrow> jwt_lib \<Rightarrow> gtime \<Rightarrow> string \<Rightarrow> jwt_config \<Rightarrow> claims result" where
  "validate_token ws lib now tok cfg =
     (case jwt_parse lib now (key_func (jc_secret cfg)) tok of
        Inl e \<Rightarrow>
          if err_is e err_token_expired then Inl (Wrap [] err_invalid_token '': token expired'')
          else Inl (Wrap [] err_invalid_token ('': '' @ err_text ws e))
      | Inr (c, ok) \<Rightarrow>
          if \<not> ok then Inl (Wrap [] err_invalid_token '': token is invalid'')
          else if cl_refresh c
          then Inl (Wrap [] err_invalid_token '': refresh token cannot be used for access'')
          else Inr c)"

definition validate_refresh_token ::
    "(wait_status \<Rightarrow> string) \<Rightarrow> jwt_lib \<Rightarrow> gtime \<Rightarrow> string \<Rightarrow> jwt_config \<Rightarrow> claims result" where
  "validate_refresh_token ws lib now tok cfg =
     (case jwt_parse lib now (key_func (jc_secret cfg)) tok of
        Inl e \<Rightarrow>
          if err_is e err_token_expired then Inl (Wrap [] err_invalid_token '': refresh token expired'')
          else Inl (Wrap [] err_invalid_token ('': '' @ err_text ws e))
      | Inr (c, ok) \<Rightarrow>
          if \<not> ok then Inl (Wrap [] err_invalid_token '': refresh token is invalid'')
          else if \<not> cl_refresh c
          then Inl (Wrap [] err_invalid_token '': access token cannot be used for refresh'')
          else Inr c)"

lemma validate_token_Inr:
  "validate_token ws lib now tok cfg = Inr c \<longleftrightarrow>
     jwt_parse lib now (key_func (jc_secret cfg)) tok = Inr (c, True) \<and> \<not> cl_refresh c"
  by (auto simp: validate_token_def split: sum.splits if_splits)

lemma validate_refresh_token_Inr:
  "validate_refresh_token ws lib now tok cfg = Inr c \<longleftrightarrow>
     jwt_parse lib now (key_func (jc_secret cfg)) tok = Inr (c, True) \<and> cl_refresh c"
  by (auto simp: validate_refresh_token_def split: sum.splits if_splits)

section \<open>The middleware\<close>

record auth_config =
  ac_enabled :: bool
  ac_tokens :: "string list"
  ac_jwt :: jwt_config

datatype decision = Admit "claims option" | Reject nat string

text \<open>\<^verbatim>\<open>strings.SplitN(header, " ", 2)\<close> and the case-insensitive scheme test.\<close>

definition bearer_token :: "string \<Rightarrow> string option" where
  "bearer_token header =
     (case cut_at (CHR '' '') header of
        None \<Rightarrow> None
      | Some (scheme, tok) \<Rightarrow> if to_lower scheme \<noteq> ''bearer'' then None else Some tok)"

text \<open>\<open>deny\<close> is the blacklist lookup at this moment, \<open>None\<close> when no blacklist is configured.\<close>

definition middleware ::
    "(wait_status \<Rightarrow> string) \<Rightarrow> jwt_lib \<Rightarrow> auth_config \<Rightarrow> (string \<Rightarrow> bool result) option \<Rightarrow> gtime \<Rightarrow>
     string \<Rightarrow> decision" where
  "middleware ws lib cfg deny now header =
     (if \<not> ac_enabled cfg then Admit None
      else if header = [] then Reject 401 ''missing authorization header''
      else
        (case bearer_token header of
           None \<Rightarrow> Reject 401 ''invalid authorization header format''
         | Some tok \<Rightarrow>
             if tok \<in> set (ac_tokens cfg) then Admit None
             else if jc_secret (ac_jwt cfg) = [] then Reject 401 ''invalid or expired token''
             else
               (case validate_token ws lib now tok (ac_jwt cfg) of
                  Inl _ \<Rightarrow> Reject 401 ''invalid or expired token''
                | Inr c \<Rightarrow>
                    (case deny of
                       None \<Rightarrow> Admit (Some c)
                     | Some lookup \<Rightarrow>
                         if cl_id c = [] then Admit (Some c)
                         else
                           (case lookup (cl_id c) of
                              Inl _ \<Rightarrow> Reject 503 ''auth backend unavailable''
                            | Inr True \<Rightarrow> Reject 401 ''token revoked''
                            | Inr False \<Rightarrow> Admit (Some c))))))"

fun admitted :: "decision \<Rightarrow> bool" where
  "admitted (Admit c) = True"
| "admitted (Reject n e) = False"

section \<open>The token endpoints\<close>

datatype auth_body =
    AuthError string
  | Tokens string string int
  | ValidToken string int
  | LoggedOut
  | NilDereference

definition expires_in :: "jwt_config \<Rightarrow> int" where
  "expires_in cfg =
     go_quot (if jc_access_expiry cfg = 0 then default_access_expiry else jc_access_expiry cfg) second"

text \<open>Both endpoints that issue tokens end with the same two signatures and the same answer.\<close>

definition issue_tokens ::
    "jwt_lib \<Rightarrow> jwt_config \<Rightarrow> gtime \<Rightarrow> string \<Rightarrow> string \<Rightarrow> string \<Rightarrow> auth_body http" where
  "issue_tokens lib cfg now uuid1 uuid2 subject =
     (case generate_token lib now uuid1 subject cfg of
        Inl _ \<Rightarrow> Http 500 (AuthError ''failed to generate access token'')
      | Inr acc \<Rightarrow>
          (case generate_refresh_token lib now uuid2 subject cfg of
             Inl _ \<Rightarrow> Http 500 (AuthError ''failed to generate refresh token'')
           | Inr ref \<Rightarrow> Http 200 (Tokens acc ref (expires_in cfg))))"

text \<open>\<open>body\<close> is the decoded request body, or the error of binding it.\<close>

definition generate_token_handler ::
    "jwt_lib \<Rightarrow> jwt_config \<Rightarrow> gtime \<Rightarrow> string \<Rightarrow> string \<Rightarrow> (string + string) \<Rightarrow> auth_body http" where
  "generate_token_handler lib cfg now uuid1 uuid2 body =
     (if jc_secret cfg = [] then Http 503 (AuthError ''JWT authentication not configured'')
      else
        (case body of
           Inl e \<Rightarrow> Http 400 (AuthError (''invalid request: '' @ e))
         | Inr client_id \<Rightarrow> issue_tokens lib cfg now uuid1 uuid2 client_id))"

definition refresh_handler ::
    "(wait_status \<Rightarrow> string) \<Rightarrow> jwt_lib \<Rightarrow> jwt_config \<Rightarrow> gtime \<Rightarrow> string \<Rightarrow> string \<Rightarrow> (string + string) \<Rightarrow>
     auth_body http" where
  "refresh_handler ws lib cfg now uuid1 uuid2 body =
     (if jc_secret cfg = [] then Http 503 (AuthError ''JWT authentication not configured'')
      else
        (case body of
           Inl e \<Rightarrow> Http 400 (AuthError (''invalid request: '' @ e))
         | Inr tok \<Rightarrow>
             (case validate_refresh_token ws lib now tok cfg of
                Inl _ \<Rightarrow> Http 401 (AuthError ''invalid or expired refresh token'')
              | Inr c \<Rightarrow> issue_tokens lib cfg now uuid1 uuid2 (cl_subject c))))"

text \<open>A token without an expiry makes the handlers dereference a nil pointer, which the server's
  recovery middleware answers with 500.\<close>

definition validate_handler ::
    "(wait_status \<Rightarrow> string) \<Rightarrow> jwt_lib \<Rightarrow> jwt_config \<Rightarrow> gtime \<Rightarrow> string \<Rightarrow> auth_body http" where
  "validate_handler ws lib cfg now header =
     (if jc_secret cfg = [] then Http 503 (AuthError ''JWT authentication not configured'')
      else if header = [] then Http 401 (AuthError ''missing authorization header'')
      else
        (case bearer_token header of
           None \<Rightarrow> Http 401 (AuthError ''invalid authorization header format'')
         | Some tok \<Rightarrow>
             (case validate_token ws lib now tok cfg of
                Inl _ \<Rightarrow> Http 401 (AuthError ''invalid or expired token'')
              | Inr c \<Rightarrow>
                  (case cl_expires c of
                     None \<Rightarrow> Http 500 NilDereference
                   | Some e \<Rightarrow> Http 200 (ValidToken (cl_subject c) (e div second))))))"

definition logout_handler ::
    "(wait_status \<Rightarrow> string) \<Rightarrow> jwt_lib \<Rightarrow> jwt_config \<Rightarrow> (string \<Rightarrow> gtime \<Rightarrow> 's \<Rightarrow> 's result) \<Rightarrow> 's option \<Rightarrow>
     gtime \<Rightarrow> string \<Rightarrow> auth_body http \<times> 's option" where
  "logout_handler ws lib cfg add st now header =
     (if jc_secret cfg = [] then (Http 503 (AuthError ''JWT authentication not configured''), st)
      else
        (case st of
           None \<Rightarrow> (Http 503 (AuthError ''token blacklist not configured''), st)
         | Some s \<Rightarrow>
             if header = [] then (Http 401 (AuthError ''missing authorization header''), st)
             else
               (case bearer_token header of
                  None \<Rightarrow> (Http 401 (AuthError ''invalid authorization header format''), st)
                | Some tok \<Rightarrow>
                    (case validate_token ws lib now tok cfg of
                       Inl _ \<Rightarrow> (Http 401 (AuthError ''invalid or expired token''), st)
                     | Inr c \<Rightarrow>
                         if cl_id c = [] then (Http 400 (AuthError ''token does not have a JTI claim''), st)
                         else
                           (case cl_expires c of
                              None \<Rightarrow> (Http 500 NilDereference, st)
                            | Some e \<Rightarrow>
                                (case add (cl_id c) e s of
                                   Inl er \<Rightarrow>
                                     (Http 503 (AuthError (''failed to invalidate token: '' @ err_text ws er)), st)
                                 | Inr s' \<Rightarrow> (Http 200 LoggedOut, Some s')))))))"

lemma logout_accepted:
  assumes "logout_handler ws lib cfg add (Some s) now header = (Http 200 b, st')"
    and "bearer_token header = Some tok"
  obtains c e s' where "jwt_parse lib now (key_func (jc_secret cfg)) tok = Inr (c, True)"
    and "\<not> cl_refresh c" and "cl_id c \<noteq> []" and "cl_expires c = Some e"
    and "add (cl_id c) e s = Inr s'" and "st' = Some s'"
  using assms
  by (auto simp: logout_handler_def validate_token_Inr split: if_splits option.splits sum.splits)

text \<open>What may happen to the blacklist up to the time \<open>now\<close> of a later request: other logouts, the same
  token's logout again, and cleanup passes.\<close>

definition op_until :: "gtime \<Rightarrow> string \<Rightarrow> gtime \<Rightarrow> deny_op \<Rightarrow> bool" where
  "op_until now j e op =
     (case op of DAdd j' e' \<Rightarrow> j' \<noteq> j \<or> e' = e | DReap t ks \<Rightarrow> t \<le> now)"

context deny_store
begin

lemma logged_out_rejected:
  assumes lib: "jwt_checks_expiry lib" "jwt_claims_fixed lib"
    and logout: "logout_handler ws lib (ac_jwt cfg) add (Some s) t0 header = (Http 200 b, Some s')"
    and tok: "bearer_token header = Some tok" "bearer_token header' = Some tok"
    and cfg: "ac_enabled cfg" "tok \<notin> set (ac_tokens cfg)"
    and claims: "jwt_parse lib t0 (key_func (jc_secret (ac_jwt cfg))) tok = Inr (c, True)"
      "cl_expires c = Some e" "unix_nano e"
    and ops: "\<forall>op \<in> set ops. op_until now (cl_id c) e op"
  shows "\<not> admitted (middleware ws lib cfg
            (Some (\<lambda>j. blocked now j (fold step ops s'))) now header')"
proof (cases "validate_token ws lib now tok (ac_jwt cfg)")
  case Inl
  then show ?thesis
    using cfg tok by (simp add: middleware_def)
next
  case (Inr c')
  then have p: "jwt_parse lib now (key_func (jc_secret (ac_jwt cfg))) tok = Inr (c', True)"
    by (simp add: validate_token_Inr)
  with claims(1) lib(2) have c': "c' = c"
    unfolding jwt_claims_fixed_def by blast
  with p claims(2) lib(1) have "now < e"
    unfolding jwt_checks_expiry_def by blast
  have "add (cl_id c) e s = Inr s'" "cl_id c \<noteq> []"
    by (rule logout_accepted [OF logout tok(1)], use claims in auto)+
  moreover have "\<forall>op \<in> set ops. harmless (cl_id c) e op"
    using ops \<open>now < e\<close> by (auto simp: op_until_def harmless_def split: deny_op.splits)
  ultimately have "blocked now (cl_id c) (fold step ops s') = Inr True"
    using \<open>now < e\<close> claims(3) by (intro blocked_until_expiry)
  with Inr c' cfg tok \<open>cl_id c \<noteq> []\<close> show ?thesis
    by (simp add: middleware_def)
qed

end

section \<open>A library for the examples\<close>

definition demo_cfg :: jwt_config where
  "demo_cfg = \<lparr>jc_secret = ''k'', jc_access_expiry = 100 * second, jc_refresh_expiry = 1000 * second\<rparr>"

definition demo_access :: claims where
  "demo_access = access_claims 0 ''j1'' ''bob'' demo_cfg"

definition demo_refresh :: claims where
  "demo_refresh = refresh_claims 0 ''j2'' ''bob'' demo_cfg"

definition demo_access2 :: claims where
  "demo_access2 = access_claims (50 * second) ''j3'' ''bob'' demo_cfg"

definition demo_refresh2 :: claims where
  "demo_refresh2 = refresh_claims (50 * second) ''j4'' ''bob'' demo_cfg"

definition demo_check :: "gtime \<Rightarrow> (string \<Rightarrow> string result) \<Rightarrow> claims \<Rightarrow> (claims \<times> bool) result" where
  "demo_check now kf c =
     (case kf hs256 of
        Inl e \<Rightarrow> Inl e
      | Inr key \<Rightarrow>
          if key \<noteq> ''k'' then Inl (Msg ''signature is invalid'')
          else (case cl_expires c of
                  None \<Rightarrow> Inr (c, True)
                | Some e \<Rightarrow> if now < e then Inr (c, True) else Inl err_token_expired))"

definition demo_lib :: jwt_lib where
  "demo_lib =
     \<lparr>jwt_parse = (\<lambda>now kf tok.
        if tok = ''A'' then demo_check now kf demo_access
        else if tok = ''R'' then demo_check now kf demo_refresh
        else if tok = ''B'' then demo_check now kf demo_access2
        else if tok = ''S'' then demo_check now kf demo_refresh2
        else Inl (Msg ''token is malformed'')),
      jwt_sign = (\<lambda>alg key c.
        if alg \<noteq> hs256 \<or> key \<noteq> ''k'' then Inl (Msg ''unsupported'')
        else if c = demo_access then Inr ''A''
        else if c = demo_refresh then Inr ''R''
        else if c = demo_access2 then Inr ''B''
        else if c = demo_refresh2 then Inr ''S''
        else Inl (Msg ''unsupported''))\<rparr>"

lemma demo_check_Inr:
  "demo_check now kf c = Inr (c', v) \<Longrightarrow>
   c' = c \<and> v \<and> (\<forall>e. cl_expires c = Some e \<longrightarrow> now < e)"
  by (auto simp: demo_check_def split: sum.splits option.splits if_splits)

lemma demo_lib_ok: "jwt_checks_expiry demo_lib" "jwt_claims_fixed demo_lib" "jwt_signs demo_lib"
proof -
  show "jwt_checks_expiry demo_lib"
    unfolding jwt_checks_expiry_def demo_lib_def
    by (auto dest!: demo_check_Inr split: if_splits)
  show "jwt_claims_fixed demo_lib"
    unfolding jwt_claims_fixed_def demo_lib_def
    by (auto dest!: demo_check_Inr split: if_splits)
  show "jwt_signs demo_lib"
    unfolding jwt_signs_def demo_lib_def
    by (auto simp: demo_check_def split: if_splits)
qed

lemma bearer_token_Bearer: "bearer_token (''Bearer '' @ tok) = Some tok"
proof -
  have "cut_at (CHR '' '') (''Bearer'' @ CHR '' '' # tok) = Some (''Bearer'', tok)"
    by (rule cut_at_append) simp
  moreover have "to_lower ''Bearer'' = ''bearer''"
    by code_simp
  ultimately show ?thesis
    by (simp add: bearer_token_def)
qed

lemma demo_bearer:
  "bearer_token ''Bearer A'' = Some ''A''" "bearer_token ''BEARER A'' = Some ''A''"
  "bearer_token ''bearer A'' = Some ''A''"
  by code_simp+

lemmas demo_claims = demo_access_def demo_refresh_def demo_access2_def demo_refresh2_def demo_cfg_def
  access_claims_def refresh_claims_def numeric_date_def

lemma demo_logout:
  "logout_handler (\<lambda>_. []) demo_lib demo_cfg mem_add (Some new_memory_blacklist) 0 ''Bearer A'' =
     (Http 200 LoggedOut, Some (new_memory_blacklist\<lparr>mb_tokens := [''j1'' \<mapsto> 100 * second]\<rparr>))"
  by (simp add: logout_handler_def demo_bearer validate_token_def
        demo_lib_def demo_check_def demo_claims key_func_def second_def mem_add_def new_memory_blacklist_def)

text \<open>The validation endpoint does not ask the blacklist: it reports a token as valid after its logout.\<close>

lemma validate_ignores_logout:
  "\<exists>m'. logout_handler (\<lambda>_. []) demo_lib demo_cfg mem_add (Some new_memory_blacklist) 0 ''Bearer A'' = (Http 200 LoggedOut, Some m') \<and>
     \<not> admitted (middleware (\<lambda>_. []) demo_lib \<lparr>ac_enabled = True, ac_tokens = [], ac_jwt = demo_cfg\<rparr>
       (Some (\<lambda>j. mem_blocked second j m')) second ''Bearer A'') \<and>
     validate_handler (\<lambda>_. []) demo_lib demo_cfg second ''Bearer A'' = Http 200 (ValidToken ''bob'' 100)"
  unfolding demo_logout
  by (intro exI conjI, rule refl)
     (simp_all add: validate_handler_def middleware_def mem_blocked_def demo_bearer validate_token_def demo_lib_def demo_check_def
      demo_claims key_func_def second_def)

lemma demo_lib_signs:
  "generate_token demo_lib 0 ''j1'' ''bob'' demo_cfg = Inr ''A''"
  "generate_refresh_token demo_lib 0 ''j2'' ''bob'' demo_cfg = Inr ''R''"
  "generate_token demo_lib (50 * second) ''j3'' ''bob'' demo_cfg = Inr ''B''"
  "generate_refresh_token demo_lib (50 * second) ''j4'' ''bob'' demo_cfg = Inr ''S''"
  by (simp_all add: generate_token_def generate_refresh_token_def demo_lib_def demo_claims second_def)

section \<open>Properties\<close>

lemma middleware_admits:
  "admitted (middleware ws lib cfg deny now header) \<longleftrightarrow>
     \<not> ac_enabled cfg \<or>
     (\<exists>tok. bearer_token header = Some tok \<and>
        (tok \<in> set (ac_tokens cfg) \<or>
         jc_secret (ac_jwt cfg) \<noteq> [] \<and>
         (\<exists>c. jwt_parse lib now (key_func (jc_secret (ac_jwt cfg))) tok = Inr (c, True) \<and>
              \<not> cl_refresh c \<and>
              (\<forall>lookup. deny = Some lookup \<and> cl_id c \<noteq> [] \<longrightarrow> lookup (cl_id c) = Inr False))))"
proof (cases "ac_enabled cfg \<and> header \<noteq> []")
  case True
  show ?thesis
  proof (cases "bearer_token header")
    case None
    with True show ?thesis by (simp add: middleware_def)
  next
    case tok: (Some tok)
    show ?thesis
    proof (cases "validate_token ws lib now tok (ac_jwt cfg)")
      case (Inl e)
      then have "\<nexists>c. jwt_parse lib now (key_func (jc_secret (ac_jwt cfg))) tok = Inr (c, True) \<and> \<not> cl_refresh c"
        using validate_token_Inr by (metis sum.distinct(1))
      with Inl True tok show ?thesis by (auto simp: middleware_def)
    next
      case (Inr c)
      then have "jwt_parse lib now (key_func (jc_secret (ac_jwt cfg))) tok = Inr (c, True)" "\<not> cl_refresh c"
        by (simp_all add: validate_token_Inr)
      with Inr True tok show ?thesis
        by (cases deny) (auto simp: middleware_def split: sum.split bool.split)
    qed
  qed
qed (auto simp: middleware_def bearer_token_def)

text \<open>C16: the middleware lets a request through exactly when authentication is off, or the header is a
  bearer token (scheme in any case) that is either one of the configured static tokens, or a valid,
  unexpired access token (never a refresh token) signed for the configured secret which the blacklist,
  if there is one, answers for without an error and does not deny.\<close>

theorem middleware_admits_iff:
  "admitted (middleware ws lib cfg deny now header) \<longleftrightarrow>
     \<not> ac_enabled cfg \<or>
     (\<exists>tok. bearer_token header = Some tok \<and>
        (tok \<in> set (ac_tokens cfg) \<or>
         jc_secret (ac_jwt cfg) \<noteq> [] \<and>
         (\<exists>c. jwt_parse lib now (key_func (jc_secret (ac_jwt cfg))) tok = Inr (c, True) \<and>
              \<not> cl_refresh c \<and>
              (\<forall>lookup. deny = Some lookup \<and> cl_id c \<noteq> [] \<longrightarrow> lookup (cl_id c) = Inr False))))"
  by (rule middleware_admits)

theorem middleware_admits_iff_witness:
  "admitted (middleware (\<lambda>_. []) demo_lib \<lparr>ac_enabled = True, ac_tokens = [], ac_jwt = demo_cfg\<rparr>
     (Some (\<lambda>j. Inr False)) 0 ''bearer A'')"
  unfolding middleware_admits_iff
  by (simp add: demo_bearer demo_lib_def demo_check_def demo_claims key_func_def hs256_def second_def)

text \<open>A token whose logout was acknowledged is never admitted again, with either blacklist backend:
  at any later time, after any other logouts and cleanup passes up to then, and with any spelling of
  the header, the middleware rejects it. Until its expiry the blacklist denies it; from then on the
  token itself is invalid.\<close>

lemma logged_out_token_never_admitted:
  assumes "jwt_checks_expiry lib" and "jwt_claims_fixed lib"
    and "bearer_token header = Some tok" and "bearer_token header' = Some tok"
    and "ac_enabled cfg" and "tok \<notin> set (ac_tokens cfg)"
    and "jwt_parse lib t0 (key_func (jc_secret (ac_jwt cfg))) tok = Inr (c, True)"
    and "cl_expires c = Some e" and "unix_nano e"
    and "\<forall>op \<in> set ops. op_until now (cl_id c) e op"
  shows "(logout_handler ws lib (ac_jwt cfg) mem_add (Some m) t0 header = (Http 200 b, Some m') \<longrightarrow>
            \<not> admitted (middleware ws lib cfg
                 (Some (\<lambda>j. mem_blocked now j (fold (deny_step mem_add mem_cleanup) ops m'))) now header')) \<and>
         (logout_handler ws lib (ac_jwt cfg) (bolt_add io) (Some d) t0 header = (Http 200 b, Some d') \<longrightarrow>
            \<not> admitted (middleware ws lib cfg
                 (Some (\<lambda>j. bolt_blocked None now j
                    (fold (deny_step (bolt_add io)
                       (\<lambda>t ks s. snd (bolt_cleanup io_view io_update t ks s))) ops d'))) now header'))"
  using mem.logged_out_rejected [OF assms(1,2) _ assms(3,4,5,6,7,8,9,10)]
    bolt.logged_out_rejected [OF assms(1,2) _ assms(3,4,5,6,7,8,9,10)]
  by blast

lemma logged_out_token_never_admitted_witness:
  "\<exists>m'. logout_handler (\<lambda>_. []) demo_lib demo_cfg mem_add (Some new_memory_blacklist) 0 ''Bearer A'' =
          (Http 200 LoggedOut, Some m') \<and>
        \<not> admitted (middleware (\<lambda>_. []) demo_lib \<lparr>ac_enabled = True, ac_tokens = [], ac_jwt = demo_cfg\<rparr>
             (Some (\<lambda>j. mem_blocked (30 * second) j
                (fold (deny_step mem_add mem_cleanup) [DReap (20 * second) [''j1'']] m')))
             (30 * second) ''BEARER A'')"
proof -
  let ?cfg = "\<lparr>ac_enabled = True, ac_tokens = [], ac_jwt = demo_cfg\<rparr>"
  note h = demo_bearer(1,2)
  have p: "jwt_parse demo_lib 0 (key_func (jc_secret (ac_jwt ?cfg))) ''A'' = Inr (demo_access, True)"
    by (simp add: demo_lib_def demo_check_def demo_claims key_func_def second_def)
  have e: "cl_expires demo_access = Some (100 * second)" "unix_nano (100 * second)" "cl_id demo_access = ''j1''"
    by (simp_all add: demo_claims second_def unix_nano_def)
  obtain m' where m': "logout_handler (\<lambda>_. []) demo_lib (ac_jwt ?cfg) mem_add (Some new_memory_blacklist) 0 ''Bearer A'' =
      (Http 200 LoggedOut, Some m')"
    by (simp add: demo_logout)
  have ops: "\<forall>op \<in> set [DReap (20 * second) [''j1'']]. op_until (30 * second) (cl_id demo_access) (100 * second) op"
    by (simp add: op_until_def second_def)
  have "\<not> admitted (middleware (\<lambda>_. []) demo_lib ?cfg
      (Some (\<lambda>j. mem_blocked (30 * second) j (fold (deny_step mem_add mem_cleanup) [DReap (20 * second) [''j1'']] m')))
      (30 * second) ''BEARER A'')"
    using logged_out_token_never_admitted [OF demo_lib_ok(1,2) h _ _ p e(1,2) ops] m' by fastforce
  with m' show ?thesis
    by auto
qed

text \<open>Access and refresh tokens are not interchangeable: while it is unexpired, a generated access token
  passes access validation with its claims and is refused for refreshing, and a generated refresh
  token passes refresh validation and is refused for access.\<close>

lemma access_refresh_separated:
  assumes "jwt_signs lib"
    and "generate_token lib t0 u subject cfg = Inr acc"
    and "generate_refresh_token lib t0 u2 subject cfg = Inr ref"
    and "cl_expires (access_claims t0 u subject cfg) = Some e" and "now < e"
    and "cl_expires (refresh_claims t0 u2 subject cfg) = Some e'" and "now < e'"
  shows "validate_token ws lib now acc cfg = Inr (access_claims t0 u subject cfg) \<and>
         validate_refresh_token ws lib now ref cfg = Inr (refresh_claims t0 u2 subject cfg) \<and>
         isl (validate_refresh_token ws lib now acc cfg) \<and> isl (validate_token ws lib now ref cfg)"
proof -
  have k: "key_func (jc_secret cfg) hs256 = Inr (jc_secret cfg)"
    by (simp add: key_func_def)
  have a: "jwt_parse lib now (key_func (jc_secret cfg)) acc = Inr (access_claims t0 u subject cfg, True)"
    using assms(1,2,4,5) k unfolding jwt_signs_def
    by (auto simp: generate_token_def split: sum.splits)
  have r: "jwt_parse lib now (key_func (jc_secret cfg)) ref = Inr (refresh_claims t0 u2 subject cfg, True)"
    using assms(1,3,6,7) k unfolding jwt_signs_def
    by (auto simp: generate_refresh_token_def split: sum.splits)
  show ?thesis
    by (simp add: validate_token_def validate_refresh_token_def a r access_claims_def refresh_claims_def
          Let_def)
qed

lemma access_refresh_separated_witness:
  "isl (validate_refresh_token (\<lambda>_. []) demo_lib second ''A'' demo_cfg) \<and>
   isl (validate_token (\<lambda>_. []) demo_lib second ''R'' demo_cfg)"
proof -
  have "cl_expires (access_claims 0 ''j1'' ''bob'' demo_cfg) = Some (100 * second)"
    "cl_expires (refresh_claims 0 ''j2'' ''bob'' demo_cfg) = Some (1000 * second)"
    "second < 100 * second" "second < 1000 * second"
    by (simp_all add: demo_claims second_def)
  then show ?thesis
    using access_refresh_separated [OF demo_lib_ok(3) demo_lib_signs(1,2)] by blast
qed

text \<open>A logout does not end the login: whatever the blacklist holds, an unexpired refresh token of the
  session is still exchanged for a new access token, and the middleware admits that token as long as
  its own fresh id has not been logged out; the refresh endpoint never asks the blacklist.\<close>

lemma refresh_survives_logout:
  assumes "jwt_signs lib" and "jc_secret (ac_jwt cfg) \<noteq> []"
    and "jwt_parse lib now (key_func (jc_secret (ac_jwt cfg))) ref = Inr (c, True)" and "cl_refresh c"
    and "generate_token lib now u1 (cl_subject c) (ac_jwt cfg) = Inr acc"
    and "generate_refresh_token lib now u2 (cl_subject c) (ac_jwt cfg) = Inr ref2"
    and "cl_expires (access_claims now u1 (cl_subject c) (ac_jwt cfg)) = Some e" and "t < e"
  shows "refresh_handler ws lib (ac_jwt cfg) now u1 u2 (Inr ref) =
           Http 200 (Tokens acc ref2 (expires_in (ac_jwt cfg))) \<and>
         (lookup u1 = Inr False \<longrightarrow>
            admitted (middleware ws lib cfg (Some lookup) t (''Bearer '' @ acc)))"
proof -
  have k: "key_func (jc_secret (ac_jwt cfg)) hs256 = Inr (jc_secret (ac_jwt cfg))"
    by (simp add: key_func_def)
  have a: "jwt_parse lib t (key_func (jc_secret (ac_jwt cfg))) acc =
      Inr (access_claims now u1 (cl_subject c) (ac_jwt cfg), True)"
    using assms(1,5,7,8) k unfolding jwt_signs_def
    by (auto simp: generate_token_def split: sum.splits)
  have b: "bearer_token (''Bearer '' @ acc) = Some acc"
    by (rule bearer_token_Bearer)
  have v: "validate_token ws lib t acc (ac_jwt cfg) = Inr (access_claims now u1 (cl_subject c) (ac_jwt cfg))"
    by (simp add: validate_token_def a access_claims_def Let_def)
  have "admitted (middleware ws lib cfg (Some lookup) t (''Bearer '' @ acc))" if "lookup u1 = Inr False"
    using that v assms(2) b
    by (simp add: middleware_def access_claims_def Let_def del: append_Cons)
  moreover have "refresh_handler ws lib (ac_jwt cfg) now u1 u2 (Inr ref) =
           Http 200 (Tokens acc ref2 (expires_in (ac_jwt cfg)))"
    using assms(2-6) by (simp add: refresh_handler_def validate_refresh_token_def issue_tokens_def)
  ultimately show ?thesis
    by blast
qed

lemma refresh_survives_logout_witness:
  "\<exists>m'. logout_handler (\<lambda>_. []) demo_lib demo_cfg mem_add (Some new_memory_blacklist) 0 ''Bearer A'' =
          (Http 200 LoggedOut, Some m') \<and>
        refresh_handler (\<lambda>_. []) demo_lib demo_cfg (50 * second) ''j3'' ''j4'' (Inr ''R'') =
          Http 200 (Tokens ''B'' ''S'' 100) \<and>
        admitted (middleware (\<lambda>_. []) demo_lib \<lparr>ac_enabled = True, ac_tokens = [], ac_jwt = demo_cfg\<rparr>
          (Some (\<lambda>j. mem_blocked (60 * second) j m')) (60 * second) (''Bearer '' @ ''B''))"
proof -
  let ?cfg = "\<lparr>ac_enabled = True, ac_tokens = [], ac_jwt = demo_cfg\<rparr>"
  have p: "jwt_parse demo_lib (50 * second) (key_func (jc_secret (ac_jwt ?cfg))) ''R'' = Inr (demo_refresh, True)"
    by (simp add: demo_lib_def demo_check_def demo_claims key_func_def second_def)
  have c: "cl_refresh demo_refresh" "cl_subject demo_refresh = ''bob''" "jc_secret (ac_jwt ?cfg) \<noteq> []"
    "cl_expires (access_claims (50 * second) ''j3'' ''bob'' demo_cfg) = Some (150 * second)"
    "60 * second < 150 * second" "expires_in demo_cfg = 100"
    by (simp_all add: demo_claims second_def expires_in_def go_quot_def)
  let ?m = "new_memory_blacklist\<lparr>mb_tokens := [''j1'' \<mapsto> 100 * second]\<rparr>"
  have "mem_blocked (60 * second) ''j3'' ?m = Inr False"
    by (simp add: mem_blocked_def)
  have "refresh_handler (\<lambda>_. []) demo_lib (ac_jwt ?cfg) (50 * second) ''j3'' ''j4'' (Inr ''R'') =
           Http 200 (Tokens ''B'' ''S'' (expires_in (ac_jwt ?cfg))) \<and>
         (mem_blocked (60 * second) ''j3'' ?m = Inr False \<longrightarrow>
            admitted (middleware (\<lambda>_. []) demo_lib ?cfg (Some (\<lambda>j. mem_blocked (60 * second) j ?m))
              (60 * second) (''Bearer '' @ ''B'')))"
  proof (rule refresh_survives_logout [OF demo_lib_ok(3) c(3) p c(1)])
    show "generate_token demo_lib (50 * second) ''j3'' (cl_subject demo_refresh) (ac_jwt ?cfg) = Inr ''B''"
      "generate_refresh_token demo_lib (50 * second) ''j4'' (cl_subject demo_refresh) (ac_jwt ?cfg) = Inr ''S''"
      using c(2) demo_lib_signs(3,4) by simp_all
    show "cl_expires (access_claims (50 * second) ''j3'' (cl_subject demo_refresh) (ac_jwt ?cfg)) =
        Some (150 * second)"
      using c(2,4) by simp
  qed (rule c(5))
  then show ?thesis
    using \<open>mem_blocked (60 * second) ''j3'' ?m = Inr False\<close> c(6)
    by (auto simp: demo_logout simp del: append_Cons)
qed

end
