(* ===== verification/File_Glob.thy ===== *)
theory File_Glob
  imports Go_Glob Workspace
begin

text \<open>
  Go's \<^verbatim>\<open>filepath.Glob\<close>: the existing paths that match a pattern, directory by directory. The directories are an
  argument: the sorted names in each, or none where it cannot be read.
\<close>

definition has_meta :: "string \<Rightarrow> bool" where
  "has_meta p \<longleftrightarrow> list_ex (\<lambda>c. c \<in> set ''*?['' \<or> c = CHR 0x5C) p"

text \<open>A well-formed pattern; the others are an error of \<^verbatim>\<open>Glob\<close>.\<close>

function glob_ok :: "string \<Rightarrow> bool" where
  "glob_ok pat =
     (if pat = [] then True
      else
        (let (chunk, rest) = scan_chunk False (dropWhile (\<lambda>c. c = CHR ''*'') pat)
         in chunk_elems chunk \<noteq> None \<and> glob_ok rest))"
  by pat_completeness auto
termination
  by (relation "measure length") (auto intro: glob_rest [OF _ sym])

declare glob_ok.simps [simp del]

definition glob_dir :: "(string \<Rightarrow> string list option) \<Rightarrow> string \<Rightarrow> string \<Rightarrow> string list" where
  "glob_dir names dir pat =
     (case names dir of
        None \<Rightarrow> []
      | Some ns \<Rightarrow> map (\<lambda>n. path_join [dir, n]) (filter (glob_match pat) ns))"

lemma mem_glob_dir:
  "p \<in> set (glob_dir names d pat) \<longleftrightarrow> (\<exists>ns n. names d = Some ns \<and> n \<in> set ns \<and> glob_match pat n \<and> p = path_join [d, n])"
  by (cases "names d") (auto simp: glob_dir_def)

lemma cut_last_length: "cut_last c s = Some (a, b) \<Longrightarrow> length a < length s"
  using cut_last_Some by fastforce

function glob_paths :: "(string \<Rightarrow> string list option) \<Rightarrow> (string \<Rightarrow> bool) \<Rightarrow> string \<Rightarrow> string list" where
  "glob_paths names present pat =
     (if \<not> has_meta pat then (if present pat then [pat] else [])
      else
        (case cut_last slash pat of
           None \<Rightarrow> glob_dir names ''.'' pat
         | Some (d, f) \<Rightarrow>
             if \<not> has_meta d then glob_dir names (if d = [] then ''/'' else d) f
             else concat (map (\<lambda>dir. glob_dir names dir f) (glob_paths names present d))))"
  by pat_completeness auto
termination
  by (relation "measure (\<lambda>(n, p, pat). length pat)") (auto dest: cut_last_length)

declare glob_paths.simps [simp del]

lemma lit_no_meta: "lit_text s \<Longrightarrow> \<not> has_meta s"
  by (induction s) (auto simp: has_meta_def lit_char_def)

lemma has_meta_append [simp]: "has_meta (a @ b) \<longleftrightarrow> has_meta a \<or> has_meta b"
  by (simp add: has_meta_def)

lemma cut_last_append: "c \<notin> set b \<Longrightarrow> cut_last c (a @ c # b) = Some (a, b)"
  by (simp add: cut_last_def cut_at_append)

text \<open>A pattern with a star for one directory and literal names around it.\<close>

lemma glob_one_star:
  assumes "lit_text d" and "d \<noteq> []" and "lit_text f" and "slash \<notin> set f"
  shows "p \<in> set (glob_paths names present (d @ ''/*/'' @ f)) \<longleftrightarrow>
    (\<exists>ns n fs. names d = Some ns \<and> n \<in> set ns \<and> slash \<notin> set n \<and>
       names (path_join [d, n]) = Some fs \<and> f \<in> set fs \<and> p = path_join [path_join [d, n], f])"
proof -
  have c1: "cut_last slash (d @ ''/*/'' @ f) = Some (d @ ''/*'', f)"
    using cut_last_append [OF assms(4), of "d @ ''/*''"] by simp
  have c2: "cut_last slash (d @ ''/*'') = Some (d, ''*'')"
    using cut_last_append [of slash "''*''" d] by simp
  have m: "has_meta ''/*''" "has_meta (slash # CHR ''*'' # slash # f)" "\<not> has_meta d"
    using lit_no_meta [OF assms(1)] by (simp_all add: has_meta_def)
  have 2: "glob_paths names present (d @ ''/*'') = glob_dir names d ''*''"
    unfolding glob_paths.simps [of names present "d @ ''/*''"] c2 using m assms(2) by simp
  have 1: "glob_paths names present (d @ ''/*/'' @ f) = concat (map (\<lambda>dir. glob_dir names dir f) (glob_dir names d ''*''))"
    unfolding glob_paths.simps [of names present "d @ ''/*/'' @ f"] c1 option.case prod.case 2 using m by simp
  have c: "p \<in> set (concat (map F xs)) \<longleftrightarrow> (\<exists>x. x \<in> set xs \<and> p \<in> set (F x))" for F :: "string \<Rightarrow> string list" and xs
    by auto
  show ?thesis
    unfolding 1 c mem_glob_dir glob_literal [OF assms(3)] glob_star by blast
qed

end
