(* ===== verification/Go_Number.thy ===== *)
theory Go_Number
  imports Go_Text
begin

text \<open>
  Decimal numbers as Go's \<^verbatim>\<open>strconv\<close> and \<^verbatim>\<open>fmt\<close> packages read them: \<^verbatim>\<open>ParseInt\<close> with base 10 and 64 bits, \<^verbatim>\<open>Atoi\<close>, and
  the verb \<^verbatim>\<open>%d\<close> of \<^verbatim>\<open>Sscanf\<close>. Their errors hold the text quoted, with \<open>q\<close> for \<^verbatim>\<open>strconv.Quote\<close>.
\<close>

text \<open>A sign and the rest; the digits are those up to the first other byte.\<close>

definition split_sign :: "string \<Rightarrow> bool \<times> string" where
  "split_sign s =
     (case s of
        [] \<Rightarrow> (False, [])
      | c # r \<Rightarrow> if c = CHR ''-'' then (True, r) else if c = CHR ''+'' then (False, r) else (False, s))"

definition num_error :: "(string \<Rightarrow> string) \<Rightarrow> string \<Rightarrow> string \<Rightarrow> string \<Rightarrow> go_error" where
  "num_error q f s why = Wrap (''strconv.'' @ f @ '': parsing '' @ q s @ '': '') (Msg why) []"

text \<open>
  The digits are read from the left, so a number that has become too large is out of range whatever follows it.
\<close>

definition parse_int_as :: "string \<Rightarrow> (string \<Rightarrow> string) \<Rightarrow> string \<Rightarrow> int result" where
  "parse_int_as f q s =
     (let (neg, body) = split_sign s; ds = takeWhile is_digit body; n = int (read_nat ds);
          syntax = Inl (num_error q f s ''invalid syntax''); range = Inl (num_error q f s ''value out of range'')
      in if body = [] then syntax
         else if n \<ge> 2 ^ 64 then range
         else if length ds < length body then syntax
         else if (if neg then n > 2 ^ 63 else n \<ge> 2 ^ 63) then range
         else Inr (if neg then - n else n))"

definition parse_int64 :: "(string \<Rightarrow> string) \<Rightarrow> string \<Rightarrow> int result" where
  "parse_int64 = parse_int_as ''ParseInt''"

definition atoi :: "(string \<Rightarrow> string) \<Rightarrow> string \<Rightarrow> int result" where
  "atoi = parse_int_as ''Atoi''"

text \<open>The first number of a text without leading spaces, as \<^verbatim>\<open>%d\<close> reads it into an \<^verbatim>\<open>int\<close>; what follows is ignored.\<close>

definition scan_int :: "string \<Rightarrow> int option" where
  "scan_int s =
     (let (neg, body) = split_sign s; ds = takeWhile is_digit body; n = int (read_nat ds)
      in if ds = [] then None
         else if (if neg then n > 2 ^ 63 else n \<ge> 2 ^ 63) then None
         else Some (if neg then - n else n))"

lemma split_sign_plain: "s \<noteq> [] \<Longrightarrow> is_digit (hd s) \<Longrightarrow> split_sign s = (False, s)"
  by (cases s) (auto simp: split_sign_def is_digit_def)

lemma takeWhile_digits [simp]: "list_all is_digit s \<Longrightarrow> takeWhile is_digit s = s"
  by (simp add: list_all_iff)

lemma show_nat_all_digits [simp]: "list_all is_digit (show_nat n)"
  using show_nat_digits by (simp add: list_all_iff)

lemma hd_show_nat [simp]: "is_digit (hd (show_nat n))"
  using show_nat_digits [of "hd (show_nat n)" n] by simp

lemma parse_int_show:
  assumes "- (2 ^ 63) \<le> i" and "i < 2 ^ 63"
  shows "parse_int_as f q (show_int i) = Inr i"
proof (cases "i < 0")
  case True
  with assms show ?thesis
    by (simp add: parse_int_as_def show_int_def split_sign_def read_show_nat Let_def)
next
  case False
  with assms show ?thesis
    by (simp add: parse_int_as_def show_int_def split_sign_plain read_show_nat Let_def)
qed

lemma parse_int_chars: "parse_int_as f q s = Inr n \<Longrightarrow> c \<in> set s \<Longrightarrow> is_digit c \<or> c = CHR ''-'' \<or> c = CHR ''+''"
proof -
  assume a: "parse_int_as f q s = Inr n" and c: "c \<in> set s"
  obtain neg body where sb: "split_sign s = (neg, body)" by fastforce
  from a sb have "\<not> length (takeWhile is_digit body) < length body"
    by (auto simp: parse_int_as_def Let_def split: if_splits)
  then have "takeWhile is_digit body = body"
    by (metis takeWhile_eq_take length_takeWhile_le linorder_not_less take_all_iff)
  then have "\<forall>x \<in> set body. is_digit x"
    by (simp add: takeWhile_eq_all_conv)
  with sb c show ?thesis
    by (cases s) (auto simp: split_sign_def split: if_splits)
qed

end
