(* ===== verification/History.thy ===== *)
theory History
  imports File_Glob Go_Number Async_Api
begin

text \<open>
  The history of a session, \<^verbatim>\<open>internal/history\<close>, its endpoints in \<^verbatim>\<open>internal/api/session_history.go\<close>, and the usage
  report of \<^verbatim>\<open>internal/api/usage.go\<close> with the rates of \<^verbatim>\<open>internal/pricing\<close>. The JSON decoding of a line and of its parts,
  and the reading of an RFC 3339 time, are the functions of the record \<open>decoders\<close>; the directories and the
  contents of files are arguments.
\<close>

section \<open>Messages\<close>

record raw_tool_result =
  rt_stdout :: string
  rt_stderr :: string
  rt_interrupted :: bool
  rt_is_image :: bool

record token_usage =
  tu_input :: int
  tu_output :: int
  tu_cache_creation :: int
  tu_cache_read :: int

record raw_content =
  rc_role :: string
  rc_model :: string
  rc_id :: string
  rc_content :: string
  rc_stop_reason :: string
  rc_usage :: "token_usage option"

record raw_message =
  rm_type :: string
  rm_uuid :: string
  rm_parent_uuid :: "string option"
  rm_session :: string
  rm_timestamp :: string
  rm_cwd :: string
  rm_git_branch :: string
  rm_version :: string
  rm_perm_mode :: string
  rm_message :: string
  rm_tool_result :: "raw_tool_result option"
  rm_operation :: string
  rm_is_sidechain :: bool

text \<open>The input of a tool stays encoded.\<close>

record content_block =
  cb_type :: string
  cb_text :: string
  cb_id :: string
  cb_name :: string
  cb_input :: string
  cb_tool_use_id :: string
  cb_content :: string
  cb_is_error :: bool

record message_content =
  mc_role :: string
  mc_model :: string
  mc_message_id :: string
  mc_content :: "content_block list"
  mc_stop_reason :: string
  mc_usage :: "token_usage option"

record message =
  ms_uuid :: string
  ms_parent_uuid :: "string option"
  ms_type :: string
  ms_session :: string
  ms_timestamp :: gtime
  ms_cwd :: string
  ms_git_branch :: string
  ms_version :: string
  ms_permission_mode :: string
  ms_content :: message_content
  ms_tool_result :: "raw_tool_result option"

record message_list =
  ml_messages :: "message list"
  ml_total :: int
  ml_offset :: int
  ml_limit :: int
  ml_has_more :: bool

record usage_summary =
  su_model :: string
  su_input :: int
  su_output :: int
  su_cache_creation :: int
  su_cache_read :: int
  su_total :: int

text \<open>
  Decoding a title probe says whether it succeeded and which of the two fields it has set, which it may do even
  when it fails in the end.
\<close>

record decoders =
  jd_line :: "string \<Rightarrow> raw_message option"
  jd_content :: "string \<Rightarrow> raw_content option"
  jd_text :: "string \<Rightarrow> string option"
  jd_blocks :: "string \<Rightarrow> content_block list option"
  jd_probe :: "string \<Rightarrow> bool \<times> string option \<times> string option"
  jd_time :: "string \<Rightarrow> gtime option"

definition type_user :: string where
  "type_user = ''user''"

definition type_assistant :: string where
  "type_assistant = ''assistant''"

definition type_system :: string where
  "type_system = ''queue-operation''"

definition no_content :: message_content where
  "no_content =
     \<lparr>mc_role = [], mc_model = [], mc_message_id = [], mc_content = [], mc_stop_reason = [], mc_usage = None\<rparr>"

text \<open>\<^verbatim>\<open>&Message{Type: \<dots>}\<close>: everything else is zero.\<close>

definition blank_message :: "gtime \<Rightarrow> string \<Rightarrow> message" where
  "blank_message zero t =
     \<lparr>ms_uuid = [], ms_parent_uuid = None, ms_type = t, ms_session = [], ms_timestamp = zero, ms_cwd = [], ms_git_branch = [],
      ms_version = [], ms_permission_mode = [], ms_content = no_content, ms_tool_result = None\<rparr>"

definition text_block :: "string \<Rightarrow> content_block" where
  "text_block t =
     \<lparr>cb_type = ''text'', cb_text = t, cb_id = [], cb_name = [], cb_input = [], cb_tool_use_id = [], cb_content = [],
      cb_is_error = False\<rparr>"

text \<open>The content can be a string or an array of blocks; a content of neither kind is left out.\<close>

definition parse_content :: "decoders \<Rightarrow> raw_content \<Rightarrow> message_content" where
  "parse_content jd c =
     \<lparr>mc_role = rc_role c, mc_model = rc_model c, mc_message_id = rc_id c,
      mc_content =
        (if rc_content c = [] then []
         else
           (case jd_text jd (rc_content c) of
              Some t \<Rightarrow> [text_block t]
            | None \<Rightarrow> (case jd_blocks jd (rc_content c) of Some bs \<Rightarrow> bs | None \<Rightarrow> []))),
      mc_stop_reason = rc_stop_reason c, mc_usage = rc_usage c\<rparr>"

text \<open>A time stamp that cannot be read is replaced by the current time; \<open>zero\<close> is the zero time.\<close>

definition parse_message :: "decoders \<Rightarrow> gtime \<Rightarrow> gtime \<Rightarrow> string \<Rightarrow> message option" where
  "parse_message jd zero now line =
     (case jd_line jd line of
        None \<Rightarrow> None
      | Some raw \<Rightarrow>
          if rm_type raw = ''queue-operation'' then Some (blank_message zero type_system)
          else
            Some \<lparr>ms_uuid = rm_uuid raw, ms_parent_uuid = rm_parent_uuid raw, ms_type = rm_type raw,
                  ms_session = rm_session raw,
                  ms_timestamp = (case jd_time jd (rm_timestamp raw) of Some t \<Rightarrow> t | None \<Rightarrow> now),
                  ms_cwd = rm_cwd raw, ms_git_branch = rm_git_branch raw, ms_version = rm_version raw,
                  ms_permission_mode = rm_perm_mode raw,
                  ms_content =
                    (if rm_message raw = [] then no_content
                     else (case jd_content jd (rm_message raw) of
                             None \<Rightarrow> no_content
                           | Some c \<Rightarrow> parse_content jd c)),
                  ms_tool_result = rm_tool_result raw\<rparr>)"

section \<open>Files\<close>

record history_files =
  hf_names :: "string \<Rightarrow> string list option"
  hf_present :: "string \<Rightarrow> bool"
  hf_open :: "string \<Rightarrow> string result"

definition session_pattern :: "string \<Rightarrow> string \<Rightarrow> string" where
  "session_pattern dir sid = path_join [dir, sid, ''.claude'', ''projects'', ''*'', sid @ ''.jsonl'']"

definition find_session_file :: "history_files \<Rightarrow> string \<Rightarrow> string \<Rightarrow> string result" where
  "find_session_file hf dir sid =
     (let pat = session_pattern dir sid
      in if \<not> glob_ok pat then Inl (Wrap ''failed to search for session file: '' (Msg ''syntax error in pattern'') [])
         else
           (case glob_paths (hf_names hf) (hf_present hf) pat of
              [] \<Rightarrow> Inl (Msg (''session history not found: '' @ sid))
            | p # _ \<Rightarrow> Inr p))"

text \<open>
  \<^verbatim>\<open>bufio.Scanner\<close> with a buffer of 10 MiB: the lines without their ends up to the first that does not fit with its
  newline, which is an error. Reading errors of the file are left to \<open>hf_open\<close>.
\<close>

definition max_line :: nat where
  "max_line = 10485760"

definition history_lines :: "string \<Rightarrow> string list \<times> bool" where
  "history_lines s =
     (let ps = split_on (CHR 0x0A) s;
          ls = (if last ps = [] then butlast ps else ps)
      in (map (\<lambda>l. if l \<noteq> [] \<and> last l = CHR 0x0D then butlast l else l) (takeWhile (\<lambda>l. length l < max_line) ls),
          list_all (\<lambda>l. length l < max_line) ls))"

definition err_too_long :: go_error where
  "err_too_long = Sentinel ''bufio.ErrTooLong'' ''bufio.Scanner: token too long''"

definition read_history :: "history_files \<Rightarrow> string \<Rightarrow> string \<Rightarrow> (string list \<times> bool) result" where
  "read_history hf dir sid =
     (case find_session_file hf dir sid of
        Inl e \<Rightarrow> Inl e
      | Inr p \<Rightarrow>
          (case hf_open hf p of
             Inl e \<Rightarrow> Inl (Wrap ''failed to open session file: '' e [])
           | Inr content \<Rightarrow> Inr (history_lines content)))"

definition line_messages :: "decoders \<Rightarrow> gtime \<Rightarrow> gtime \<Rightarrow> string list \<Rightarrow> message list" where
  "line_messages jd zero now ls = List.map_filter (\<lambda>l. if l = [] then None else parse_message jd zero now l) ls"

section \<open>The reader's operations\<close>

definition page_of :: "int \<Rightarrow> int \<Rightarrow> message list \<Rightarrow> message_list" where
  "page_of offset0 limit0 msgs =
     (let n = int (length msgs);
          offset = (if offset0 < 0 then 0 else offset0);
          limit1 = (if limit0 \<le> 0 then 50 else limit0);
          limit = (if limit1 > 200 then 200 else limit1);
          start = (if offset > n then n else offset);
          fin = (if start + limit > n then n else start + limit)
      in \<lparr>ml_messages = take (nat (fin - start)) (drop (nat start) msgs), ml_total = n, ml_offset = offset, ml_limit = limit,
          ml_has_more = fin < n\<rparr>)"

definition list_messages ::
    "decoders \<Rightarrow> history_files \<Rightarrow> gtime \<Rightarrow> gtime \<Rightarrow> string \<Rightarrow> string \<Rightarrow> int \<Rightarrow> int \<Rightarrow> message_list result" where
  "list_messages jd hf zero now dir sid offset limit =
     (case read_history hf dir sid of
        Inl e \<Rightarrow> Inl e
      | Inr (ls, ok) \<Rightarrow>
          if \<not> ok then Inl (Wrap ''error reading session file: '' err_too_long [])
          else Inr (page_of offset limit (filter (\<lambda>m. ms_type m \<noteq> type_system) (line_messages jd zero now ls))))"

definition get_message ::
    "decoders \<Rightarrow> history_files \<Rightarrow> gtime \<Rightarrow> gtime \<Rightarrow> string \<Rightarrow> string \<Rightarrow> string \<Rightarrow> message result" where
  "get_message jd hf zero now dir sid uuid =
     (case read_history hf dir sid of
        Inl e \<Rightarrow> Inl e
      | Inr (ls, ok) \<Rightarrow>
          (case find (\<lambda>m. ms_uuid m = uuid) (line_messages jd zero now ls) of
             Some m \<Rightarrow> Inr m
           | None \<Rightarrow>
               if \<not> ok then Inl (Wrap ''error reading session file: '' err_too_long [])
               else Inl (Msg (''message not found: '' @ uuid))))"

text \<open>The probe is one variable for all lines: what a line does not set keeps the value of an earlier one.\<close>

fun title_loop :: "decoders \<Rightarrow> string \<times> string \<Rightarrow> string \<Rightarrow> string list \<Rightarrow> string" where
  "title_loop jd probe latest [] = latest"
| "title_loop jd probe latest (l # ls) =
     (if l = [] then title_loop jd probe latest ls
      else
        (case jd_probe jd l of
           (ok, t, c) \<Rightarrow>
             (let probe' = (case t of Some x \<Rightarrow> x | None \<Rightarrow> fst probe, case c of Some x \<Rightarrow> x | None \<Rightarrow> snd probe)
              in if \<not> ok then title_loop jd probe' latest ls
                 else title_loop jd probe' (if fst probe' = ''custom-title'' \<and> snd probe' \<noteq> [] then snd probe' else latest) ls)))"

definition get_title :: "decoders \<Rightarrow> history_files \<Rightarrow> string \<Rightarrow> string \<Rightarrow> string result" where
  "get_title jd hf dir sid =
     (case find_session_file hf dir sid of
        Inl e \<Rightarrow> Inr []
      | Inr p \<Rightarrow>
          (case hf_open hf p of
             Inl e \<Rightarrow> Inl (Wrap ''failed to open session file: '' e [])
           | Inr content \<Rightarrow>
               (let (ls, ok) = history_lines content; t = title_loop jd ([], []) [] ls
                in if \<not> ok then Inl (Wrap ''error reading session file: '' err_too_long []) else Inr t)))"

text \<open>The sums are 64-bit integers.\<close>

definition add_usage :: "message \<Rightarrow> token_usage \<Rightarrow> usage_summary \<Rightarrow> usage_summary" where
  "add_usage m u s =
     \<lparr>su_model = (if mc_model (ms_content m) \<noteq> [] then mc_model (ms_content m) else su_model s),
      su_input = wrap64 (su_input s + tu_input u), su_output = wrap64 (su_output s + tu_output u),
      su_cache_creation = wrap64 (su_cache_creation s + tu_cache_creation u),
      su_cache_read = wrap64 (su_cache_read s + tu_cache_read u), su_total = su_total s\<rparr>"

definition no_usage :: usage_summary where
  "no_usage = \<lparr>su_model = [], su_input = 0, su_output = 0, su_cache_creation = 0, su_cache_read = 0, su_total = 0\<rparr>"

definition counted :: "message \<Rightarrow> bool" where
  "counted m \<longleftrightarrow> ms_type m = type_assistant \<and> mc_usage (ms_content m) \<noteq> None"

definition sum_usage :: "message list \<Rightarrow> usage_summary" where
  "sum_usage ms = fold (\<lambda>m s. if counted m then add_usage m (the (mc_usage (ms_content m))) s else s) ms no_usage"

definition aggregate_usage ::
    "decoders \<Rightarrow> history_files \<Rightarrow> gtime \<Rightarrow> gtime \<Rightarrow> string \<Rightarrow> string \<Rightarrow> usage_summary option result" where
  "aggregate_usage jd hf zero now dir sid =
     (case read_history hf dir sid of
        Inl e \<Rightarrow> Inl e
      | Inr (ls, ok) \<Rightarrow>
          (let ms = line_messages jd zero now ls; s = sum_usage ms
           in if \<not> ok then Inl (Wrap ''error reading session file: '' err_too_long [])
              else if \<not> list_ex counted ms then Inr None
              else Inr (Some (s\<lparr>su_total := wrap64 (su_input s + su_output s + su_cache_creation s + su_cache_read s)\<rparr>))))"

end
