(* ===== verification/History_Api.thy ===== *)
theory History_Api
  imports History
begin

text \<open>
  The endpoints of the session history, \<^verbatim>\<open>internal/api/session_history.go\<close>, and the usage report of a run,
  \<^verbatim>\<open>internal/api/usage.go\<close> with \<^verbatim>\<open>internal/pricing/pricing.go\<close>; and what the reader finds, pages and adds up. Amounts of
  money are exact fractions here, where the code rounds each operation to a \<^verbatim>\<open>float64\<close>.
\<close>

section \<open>Endpoints\<close>

definition query_int :: "(string \<Rightarrow> string) \<Rightarrow> (int \<Rightarrow> bool) \<Rightarrow> int \<Rightarrow> string \<Rightarrow> int" where
  "query_int q ok dflt s =
     (if s = [] then dflt
      else (case atoi q s of Inl e \<Rightarrow> dflt | Inr v \<Rightarrow> if ok v then v else dflt))"

definition list_messages_handler ::
    "(wait_status \<Rightarrow> string) \<Rightarrow> (string \<Rightarrow> string) \<Rightarrow> decoders \<Rightarrow> history_files \<Rightarrow> gtime \<Rightarrow> gtime \<Rightarrow> string \<Rightarrow>
     string \<Rightarrow> string \<Rightarrow> string \<Rightarrow> nat \<times> (string + message_list)" where
  "list_messages_handler ws q jd hf zero now dir sid offset_str limit_str =
     (if sid = [] then (400, Inl ''session ID required'')
      else
        (case list_messages jd hf zero now dir sid (query_int q (\<lambda>v. v \<ge> 0) 0 offset_str) (query_int q (\<lambda>v. v > 0) 50 limit_str) of
           Inl e \<Rightarrow>
             (if err_text ws e = ''session history not found: '' @ sid then 404 else 500, Inl (err_text ws e))
         | Inr ml \<Rightarrow> (200, Inr ml)))"

definition get_message_handler ::
    "(wait_status \<Rightarrow> string) \<Rightarrow> decoders \<Rightarrow> history_files \<Rightarrow> gtime \<Rightarrow> gtime \<Rightarrow> string \<Rightarrow> string \<Rightarrow> string \<Rightarrow>
     nat \<times> (string + message)" where
  "get_message_handler ws jd hf zero now dir sid mid =
     (if sid = [] then (400, Inl ''session ID required'')
      else if mid = [] then (400, Inl ''message ID required'')
      else
        (case get_message jd hf zero now dir sid mid of
           Inl e \<Rightarrow>
             (if err_text ws e = ''message not found: '' @ mid then 404
              else if err_text ws e = ''session history not found: '' @ sid then 404 else 500, Inl (err_text ws e))
         | Inr m \<Rightarrow> (200, Inr m)))"

section \<open>Usage and cost\<close>

record rates =
  ra_input :: rat
  ra_output :: rat
  ra_cache_write :: rat
  ra_cache_read :: rat

definition model_prefix_rates :: "(string \<times> rates) list" where
  "model_prefix_rates =
     [(''haiku'', \<lparr>ra_input = 25 / 100, ra_output = 125 / 100, ra_cache_write = 30 / 100, ra_cache_read = 25 / 1000\<rparr>),
      (''sonnet'', \<lparr>ra_input = 3, ra_output = 15, ra_cache_write = 375 / 100, ra_cache_read = 30 / 100\<rparr>),
      (''opus'', \<lparr>ra_input = 15, ra_output = 75, ra_cache_write = 1875 / 100, ra_cache_read = 150 / 100\<rparr>)]"

definition lookup_rates :: "string \<Rightarrow> rates \<times> bool" where
  "lookup_rates model =
     (case find (\<lambda>(p, r). str_contains (to_lower model) p) model_prefix_rates of
        Some (p, r) \<Rightarrow> (r, True)
      | None \<Rightarrow> (\<lparr>ra_input = 0, ra_output = 0, ra_cache_write = 0, ra_cache_read = 0\<rparr>, False))"

definition estimate_usd :: "usage_summary \<Rightarrow> rates \<Rightarrow> rat" where
  "estimate_usd s r =
     of_int (su_input s) * ra_input r / 1000000 + of_int (su_output s) * ra_output r / 1000000 +
     of_int (su_cache_creation s) * ra_cache_write r / 1000000 + of_int (su_cache_read s) * ra_cache_read r / 1000000"

text \<open>\<^verbatim>\<open>math.Round\<close> rounds halves away from zero.\<close>

definition round_away :: "rat \<Rightarrow> int" where
  "round_away x = (if x < 0 then - \<lfloor>- x + 1 / 2\<rfloor> else \<lfloor>x + 1 / 2\<rfloor>)"

definition build_usage :: "decoders \<Rightarrow> history_files option \<Rightarrow> gtime \<Rightarrow> gtime \<Rightarrow> string \<Rightarrow> string \<Rightarrow> usage option" where
  "build_usage jd reader zero now dir sid =
     (case reader of
        None \<Rightarrow> None
      | Some hf \<Rightarrow>
          if sid = [] then None
          else
            (case aggregate_usage jd hf zero now dir sid of
               Inl e \<Rightarrow> None
             | Inr None \<Rightarrow> None
             | Inr (Some s) \<Rightarrow>
                 (let (r, known) = lookup_rates (su_model s)
                  in Some \<lparr>us_model = su_model s, us_input = su_input s, us_output = su_output s,
                           us_cache_creation = su_cache_creation s, us_cache_read = su_cache_read s,
                           us_total = su_total s, us_cost = of_int (round_away (estimate_usd s r * 1000000)) / 1000000\<rparr>)))"

section \<open>Which file is read\<close>

lemma path_join_comps:
  assumes "comps_ok (ds @ es)" and "ds \<noteq> []" and "es \<noteq> []"
  shows "path_join (comps_path ds # es) = comps_path (ds @ es)"
proof -
  have "filter (\<lambda>e. e \<noteq> []) es = es"
    using assms(1) by (auto simp: comps_ok_def plain_comp_def filter_id_conv)
  moreover have "str_join [slash] (comps_path ds # es) = comps_path (ds @ es)"
    using assms(2,3) by (cases es) (simp_all add: comps_path_def join_append)
  moreover have "path_clean (comps_path (ds @ es)) = comps_path (ds @ es)"
    using assms(1) path_clean_fixed unfolding comps_ok_def comps_path_def by blast
  ultimately show ?thesis
    by (simp add: path_join_def comps_path_def)
qed

lemma lit_comps: "list_all lit_text cs \<Longrightarrow> lit_text (comps_path cs)"
proof -
  assume "list_all lit_text cs"
  then have "lit_text (str_join [slash] cs)"
    by (induction "[slash]" cs rule: str_join.induct) (simp_all add: lit_char_def)
  then show ?thesis by (simp add: comps_path_def lit_char_def)
qed

definition names_ok :: "history_files \<Rightarrow> bool" where
  "names_ok hf \<longleftrightarrow> (\<forall>d ns n. hf_names hf d = Some ns \<longrightarrow> n \<in> set ns \<longrightarrow> plain_comp n \<and> slash \<notin> set n)"

definition all_files :: history_files where
  "all_files =
     \<lparr>hf_names = (\<lambda>d. if d = ''/s'' then Some [''a'']
                      else if d = ''/s/a'' then Some [''.claude'']
                      else if d = ''/s/a/.claude'' then Some [''projects'']
                      else if d = ''/s/a/.claude/projects'' then Some [''-w'']
                      else if d = ''/s/a/.claude/projects/-w'' then Some [''a.jsonl''] else None),
      hf_present = (\<lambda>p. p = ''/s/a/.claude/projects''), hf_open = (\<lambda>p. Inr [])\<rparr>"

text \<open>C27: For an identifier without glob characters the history read is the session's own: the file of that name in
  one project directory below the session's directory. An identifier with a star is not refused, though, and
  finds the history of another session, so that reading a history does not take knowing its identifier.
\<close>

theorem history_file_own:
  assumes "names_ok hf" and "comps_ok (ds @ [sid])" and "ds \<noteq> []" and "list_all lit_text (ds @ [sid])"
    and "find_session_file hf (comps_path ds) sid = Inr p"
  shows "(\<exists>proj. p = comps_path (ds @ [sid, ''.claude'', ''projects'', proj, sid @ ''.jsonl''])) \<and>
    find_session_file all_files ''/s'' ''*'' = Inr ''/s/a/.claude/projects/-w/a.jsonl''"
proof
  let ?f = "sid @ ''.jsonl''"
  let ?ds = "ds @ [sid, ''.claude'', ''projects'']"
  have sid: "plain_comp sid" "slash \<notin> set sid" "lit_text sid" using assms(2,4) by (simp_all add: comps_ok_def)
  have f: "plain_comp ?f" "slash \<notin> set ?f" "lit_text ?f"
    using sid by (auto simp: plain_comp_def lit_char_def)
  have dok: "comps_ok ?ds" using assms(2) by (auto simp: comps_ok_def plain_comp_def)
  have "session_pattern (comps_path ds) sid = comps_path (ds @ [sid, ''.claude'', ''projects'', ''*'', ?f])"
    unfolding session_pattern_def using dok f assms(3)
    by (intro path_join_comps) (auto simp: comps_ok_def plain_comp_def)
  also have "\<dots> = comps_path ?ds @ ''/*/'' @ ?f"
    using join_append [of ?ds "[''*'', ?f]" "[slash]"] by (simp add: comps_path_def)
  finally have pat: "session_pattern (comps_path ds) sid = comps_path ?ds @ ''/*/'' @ ?f" .
  have "lit_text (comps_path ?ds)"
    using assms(4) by (intro lit_comps) (simp add: lit_char_def)
  moreover have "comps_path ?ds \<noteq> []" by (simp add: comps_path_def)
  moreover have "p \<in> set (glob_paths (hf_names hf) (hf_present hf) (comps_path ?ds @ ''/*/'' @ ?f))"
    using assms(5) unfolding find_session_file_def pat Let_def by (auto split: if_splits list.splits)
  ultimately obtain ns n where n: "hf_names hf (comps_path ?ds) = Some ns" "n \<in> set ns"
    and p: "p = path_join [path_join [comps_path ?ds, n], ?f]"
    using glob_one_star [OF _ _ f(3,2)] by blast
  have nok: "plain_comp n" "slash \<notin> set n" using assms(1) n unfolding names_ok_def by blast+
  have "path_join [comps_path ?ds, n] = comps_path (?ds @ [n])"
    using dok nok by (intro path_join_comps) (auto simp: comps_ok_def)
  then have "p = comps_path ((?ds @ [n]) @ [?f])"
    unfolding p using dok nok f by (simp only:) (intro path_join_comps; auto simp: comps_ok_def)
  then show "\<exists>proj. p = comps_path (ds @ [sid, ''.claude'', ''projects'', proj, ?f])"
    by auto
next
  show "find_session_file all_files ''/s'' ''*'' = Inr ''/s/a/.claude/projects/-w/a.jsonl''"
    by code_simp
qed

theorem history_file_own_witness:
  "find_session_file all_files ''/s'' ''a'' = Inr ''/s/a/.claude/projects/-w/a.jsonl'' \<and>
   (\<exists>proj. ''/s/a/.claude/projects/-w/a.jsonl'' = comps_path ([''s''] @ [''a'', ''.claude'', ''projects'', proj, ''a'' @ ''.jsonl'']))"
proof
  have n: "names_ok all_files"
    by (auto simp: names_ok_def all_files_def plain_comp_def split: if_splits)
  have d: "comps_path [''s''] = ''/s''" by (simp add: comps_path_def)
  show f: "find_session_file all_files ''/s'' ''a'' = Inr ''/s/a/.claude/projects/-w/a.jsonl''"
    by code_simp
  show "\<exists>proj. ''/s/a/.claude/projects/-w/a.jsonl'' = comps_path ([''s''] @ [''a'', ''.claude'', ''projects'', proj, ''a'' @ ''.jsonl''])"
    using history_file_own [OF n, of "[''s'']" "''a''" "''/s/a/.claude/projects/-w/a.jsonl''"] f d
    by (simp add: comps_ok_def plain_comp_def lit_char_def)
qed

section \<open>Pages\<close>

lemma page_inside:
  assumes "0 < l" and "l \<le> 200" and "0 \<le> o'"
  shows "ml_messages (page_of o' l msgs) = take (nat l) (drop (nat o') msgs)"
    and "ml_has_more (page_of o' l msgs) \<longleftrightarrow> o' + l < int (length msgs)"
  using assms by (auto simp: page_of_def Let_def)

lemma concat_pages:
  "concat (map (\<lambda>k. take l (drop (k * l) xs)) [0..<n]) = take (n * l) xs"
proof (induction n)
  case (Suc n)
  have "take (n * l + l) xs = take (n * l) xs @ take l (drop (n * l) xs)"
    by (rule take_add)
  with Suc show ?case by (simp add: add.commute)
qed simp

text \<open>The messages of a session that are not the queue's.\<close>

definition visible :: "decoders \<Rightarrow> gtime \<Rightarrow> gtime \<Rightarrow> string list \<Rightarrow> message list" where
  "visible jd zero now ls = filter (\<lambda>m. ms_type m \<noteq> type_system) (line_messages jd zero now ls)"


section \<open>Sums\<close>

lemma wrap64_add: "wrap64 (wrap64 a + b) = wrap64 (a + b)"
proof -
  have "(a + 2 ^ 63) mod 2 ^ 64 - 2 ^ 63 + b + 2 ^ 63 = (a + 2 ^ 63) mod 2 ^ 64 + (b :: int)" by simp
  then show ?thesis
    unfolding wrap64_def by (simp only: mod_add_left_eq) (simp add: ac_simps)
qed

lemma wrap64_wrap64 [simp]: "wrap64 (wrap64 a) = wrap64 a"
  using wrap64_add [of a 0] by simp

lemma list_ex_filter: "list_ex P xs \<longleftrightarrow> filter P xs \<noteq> []"
  by (induction xs) auto

definition usage_of :: "message \<Rightarrow> token_usage" where
  "usage_of m = the (mc_usage (ms_content m))"

lemma fold_usage:
  "fold (\<lambda>m s. if counted m then add_usage m (usage_of m) s else s) ms s0 =
     (let us = map usage_of (filter counted ms)
      in \<lparr>su_model = last (su_model s0 # filter (\<lambda>x. x \<noteq> []) (map (\<lambda>m. mc_model (ms_content m)) (filter counted ms))),
          su_input = (if us = [] then su_input s0 else wrap64 (su_input s0 + sum_list (map tu_input us))),
          su_output = (if us = [] then su_output s0 else wrap64 (su_output s0 + sum_list (map tu_output us))),
          su_cache_creation = (if us = [] then su_cache_creation s0 else wrap64 (su_cache_creation s0 + sum_list (map tu_cache_creation us))),
          su_cache_read = (if us = [] then su_cache_read s0 else wrap64 (su_cache_read s0 + sum_list (map tu_cache_read us))),
          su_total = su_total s0\<rparr>)"
proof (induction ms arbitrary: s0)
  case Nil
  then show ?case by (simp add: Let_def)
next
  case (Cons m ms)
  then show ?case
    by (simp add: Let_def add_usage_def wrap64_add add.assoc)
qed

text \<open>C29: The usage reported for a session is the sum over the assistant messages that carry one, in each of the four
  kinds of tokens and in total as a 64-bit integer, with the model named last; without such a message there is none.
\<close>

theorem usage_exact:
  assumes "read_history hf dir sid = Inr (ls, True)"
  shows "(let ms = filter counted (line_messages jd zero now ls); us = map usage_of ms;
              models = filter (\<lambda>x. x \<noteq> []) (map (\<lambda>m. mc_model (ms_content m)) ms);
              total = (\<lambda>f. sum_list (map f us))
          in aggregate_usage jd hf zero now dir sid =
             Inr (if ms = [] then None
                  else Some \<lparr>su_model = last ([] # models), su_input = wrap64 (total tu_input), su_output = wrap64 (total tu_output),
                             su_cache_creation = wrap64 (total tu_cache_creation), su_cache_read = wrap64 (total tu_cache_read),
                             su_total = wrap64 (total tu_input + total tu_output + total tu_cache_creation + total tu_cache_read)\<rparr>))"
proof -
  let ?ms = "line_messages jd zero now ls"
  have e: "list_ex counted ?ms \<longleftrightarrow> filter counted ?ms \<noteq> []"
    by (rule list_ex_filter)
  have w: "wrap64 (wrap64 a + wrap64 b + wrap64 c + wrap64 d) = wrap64 (a + b + c + d)" for a b c d
  proof -
    have "wrap64 (wrap64 a + wrap64 b + wrap64 c + wrap64 d) = wrap64 (wrap64 d + (wrap64 a + wrap64 b + wrap64 c))"
      by (simp add: add.commute)
    also have "\<dots> = wrap64 (wrap64 c + (wrap64 a + wrap64 b + d))" by (subst wrap64_add) (simp add: ac_simps)
    also have "\<dots> = wrap64 (wrap64 b + (wrap64 a + c + d))" by (subst wrap64_add) (simp add: ac_simps)
    also have "\<dots> = wrap64 (wrap64 a + (b + c + d))" by (subst wrap64_add) (simp add: ac_simps)
    also have "\<dots> = wrap64 (a + b + c + d)" by (subst wrap64_add) (simp add: ac_simps)
    finally show ?thesis .
  qed
  have f: "sum_usage ?ms = fold (\<lambda>m s. if counted m then add_usage m (usage_of m) s else s) ?ms no_usage"
    unfolding sum_usage_def usage_of_def ..
  show ?thesis
    using assms by (simp add: aggregate_usage_def Let_def e f fold_usage no_usage_def w)
qed

section \<open>A small history\<close>

definition sample_decoders :: decoders where
  "sample_decoders =
     \<lparr>jd_line = (\<lambda>l. Some \<lparr>rm_type = (if hd l = CHR ''a'' then ''assistant'' else ''user''), rm_uuid = l, rm_parent_uuid = None,
                         rm_session = ''a'', rm_timestamp = [], rm_cwd = [], rm_git_branch = [], rm_version = [],
                         rm_perm_mode = [], rm_message = l, rm_tool_result = None, rm_operation = [], rm_is_sidechain = False\<rparr>),
      jd_content = (\<lambda>l. Some \<lparr>rc_role = [], rc_model = ''opus'', rc_id = [], rc_content = [], rc_stop_reason = [],
                            rc_usage = Some \<lparr>tu_input = 1, tu_output = 2, tu_cache_creation = 3, tu_cache_read = 4\<rparr>\<rparr>),
      jd_text = (\<lambda>l. None), jd_blocks = (\<lambda>l. None), jd_probe = (\<lambda>l. (False, None, None)), jd_time = (\<lambda>t. None)\<rparr>"

definition sample_lines :: "string list" where
  "sample_lines = [''u1'', ''a2'', ''u3'', ''a4'']"

definition sample_files :: history_files where
  "sample_files = all_files\<lparr>hf_open := (\<lambda>p. Inr (str_join [CHR 0x0A] sample_lines))\<rparr>"

lemma sample_history: "read_history sample_files ''/s'' ''a'' = Inr (sample_lines, True)"
proof -
  have "find_session_file sample_files ''/s'' ''a'' = Inr ''/s/a/.claude/projects/-w/a.jsonl''"
    by code_simp
  moreover have "history_lines (str_join [CHR 0x0A] sample_lines) = (sample_lines, True)"
    by (simp add: history_lines_def sample_lines_def max_line_def Let_def)
  ultimately show ?thesis
    by (simp add: read_history_def sample_files_def)
qed


theorem usage_exact_witness:
  "aggregate_usage sample_decoders sample_files 0 0 ''/s'' ''a'' =
     Inr (Some \<lparr>su_model = ''opus'', su_input = 2, su_output = 4, su_cache_creation = 6, su_cache_read = 8, su_total = 20\<rparr>)"
proof -
  have "map usage_of (filter counted (line_messages sample_decoders 0 0 sample_lines)) =
      replicate 2 \<lparr>tu_input = 1, tu_output = 2, tu_cache_creation = 3, tu_cache_read = 4\<rparr>"
    by code_simp
  moreover have "map (\<lambda>m. mc_model (ms_content m)) (filter counted (line_messages sample_decoders 0 0 sample_lines)) = [''opus'', ''opus'']"
    by code_simp
  moreover from this have "filter counted (line_messages sample_decoders 0 0 sample_lines) \<noteq> []" by auto
  ultimately show ?thesis
    using usage_exact [OF sample_history, of sample_decoders 0 0] by (simp add: Let_def wrap64_id numeral_2_eq_2)
qed

text \<open>A title is also taken from a line that names none, when an earlier line of another kind had one.\<close>

lemma title_probe_gap:
  "title_loop (sample_decoders\<lparr>jd_probe := (\<lambda>l. if l = ''summary'' then (True, Some ''summary'', Some ''draft'')
                                             else (True, Some ''custom-title'', None))\<rparr>) ([], []) [] [''summary'', ''untitled''] = ''draft''"
  by code_simp

end
