(* ===== verification/Podman_Cli.thy ===== *)
theory Podman_Cli
  imports Go_Number Async_Api
begin

text \<open>
  What the registries of images and secrets share: the executor of podman commands, which may change podman's own state,
  output with one JSON object for each line, and how podman reads the words of a command as operands and options.
\<close>

type_synonym 's podman = "string list \<Rightarrow> string \<Rightarrow> 's \<Rightarrow> (string \<times> go_error option) \<times> 's"
  \<comment> \<open>the words of the command, its standard input, and podman's state\<close>

definition observe :: "(string list \<Rightarrow> string \<times> go_error option) \<Rightarrow> string list list podman" where
  "observe answer cmd inp past = (answer cmd, past @ [cmd])"

section \<open>Lines of JSON\<close>

fun json_lines :: "string \<Rightarrow> (string \<Rightarrow> 'a result) \<Rightarrow> string list \<Rightarrow> 'a list result" where
  "json_lines what dec [] = Inr []"
| "json_lines what dec (l # ls) =
     (if l = [] then json_lines what dec ls
      else
        (case dec l of
           Inl e \<Rightarrow> Inl (Wrap what e [])
         | Inr a \<Rightarrow> (case json_lines what dec ls of Inl e \<Rightarrow> Inl e | Inr rest \<Rightarrow> Inr (a # rest))))"

definition decoded :: "(string \<Rightarrow> 'a result) \<Rightarrow> string list \<Rightarrow> 'a list" where
  "decoded dec ls = List.map_filter (\<lambda>l. case dec l of Inl e \<Rightarrow> None | Inr a \<Rightarrow> Some a) (filter (\<lambda>l. l \<noteq> []) ls)"

lemma json_lines_ok:
  "\<forall>l \<in> set ls. l \<noteq> [] \<longrightarrow> \<not> isl (dec l) \<Longrightarrow> json_lines what dec ls = Inr (decoded dec ls)"
  by (induction ls) (auto simp: decoded_def map_filter_simps split: sum.splits)

lemma json_lines_Inr: "json_lines what dec ls = Inr xs \<Longrightarrow> xs = decoded dec ls"
  by (induction ls arbitrary: xs) (auto simp: decoded_def map_filter_simps split: if_splits sum.splits)

lemma json_lines_fails:
  "l \<in> set ls \<Longrightarrow> l \<noteq> [] \<Longrightarrow> dec l = Inl e \<Longrightarrow> \<exists>e'. json_lines what dec ls = Inl (Wrap what e' [])"
  by (induction ls) (auto split: sum.splits)

section \<open>Words as operands and options\<close>

text \<open>
  Options and operands may come in any order; \<open>takes\<close> says which options have a value of their own, the next word. Two
  dashes end the options, and a single dash is an operand.
\<close>

fun read_words :: "(string \<Rightarrow> bool) \<Rightarrow> string list \<Rightarrow> (string list \<times> (string \<times> string option) list) option" where
  "read_words takes [] = Some ([], [])"
| "read_words takes [w] =
     (if w = ''--'' then Some ([], [])
      else if has_prefix w ''-'' \<and> w \<noteq> ''-'' then (if takes w then None else Some ([], [(w, None)]))
      else Some ([w], []))"
| "read_words takes (w # v # ws) =
     (if w = ''--'' then Some (v # ws, [])
      else if has_prefix w ''-'' \<and> w \<noteq> ''-''
      then (if takes w then map_option (\<lambda>(os, fs). (os, (w, Some v) # fs)) (read_words takes ws)
            else map_option (\<lambda>(os, fs). (os, (w, None) # fs)) (read_words takes (v # ws)))
      else map_option (\<lambda>(os, fs). (w # os, fs)) (read_words takes (v # ws)))"

lemma read_operand:
  "\<not> has_prefix w ''-'' \<Longrightarrow> read_words takes (w # ws) = map_option (\<lambda>(os, fs). (w # os, fs)) (read_words takes ws)"
  by (cases ws) auto

lemma read_valued:
  "has_prefix w ''-'' \<Longrightarrow> w \<noteq> ''-'' \<Longrightarrow> w \<noteq> ''--'' \<Longrightarrow> takes w \<Longrightarrow>
   read_words takes (w # v # ws) = map_option (\<lambda>(os, fs). (os, (w, Some v) # fs)) (read_words takes ws)"
  by auto

lemma read_flag:
  "has_prefix w ''-'' \<Longrightarrow> w \<noteq> ''-'' \<Longrightarrow> w \<noteq> ''--'' \<Longrightarrow> \<not> takes w \<Longrightarrow>
   read_words takes (w # ws) = map_option (\<lambda>(os, fs). (os, (w, None) # fs)) (read_words takes ws)"
  by (cases ws) auto

lemma read_words_Nil [simp]: "read_words takes [] = Some ([], [])"
  by simp

declare read_words.simps(2,3) [simp del]

end
