(* ===== verification/Webhook.thy ===== *)
theory Webhook
  imports Go_Number Async_Api
begin

text \<open>
  Webhook notifications, \<^verbatim>\<open>internal/webhook/webhook.go\<close>: the signed request with its one retry, and the check a
  receiver makes. The message authentication code (HMAC-SHA256) is \<open>mac\<close>, the encoding of the payload \<open>enc\<close>, the
  creation of a request and its transport \<open>new_req\<close> and \<open>send\<close>, by the number of the attempt.
\<close>

section \<open>Sending\<close>

record notifier =
  nf_secret :: "string option"

definition new_notifier :: notifier where
  "new_notifier = \<lparr>nf_secret = None\<rparr>"

definition new_signed_notifier :: "string \<Rightarrow> notifier" where
  "new_signed_notifier secret = (if secret \<noteq> [] then new_notifier\<lparr>nf_secret := Some secret\<rparr> else new_notifier)"

definition header_signature :: string where
  "header_signature = ''X-Stromboli-Signature''"

definition header_timestamp :: string where
  "header_timestamp = ''X-Stromboli-Timestamp''"

definition signature_prefix :: string where
  "signature_prefix = ''sha256=''"

record http_request =
  hr_url :: string
  hr_headers :: "string \<rightharpoonup> string"
  hr_body :: string

definition sign_payload :: "(string \<Rightarrow> string \<Rightarrow> string) \<Rightarrow> string \<Rightarrow> string \<Rightarrow> string \<Rightarrow> string" where
  "sign_payload mac secret ts body = hex_encode (mac secret (ts @ ''.'' @ body))"

definition webhook_request :: "string \<Rightarrow> string \<Rightarrow> string \<Rightarrow> string \<Rightarrow> http_request" where
  "webhook_request url ts sig body =
     \<lparr>hr_url = url,
      hr_headers =
        (if sig \<noteq> []
         then [''Content-Type'' \<mapsto> ''application/json'', header_timestamp \<mapsto> ts, header_signature \<mapsto> signature_prefix @ sig]
         else [''Content-Type'' \<mapsto> ''application/json'']),
      hr_body = body\<rparr>"

text \<open>The attempts with these numbers, and the error if none of them succeeds.\<close>

fun notify_attempts ::
    "(string \<Rightarrow> go_error option) \<Rightarrow> (nat \<Rightarrow> http_request \<Rightarrow> int result) \<Rightarrow> http_request \<Rightarrow> nat list \<Rightarrow> go_error option \<Rightarrow>
     go_error option \<times> http_request list" where
  "notify_attempts new_req send r [] last_err = (last_err, [])"
| "notify_attempts new_req send r (k # ks) last_err =
     (case new_req (hr_url r) of
        Some e \<Rightarrow> notify_attempts new_req send r ks (Some (Wrap ''failed to create request: '' e []))
      | None \<Rightarrow>
          (case send k r of
             Inl e \<Rightarrow>
               (let (res, sent) = notify_attempts new_req send r ks (Some (Wrap ''failed to send webhook: '' e []))
                in (res, r # sent))
           | Inr st \<Rightarrow>
               if 200 \<le> st \<and> st < 300 then (None, [r])
               else
                 (let (res, sent) = notify_attempts new_req send r ks (Some (Msg (''webhook returned status '' @ show_int st)))
                  in (res, r # sent))))"

definition notify ::
    "(string \<Rightarrow> string \<Rightarrow> string) \<Rightarrow> (job_result \<Rightarrow> string result) \<Rightarrow> (string \<Rightarrow> go_error option) \<Rightarrow>
     (nat \<Rightarrow> http_request \<Rightarrow> int result) \<Rightarrow> gtime \<Rightarrow> notifier \<Rightarrow> string \<Rightarrow> job_result \<Rightarrow> go_error option \<times> http_request list" where
  "notify mac enc new_req send now n url payload =
     (case enc payload of
        Inl e \<Rightarrow> (Some (Wrap ''failed to marshal payload: '' e []), [])
      | Inr data \<Rightarrow>
          (let ts = show_int (now div second);
               sig = (case nf_secret n of None \<Rightarrow> [] | Some secret \<Rightarrow> sign_payload mac secret ts data)
           in notify_attempts new_req send (webhook_request url ts sig data) [0, 1] None))"

section \<open>Checking\<close>

text \<open>\<^verbatim>\<open>time.Unix(ts, 0)\<close>: seconds are kept from the year 1 on in 64 bits, which may overflow.\<close>

definition unix_time :: "int \<Rightarrow> gtime" where
  "unix_time ts = (wrap64 (ts + 62135596800) - 62135596800) * second"

definition verify ::
    "(string \<Rightarrow> string \<Rightarrow> string) \<Rightarrow> (string \<Rightarrow> string) \<Rightarrow> (gtime \<Rightarrow> string) \<Rightarrow> gtime \<Rightarrow>
     string \<Rightarrow> string \<Rightarrow> string \<Rightarrow> string \<Rightarrow> gtime \<Rightarrow> go_error option" where
  "verify mac q sd now secret ts header body max_age =
     (if secret = [] then Some (Msg ''webhook secret is empty'')
      else if ts = [] \<or> header = [] then Some (Msg ''missing signature headers'')
      else
        (case parse_int64 q ts of
           Inl e \<Rightarrow> Some (Wrap ''invalid timestamp: '' e [])
         | Inr n \<Rightarrow>
             (let age = time_sub now (unix_time n)
              in if max_age > 0 \<and> (age > max_age \<or> age < - max_age)
                 then Some (Msg (''timestamp outside freshness window ('' @ sd age @ '')''))
                 else
                   (let provided =
                          (if length header > length signature_prefix \<and> take (length signature_prefix) header = signature_prefix
                           then drop (length signature_prefix) header else header)
                    in if sign_payload mac secret ts body \<noteq> provided then Some (Msg ''signature mismatch'') else None))))"

section \<open>What is sent\<close>

lemma notify_attempts_sent: "r' \<in> set (snd (notify_attempts new_req send r ks l)) \<Longrightarrow> r' = r"
  by (induction ks arbitrary: l) (auto simp: case_prod_unfold Let_def split: option.splits sum.splits if_splits)

lemma notify_attempts_count: "length (snd (notify_attempts new_req send r ks l)) \<le> length ks"
  by (induction ks arbitrary: l) (auto simp: case_prod_unfold Let_def le_SucI split: option.split sum.split)

definition accepted_by :: "(nat \<Rightarrow> http_request \<Rightarrow> int result) \<Rightarrow> http_request \<Rightarrow> nat \<Rightarrow> bool" where
  "accepted_by send r k = (case send k r of Inl e \<Rightarrow> False | Inr st \<Rightarrow> 200 \<le> st \<and> st < 300)"

lemma notify_attempts_result:
  "fst (notify_attempts new_req send r ks l) = None \<longleftrightarrow>
     (ks = [] \<and> l = None) \<or> (new_req (hr_url r) = None \<and> list_ex (accepted_by send r) ks)"
proof (induction ks arbitrary: l)
  case Nil
  then show ?case by simp
next
  case (Cons k ks)
  then show ?case
    by (auto simp: accepted_by_def case_prod_unfold Let_def split: option.split sum.split)
qed

definition signed_request :: "(string \<Rightarrow> string \<Rightarrow> string) \<Rightarrow> string \<Rightarrow> gtime \<Rightarrow> string \<Rightarrow> string \<Rightarrow> http_request" where
  "signed_request mac secret now url data =
     (let ts = show_int (now div second) in webhook_request url ts (sign_payload mac secret ts data) data)"

lemma notify_signed:
  assumes "secret \<noteq> []" and "enc payload = Inr data"
  shows "notify mac enc new_req send now (new_signed_notifier secret) url payload =
    notify_attempts new_req send (signed_request mac secret now url data) [0, 1] None"
  using assms by (simp add: notify_def new_signed_notifier_def new_notifier_def signed_request_def Let_def)

text \<open>A signed notification is sent at most twice, each time as the same request with the time of the first
  attempt, and succeeds exactly when one of the attempts is answered with a status of the 2xx range.
\<close>

lemma notify_exact:
  assumes "secret \<noteq> []" and "enc payload = Inr data"
  shows "(let r = signed_request mac secret now url data;
              (res, sent) = notify mac enc new_req send now (new_signed_notifier secret) url payload
          in length sent \<le> 2 \<and> set sent \<subseteq> {r} \<and>
             (res = None \<longleftrightarrow> new_req url = None \<and> (accepted_by send r 0 \<or> accepted_by send r 1)))"
proof -
  let ?r = "signed_request mac secret now url data"
  have url: "hr_url ?r = url" by (simp add: signed_request_def webhook_request_def Let_def)
  have "fst (notify_attempts new_req send ?r [0, 1] None) = None \<longleftrightarrow>
      new_req url = None \<and> (accepted_by send ?r 0 \<or> accepted_by send ?r 1)"
    unfolding notify_attempts_result url by simp
  moreover have "set (snd (notify_attempts new_req send ?r [0, 1] None)) \<subseteq> {?r}"
    using notify_attempts_sent by blast
  moreover have "length (snd (notify_attempts new_req send ?r [0, 1] None)) \<le> 2"
    using notify_attempts_count [of new_req send ?r "[0, 1]" None] by simp
  ultimately show ?thesis
    unfolding notify_signed [where enc = enc and payload = payload, OF assms] Let_def case_prod_unfold by blast
qed

definition sample_payload :: job_result where
  "sample_payload = \<lparr>jr_job_id = ''j'', jr_status = ''done'', jr_output = [], jr_error = [], jr_session = [], jr_usage = None\<rparr>"

lemma notify_exact_witness:
  "fst (notify (\<lambda>s m. s @ m) (\<lambda>p. Inr ''b'') (\<lambda>u. None) (\<lambda>k r. if k = 0 then Inl (Msg ''reset'') else Inr 204) second
     (new_signed_notifier ''k'') ''u'' sample_payload) = None \<and>
   fst (notify (\<lambda>s m. s @ m) (\<lambda>p. Inr ''b'') (\<lambda>u. None) (\<lambda>k r. Inr 302) second (new_signed_notifier ''k'') ''u'' sample_payload) \<noteq> None"
  using notify_exact [of "''k''" "\<lambda>p. Inr ''b''" sample_payload "''b''" "\<lambda>s m. s @ m" second "''u''" "\<lambda>u. None"
      "\<lambda>k r. if k = 0 then Inl (Msg ''reset'') else Inr 204"]
    notify_exact [of "''k''" "\<lambda>p. Inr ''b''" sample_payload "''b''" "\<lambda>s m. s @ m" second "''u''" "\<lambda>u. None" "\<lambda>k r. Inr 302"]
  by (auto simp: Let_def case_prod_unfold accepted_by_def)

section \<open>What is accepted\<close>

definition webhook_fresh :: "gtime \<Rightarrow> gtime \<Rightarrow> int \<Rightarrow> bool" where
  "webhook_fresh max_age now ts \<longleftrightarrow> max_age \<le> 0 \<or> \<bar>time_sub now (unix_time ts)\<bar> \<le> max_age"

lemma cut_message:
  assumes "CHR ''.'' \<notin> set a" and "CHR ''.'' \<notin> set b" and "a @ ''.'' @ x = b @ ''.'' @ y"
  shows "a = b \<and> x = y"
proof -
  have "a @ CHR ''.'' # x = b @ CHR ''.'' # y"
    using assms(3) unfolding append.simps .
  moreover have "cut_at (CHR ''.'') (a @ CHR ''.'' # x) = Some (a, x)" "cut_at (CHR ''.'') (b @ CHR ''.'' # y) = Some (b, y)"
    by (rule cut_at_append [OF assms(1)], rule cut_at_append [OF assms(2)])
  ultimately have "Some (a, x) = Some (b, y)" by metis
  then show ?thesis by simp
qed

lemma int_text_no_dot: "parse_int_as f q s = Inr n \<Longrightarrow> CHR ''.'' \<notin> set s"
  using parse_int_chars [of f q s n "CHR ''.''"] by (auto simp: is_digit_def)

lemma verify_signed:
  assumes "secret \<noteq> []" and "mac secret (ts @ ''.'' @ body) \<noteq> []"
  shows "verify mac q sd now secret ts' (signature_prefix @ sign_payload mac secret ts body) body' max_age = None \<longleftrightarrow>
    (\<exists>n. parse_int64 q ts' = Inr n \<and> webhook_fresh max_age now n) \<and>
    mac secret (ts' @ ''.'' @ body') = mac secret (ts @ ''.'' @ body)"
proof (cases "parse_int64 q ts'")
  case (Inl e)
  then show ?thesis by (auto simp: verify_def)
next
  case (Inr n)
  have ne: "sign_payload mac secret ts body \<noteq> []"
  proof
    assume "sign_payload mac secret ts body = []"
    then have "hex_encode (mac secret (ts @ ''.'' @ body)) = hex_encode []"
      by (simp add: sign_payload_def hex_encode_def)
    with assms(2) hex_encode_inj show False by blast
  qed
  have t: "ts' \<noteq> []" using Inr by (auto simp: parse_int64_def parse_int_as_def split_sign_def)
  have "sign_payload mac secret ts' body' = sign_payload mac secret ts body \<longleftrightarrow>
      mac secret (ts' @ ''.'' @ body') = mac secret (ts @ ''.'' @ body)"
    using hex_encode_inj by (auto simp: sign_payload_def)
  with Inr ne t assms(1) show ?thesis
    by (auto simp: verify_def Let_def webhook_fresh_def signature_prefix_def abs_le_iff split: if_splits)
qed



end
