(* ===== verification/Image_Registry.thy ===== *)
theory Image_Registry
  imports Images Podman_Cli Webhook "HOL-Library.Multiset" "HOL-Library.List_Lexorder" "HOL-Library.Char_ord" "HOL-Library.Product_Lexorder"
begin

text \<open>
  The registry of images, \<^verbatim>\<open>internal/images/registry.go\<close>, and its endpoints, \<^verbatim>\<open>internal/api/images_handlers.go\<close>. The decoding of
  podman's JSON and of an RFC 3339 time are the functions of \<open>image_decoders\<close>.
\<close>

section \<open>Data\<close>

definition err_image_not_found :: go_error where
  "err_image_not_found = Sentinel ''images.ErrImageNotFound'' ''image not found''"

definition err_search_failed :: go_error where
  "err_search_failed = Sentinel ''images.ErrSearchFailed'' ''search failed''"

definition err_pull_failed :: go_error where
  "err_pull_failed = Sentinel ''images.ErrPullFailed'' ''pull failed''"

definition err_image_validation :: go_error where
  "err_image_validation = Sentinel ''images.ErrValidation'' ''validation error''"

lemmas image_errors = err_image_not_found_def err_search_failed_def err_pull_failed_def err_image_validation_def

definition label_tools :: string where
  "label_tools = ''ai.stromboli.tools''"

definition label_description :: string where
  "label_description = ''ai.stromboli.description''"

definition default_search_limit :: int where
  "default_search_limit = 25"

definition max_search_limit :: int where
  "max_search_limit = 100"

definition max_image_name_length :: nat where
  "max_image_name_length = 255"

record image_info =
  ii_id :: string
  ii_repository :: string
  ii_tag :: string
  ii_size :: int
  ii_created :: gtime
  ii_labels :: "string \<rightharpoonup> string"
  ii_rank :: nat
  ii_compatible :: bool
  ii_tools :: "string list"
  ii_has_cli :: bool
  ii_description :: string

record podman_image_info =
  pi_id :: string
  pi_repository :: string
  pi_tag :: string
  pi_size :: int
  pi_created :: int
  pi_names :: "string list"

record podman_inspect_result =
  pr_id :: string
  pr_created :: string
  pr_size :: int
  pr_labels :: "string \<rightharpoonup> string"
  pr_repo_tags :: "string list"

record podman_search_result =
  ps_index :: string
  ps_name :: string
  ps_description :: string
  ps_stars :: int
  ps_official :: string
  ps_automated :: string

record search_result =
  sr_index :: string
  sr_name :: string
  sr_description :: string
  sr_stars :: int
  sr_official :: bool
  sr_automated :: bool

record search_options =
  so_limit :: int
  so_no_trunc :: bool

record pull_options =
  po_quiet :: bool
  po_platform :: string

record image_decoders =
  id_listing :: "string \<Rightarrow> podman_image_info result"
  id_inspect :: "string \<Rightarrow> podman_inspect_result list result"
  id_search :: "string \<Rightarrow> podman_search_result list result"
  id_time :: "string \<Rightarrow> gtime result"
  id_stamp :: "gtime \<Rightarrow> string"

section \<open>Names\<close>

text \<open>The regular expressions: the characters of a name, and what it may not contain.\<close>

definition alnum :: "char \<Rightarrow> bool" where
  "alnum c \<longleftrightarrow>
     (let n = (of_char c :: nat) in (48 \<le> n \<and> n \<le> 57) \<or> (65 \<le> n \<and> n \<le> 90) \<or> (97 \<le> n \<and> n \<le> 122))"

definition image_name_regex :: "string \<Rightarrow> bool" where
  "image_name_regex s \<longleftrightarrow>
     (case s of [] \<Rightarrow> False | c # cs \<Rightarrow> alnum c \<and> list_all (\<lambda>d. alnum d \<or> d \<in> set ''._:/@-'') cs)"

definition invalid_patterns :: "string \<Rightarrow> bool" where
  "invalid_patterns s \<longleftrightarrow>
     str_contains s ''//'' \<or> str_contains s ''::'' \<or> str_contains s ''...'' \<or> str_contains s ''---'' \<or> str_contains s ''___'' \<or>
     list_ex (\<lambda>l. length (filter (\<lambda>c. c = CHR ''@'') l) \<ge> 2) (split_on (CHR 0x0A) s)"

definition validate_image_name :: "string \<Rightarrow> go_error option" where
  "validate_image_name name =
     (if name = [] then Some (Wrap [] err_image_validation '': image name cannot be empty'')
      else if length name > max_image_name_length
      then Some (Wrap [] err_image_validation
                   ('': image name exceeds maximum length of '' @ show_nat max_image_name_length @ '' characters''))
      else if \<not> image_name_regex name then Some (Wrap [] err_image_validation '': invalid image name format'')
      else if invalid_patterns name then Some (Wrap [] err_image_validation '': invalid image name format'')
      else None)"

definition repo_and_tag :: "string \<Rightarrow> string \<times> string" where
  "repo_and_tag s =
     (let parts = split_on (CHR '':'') s
      in if length parts \<ge> 2 then (str_join '':'' (butlast parts), last parts) else (s, ''latest''))"

definition parse_repo_tag :: "string list \<Rightarrow> string \<Rightarrow> string \<times> string" where
  "parse_repo_tag repo_tags fallback = (case repo_tags of t # _ \<Rightarrow> repo_and_tag t | [] \<Rightarrow> repo_and_tag fallback)"

definition normalize_search_query :: "string \<Rightarrow> string" where
  "normalize_search_query query =
     (let first = hd (split_on slash query)
      in if str_contains query ''/'' \<and> (str_contains first ''.'' \<or> str_contains first '':'' \<or> first = ''localhost'')
         then query else ''docker.io/'' @ query)"

section \<open>Order\<close>

definition image_less :: "image_info \<Rightarrow> image_info \<Rightarrow> bool" where
  "image_less a b \<longleftrightarrow>
     (if ii_rank a \<noteq> ii_rank b then ii_rank a < ii_rank b
      else if ii_repository a \<noteq> ii_repository b then ii_repository a < ii_repository b
      else ii_tag a < ii_tag b)"

text \<open>
  \<^verbatim>\<open>sort.Slice\<close> as the insertion sort it is for short slices. It promises no order among equals; what is proved below
  does not depend on it.
\<close>

fun insert_by :: "('a \<Rightarrow> 'a \<Rightarrow> bool) \<Rightarrow> 'a \<Rightarrow> 'a list \<Rightarrow> 'a list" where
  "insert_by lt x [] = [x]"
| "insert_by lt x (y # ys) = (if lt x y then x # y # ys else y # insert_by lt x ys)"

definition sort_slice :: "('a \<Rightarrow> 'a \<Rightarrow> bool) \<Rightarrow> 'a list \<Rightarrow> 'a list" where
  "sort_slice lt xs = fold (insert_by lt) xs []"

definition sort_by_compatibility :: "image_info list \<Rightarrow> image_info list" where
  "sort_by_compatibility = sort_slice image_less"

section \<open>The registry's operations\<close>

definition list_images_command :: "string list" where
  "list_images_command = [''podman'', ''images'', ''--format'', ''{{json .}}'']"

definition listed_image :: "podman_image_info \<Rightarrow> image_info" where
  "listed_image p =
     (let rank = compute_compatibility_rank (pi_repository p) (pi_tag p) Map.empty
      in \<lparr>ii_id = pi_id p, ii_repository = pi_repository p, ii_tag = pi_tag p, ii_size = pi_size p,
          ii_created = unix_time (pi_created p), ii_labels = Map.empty, ii_rank = rank, ii_compatible = is_compatible (int rank),
          ii_tools = [], ii_has_cli = False, ii_description = []\<rparr>)"

definition list_images :: "'s podman \<Rightarrow> image_decoders \<Rightarrow> 's \<Rightarrow> image_info list result \<times> 's" where
  "list_images run jd s =
     (case run list_images_command [] s of
        ((_, Some e), s') \<Rightarrow> (Inl (Wrap ''failed to list images: '' e []), s')
      | ((out, None), s') \<Rightarrow>
          (case json_lines ''failed to parse image info: '' (id_listing jd) (split_on (CHR 0x0A) (trim_space out)) of
             Inl e \<Rightarrow> (Inl e, s')
           | Inr ps \<Rightarrow>
               (Inr (sort_by_compatibility (map listed_image (filter (\<lambda>p. pi_repository p \<noteq> ''<none>'') ps))), s')))"

definition inspected_image :: "image_decoders \<Rightarrow> gtime \<Rightarrow> string \<Rightarrow> podman_inspect_result \<Rightarrow> image_info" where
  "inspected_image jd zero name r =
     (let (repository, tag) = parse_repo_tag (pr_repo_tags r) name;
          labels = pr_labels r;
          rank = compute_compatibility_rank repository tag labels;
          marked = (labels label_compatible = Some ''true'')
      in \<lparr>ii_id = pr_id r, ii_repository = repository, ii_tag = tag, ii_size = pr_size r,
          ii_created = (case id_time jd (pr_created r) of Inl e \<Rightarrow> zero | Inr t \<Rightarrow> t),
          ii_labels = labels, ii_rank = rank,
          ii_compatible = (if \<not> marked then is_compatible (int rank) else marked),
          ii_tools = (case labels label_tools of
                        None \<Rightarrow> []
                      | Some v \<Rightarrow> if v \<noteq> [] then map trim_space (split_on (CHR '','') v) else []),
          ii_has_cli = (labels label_claude_cli = Some ''true''),
          ii_description = (case labels label_description of None \<Rightarrow> [] | Some v \<Rightarrow> v)\<rparr>)"

definition inspect_image_command :: "string \<Rightarrow> string list" where
  "inspect_image_command name = [''podman'', ''inspect'', name, ''--type'', ''image'']"

definition inspect_image :: "'s podman \<Rightarrow> image_decoders \<Rightarrow> gtime \<Rightarrow> string \<Rightarrow> 's \<Rightarrow> image_info result \<times> 's" where
  "inspect_image run jd zero name s =
     (case validate_image_name name of
        Some e \<Rightarrow> (Inl e, s)
      | None \<Rightarrow>
          (case run (inspect_image_command name) [] s of
             ((out, Some e), s') \<Rightarrow>
               (if str_contains out ''image not known'' then (Inl err_image_not_found, s')
                else (Inl (Wrap ''failed to inspect image: '' e []), s'))
           | ((out, None), s') \<Rightarrow>
               (case id_inspect jd out of
                  Inl e \<Rightarrow> (Inl (Wrap ''failed to parse image info: '' e []), s')
                | Inr [] \<Rightarrow> (Inl err_image_not_found, s')
                | Inr (r # _) \<Rightarrow> (Inr (inspected_image jd zero name r), s'))))"

definition search_command :: "string \<Rightarrow> search_options option \<Rightarrow> string list" where
  "search_command query opts =
     [''podman'', ''search'', normalize_search_query query, ''--format'', ''json''] @
     (case opts of
        None \<Rightarrow> [''--limit'', show_int default_search_limit]
      | Some o1 \<Rightarrow>
          (if so_limit o1 > 0
           then [''--limit'', show_int (if so_limit o1 > max_search_limit then max_search_limit else so_limit o1)] else []) @
          (if so_no_trunc o1 then [''--no-trunc''] else []))"

definition found_image :: "podman_search_result \<Rightarrow> search_result" where
  "found_image r =
     \<lparr>sr_index = ps_index r, sr_name = ps_name r, sr_description = ps_description r, sr_stars = ps_stars r,
      sr_official = (ps_official r = ''[OK]''), sr_automated = (ps_automated r = ''[OK]'')\<rparr>"

definition search_images ::
    "(wait_status \<Rightarrow> string) \<Rightarrow> 's podman \<Rightarrow> image_decoders \<Rightarrow> string \<Rightarrow> search_options option \<Rightarrow> 's \<Rightarrow>
     search_result list result \<times> 's" where
  "search_images ws run jd query opts s =
     (if query = [] then (Inl (Wrap [] err_image_validation '': search query cannot be empty''), s)
      else if length query > max_image_name_length then (Inl (Wrap [] err_image_validation '': search query too long''), s)
      else if \<not> image_name_regex query then (Inl (Wrap [] err_image_validation '': invalid search query format''), s)
      else
        (case run (search_command query opts) [] s of
           ((_, Some e), s') \<Rightarrow> (Inl (Wrap [] err_search_failed ('': '' @ err_text ws e)), s')
         | ((out, None), s') \<Rightarrow>
             (case id_search jd out of
                Inl e \<Rightarrow>
                  (if trim_space out = [] \<or> trim_space out = ''[]'' then (Inr [], s')
                   else (Inl (Wrap ''failed to parse search results: '' e []), s'))
              | Inr rs \<Rightarrow> (Inr (map found_image rs), s'))))"

definition pull_command :: "string \<Rightarrow> pull_options option \<Rightarrow> string list" where
  "pull_command name opts =
     [''podman'', ''pull'', name] @
     (case opts of
        None \<Rightarrow> []
      | Some o1 \<Rightarrow>
          (if po_quiet o1 then [''--quiet''] else []) @
          (if po_platform o1 \<noteq> [] then [''--platform'', po_platform o1] else []))"

definition pull_image ::
    "(wait_status \<Rightarrow> string) \<Rightarrow> 's podman \<Rightarrow> string \<Rightarrow> pull_options option \<Rightarrow> 's \<Rightarrow> string result \<times> 's" where
  "pull_image ws run name opts s =
     (case validate_image_name name of
        Some e \<Rightarrow> (Inl e, s)
      | None \<Rightarrow>
          (case run (pull_command name opts) [] s of
             ((_, Some e), s') \<Rightarrow> (Inl (Wrap [] err_pull_failed ('': '' @ err_text ws e)), s')
           | ((out, None), s') \<Rightarrow> (Inr (trim_space (last (split_on (CHR 0x0A) (trim_space out)))), s')))"

section \<open>The endpoints\<close>

record image_response =
  is_id :: string
  is_repository :: string
  is_tag :: string
  is_size :: int
  is_created :: string
  is_rank :: nat
  is_compatible_image :: bool
  is_tools :: "string list"
  is_has_cli :: bool
  is_description :: string

text \<open>\<open>id_stamp\<close> prints a time, in the zone it has, with a literal Z at its end.\<close>

definition image_response_of :: "image_decoders \<Rightarrow> image_info \<Rightarrow> image_response" where
  "image_response_of jd i =
     \<lparr>is_id = ii_id i, is_repository = ii_repository i, is_tag = ii_tag i, is_size = ii_size i,
      is_created = id_stamp jd (ii_created i), is_rank = ii_rank i, is_compatible_image = ii_compatible i,
      is_tools = ii_tools i, is_has_cli = ii_has_cli i, is_description = ii_description i\<rparr>"

text \<open>A detail adds the labels and the description of the rank; a pulled image is its identifier and the name asked for.\<close>

datatype image_body =
    ImageError string
  | ImageList "image_response list"
  | ImageDetail image_response "string \<rightharpoonup> string" string
  | SearchResults "search_result list"
  | ImagePulled string string

definition list_images_handler :: "'s podman \<Rightarrow> image_decoders \<Rightarrow> 's \<Rightarrow> image_body http \<times> 's" where
  "list_images_handler run jd s =
     (case list_images run jd s of
        (Inl e, s') \<Rightarrow> (Http 500 (ImageError ''failed to list images''), s')
      | (Inr imgs, s') \<Rightarrow> (Http 200 (ImageList (map (image_response_of jd) imgs)), s'))"

definition inspect_image_handler ::
    "(wait_status \<Rightarrow> string) \<Rightarrow> 's podman \<Rightarrow> image_decoders \<Rightarrow> gtime \<Rightarrow> string \<Rightarrow> 's \<Rightarrow> image_body http \<times> 's" where
  "inspect_image_handler ws run jd zero name s =
     (case inspect_image run jd zero name s of
        (Inl e, s') \<Rightarrow>
          (if err_is e err_image_not_found then (Http 404 (ImageError ''image not found''), s')
           else if err_is e err_image_validation then (Http 400 (ImageError (err_text ws e)), s')
           else (Http 500 (ImageError ''internal server error''), s'))
      | (Inr i, s') \<Rightarrow> (Http 200 (ImageDetail (image_response_of jd i) (ii_labels i) (rank_description (int (ii_rank i)))), s'))"

text \<open>The query's limit and \<^verbatim>\<open>no_trunc\<close> as options: \<open>None\<close> for a limit that is refused.\<close>

definition search_options_of :: "(string \<Rightarrow> string) \<Rightarrow> string \<Rightarrow> string \<Rightarrow> search_options option option" where
  "search_options_of q limit_str no_trunc =
     (if limit_str \<noteq> [] \<or> no_trunc = ''true''
      then
        (if limit_str \<noteq> []
         then
           (case atoi q limit_str of
              Inl e \<Rightarrow> None
            | Inr n \<Rightarrow> if n < 1 then None else Some (Some \<lparr>so_limit = n, so_no_trunc = (no_trunc = ''true'')\<rparr>))
         else Some (Some \<lparr>so_limit = default_search_limit, so_no_trunc = (no_trunc = ''true'')\<rparr>))
      else Some None)"

definition search_images_handler ::
    "(wait_status \<Rightarrow> string) \<Rightarrow> (string \<Rightarrow> string) \<Rightarrow> 's podman \<Rightarrow> image_decoders \<Rightarrow> string \<Rightarrow> string \<Rightarrow> string \<Rightarrow> 's \<Rightarrow>
     image_body http \<times> 's" where
  "search_images_handler ws q run jd query limit_str no_trunc s =
     (if query = [] then (Http 400 (ImageError ''query parameter 'q' is required''), s)
      else
        (case search_options_of q limit_str no_trunc of
           None \<Rightarrow> (Http 400 (ImageError ''invalid limit parameter''), s)
         | Some opts \<Rightarrow>
             (case search_images ws run jd query opts s of
                (Inl e, s') \<Rightarrow>
                  (if err_is e err_image_validation then (Http 400 (ImageError (err_text ws e)), s')
                   else if err_is e err_search_failed then (Http 502 (ImageError ''registry search failed''), s')
                   else (Http 500 (ImageError ''internal server error''), s'))
              | (Inr rs, s') \<Rightarrow> (Http 200 (SearchResults rs), s'))))"

text \<open>The decoded body of the request is an argument: the image, \<open>quiet\<close> and the platform.\<close>

definition pull_image_handler ::
    "(wait_status \<Rightarrow> string) \<Rightarrow> 's podman \<Rightarrow> (string \<times> pull_options) result \<Rightarrow> 's \<Rightarrow> image_body http \<times> 's" where
  "pull_image_handler ws run req s =
     (case req of
        Inl e \<Rightarrow> (Http 400 (ImageError (err_text ws e)), s)
      | Inr (name, opts) \<Rightarrow>
          (case pull_image ws run name (Some opts) s of
             (Inl e, s') \<Rightarrow>
               (if err_is e err_image_validation then (Http 400 (ImageError (err_text ws e)), s')
                else if err_is e err_pull_failed then (Http 500 (ImageError ''failed to pull image''), s')
                else (Http 500 (ImageError ''internal server error''), s'))
           | (Inr i, s') \<Rightarrow> (Http 200 (ImagePulled i name), s')))"

section \<open>The order of a listing\<close>

definition image_key :: "image_info \<Rightarrow> nat \<times> string \<times> string" where
  "image_key i = (ii_rank i, ii_repository i, ii_tag i)"

lemma image_less_key: "image_less a b \<longleftrightarrow> image_key a < image_key b"
  by (auto simp: image_less_def image_key_def)

lemma mset_insert_by: "mset (insert_by lt x ys) = add_mset x (mset ys)"
  by (induction ys) auto

lemma mset_fold_insert: "mset (fold (insert_by lt) xs ys) = mset xs + mset ys"
  by (induction xs arbitrary: ys) (auto simp: mset_insert_by)

lemma mset_sort_slice: "mset (sort_slice lt xs) = mset xs"
  by (simp add: sort_slice_def mset_fold_insert)

lemma set_insert_by: "set (insert_by lt x ys) = insert x (set ys)"
  by (induction ys) auto

lemma sorted_insert_by:
  assumes "\<And>a b. lt a b \<longleftrightarrow> f a < (f b :: 'k :: linorder)"
  shows "sorted (map f ys) \<Longrightarrow> sorted (map f (insert_by lt x ys))"
  by (induction ys) (auto simp: set_insert_by assms)

lemma sorted_fold_insert:
  assumes "\<And>a b. lt a b \<longleftrightarrow> f a < (f b :: 'k :: linorder)"
  shows "sorted (map f ys) \<Longrightarrow> sorted (map f (fold (insert_by lt) xs ys))"
  by (induction xs arbitrary: ys) (simp_all add: sorted_insert_by [of lt f, OF assms])

lemma sorted_sort_slice:
  assumes "\<And>a b. lt a b \<longleftrightarrow> f a < (f b :: 'k :: linorder)"
  shows "sorted (map f (sort_slice lt xs))"
  unfolding sort_slice_def by (rule sorted_fold_insert [OF assms]) simp_all

text \<open>Whatever a sorting algorithm does with equals, the sequence of keys is the same.\<close>

lemma arrangement_keys:
  assumes "\<And>a b. lt a b \<longleftrightarrow> f a < (f b :: 'k :: linorder)"
    and "mset zs = mset xs" and "sorted_wrt (\<lambda>a b. \<not> lt b a) zs"
  shows "map f zs = map f (sort_slice lt xs)"
proof -
  have "sorted (map f zs)"
    using assms(3) by (simp add: sorted_map assms(1) not_less)
  moreover have "mset (map f zs) = mset (map f (sort_slice lt xs))"
    by (simp add: assms(2) mset_sort_slice)
  ultimately show ?thesis
    using sorted_sort_slice [of lt f xs, OF assms(1)] by (metis properties_for_sort)
qed

lemma listed_compatible:
  "ii_compatible (listed_image p) \<longleftrightarrow>
    \<not> is_incompatible_image (if ii_tag (listed_image p) \<in> {[], ''latest''} then ii_repository (listed_image p)
        else ii_repository (listed_image p) @ '':'' @ ii_tag (listed_image p))"
  by (cases "pi_tag p = []"; cases "pi_tag p = ''latest''")
    (simp_all add: listed_image_def compute_compatibility_rank_def is_compatible_def ranks Let_def)

definition listing_lines :: "string \<Rightarrow> string list" where
  "listing_lines out = filter (\<lambda>l. l \<noteq> []) (split_on (CHR 0x0A) (trim_space out))"

text \<open>C38: A listing of images that podman prints as one readable JSON object for each line is answered with every image
  but the dangling ones, the best rank first, then by repository and tag; a sort that leaves equals in another order shows the
  same ranks, repositories and tags. An image is called compatible exactly when its name is none of the incompatible ones.
  One line that cannot be read makes the whole request fail.
\<close>

theorem images_listed_exact:
  assumes "run list_images_command [] s = ((out, None), s')"
  shows "(list_all (\<lambda>l. \<not> isl (id_listing jd l)) (listing_lines out) \<longrightarrow>
      (let shown = map listed_image (filter (\<lambda>p. pi_repository p \<noteq> ''<none>'') (decoded (id_listing jd) (listing_lines out)))
       in \<exists>imgs. list_images_handler run jd s = (Http 200 (ImageList (map (image_response_of jd) imgs)), s') \<and> mset imgs = mset shown \<and>
            sorted_wrt (\<lambda>a b. \<not> image_less b a) imgs \<and>
            (\<forall>zs. mset zs = mset shown \<and> sorted_wrt (\<lambda>a b. \<not> image_less b a) zs \<longrightarrow> map image_key zs = map image_key imgs) \<and>
            (\<forall>i \<in> set imgs. ii_compatible i \<longleftrightarrow>
               \<not> is_incompatible_image (if ii_tag i \<in> {[], ''latest''} then ii_repository i else ii_repository i @ '':'' @ ii_tag i)))) \<and>
    (list_ex (\<lambda>l. isl (id_listing jd l)) (listing_lines out) \<longrightarrow>
      list_images_handler run jd s = (Http 500 (ImageError ''failed to list images''), s'))"
proof (intro conjI impI)
  let ?ls = "split_on (CHR 0x0A) (trim_space out)"
  let ?dec = "id_listing jd"
  let ?shown = "map listed_image (filter (\<lambda>p. pi_repository p \<noteq> ''<none>'') (decoded ?dec (listing_lines out)))"
  assume a: "list_all (\<lambda>l. \<not> isl (?dec l)) (listing_lines out)"
  have d: "decoded ?dec (listing_lines out) = decoded ?dec ?ls"
    by (simp add: decoded_def listing_lines_def)
  have "json_lines ''failed to parse image info: '' ?dec ?ls = Inr (decoded ?dec (listing_lines out))"
    unfolding d using a by (intro json_lines_ok) (auto simp: listing_lines_def list_all_iff)
  then have l: "list_images_handler run jd s = (Http 200 (ImageList (map (image_response_of jd) (sort_by_compatibility ?shown))), s')"
    using assms by (simp add: list_images_handler_def list_images_def)
  have s: "sorted_wrt (\<lambda>a b. \<not> image_less b a) (sort_by_compatibility ?shown)"
    using sorted_sort_slice [of image_less image_key ?shown, OF image_less_key]
    by (simp add: sort_by_compatibility_def sorted_map image_less_key not_less)
  have m: "mset (sort_by_compatibility ?shown) = mset ?shown"
    by (simp add: sort_by_compatibility_def mset_sort_slice)
  have c: "ii_compatible i \<longleftrightarrow>
      \<not> is_incompatible_image (if ii_tag i \<in> {[], ''latest''} then ii_repository i else ii_repository i @ '':'' @ ii_tag i)"
    if "i \<in> set (sort_by_compatibility ?shown)" for i
    using that mset_eq_setD [OF m] listed_compatible by fastforce
  have u: "map image_key zs = map image_key (sort_by_compatibility ?shown)"
    if "mset zs = mset ?shown" "sorted_wrt (\<lambda>a b. \<not> image_less b a) zs" for zs
    unfolding sort_by_compatibility_def by (rule arrangement_keys [OF image_less_key that])
  show "let shown = ?shown
       in \<exists>imgs. list_images_handler run jd s = (Http 200 (ImageList (map (image_response_of jd) imgs)), s') \<and> mset imgs = mset shown \<and>
            sorted_wrt (\<lambda>a b. \<not> image_less b a) imgs \<and>
            (\<forall>zs. mset zs = mset shown \<and> sorted_wrt (\<lambda>a b. \<not> image_less b a) zs \<longrightarrow> map image_key zs = map image_key imgs) \<and>
            (\<forall>i \<in> set imgs. ii_compatible i \<longleftrightarrow>
               \<not> is_incompatible_image (if ii_tag i \<in> {[], ''latest''} then ii_repository i else ii_repository i @ '':'' @ ii_tag i))"
    unfolding Let_def using l m s u c by blast
next
  assume "list_ex (\<lambda>l. isl (id_listing jd l)) (listing_lines out)"
  then obtain l e where "l \<in> set (split_on (CHR 0x0A) (trim_space out))" "l \<noteq> []" "id_listing jd l = Inl e"
    by (auto simp: list_ex_iff listing_lines_def isl_def)
  then have "\<exists>e'. json_lines ''failed to parse image info: '' (id_listing jd) (split_on (CHR 0x0A) (trim_space out)) =
      Inl (Wrap ''failed to parse image info: '' e' [])"
    by (rule json_lines_fails)
  then show "list_images_handler run jd s = (Http 500 (ImageError ''failed to list images''), s')"
    using assms by (auto simp: list_images_handler_def list_images_def)
qed

section \<open>Names stay operands\<close>

definition takes_value :: "string \<Rightarrow> bool" where
  "takes_value w \<longleftrightarrow> w \<in> {''--format'', ''--limit'', ''--platform'', ''--type''}"

lemma alnum_not_dash: "\<not> alnum (CHR ''-'')"
  by (simp add: alnum_def)

lemma regex_operand: "image_name_regex s \<Longrightarrow> \<not> has_prefix s ''-''"
  by (cases s) (auto simp: image_name_regex_def alnum_not_dash)

lemma query_operand: "image_name_regex s \<Longrightarrow> \<not> has_prefix (normalize_search_query s) ''-''"
  by (auto simp: normalize_search_query_def Let_def regex_operand)

lemma valid_name_regex: "validate_image_name n = None \<Longrightarrow> image_name_regex n"
  by (auto simp: validate_image_name_def split: if_splits)

lemma options [simp]:
  "read_words takes_value (''--limit'' # v # ws) = map_option (\<lambda>(os, fs). (os, (''--limit'', Some v) # fs)) (read_words takes_value ws)"
  "read_words takes_value (''--format'' # v # ws) = map_option (\<lambda>(os, fs). (os, (''--format'', Some v) # fs)) (read_words takes_value ws)"
  "read_words takes_value (''--platform'' # v # ws) = map_option (\<lambda>(os, fs). (os, (''--platform'', Some v) # fs)) (read_words takes_value ws)"
  "read_words takes_value (''--type'' # v # ws) = map_option (\<lambda>(os, fs). (os, (''--type'', Some v) # fs)) (read_words takes_value ws)"
  "read_words takes_value (''--quiet'' # ws) = map_option (\<lambda>(os, fs). (os, (''--quiet'', None) # fs)) (read_words takes_value ws)"
  "read_words takes_value (''--no-trunc'' # ws) = map_option (\<lambda>(os, fs). (os, (''--no-trunc'', None) # fs)) (read_words takes_value ws)"
  by (simp_all add: read_valued read_flag takes_value_def)

lemma pull_observed:
  assumes "cmd \<in> set (snd (pull_image_handler ws (observe answer) (Inr (name, o1)) []))"
  shows "cmd = pull_command name (Some o1) \<and> validate_image_name name = None"
proof (cases "validate_image_name name")
  case None
  obtain out r where "answer (pull_command name (Some o1)) = (out, r)" by fastforce
  with None assms show ?thesis
    by (cases r) (simp_all add: pull_image_handler_def pull_image_def observe_def split: if_splits)
qed (use assms in \<open>simp add: pull_image_handler_def pull_image_def split: if_splits\<close>)

lemma inspect_observed:
  assumes "cmd \<in> set (snd (inspect_image_handler ws (observe answer) jd zero name []))"
  shows "cmd = inspect_image_command name \<and> validate_image_name name = None"
proof (cases "validate_image_name name")
  case None
  obtain out r where "answer (inspect_image_command name) = (out, r)" by fastforce
  with None assms show ?thesis
    by (cases r; cases "id_inspect jd out")
      (simp_all add: inspect_image_handler_def inspect_image_def observe_def split: if_splits list.splits)
qed (use assms in \<open>simp add: inspect_image_handler_def inspect_image_def split: if_splits\<close>)

lemma search_observed:
  assumes "cmd \<in> set (snd (search_images_handler ws q (observe answer) jd name limit_str no_trunc []))"
  shows "\<exists>opts. cmd = search_command name opts \<and> image_name_regex name \<and> search_options_of q limit_str no_trunc = Some opts"
proof (cases "name = [] \<or> length name > max_image_name_length \<or> \<not> image_name_regex name")
  case True
  then show ?thesis
    using assms by (auto simp: search_images_handler_def search_images_def split: if_splits option.splits)
next
  case False
  then obtain opts where o: "search_options_of q limit_str no_trunc = Some opts"
    using assms by (auto simp: search_images_handler_def split: option.splits)
  obtain out r where "answer (search_command name opts) = (out, r)" by fastforce
  with False o assms have "cmd = search_command name opts"
    by (cases r; cases "id_search jd out")
      (simp_all add: search_images_handler_def search_images_def observe_def split: if_splits)
  then show ?thesis using o False by blast
qed

text \<open>C39: Whatever a request names, podman reads the words of the registry's commands as one operand, the image or the query of
  the request, and the options the code means: a pull its quiet mode and platform, a search the number of results,
  which is from 1 to 100, and whether to truncate. A name that could be taken for an option is refused before.
\<close>

theorem image_words_exact:
  assumes "cmd \<in> set (snd (pull_image_handler ws (observe answer) (Inr (name, o1)) [])) \<union>
      set (snd (inspect_image_handler ws (observe answer) jd zero name [])) \<union>
      set (snd (search_images_handler ws q (observe answer) jd name limit_str no_trunc []))"
  shows "image_name_regex name \<and>
    (read_words takes_value (drop 2 cmd) = Some ([name],
       (if po_quiet o1 then [(''--quiet'', None)] else []) @
       (if po_platform o1 \<noteq> [] then [(''--platform'', Some (po_platform o1))] else [])) \<or>
     read_words takes_value (drop 2 cmd) = Some ([name], [(''--type'', Some ''image'')]) \<or>
     (\<exists>n. 1 \<le> n \<and> n \<le> 100 \<and> read_words takes_value (drop 2 cmd) = Some ([normalize_search_query name],
       [(''--format'', Some ''json''), (''--limit'', Some (show_int n))] @
       (if no_trunc = ''true'' then [(''--no-trunc'', None)] else []))))"
proof -
  consider
      (pull) "cmd = pull_command name (Some o1)" "validate_image_name name = None"
    | (inspect) "cmd = inspect_image_command name" "validate_image_name name = None"
    | (search) opts where "cmd = search_command name opts" "image_name_regex name"
        "search_options_of q limit_str no_trunc = Some opts"
    using assms by (elim UnE) (use pull_observed inspect_observed search_observed in metis)+
  then show ?thesis
  proof cases
    case pull
    then have n: "image_name_regex name" "\<not> has_prefix name ''-''"
      by (simp_all add: valid_name_regex regex_operand)
    have "read_words takes_value (drop 2 cmd) = Some ([name],
       (if po_quiet o1 then [(''--quiet'', None)] else []) @
       (if po_platform o1 \<noteq> [] then [(''--platform'', Some (po_platform o1))] else []))"
      using n(2) by (simp add: pull(1) pull_command_def read_operand)
    with n(1) show ?thesis by blast
  next
    case inspect
    then have n: "image_name_regex name" "\<not> has_prefix name ''-''"
      by (simp_all add: valid_name_regex regex_operand)
    have "read_words takes_value (drop 2 cmd) = Some ([name], [(''--type'', Some ''image'')])"
      using n(2) by (simp add: inspect(1) inspect_image_command_def read_operand)
    with n(1) show ?thesis by blast
  next
    case search
    have n: "\<not> has_prefix (normalize_search_query name) ''-''"
      using search(2) by (rule query_operand)
    let ?n = "case opts of None \<Rightarrow> default_search_limit | Some o2 \<Rightarrow> min (so_limit o2) max_search_limit"
    have b: "1 \<le> ?n" "?n \<le> 100"
      using search(3)
      by (auto simp: search_options_of_def default_search_limit_def max_search_limit_def split: if_splits sum.splits option.split)
    have "search_command name opts = [''podman'', ''search'', normalize_search_query name, ''--format'', ''json''] @
        [''--limit'', show_int ?n] @ (if no_trunc = ''true'' then [''--no-trunc''] else [])"
      using search(3)
      by (auto simp: search_command_def search_options_of_def default_search_limit_def max_search_limit_def
          split: if_splits sum.splits)
    then have "read_words takes_value (drop 2 cmd) = Some ([normalize_search_query name],
       [(''--format'', Some ''json''), (''--limit'', Some (show_int ?n))] @
       (if no_trunc = ''true'' then [(''--no-trunc'', None)] else []))"
      using n by (simp add: search(1) read_operand)
    then show ?thesis using b search(2) by blast
  qed
qed

text \<open>An image whose label says that it is not compatible is reported as compatible all the same, unless its name is one of
  the incompatible ones.\<close>

lemma incompatible_label_ignored:
  assumes "pr_labels r label_compatible = Some ''false''" and "\<not> is_incompatible_image name'"
    and "name' = (let (repo, tag) = parse_repo_tag (pr_repo_tags r) name in if tag \<noteq> [] \<and> tag \<noteq> ''latest'' then repo @ '':'' @ tag else repo)"
  shows "ii_compatible (inspected_image jd zero name r)"
  using assms by (auto simp: inspected_image_def compute_compatibility_rank_def is_compatible_def ranks Let_def split: prod.splits)

text \<open>A tag is split off at the last colon, which in a name without one belongs to the registry's port.\<close>

lemma repo_and_tag_exact:
  assumes "CHR '':'' \<notin> set tag"
  shows "repo_and_tag (repo @ '':'' @ tag) = (repo, tag)"
proof -
  have "split_on (CHR '':'') (repo @ CHR '':'' # tag) = split_on (CHR '':'') repo @ [tag]"
  proof (induction repo)
    case Nil
    then show ?case using assms by (simp add: split_on_id)
  next
    case (Cons c repo)
    then show ?case by (cases "split_on (CHR '':'') repo") (auto simp: Let_def)
  qed
  then show ?thesis
    by (auto simp: repo_and_tag_def Let_def join_split Suc_le_eq)
qed

lemma repo_port_gap: "parse_repo_tag [] ''localhost:5000/tool'' = (''localhost'', ''5000/tool'')"
  by code_simp

section \<open>Instances\<close>

definition sample_listing :: "string \<Rightarrow> podman_image_info result" where
  "sample_listing l =
     (if l = ''a'' then Inr \<lparr>pi_id = ''1'', pi_repository = ''acme/tool'', pi_tag = ''1-alpine'', pi_size = 5, pi_created = 0, pi_names = []\<rparr>
      else if l = ''b'' then Inr \<lparr>pi_id = ''2'', pi_repository = ''python'', pi_tag = ''3.12'', pi_size = 7, pi_created = 0, pi_names = []\<rparr>
      else if l = ''c'' then Inr \<lparr>pi_id = ''3'', pi_repository = ''<none>'', pi_tag = ''<none>'', pi_size = 1, pi_created = 0, pi_names = []\<rparr>
      else Inl (Msg ''invalid character''))"

definition sample_image_decoders :: image_decoders where
  "sample_image_decoders =
     \<lparr>id_listing = sample_listing, id_inspect = (\<lambda>_. Inr []), id_search = (\<lambda>_. Inr []), id_time = (\<lambda>_. Inl (Msg ''no time'')),
      id_stamp = (\<lambda>_. ''1970-01-01T00:00:00Z'')\<rparr>"

definition sample_podman :: "nat podman" where
  "sample_podman cmd inp n = ((''a'' @ [CHR 0x0A] @ ''b'' @ [CHR 0x0A] @ ''c'', None), n + 1)"

theorem images_listed_exact_witness:
  "\<exists>imgs. list_images_handler sample_podman sample_image_decoders 0 =
       (Http 200 (ImageList (map (image_response_of sample_image_decoders) imgs)), 1) \<and>
     mset imgs = mset [listed_image (projr (sample_listing ''a'')), listed_image (projr (sample_listing ''b''))] \<and>
     sorted_wrt (\<lambda>a b. \<not> image_less b a) imgs"
proof -
  let ?out = "''a'' @ [CHR 0x0A] @ ''b'' @ [CHR 0x0A] @ ''c''"
  have run: "sample_podman list_images_command [] 0 = ((?out, None), 1)" by (simp add: sample_podman_def)
  have ls: "listing_lines ?out = [''a'', ''b'', ''c'']" by code_simp
  have ok: "list_all (\<lambda>l. \<not> isl (id_listing sample_image_decoders l)) (listing_lines ?out)"
    unfolding ls by (simp add: sample_image_decoders_def sample_listing_def)
  have d: "filter (\<lambda>p. pi_repository p \<noteq> ''<none>'') (decoded (id_listing sample_image_decoders) (listing_lines ?out)) =
      [projr (sample_listing ''a''), projr (sample_listing ''b'')]"
    unfolding ls by (simp add: decoded_def map_filter_simps sample_image_decoders_def sample_listing_def)
  from images_listed_exact [where run = sample_podman and s = 0, OF run, of sample_image_decoders, THEN conjunct1, THEN mp, OF ok]
  show ?thesis
    unfolding d Let_def by (elim exE conjE) (metis (no_types, lifting) list.simps(8,9))
qed

theorem image_words_exact_witness:
  "image_name_regex ''python:3.12'' \<and> \<not> image_name_regex ''--all''"
proof -
  let ?cmd = "pull_command ''python:3.12'' (Some \<lparr>po_quiet = True, po_platform = []\<rparr>)"
  have v: "validate_image_name ''python:3.12'' = None" "\<not> image_name_regex ''--all''" by code_simp+
  have "?cmd \<in> set (snd (pull_image_handler (\<lambda>_. []) (observe (\<lambda>_. ([], None))) (Inr (''python:3.12'', \<lparr>po_quiet = True, po_platform = []\<rparr>)) []))"
    using v(1) by (simp add: pull_image_handler_def pull_image_def observe_def)
  then have "?cmd \<in> set (snd (pull_image_handler (\<lambda>_. []) (observe (\<lambda>_. ([], None))) (Inr (''python:3.12'', \<lparr>po_quiet = True, po_platform = []\<rparr>)) [])) \<union>
      set (snd (inspect_image_handler (\<lambda>_. []) (observe (\<lambda>_. ([], None))) sample_image_decoders 0 ''python:3.12'' [])) \<union>
      set (snd (search_images_handler (\<lambda>_. []) (\<lambda>x. x) (observe (\<lambda>_. ([], None))) sample_image_decoders ''python:3.12'' [] [] []))"
    by blast
  from image_words_exact [OF this] v(2) show ?thesis by blast
qed

end
