(* ===== verification/Secret_Registry.thy ===== *)
theory Secret_Registry
  imports Podman_Cli
begin

text \<open>
  The registry of secrets, \<^verbatim>\<open>internal/secrets/registry.go\<close>, and its endpoints, \<^verbatim>\<open>internal/api/secrets_handlers.go\<close>. Podman
  and its store of secrets are the executor \<open>run\<close> with its state; what podman documents of the secret commands is
  \<open>podman_secrets\<close>.
\<close>

section \<open>Names\<close>

definition err_secret_not_found :: go_error where
  "err_secret_not_found = Sentinel ''secrets.ErrSecretNotFound'' ''secret not found''"

definition err_secret_already_exists :: go_error where
  "err_secret_already_exists = Sentinel ''secrets.ErrSecretAlreadyExists'' ''secret already exists''"

definition err_secret_validation :: go_error where
  "err_secret_validation = Sentinel ''secrets.ErrValidation'' ''validation error''"

lemmas secret_errors = err_secret_not_found_def err_secret_already_exists_def err_secret_validation_def

definition secret_name_char :: "char \<Rightarrow> bool" where
  "secret_name_char c \<longleftrightarrow>
     (let n = (of_char c :: nat)
      in (48 \<le> n \<and> n \<le> 57) \<or> (65 \<le> n \<and> n \<le> 90) \<or> (97 \<le> n \<and> n \<le> 122) \<or> c = CHR ''_'' \<or> c = CHR ''-'')"

definition max_secret_name_length :: nat where
  "max_secret_name_length = 253"

definition max_secret_value_size :: int where
  "max_secret_value_size = 1024 * 1024"

definition validate_secret_name :: "string \<Rightarrow> go_error option" where
  "validate_secret_name name =
     (if name = [] then Some (Wrap [] err_secret_validation '': secret name cannot be empty'')
      else if length name > max_secret_name_length
      then Some (Wrap [] err_secret_validation
                   ('': secret name exceeds maximum length of '' @ show_nat max_secret_name_length @ '' characters''))
      else if \<not> list_all secret_name_char name
      then Some (Wrap [] err_secret_validation
                   '': secret name contains invalid characters (only alphanumeric, dashes, and underscores allowed)'')
      else None)"

section \<open>The registry's operations\<close>

record secret_info =
  si_id :: string
  si_name :: string
  si_created :: string
  si_updated :: string

record secret_decoders =
  sd_listing :: "string \<Rightarrow> secret_info result"
  sd_inspect :: "string \<Rightarrow> secret_info list result"

definition no_such_secret :: string where
  "no_such_secret = ''no secret with name or id''"

definition create_command :: "string \<Rightarrow> string list" where
  "create_command name = [''podman'', ''secret'', ''create'', name, ''-'']"

definition registry_create :: "(string \<Rightarrow> string) \<Rightarrow> 's podman \<Rightarrow> string \<Rightarrow> string \<Rightarrow> 's \<Rightarrow> go_error option \<times> 's" where
  "registry_create q run name v s =
     (case validate_secret_name name of
        Some e \<Rightarrow> (Some (Wrap (''secrets: create '' @ q name @ '': '') e []), s)
      | None \<Rightarrow>
          if v = [] then (Some (Wrap [] err_secret_validation '': secret value cannot be empty''), s)
          else if int (length v) > max_secret_value_size
          then (Some (Wrap [] err_secret_validation
                  ('': secret value exceeds maximum size of '' @ show_int max_secret_value_size @ '' bytes'')), s)
          else
            (case run (create_command name) v s of
               ((out, Some e), s') \<Rightarrow>
                 (if str_contains out ''already exists'' then (Some err_secret_already_exists, s')
                  else (Some (Wrap ''failed to create secret: '' e []), s'))
             | ((out, None), s') \<Rightarrow> (None, s')))"

definition list_command :: "string list" where
  "list_command = [''podman'', ''secret'', ''ls'', ''--format'', ''{{json .}}'']"

definition list_secrets :: "'s podman \<Rightarrow> secret_decoders \<Rightarrow> 's \<Rightarrow> secret_info list result \<times> 's" where
  "list_secrets run jd s =
     (case run list_command [] s of
        ((_, Some e), s') \<Rightarrow> (Inl (Wrap ''failed to list secrets: '' e []), s')
      | ((out, None), s') \<Rightarrow>
          (json_lines ''failed to parse secret info: '' (sd_listing jd) (split_on (CHR 0x0A) (trim_space out)), s'))"

definition inspect_command :: "string \<Rightarrow> string list" where
  "inspect_command name = [''podman'', ''secret'', ''inspect'', name]"

definition inspect_secret :: "'s podman \<Rightarrow> secret_decoders \<Rightarrow> string \<Rightarrow> 's \<Rightarrow> secret_info result \<times> 's" where
  "inspect_secret run jd name s =
     (case validate_secret_name name of
        Some e \<Rightarrow> (Inl e, s)
      | None \<Rightarrow>
          (case run (inspect_command name) [] s of
             ((out, Some e), s') \<Rightarrow>
               (if str_contains out no_such_secret then (Inl err_secret_not_found, s')
                else (Inl (Wrap ''failed to inspect secret: '' e []), s'))
           | ((out, None), s') \<Rightarrow>
               (case sd_inspect jd out of
                  Inl e \<Rightarrow> (Inl (Wrap ''failed to parse secret info: '' e []), s')
                | Inr [] \<Rightarrow> (Inl err_secret_not_found, s')
                | Inr (r # _) \<Rightarrow> (Inr r, s'))))"

definition delete_command :: "string \<Rightarrow> string list" where
  "delete_command name = [''podman'', ''secret'', ''rm'', name]"

definition delete_secret :: "'s podman \<Rightarrow> string \<Rightarrow> 's \<Rightarrow> go_error option \<times> 's" where
  "delete_secret run name s =
     (case validate_secret_name name of
        Some e \<Rightarrow> (Some e, s)
      | None \<Rightarrow>
          (case run (delete_command name) [] s of
             ((out, Some e), s') \<Rightarrow>
               (if str_contains out no_such_secret then (Some err_secret_not_found, s')
                else (Some (Wrap ''failed to delete secret: '' e []), s'))
           | ((out, None), s') \<Rightarrow> (None, s')))"

definition exists_command :: "string \<Rightarrow> string list" where
  "exists_command name = [''podman'', ''secret'', ''exists'', name]"

definition registry_exists :: "'s podman \<Rightarrow> string \<Rightarrow> 's \<Rightarrow> bool result \<times> 's" where
  "registry_exists run name s =
     (case validate_secret_name name of
        Some e \<Rightarrow> (Inl e, s)
      | None \<Rightarrow>
          (case run (exists_command name) [] s of
             ((_, Some e), s') \<Rightarrow> (Inr False, s')
           | ((_, None), s') \<Rightarrow> (Inr True, s')))"

section \<open>The endpoints\<close>

text \<open>A secret is answered with its identifier, name and creation time; a failed request with the name it was for, or none.\<close>

datatype secret_body =
    SecretError string
  | SecretList "(string \<times> string \<times> string) list"
  | SecretDetail "string \<times> string \<times> string"
  | SecretDone string
  | SecretFailed string string

definition secret_response :: "secret_info \<Rightarrow> string \<times> string \<times> string" where
  "secret_response i = (si_id i, si_name i, si_created i)"

definition list_secrets_handler :: "'s podman \<Rightarrow> secret_decoders \<Rightarrow> 's \<Rightarrow> secret_body http \<times> 's" where
  "list_secrets_handler run jd s =
     (case list_secrets run jd s of
        (Inl e, s') \<Rightarrow> (Http 500 (SecretError ''failed to list secrets''), s')
      | (Inr xs, s') \<Rightarrow> (Http 200 (SecretList (map secret_response xs)), s'))"

text \<open>The decoded body, a name and a value, is an argument.\<close>

definition create_secret_handler ::
    "(wait_status \<Rightarrow> string) \<Rightarrow> (string \<Rightarrow> string) \<Rightarrow> 's podman \<Rightarrow> (string \<times> string) result \<Rightarrow> 's \<Rightarrow> secret_body http \<times> 's" where
  "create_secret_handler ws q run req s =
     (case req of
        Inl e \<Rightarrow> (Http 400 (SecretFailed [] (err_text ws e)), s)
      | Inr (name, v) \<Rightarrow>
          (case registry_create q run name v s of
             (Some e, s') \<Rightarrow>
               (if err_is e err_secret_already_exists then (Http 409 (SecretFailed name ''secret already exists''), s')
                else if err_is e err_secret_validation then (Http 400 (SecretFailed [] (err_text ws e)), s')
                else (Http 500 (SecretFailed [] ''failed to create secret''), s'))
           | (None, s') \<Rightarrow> (Http 201 (SecretDone name), s')))"

definition get_secret_handler ::
    "(wait_status \<Rightarrow> string) \<Rightarrow> 's podman \<Rightarrow> secret_decoders \<Rightarrow> string \<Rightarrow> 's \<Rightarrow> secret_body http \<times> 's" where
  "get_secret_handler ws run jd name s =
     (case inspect_secret run jd name s of
        (Inl e, s') \<Rightarrow>
          (if err_is e err_secret_not_found then (Http 404 (SecretError ''secret not found''), s')
           else if err_is e err_secret_validation then (Http 400 (SecretError (err_text ws e)), s')
           else (Http 500 (SecretError ''internal server error''), s'))
      | (Inr i, s') \<Rightarrow> (Http 200 (SecretDetail (secret_response i)), s'))"

definition delete_secret_handler :: "(wait_status \<Rightarrow> string) \<Rightarrow> 's podman \<Rightarrow> string \<Rightarrow> 's \<Rightarrow> secret_body http \<times> 's" where
  "delete_secret_handler ws run name s =
     (case delete_secret run name s of
        (Some e, s') \<Rightarrow>
          (if err_is e err_secret_not_found then (Http 404 (SecretFailed name ''secret not found''), s')
           else if err_is e err_secret_validation then (Http 400 (SecretFailed name (err_text ws e)), s')
           else (Http 500 (SecretFailed name ''failed to delete secret''), s'))
      | (None, s') \<Rightarrow> (Http 200 (SecretDone name), s'))"

section \<open>The registry as a map\<close>

text \<open>
  What podman documents of its secret commands, with \<open>held\<close> for the store as a map from names to values. The operand
  of a command is a word that does not start with a dash. What podman prints when a name is in use is \<open>in_use\<close>. An operand that is no name can still be the identifier of a secret,
  so the laws are for names of which none is an identifier.
\<close>

definition podman_secrets :: "string \<Rightarrow> 's podman \<Rightarrow> secret_decoders \<Rightarrow> ('s \<Rightarrow> (string \<rightharpoonup> string)) \<Rightarrow> bool" where
  "podman_secrets in_use run jd held \<longleftrightarrow>
     (\<forall>name v s. name \<noteq> [] \<and> \<not> has_prefix name ''-'' \<longrightarrow>
        (case held s name of
           None \<Rightarrow>
             (\<exists>out s'. run (create_command name) v s = ((out, None), s') \<and> held s' = (held s)(name \<mapsto> v)) \<and>
             (\<exists>out e s'. run (inspect_command name) [] s = ((out, Some e), s') \<and> str_contains out no_such_secret \<and> held s' = held s) \<and>
             (\<exists>out e s'. run (delete_command name) [] s = ((out, Some e), s') \<and> str_contains out no_such_secret \<and> held s' = held s) \<and>
             (\<exists>out e s'. run (exists_command name) [] s = ((out, Some e), s') \<and> held s' = held s)
         | Some old \<Rightarrow>
             (\<exists>w s'. run (create_command name) v s = ((in_use, Some (ExitError w)), s') \<and> held s' = held s) \<and>
             (\<exists>out i s'. run (inspect_command name) [] s = ((out, None), s') \<and> sd_inspect jd out = Inr [i] \<and> si_name i = name \<and>
                held s' = held s) \<and>
             (\<exists>out s'. run (delete_command name) [] s = ((out, None), s') \<and> held s' = (held s)(name := None)) \<and>
             (\<exists>out s'. run (exists_command name) [] s = ((out, None), s') \<and> held s' = held s)))"

text \<open>The abstract endpoints: a status code, \<open>taken\<close> for a name in use, and the new map.\<close>

datatype secret_op = CreateSecret string string | GetSecret string | DeleteSecret string

definition name_ok :: "string \<Rightarrow> bool" where
  "name_ok name \<longleftrightarrow> name \<noteq> [] \<and> length name \<le> 253 \<and> list_all secret_name_char name"

fun secret_spec :: "nat \<Rightarrow> secret_op \<Rightarrow> (string \<rightharpoonup> string) \<Rightarrow> nat \<times> (string \<rightharpoonup> string)" where
  "secret_spec taken (CreateSecret name v) m =
     (if \<not> name_ok name \<or> v = [] \<or> int (length v) > 1048576 then (400, m)
      else if m name \<noteq> None then (taken, m) else (201, m(name \<mapsto> v)))"
| "secret_spec taken (GetSecret name) m = (if \<not> name_ok name then 400 else if m name = None then 404 else 200, m)"
| "secret_spec taken (DeleteSecret name) m =
     (if \<not> name_ok name then (400, m) else if m name = None then (404, m) else (200, m(name := None)))"

fun secret_step ::
    "(wait_status \<Rightarrow> string) \<Rightarrow> (string \<Rightarrow> string) \<Rightarrow> 's podman \<Rightarrow> secret_decoders \<Rightarrow> secret_op \<Rightarrow> 's \<Rightarrow> secret_body http \<times> 's" where
  "secret_step ws q run jd (CreateSecret name v) s = create_secret_handler ws q run (Inr (name, v)) s"
| "secret_step ws q run jd (GetSecret name) s = get_secret_handler ws run jd name s"
| "secret_step ws q run jd (DeleteSecret name) s = delete_secret_handler ws run name s"

fun secret_run ::
    "(wait_status \<Rightarrow> string) \<Rightarrow> (string \<Rightarrow> string) \<Rightarrow> 's podman \<Rightarrow> secret_decoders \<Rightarrow> secret_op list \<Rightarrow> 's \<Rightarrow> nat list \<times> 's" where
  "secret_run ws q run jd [] s = ([], s)"
| "secret_run ws q run jd (op # ops) s =
     (let (r, s1) = secret_step ws q run jd op s; (cs, s2) = secret_run ws q run jd ops s1 in (http_code r # cs, s2))"

fun spec_run :: "nat \<Rightarrow> secret_op list \<Rightarrow> (string \<rightharpoonup> string) \<Rightarrow> nat list \<times> (string \<rightharpoonup> string)" where
  "spec_run taken [] m = ([], m)"
| "spec_run taken (op # ops) m = (let (c, m1) = secret_spec taken op m; (cs, m2) = spec_run taken ops m1 in (c # cs, m2))"

fun op_name :: "secret_op \<Rightarrow> string" where
  "op_name (CreateSecret name v) = name"
| "op_name (GetSecret name) = name"
| "op_name (DeleteSecret name) = name"

lemma validate_secret_name_None: "validate_secret_name name = None \<longleftrightarrow> name_ok name"
  by (auto simp: validate_secret_name_def name_ok_def max_secret_name_length_def)

lemma validate_secret_name_Some: "validate_secret_name name = Some e \<Longrightarrow> \<exists>t. e = Wrap [] err_secret_validation t"
  by (auto simp: validate_secret_name_def split: if_splits)

definition conflict_code :: "string \<Rightarrow> nat" where
  "conflict_code in_use = (if str_contains in_use ''already exists'' then 409 else 500)"

lemma secret_step_refines:
  assumes "podman_secrets in_use run jd held" and "\<not> has_prefix (op_name op) ''-''"
  shows "\<exists>r s'. secret_step ws q run jd op s = (r, s') \<and> secret_spec (conflict_code in_use) op (held s) = (http_code r, held s')"
proof -
  let ?n = "op_name op"
  note sent = secret_errors
  show ?thesis
  proof (cases "name_ok ?n")
    case False
    then obtain t where t: "validate_secret_name ?n = Some (Wrap [] err_secret_validation t)"
      using validate_secret_name_None validate_secret_name_Some by blast
    then show ?thesis
      using False
      by (cases op) (simp_all add: create_secret_handler_def registry_create_def get_secret_handler_def inspect_secret_def
          delete_secret_handler_def delete_secret_def sent)
  next
    case True
    then have v: "validate_secret_name ?n = None" and ne: "?n \<noteq> []"
      by (simp_all add: validate_secret_name_None name_ok_def)
    note law = assms(1) [unfolded podman_secrets_def, rule_format, OF conjI [OF ne assms(2)]]
    show ?thesis
    proof (cases op)
      case (CreateSecret name v')
      with law [where s = s and v = v'] v True show ?thesis
        by (cases "held s name")
          (auto simp: create_secret_handler_def registry_create_def sent conflict_code_def max_secret_value_size_def)
    next
      case (GetSecret name)
      with law [where s = s and v = "[]"] v True show ?thesis
        by (cases "held s name") (auto simp: get_secret_handler_def inspect_secret_def sent)
    next
      case (DeleteSecret name)
      with law [where s = s and v = "[]"] v True show ?thesis
        by (cases "held s name") (auto simp: delete_secret_handler_def delete_secret_def sent)
    qed
  qed
qed


section \<open>A podman to run against\<close>

definition map_podman :: "(string \<rightharpoonup> string) podman" where
  "map_podman cmd inp m =
     (let verb = cmd ! 2; name = cmd ! 3
      in if verb = ''create''
         then (if m name = None then (([], None), m(name \<mapsto> inp)) else ((''already exists'', Some (ExitError (Exited 125))), m))
         else if m name = None then ((no_such_secret, Some (ExitError (Exited 1))), m)
         else if verb = ''rm'' then (([], None), m(name := None))
         else ((name, None), m))"

definition map_decoders :: secret_decoders where
  "map_decoders =
     \<lparr>sd_listing = (\<lambda>_. Inl (Msg [])),
      sd_inspect = (\<lambda>out. Inr [\<lparr>si_id = [], si_name = out, si_created = [], si_updated = []\<rparr>])\<rparr>"

lemma contains_self: "str_contains s s"
  by (simp add: str_contains_sublist)

lemma map_podman_create:
  "map_podman (create_command name) v m =
     (if m name = None then (([], None), m(name \<mapsto> v)) else ((''already exists'', Some (ExitError (Exited 125))), m))"
  by (simp add: map_podman_def create_command_def)

lemma map_podman_other:
  "map_podman (inspect_command name) v m =
     (if m name = None then ((no_such_secret, Some (ExitError (Exited 1))), m) else ((name, None), m))"
  "map_podman (delete_command name) v m =
     (if m name = None then ((no_such_secret, Some (ExitError (Exited 1))), m) else (([], None), m(name := None)))"
  "map_podman (exists_command name) v m =
     (if m name = None then ((no_such_secret, Some (ExitError (Exited 1))), m) else ((name, None), m))"
  by (simp_all add: map_podman_def inspect_command_def delete_command_def exists_command_def Let_def)

lemma map_podman_laws: "podman_secrets ''already exists'' map_podman map_decoders (\<lambda>m. m)"
  unfolding podman_secrets_def
proof (intro allI impI)
  fix name v and s :: "string \<rightharpoonup> string"
  show "case s name of
      None \<Rightarrow>
        (\<exists>out s'. map_podman (create_command name) v s = ((out, None), s') \<and> s' = s(name \<mapsto> v)) \<and>
        (\<exists>out e s'. map_podman (inspect_command name) [] s = ((out, Some e), s') \<and> str_contains out no_such_secret \<and> s' = s) \<and>
        (\<exists>out e s'. map_podman (delete_command name) [] s = ((out, Some e), s') \<and> str_contains out no_such_secret \<and> s' = s) \<and>
        (\<exists>out e s'. map_podman (exists_command name) [] s = ((out, Some e), s') \<and> s' = s)
    | Some old \<Rightarrow>
        (\<exists>w s'. map_podman (create_command name) v s = ((''already exists'', Some (ExitError w)), s') \<and> s' = s) \<and>
        (\<exists>out i s'. map_podman (inspect_command name) [] s = ((out, None), s') \<and> sd_inspect map_decoders out = Inr [i] \<and>
           si_name i = name \<and> s' = s) \<and>
        (\<exists>out s'. map_podman (delete_command name) [] s = ((out, None), s') \<and> s' = s(name := None)) \<and>
        (\<exists>out s'. map_podman (exists_command name) [] s = ((out, None), s') \<and> s' = s)"
  proof (cases "s name")
    case None
    have "str_contains no_such_secret no_such_secret" by (rule contains_self)
    then show ?thesis
      unfolding None map_podman_create map_podman_other by simp
  next
    case (Some old)
    then show ?thesis
      unfolding Some map_podman_create map_podman_other map_decoders_def by simp
  qed
qed



definition purging_podman :: "(string \<rightharpoonup> string) podman" where
  "purging_podman cmd inp m = (if last cmd = ''--all'' then (([], None), Map.empty) else map_podman cmd inp m)"


end
