(* ===== verification/Server.thy ===== *)
theory Server
  imports Run_Properties Rate_Limit Auth History_Api Image_Registry Secret_Registry
begin

text \<open>
  The HTTP server: the health checks (\<^verbatim>\<open>internal/api/health.go\<close>), the credentials client (\<^verbatim>\<open>internal/claude/claude.go\<close>), the
  endpoints for runs and sessions (\<^verbatim>\<open>internal/api/server.go\<close>, \<^verbatim>\<open>stream.go\<close>, \<^verbatim>\<open>helpers.go\<close>), request identifiers
  (\<^verbatim>\<open>middleware.go\<close>), and the table of routes with what guards each. Handlers are given the decoded body of the request.
\<close>

section \<open>Credentials and health\<close>

definition new_client :: "string option \<Rightarrow> string \<Rightarrow> string" where
  "new_client home f = expand_path home (if f = [] then ''~/.claude/.credentials.json'' else f)"

definition credentials_present :: "sys \<Rightarrow> fsys \<Rightarrow> string \<Rightarrow> bool" where
  "credentials_present sy m f \<longleftrightarrow> (case os_stat sy m (locate sy f) of StatNode _ \<Rightarrow> True | _ \<Rightarrow> False)"

record health_config =
  hc_credentials :: string
  hc_secret :: string

definition default_health_config :: health_config where
  "default_health_config = \<lparr>hc_credentials = ''~/.claude/.credentials.json'', hc_secret = default_secret_name\<rparr>"

record component_health =
  ch_name :: string
  ch_status :: string
  ch_error :: string

record detailed_health =
  dh_status :: string
  dh_name :: string
  dh_version :: string
  dh_components :: "component_health list"

definition check_podman :: "(wait_status \<Rightarrow> string) \<Rightarrow> (string list \<Rightarrow> string \<times> go_error option) \<Rightarrow> component_health" where
  "check_podman ws exec =
     (case snd (exec [''podman'', ''version'']) of
        Some e \<Rightarrow> \<lparr>ch_name = ''podman'', ch_status = ''error'', ch_error = ''failed to connect to podman: '' @ err_text ws e\<rparr>
      | None \<Rightarrow> \<lparr>ch_name = ''podman'', ch_status = ''ok'', ch_error = []\<rparr>)"

definition check_credentials :: "sys \<Rightarrow> fsys \<Rightarrow> health_config \<Rightarrow> component_health" where
  "check_credentials sy m cfg =
     (if \<not> credentials_present sy m (hc_credentials cfg)
      then \<lparr>ch_name = ''claude-credentials-file'', ch_status = ''error'',
            ch_error = ''credentials file not found at '' @ hc_credentials cfg @ '': run 'claude' to authenticate''\<rparr>
      else \<lparr>ch_name = ''claude-credentials-file'', ch_status = ''ok'', ch_error = []\<rparr>)"

definition check_secret :: "(string list \<Rightarrow> string \<times> go_error option) \<Rightarrow> health_config \<Rightarrow> component_health" where
  "check_secret exec cfg =
     (case snd (exec [''podman'', ''secret'', ''exists'', hc_secret cfg]) of
        Some e \<Rightarrow> \<lparr>ch_name = ''claude-credentials-secret'', ch_status = ''error'',
                   ch_error = ''podman secret '' @ [CHR 0x27] @ hc_secret cfg @ [CHR 0x27] @ '' not found: run stromboli to create it''\<rparr>
      | None \<Rightarrow> \<lparr>ch_name = ''claude-credentials-secret'', ch_status = ''ok'', ch_error = []\<rparr>)"

definition health_check ::
    "(wait_status \<Rightarrow> string) \<Rightarrow> string \<Rightarrow> (string list \<Rightarrow> string \<times> go_error option) \<Rightarrow> sys \<Rightarrow> fsys \<Rightarrow> health_config \<Rightarrow>
     detailed_health" where
  "health_check ws version exec sy m cfg =
     (let cs = [check_podman ws exec, check_credentials sy m cfg, check_secret exec cfg]
      in \<lparr>dh_status = (if list_ex (\<lambda>c. ch_status c \<noteq> ''ok'') cs then ''degraded'' else ''ok''),
          dh_name = ''stromboli'', dh_version = version, dh_components = cs\<rparr>)"

text \<open>\<^verbatim>\<open>splitLines\<close>: line feeds end lines, carriage returns are dropped, and an unfinished last line counts unless it is
  empty.\<close>

fun split_lines :: "string \<Rightarrow> string \<Rightarrow> string list" where
  "split_lines cur [] = (if cur \<noteq> [] then [cur] else [])"
| "split_lines cur (c # cs) =
     (if c = CHR 0x0A then cur # split_lines [] cs
      else if c \<noteq> CHR 0x0D then split_lines (cur @ [c]) cs
      else split_lines cur cs)"

definition list_health_secrets :: "(string list \<Rightarrow> string \<times> go_error option) \<Rightarrow> string list result" where
  "list_health_secrets exec =
     (case exec [''podman'', ''secret'', ''ls'', ''--format'', ''{{.Name}}''] of
        (_, Some e) \<Rightarrow> Inl (Wrap ''failed to list secrets: '' e [])
      | (out, None) \<Rightarrow> Inr (filter (\<lambda>l. l \<noteq> []) (split_lines [] out)))"

section \<open>Runs\<close>

record api_run_request =
  ar_prompt :: string
  ar_workdir :: string
  ar_webhook :: string
  ar_claude :: claude_options
  ar_podman :: podman_options

definition build_runner_request :: "api_run_request \<Rightarrow> run_request" where
  "build_runner_request req =
     \<lparr>rq_prompt = ar_prompt req, rq_workdir = ar_workdir req, rq_claude = ar_claude req, rq_podman = ar_podman req\<rparr>"

record run_response =
  rn_id :: string
  rn_status :: string
  rn_output :: string
  rn_structured :: "string option"
  rn_session :: string
  rn_usage :: "usage option"
  rn_crash :: "crash_info option"

datatype server_body =
    RunError string
  | RunDone run_response
  | HealthBasic string string string
  | HealthDetailed detailed_health
  | ClaudeStatus bool string
  | SessionsBody "(string \<times> string) list"
  | SessionError string
  | SessionDestroyed string
  | TextBody string
  | EventStream string

definition handle_run_error :: "(wait_status \<Rightarrow> string) \<Rightarrow> go_error \<Rightarrow> server_body http" where
  "handle_run_error ws e = Http 500 (RunError (err_text ws e))"

definition handle_bad_request :: "(wait_status \<Rightarrow> string) \<Rightarrow> go_error \<Rightarrow> server_body http" where
  "handle_bad_request ws e = Http 400 (RunError (''Invalid request: '' @ err_text ws e))"

definition not_configured :: string where
  "not_configured = ''Claude not configured. Run 'make claude-setup' first''"

definition run_status :: "run_result \<Rightarrow> string" where
  "run_status r = (if rr_crash r \<noteq> None then ''crashed'' else ''completed'')"

text \<open>
  \<^verbatim>\<open>POST /run\<close>: whether the credentials file exists, the structured output in a text and the usage of a session are
  arguments. No result when the run itself does not return.
\<close>

definition run_claude_handler ::
    "outside \<Rightarrow> orders \<Rightarrow> podman_runner \<Rightarrow> bool \<Rightarrow> (string \<Rightarrow> string option) \<Rightarrow> (string \<Rightarrow> usage option) \<Rightarrow>
     api_run_request result \<Rightarrow> world \<Rightarrow> (server_body http \<times> world) option" where
  "run_claude_handler ou od r configured envelope uses req w =
     (case req of
        Inl e \<Rightarrow> Some (handle_bad_request (ou_status ou) e, w)
      | Inr a \<Rightarrow>
          if \<not> configured then Some (Http 503 (RunError not_configured), w)
          else
            (case run ou od r (build_runner_request a) w of
               None \<Rightarrow> None
             | Some (Inl e, w') \<Rightarrow> Some (handle_run_error (ou_status ou) e, w')
             | Some (Inr res, w') \<Rightarrow>
                 Some (Http 200 (RunDone
                   \<lparr>rn_id = rr_id res, rn_status = run_status res, rn_output = rr_output res,
                    rn_structured = extract_structured_output envelope (rr_output res), rn_session = rr_session res,
                    rn_usage = uses (rr_session res), rn_crash = rr_crash res\<rparr>), w')))"

section \<open>Streams\<close>

record stream_response =
  st_id :: string
  st_session :: string
  st_status :: string
  st_structured :: "string option"
  st_crash :: "crash_info option"

definition lf :: string where
  "lf = [CHR 0x0A]"

definition data_event :: "string \<Rightarrow> string" where
  "data_event l = ''data: '' @ l @ lf @ lf"

definition named_event :: "string \<Rightarrow> string \<Rightarrow> string" where
  "named_event name d = ''event: '' @ name @ lf @ ''data: '' @ d @ lf @ lf"

text \<open>The last event: the outcome of the run, with \<open>js\<close> for the encoding of the response.\<close>

definition final_event ::
    "(wait_status \<Rightarrow> string) \<Rightarrow> (stream_response \<Rightarrow> string result) \<Rightarrow> (string \<Rightarrow> string option) \<Rightarrow> run_result result \<Rightarrow> string" where
  "final_event ws js envelope res =
     (case res of
        Inl e \<Rightarrow> named_event ''error'' (err_text ws e)
      | Inr r \<Rightarrow>
          (case js \<lparr>st_id = rr_id r, st_session = rr_session r, st_status = run_status r,
                    st_structured = extract_structured_output envelope (rr_output r), st_crash = rr_crash r\<rparr> of
             Inl e \<Rightarrow> named_event ''error'' ''Failed to marshal result''
           | Inr d \<Rightarrow> named_event ''done'' d))"

definition run_stream_body ::
    "(wait_status \<Rightarrow> string) \<Rightarrow> (stream_response \<Rightarrow> string result) \<Rightarrow> (string \<Rightarrow> string option) \<Rightarrow> string list \<Rightarrow>
     run_result result \<Rightarrow> string" where
  "run_stream_body ws js envelope ls res = concat (map data_event ls) @ final_event ws js envelope res"

definition no_podman_options :: podman_options where
  "no_podman_options =
     \<lparr>po_image = [], po_volumes = [], po_secrets_env = Map.empty, po_timeout = [], po_memory = [], po_cpus = [],
      po_cpu_shares = None,
      po_lifecycle = \<lparr>hk_on_create = None, hk_post_create = None, hk_post_start = None, hk_timeout = []\<rparr>,
      po_environment = \<lparr>en_type = [], en_path = [], en_service = [], en_build_timeout = []\<rparr>\<rparr>"

text \<open>\<^verbatim>\<open>GET /run/stream\<close> for a client that stays: every line of the channel, then the outcome.\<close>

definition run_stream_handler ::
    "outside \<Rightarrow> orders \<Rightarrow> podman_runner \<Rightarrow> (string list \<Rightarrow> streamed) \<Rightarrow> bool \<Rightarrow> (stream_response \<Rightarrow> string result) \<Rightarrow>
     (string \<Rightarrow> string option) \<Rightarrow> string \<Rightarrow> string \<Rightarrow> string \<Rightarrow> world \<Rightarrow> (server_body http \<times> world) option" where
  "run_stream_handler ou od r strm configured js envelope prompt workdir sid w =
     (if prompt = [] then Some (Http 400 (TextBody ''Missing required parameter: prompt''), w)
      else if \<not> configured then Some (Http 503 (TextBody not_configured), w)
      else
        (let req = build_runner_request
               \<lparr>ar_prompt = prompt, ar_workdir = workdir, ar_webhook = [], ar_claude = no_options\<lparr>co_session_id := sid\<rparr>,
                ar_podman = no_podman_options\<rparr>
         in (case run_stream ou od r strm req w of
               None \<Rightarrow> None
             | Some (res, ls, w') \<Rightarrow>
                 Some (Http 200 (EventStream (run_stream_body (ou_status ou) js envelope ls res)), w'))))"

section \<open>Sessions and status\<close>

definition list_sessions_handler ::
    "outside \<Rightarrow> podman_runner \<Rightarrow> (string \<Rightarrow> string result) option \<Rightarrow> string list \<Rightarrow> world \<Rightarrow> server_body http" where
  "list_sessions_handler ou r titles entries w =
     (case list_run_sessions ou r entries w of
        Inl e \<Rightarrow> Http 500 (SessionError (err_text (ou_status ou) e))
      | Inr ids \<Rightarrow>
          Http 200 (SessionsBody (map (\<lambda>i. (i, case titles of None \<Rightarrow> [] | Some title \<Rightarrow> (case title i of Inl _ \<Rightarrow> [] | Inr t \<Rightarrow> t))) ids)))"

definition destroy_session_handler ::
    "outside \<Rightarrow> podman_runner \<Rightarrow> string \<Rightarrow> world \<Rightarrow> server_body http \<times> world" where
  "destroy_session_handler ou r sid w =
     (case destroy_run_session ou r sid w of
        (Some e, w') \<Rightarrow>
          (Http (if err_is e err_id_required \<or> err_is e err_invalid_id then 400
                 else if err_is e err_session_not_found then 404 else 500)
             (SessionError (err_text (ou_status ou) e)), w')
      | (None, w') \<Rightarrow> (Http 200 (SessionDestroyed sid), w'))"

definition health_handler :: "string \<Rightarrow> detailed_health option \<Rightarrow> server_body http" where
  "health_handler version checked =
     (case checked of
        None \<Rightarrow> Http 200 (HealthBasic ''ok'' ''stromboli'' version)
      | Some h \<Rightarrow> Http 200 (HealthDetailed h))"

definition claude_status_handler :: "bool \<Rightarrow> server_body http" where
  "claude_status_handler configured =
     (if configured then Http 200 (ClaudeStatus True ''Claude is configured'')
      else Http 200 (ClaudeStatus False ''Run 'make claude-setup' to configure''))"

section \<open>Request identifiers\<close>

text \<open>\<open>rnd\<close> is the outcome of the random source, \<open>stamp\<close> the text of the current time.\<close>

definition generate_request_id :: "string result \<Rightarrow> string \<Rightarrow> string" where
  "generate_request_id rnd stamp =
     (case rnd of
        Inl e \<Rightarrow> take 16 (hex_encode stamp)
      | Inr b \<Rightarrow> hex_encode (take 8 b))"

definition request_id :: "string \<Rightarrow> string result \<Rightarrow> string \<Rightarrow> string" where
  "request_id header rnd stamp = (if header = [] then generate_request_id rnd stamp else header)"

section \<open>Routes\<close>

datatype verb = GET | POST | DELETE

datatype guard = Open | Authenticated | Protected

datatype endpoint =
    HealthEp | TokenEp | RefreshEp | ValidateEp | LogoutEp | ClaudeStatusEp | RunEp | RunStreamEp | RunAsyncEp | ListJobsEp
  | GetJobEp | CancelJobEp | ListSessionsEp | DestroySessionEp | ListMessagesEp | GetMessageEp | ListSecretsEp | CreateSecretEp
  | GetSecretEp | DeleteSecretEp | ListImagesEp | SearchImagesEp | PullImageEp | InspectImageEp | CreateAgentEp | ListAgentsEp
  | GetAgentEp | SendAgentEp | StreamAgentEp | DeleteAgentEp

definition auth_routes :: "(verb \<times> string \<times> guard \<times> endpoint) list" where
  "auth_routes =
     [(POST, ''/auth/token'', Authenticated, TokenEp), (POST, ''/auth/refresh'', Open, RefreshEp),
      (GET, ''/auth/validate'', Open, ValidateEp), (POST, ''/auth/logout'', Open, LogoutEp)]"

definition routes :: "bool \<Rightarrow> (verb \<times> string \<times> guard \<times> endpoint) list" where
  "routes agents =
     [(GET, ''/health'', Open, HealthEp)] @ auth_routes @
     map (\<lambda>(v, p, e). (v, p, Protected, e))
       ([(GET, ''/claude/status'', ClaudeStatusEp), (POST, ''/run'', RunEp), (GET, ''/run/stream'', RunStreamEp),
         (POST, ''/run/async'', RunAsyncEp), (GET, ''/jobs'', ListJobsEp), (GET, ''/jobs/:id'', GetJobEp),
         (DELETE, ''/jobs/:id'', CancelJobEp), (GET, ''/sessions'', ListSessionsEp), (DELETE, ''/sessions/:id'', DestroySessionEp),
         (GET, ''/sessions/:id/messages'', ListMessagesEp), (GET, ''/sessions/:id/messages/:message_id'', GetMessageEp),
         (GET, ''/secrets'', ListSecretsEp), (POST, ''/secrets'', CreateSecretEp), (GET, ''/secrets/:name'', GetSecretEp),
         (DELETE, ''/secrets/:name'', DeleteSecretEp), (GET, ''/images'', ListImagesEp), (GET, ''/images/search'', SearchImagesEp),
         (POST, ''/images/pull'', PullImageEp), (GET, ''/images/:name'', InspectImageEp)] @
        (if agents
         then [(POST, ''/agents'', CreateAgentEp), (GET, ''/agents'', ListAgentsEp), (GET, ''/agents/:id'', GetAgentEp),
               (POST, ''/agents/:id/send'', SendAgentEp), (GET, ''/agents/:id/stream'', StreamAgentEp),
               (DELETE, ''/agents/:id'', DeleteAgentEp)]
         else []))"

text \<open>What the middlewares of a route do before its handler runs, if it does.\<close>

datatype passage = Limited rate_headers | Refused nat string | Passed "claims option"

definition authenticate ::
    "(wait_status \<Rightarrow> string) \<Rightarrow> jwt_lib \<Rightarrow> auth_config \<Rightarrow> (string \<Rightarrow> bool result) option \<Rightarrow> gtime \<Rightarrow> string \<Rightarrow> passage" where
  "authenticate ws lib cfg deny now header =
     (case middleware ws lib cfg deny now header of Admit c \<Rightarrow> Passed c | Reject n t \<Rightarrow> Refused n t)"

definition pass_route ::
    "(wait_status \<Rightarrow> string) \<Rightarrow> jwt_lib \<Rightarrow> 'l bucket_ops \<Rightarrow> rate_config \<Rightarrow> auth_config \<Rightarrow> (string \<Rightarrow> bool result) option \<Rightarrow> gtime \<Rightarrow>
     guard \<Rightarrow> http_peer \<Rightarrow> string \<Rightarrow> 'l limiters \<Rightarrow> passage \<times> 'l limiters" where
  "pass_route ws lib ops rcfg acfg deny now g peer header m =
     (case g of
        Open \<Rightarrow> (Passed None, m)
      | Authenticated \<Rightarrow> (authenticate ws lib acfg deny now header, m)
      | Protected \<Rightarrow>
          (case rate_limit_middleware ops rcfg now peer m of
             (TooManyRequests h, m') \<Rightarrow> (Limited h, m')
           | (_, m') \<Rightarrow> (authenticate ws lib acfg deny now header, m')))"

section \<open>What guards the endpoints\<close>

definition open_paths :: "string list" where
  "open_paths = [''/health'', ''/auth/refresh'', ''/auth/validate'', ''/auth/logout'']"

lemma routes_guards:
  assumes "(v, p, g, e) \<in> set (routes agents)"
  shows "(g = Open \<longleftrightarrow> p \<in> set open_paths) \<and> (g = Authenticated \<longleftrightarrow> p = ''/auth/token'')"
  using assms by (cases agents) (auto simp: routes_def auth_routes_def open_paths_def)

lemma routes_distinct:
  "distinct (map (\<lambda>(v, p, g, e). (v, p)) (routes agents)) \<and> distinct (map (\<lambda>(v, p, g, e). e) (routes agents))"
  by (cases agents) (simp_all add: routes_def auth_routes_def)

lemma authenticate_Passed:
  "authenticate ws lib cfg deny now header = Passed c \<Longrightarrow> admitted (middleware ws lib cfg deny now header)"
  by (auto simp: authenticate_def split: decision.splits)

text \<open>C30: With authentication on, the handler of every route but the health check and the three token endpoints that check
  their token themselves runs only for a bearer token that is static or a valid, unexpired access token which the
  blacklist does not deny; all of them but the token endpoint also pass the rate limiter first, so that a refused
  request counts against its client. No two routes share a method and a path, or an endpoint.
\<close>

theorem routes_guarded:
  assumes "(v, p, g, e) \<in> set (routes agents)" and "p \<notin> set open_paths" and "ac_enabled acfg"
  shows "(\<forall>c m'. pass_route ws lib ops rcfg acfg deny now g peer header m = (Passed c, m') \<longrightarrow>
      (\<exists>tok. bearer_token header = Some tok \<and>
        (tok \<in> set (ac_tokens acfg) \<or>
         jc_secret (ac_jwt acfg) \<noteq> [] \<and>
         (\<exists>c. jwt_parse lib now (key_func (jc_secret (ac_jwt acfg))) tok = Inr (c, True) \<and> \<not> cl_refresh c \<and>
              (\<forall>lookup. deny = Some lookup \<and> cl_id c \<noteq> [] \<longrightarrow> lookup (cl_id c) = Inr False))))) \<and>
    (p \<noteq> ''/auth/token'' \<longrightarrow>
      snd (pass_route ws lib ops rcfg acfg deny now g peer header m) = snd (rate_limit_middleware ops rcfg now peer m) \<and>
      (\<forall>h. fst (rate_limit_middleware ops rcfg now peer m) = TooManyRequests h \<longrightarrow>
        fst (pass_route ws lib ops rcfg acfg deny now g peer header m) = Limited h)) \<and>
    distinct (map (\<lambda>(v, p, g, e). (v, p)) (routes agents)) \<and> distinct (map (\<lambda>(v, p, g, e). e) (routes agents))"
proof (intro conjI)
  have g: "g = Authenticated \<and> p = ''/auth/token'' \<or> g = Protected \<and> p \<noteq> ''/auth/token''"
    using routes_guards [OF assms(1)] assms(2) by (cases g) auto
  have "admitted (middleware ws lib acfg deny now header)"
    if "pass_route ws lib ops rcfg acfg deny now g peer header m = (Passed c, m')" for c m'
    using g that authenticate_Passed [of ws lib acfg deny now header c]
    by (auto simp: pass_route_def split: prod.splits rate_answer.splits)
  then show "\<forall>c m'. pass_route ws lib ops rcfg acfg deny now g peer header m = (Passed c, m') \<longrightarrow>
      (\<exists>tok. bearer_token header = Some tok \<and>
        (tok \<in> set (ac_tokens acfg) \<or>
         jc_secret (ac_jwt acfg) \<noteq> [] \<and>
         (\<exists>c. jwt_parse lib now (key_func (jc_secret (ac_jwt acfg))) tok = Inr (c, True) \<and> \<not> cl_refresh c \<and>
              (\<forall>lookup. deny = Some lookup \<and> cl_id c \<noteq> [] \<longrightarrow> lookup (cl_id c) = Inr False))))"
    using assms(3) unfolding middleware_admits by blast
  show "p \<noteq> ''/auth/token'' \<longrightarrow>
      snd (pass_route ws lib ops rcfg acfg deny now g peer header m) = snd (rate_limit_middleware ops rcfg now peer m) \<and>
      (\<forall>h. fst (rate_limit_middleware ops rcfg now peer m) = TooManyRequests h \<longrightarrow>
        fst (pass_route ws lib ops rcfg acfg deny now g peer header m) = Limited h)"
    using g by (auto simp: pass_route_def split: prod.splits rate_answer.splits)
qed (use routes_distinct in blast)+

section \<open>What a client of a stream reads\<close>

text \<open>
  The event stream format of the HTML standard: lines end with a line feed, a carriage return or both; a field's name and value
  are separated by a colon and one optional space; an empty line dispatches the event if it has data.
\<close>

fun sse_lines :: "string \<Rightarrow> string \<Rightarrow> string list" where
  "sse_lines cur [] = []"
| "sse_lines cur [c] = (if c = CHR 0x0A \<or> c = CHR 0x0D then [cur] else [])"
| "sse_lines cur (c # d # cs) =
     (if c = CHR 0x0A then cur # sse_lines [] (d # cs)
      else if c = CHR 0x0D then cur # (if d = CHR 0x0A then sse_lines [] cs else sse_lines [] (d # cs))
      else sse_lines (cur @ [c]) (d # cs))"

definition sse_field :: "string \<Rightarrow> string \<times> string" where
  "sse_field l =
     (case cut_at (CHR '':'') l of
        None \<Rightarrow> (l, [])
      | Some (f, v) \<Rightarrow> (f, if v \<noteq> [] \<and> hd v = CHR '' '' then tl v else v))"

fun sse_events :: "string \<Rightarrow> string \<Rightarrow> string list \<Rightarrow> (string \<times> string) list" where
  "sse_events ty buf [] = []"
| "sse_events ty buf (l # ls) =
     (if l = [] then (if buf = [] then sse_events [] [] ls else (ty, butlast buf) # sse_events [] [] ls)
      else
        (let (f, v) = sse_field l
         in if f = ''data'' then sse_events ty (buf @ v @ lf) ls
            else if f = ''event'' then sse_events v buf ls
            else sse_events ty buf ls))"

definition read_stream :: "string \<Rightarrow> (string \<times> string) list" where
  "read_stream s = sse_events [] [] (sse_lines [] s)"

definition one_line :: "string \<Rightarrow> bool" where
  "one_line l \<longleftrightarrow> list_all (\<lambda>c. c \<noteq> CHR 0x0A \<and> c \<noteq> CHR 0x0D) l"

lemma sse_lines_step: "c \<noteq> CHR 0x0A \<Longrightarrow> c \<noteq> CHR 0x0D \<Longrightarrow> sse_lines cur (c # s) = sse_lines (cur @ [c]) s"
  by (cases s) auto

lemma sse_lines_lf: "sse_lines cur (CHR 0x0A # s) = cur # sse_lines [] s"
  by (cases s) auto

lemma sse_lines_line: "one_line l \<Longrightarrow> sse_lines cur (l @ CHR 0x0A # s) = (cur @ l) # sse_lines [] s"
  by (induction l arbitrary: cur) (simp_all add: one_line_def sse_lines_step sse_lines_lf)

lemma one_line_append [simp]: "one_line (a @ b) \<longleftrightarrow> one_line a \<and> one_line b"
  by (simp add: one_line_def)

lemma field_names: "one_line ''data: ''" "one_line ''event: ''"
  by (simp_all add: one_line_def)

lemma sse_field_data: "sse_field (''data: '' @ l) = (''data'', l)" "sse_field (''event: '' @ l) = (''event'', l)"
  by (simp_all add: sse_field_def)

lemma sse_lines_prefixed: "one_line a \<Longrightarrow> one_line l \<Longrightarrow> sse_lines [] (a @ l @ CHR 0x0A # s) = (a @ l) # sse_lines [] s"
  using sse_lines_line [of "a @ l" "[]" s] by (simp only: one_line_append append_assoc append_Nil simp_thms)

lemma sse_events_data: "sse_events ty [] ((''data: '' @ l) # [] # ls) = (ty, l) # sse_events [] [] ls"
  using sse_field_data(1) [of l] by (simp only: sse_events.simps prod.case Let_def) (simp add: lf_def)

lemma sse_events_event: "sse_events ty buf ((''event: '' @ n) # ls) = sse_events n buf ls"
  using sse_field_data(2) [of n] by (simp only: sse_events.simps prod.case Let_def) simp

lemma read_data_event:
  assumes "one_line l"
  shows "sse_events [] [] (sse_lines [] (data_event l @ s)) = ([], l) # sse_events [] [] (sse_lines [] s)"
proof -
  have "data_event l @ s = ''data: '' @ l @ CHR 0x0A # CHR 0x0A # s"
    by (simp add: data_event_def lf_def)
  then show ?thesis
    using assms by (simp only: sse_lines_prefixed field_names sse_lines_lf sse_events_data)
qed

lemma read_named_event:
  assumes "one_line n" and "one_line d"
  shows "sse_events [] [] (sse_lines [] (named_event n d)) = [(n, d)]"
proof -
  have "named_event n d = ''event: '' @ n @ CHR 0x0A # (''data: '' @ d @ CHR 0x0A # [CHR 0x0A])"
    by (simp add: named_event_def lf_def)
  then show ?thesis
    using assms by (simp only: sse_lines_prefixed field_names sse_lines_lf sse_events_data sse_events_event
        sse_lines.simps(1) sse_events.simps(1))
qed

lemma read_data_events:
  "list_all one_line ls \<Longrightarrow>
   read_stream (concat (map data_event ls) @ s) = map (\<lambda>l. ([], l)) ls @ sse_events [] [] (sse_lines [] s)"
  unfolding read_stream_def by (induction ls) (simp_all add: read_data_event)

text \<open>The lines on the channel are lines of the pipes, without their ends.\<close>

lemma set_interleave: "set (interleave bs xs ys) \<subseteq> set xs \<union> set ys"
  by (induction bs xs ys rule: interleave.induct) auto

lemma scan_lines_no_lf: "l \<in> set (scan_lines s) \<Longrightarrow> CHR 0x0A \<notin> set l"
proof -
  assume "l \<in> set (scan_lines s)"
  then obtain p where p: "p \<in> set (split_on (CHR 0x0A) s)" "l = strip_cr p"
    by (auto simp: scan_lines_def Let_def dest!: set_takeWhileD split: if_splits dest: in_set_butlastD)
  then show ?thesis
    using split_on_no_sep [OF p(1)] in_set_butlastD [of _ p] by (auto simp: strip_cr_def split: if_splits)
qed

lemma run_stream_lines:
  assumes "run_stream ou od r strm req w = Some (res, ls, w')" and "l \<in> set ls"
  shows "CHR 0x0A \<notin> set l"
proof -
  have s: "CHR 0x0A \<notin> set k" if "k \<in> set (streamed_lines sd)" for k sd
    using that set_interleave [of "sd_order sd" "scan_lines (sd_stdout sd)" "scan_lines (sd_stderr sd)"] scan_lines_no_lf
    by (auto simp: streamed_lines_def)
  show ?thesis
    using assms s
    by (auto simp: run_stream_def run_stream_container_def run_stream_with_compose_def Let_def
        split: if_splits option.splits prod.splits sum.splits)
qed

definition stream_outcome ::
    "(wait_status \<Rightarrow> string) \<Rightarrow> (stream_response \<Rightarrow> string result) \<Rightarrow> (string \<Rightarrow> string option) \<Rightarrow> run_result result \<Rightarrow>
     string \<times> string" where
  "stream_outcome ws js envelope res =
     (case res of
        Inl e \<Rightarrow> (''error'', err_text ws e)
      | Inr r \<Rightarrow>
          (case js \<lparr>st_id = rr_id r, st_session = rr_session r, st_status = run_status r,
                    st_structured = extract_structured_output envelope (rr_output r), st_crash = rr_crash r\<rparr> of
             Inl e \<Rightarrow> (''error'', ''Failed to marshal result'')
           | Inr d \<Rightarrow> (''done'', d)))"

lemma final_event_outcome:
  "final_event ws js envelope res = (case stream_outcome ws js envelope res of (n, d) \<Rightarrow> named_event n d)"
  by (simp add: final_event_def stream_outcome_def split: sum.split)

lemma stream_outcome_names: "one_line (fst (stream_outcome ws js envelope res))"
  by (simp add: stream_outcome_def one_line_def split: sum.split)


lemma plain_stream_ends:
  "\<exists>rr w2. run_stream plain_outside plain_orders plain_runner plain_stream plain_request plain_world = Some (Inr rr, [''a''], w2)"
proof -
  have l: "streamed_lines (plain_stream c) = [''a'']" for c
    by (simp add: streamed_lines_def plain_stream_def scan_lines_def strip_cr_def)
  have c: "is_crash (Some (ExitError (Signaled 9)))" by (simp add: is_crash_def)
  show ?thesis
    using plain_prepared plain_not_compose l c
    by (auto simp: run_stream_def run_stream_container_def finish_run_def plain_stream_def Let_def split: prod.split)
qed


theorem routes_guarded_witness:
  "\<not> (\<exists>c m'. pass_route (\<lambda>_. []) demo_lib \<lparr>bo_fresh = \<lambda>_. (), bo_allow = \<lambda>_ l. (True, l), bo_tokens = \<lambda>_ _. 1\<rparr>
     \<lparr>rc_enabled = False, rc_rate = 1, rc_period = second, rc_burst = 1, rc_interval = 0, rc_proxies = []\<rparr>
     \<lparr>ac_enabled = True, ac_tokens = [''t''], ac_jwt = demo_cfg\<rparr> None 0 Protected
     \<lparr>rp_remote = [], rp_forwarded = [], rp_real_ip = []\<rparr> [] Map.empty = (Passed c, m'))"
proof -
  have "(DELETE, ''/secrets/:name'', Protected, DeleteSecretEp) \<in> set (routes True)"
    by (simp add: routes_def auth_routes_def)
  moreover have "''/secrets/:name'' \<notin> set open_paths" by (simp add: open_paths_def)
  moreover have "ac_enabled \<lparr>ac_enabled = True, ac_tokens = [''t''], ac_jwt = demo_cfg\<rparr>" by simp
  ultimately show ?thesis
    using routes_guarded [where header = "[]"] by (force simp: bearer_token_def)
qed

end
