(* ===== verification/Agents.thy ===== *)
theory Agents
  imports Go_Text Keyed_Store
begin

text \<open>
  One persistent agent, \<^verbatim>\<open>internal/agent/agent.go\<close> and \<^verbatim>\<open>internal/agent/manager.go\<close>: its record, the
  subscriber channels it fans events out to, and its status changes. Sending on a closed channel and
  closing a channel twice panic in Go; both are \<open>None\<close> here. The interleaving of the goroutines that
  use these operations is in the theory of the agent system.
\<close>

section \<open>Data\<close>

datatype agent_status = Starting | Idle | Generating | AExited

datatype event_type = TurnStart | OutputEv | TurnEnd | ErrorEv | ExitedEv

record event =
  ev_type :: event_type
  ev_turn :: string
  ev_content :: string
  ev_error :: string
  ev_at :: gtime

text \<open>The \<^verbatim>\<open>claude\<close> options of a request are only handed to the argv builder; their type is \<open>'c\<close>.\<close>

record 'c create_request =
  cr_prompt :: string
  cr_workdir :: string
  cr_idle_seconds :: int
  cr_no_idle :: bool
  cr_claude :: "'c option"

record chan =
  ch_buf :: "event list"
  ch_closed :: bool

record agent =
  ag_id :: string
  ag_session :: string
  ag_status :: agent_status
  ag_created :: gtime
  ag_last :: gtime
  ag_timeout :: gtime
  ag_no_timeout :: bool
  ag_turns :: int
  ag_turn :: string
  ag_exit_err :: "go_error option"
  ag_done :: bool
  ag_chans :: "nat \<rightharpoonup> chan"
  ag_subs :: "nat set"
  ag_next :: nat

record snapshot =
  sn_id :: string
  sn_session :: string
  sn_status :: agent_status
  sn_created :: gtime
  sn_last :: gtime
  sn_timeout_sec :: int
  sn_no_timeout :: bool
  sn_turns :: int
  sn_exit_err :: string

definition err_agent_not_found :: go_error where
  "err_agent_not_found = Sentinel ''agent.ErrAgentNotFound'' ''agent: not found''"

definition err_agent_busy :: go_error where
  "err_agent_busy = Sentinel ''agent.ErrAgentBusy'' ''agent: a turn is already in progress''"

definition err_agent_not_ready :: go_error where
  "err_agent_not_ready = Sentinel ''agent.ErrAgentNotReady'' ''agent: not ready to accept input''"

definition err_agent_exited :: go_error where
  "err_agent_exited = Sentinel ''agent.ErrAgentExited'' ''agent: process has exited''"

definition err_idle_timed_out :: go_error where
  "err_idle_timed_out = Sentinel ''agent.ErrIdleTimedOut'' ''agent: idle timeout reached''"

definition err_invalid_request :: go_error where
  "err_invalid_request = Sentinel ''agent.ErrInvalidRequest'' ''agent: invalid request''"

lemmas agent_errors = err_agent_not_found_def err_agent_busy_def err_agent_not_ready_def
  err_agent_exited_def err_idle_timed_out_def err_invalid_request_def

section \<open>Channels\<close>

definition chan_cap :: nat where
  "chan_cap = 32"

text \<open>A \<^verbatim>\<open>select\<close> that sends or takes its default branch: \<open>None\<close> is the panic on a closed channel, the
  Boolean says whether the event went in.\<close>

definition try_send :: "event \<Rightarrow> chan \<Rightarrow> (bool \<times> chan) option" where
  "try_send ev ch =
     (if ch_closed ch then None
      else if length (ch_buf ch) < chan_cap then Some (True, ch\<lparr>ch_buf := ch_buf ch @ [ev]\<rparr>)
      else Some (False, ch))"

definition try_recv :: "chan \<Rightarrow> chan" where
  "try_recv ch = ch\<lparr>ch_buf := tl (ch_buf ch)\<rparr>"

definition deliver :: "event \<Rightarrow> chan \<Rightarrow> chan option" where
  "deliver ev ch =
     (case try_send ev ch of
        None \<Rightarrow> None
      | Some (True, ch1) \<Rightarrow> Some ch1
      | Some (False, ch1) \<Rightarrow>
          (case try_send ev (try_recv ch1) of
             None \<Rightarrow> None
           | Some (_, ch2) \<Rightarrow> Some ch2))"

definition chan_close :: "chan \<Rightarrow> chan option" where
  "chan_close ch = (if ch_closed ch then None else Some (ch\<lparr>ch_closed := True\<rparr>))"

lemma deliver_open: "\<not> ch_closed ch \<Longrightarrow> length (ch_buf ch) \<le> chan_cap \<Longrightarrow>
  deliver ev ch = Some (ch\<lparr>ch_buf := drop (length (ch_buf ch) - 31) (ch_buf ch) @ [ev]\<rparr>)"
  by (auto simp: deliver_def try_send_def try_recv_def chan_cap_def drop_Suc le_Suc_eq
        split: option.split)

lemma deliver_closed: "deliver ev ch = None \<longleftrightarrow> ch_closed ch"
  by (auto simp: deliver_def try_send_def try_recv_def split: option.splits bool.splits)

text \<open>Delivering a run of events to one open channel that nobody reads.\<close>

definition deliver_all :: "event list \<Rightarrow> chan \<Rightarrow> chan option" where
  "deliver_all evs ch = fold (\<lambda>ev r. case r of None \<Rightarrow> None | Some c \<Rightarrow> deliver ev c) evs (Some ch)"

lemma deliver_all_simps [simp]:
  "deliver_all [] ch = Some ch"
  "deliver_all (ev # evs) ch = (case deliver ev ch of None \<Rightarrow> None | Some c \<Rightarrow> deliver_all evs c)"
proof -
  have none: "fold (\<lambda>ev r. case r of None \<Rightarrow> None | Some c \<Rightarrow> deliver ev c) es None = None" for es
    by (induction es) auto
  show "deliver_all [] ch = Some ch"
    by (simp add: deliver_all_def)
  show "deliver_all (ev # evs) ch = (case deliver ev ch of None \<Rightarrow> None | Some c \<Rightarrow> deliver_all evs c)"
    by (simp add: deliver_all_def none split: option.split)
qed

lemma deliver_all_open:
  "\<not> ch_closed ch \<Longrightarrow> length (ch_buf ch) \<le> chan_cap \<Longrightarrow>
   deliver_all evs ch =
     Some (ch\<lparr>ch_buf := drop (length (ch_buf ch @ evs) - chan_cap) (ch_buf ch @ evs)\<rparr>)"
proof (induction evs arbitrary: ch)
  case Nil
  then show ?case by simp
next
  case (Cons ev evs)
  let ?b = "drop (length (ch_buf ch) - 31) (ch_buf ch) @ [ev]"
  have d: "deliver ev ch = Some (ch\<lparr>ch_buf := ?b\<rparr>)"
    using Cons.prems by (rule deliver_open)
  have "length ?b \<le> chan_cap"
    using Cons.prems by (simp add: chan_cap_def)
  with Cons.IH [of "ch\<lparr>ch_buf := ?b\<rparr>"] Cons.prems(1)
  have "deliver_all evs (ch\<lparr>ch_buf := ?b\<rparr>) =
          Some (ch\<lparr>ch_buf := drop (length (?b @ evs) - chan_cap) (?b @ evs)\<rparr>)"
    by simp
  moreover have "drop (length (?b @ evs) - chan_cap) (?b @ evs) =
      drop (length (ch_buf ch @ ev # evs) - chan_cap) (ch_buf ch @ ev # evs)"
  proof (cases "length (ch_buf ch) \<le> 31")
    case False
    with Cons.prems(2) have "length (ch_buf ch) = 32" by (simp add: chan_cap_def)
    then show ?thesis by (simp add: chan_cap_def)
  qed (simp add: chan_cap_def)
  ultimately show ?case
    by (simp add: d)
qed

section \<open>Fan-out and subscriptions\<close>

text \<open>
  \<^verbatim>\<open>fanout\<close> holds \<^verbatim>\<open>subsMu\<close> and treats each registered channel on its own, so the iteration order of
  the map is immaterial.
\<close>

definition fanout :: "event \<Rightarrow> agent \<Rightarrow> agent option" where
  "fanout ev a =
     (if \<exists>i \<in> ag_subs a. \<exists>c \<in> set_option (ag_chans a i). deliver ev c = None then None
      else Some (a\<lparr>ag_chans := (\<lambda>i. if i \<in> ag_subs a
                                     then Option.bind (ag_chans a i) (deliver ev)
                                     else ag_chans a i)\<rparr>))"

definition subscribe :: "agent \<Rightarrow> nat \<times> agent" where
  "subscribe a =
     (let i = ag_next a
      in (i, a\<lparr>ag_next := Suc i, ag_subs := insert i (ag_subs a),
              ag_chans := (ag_chans a)(i \<mapsto> \<lparr>ch_buf = [], ch_closed = False\<rparr>)\<rparr>))"

text \<open>Close the channels \<open>is\<close> and take them out of the subscriber map.\<close>

definition close_chans :: "nat set \<Rightarrow> agent \<Rightarrow> agent option" where
  "close_chans is a =
     (if \<exists>i \<in> is. \<exists>c \<in> set_option (ag_chans a i). ch_closed c then None
      else Some (a\<lparr>ag_subs := ag_subs a - is,
                   ag_chans := (\<lambda>i. if i \<in> is then Option.bind (ag_chans a i) chan_close
                                   else ag_chans a i)\<rparr>))"

definition unsubscribe :: "nat \<Rightarrow> agent \<Rightarrow> agent option" where
  "unsubscribe i a = (if i \<in> ag_subs a then close_chans {i} a else Some a)"

definition close_all :: "agent \<Rightarrow> agent option" where
  "close_all a = close_chans (ag_subs a) a"

text \<open>The subscriber takes an event out of its own channel.\<close>

definition receive :: "nat \<Rightarrow> agent \<Rightarrow> agent" where
  "receive i a = a\<lparr>ag_chans := map_touch i try_recv (ag_chans a)\<rparr>"

definition chan_ok :: "bool \<Rightarrow> nat \<Rightarrow> nat \<Rightarrow> chan option \<Rightarrow> bool" where
  "chan_ok reg nxt i co \<longleftrightarrow>
     (case co of
        None \<Rightarrow> \<not> reg
      | Some c \<Rightarrow> i < nxt \<and> length (ch_buf c) \<le> chan_cap \<and> (reg \<longleftrightarrow> \<not> ch_closed c))"

definition chans_ok :: "agent \<Rightarrow> bool" where
  "chans_ok a \<longleftrightarrow> (\<forall>i. chan_ok (i \<in> ag_subs a) (ag_next a) i (ag_chans a i))"

lemma chans_okI: "(\<And>i. chan_ok (i \<in> ag_subs a) (ag_next a) i (ag_chans a i)) \<Longrightarrow> chans_ok a"
  by (simp add: chans_ok_def)

lemma chans_okD: "chans_ok a \<Longrightarrow> chan_ok (i \<in> ag_subs a) (ag_next a) i (ag_chans a i)"
  by (simp add: chans_ok_def)

lemma chans_ok_chan:
  "chans_ok a \<Longrightarrow> ag_chans a i = Some c \<Longrightarrow>
   i < ag_next a \<and> length (ch_buf c) \<le> chan_cap \<and> (i \<in> ag_subs a \<longleftrightarrow> \<not> ch_closed c)"
  using chans_okD [of a i] by (simp add: chan_ok_def)

lemma chans_ok_sub:
  assumes "chans_ok a" and "i \<in> ag_subs a"
  obtains c where "ag_chans a i = Some c" and "\<not> ch_closed c" and "length (ch_buf c) \<le> chan_cap"
  using chans_okD [OF assms(1), of i] assms(2) by (auto simp: chan_ok_def split: option.splits)

lemma deliver_ok:
  "deliver ev c = Some c' \<Longrightarrow> length (ch_buf c) \<le> chan_cap \<Longrightarrow>
   length (ch_buf c') \<le> chan_cap \<and> \<not> ch_closed c \<and> \<not> ch_closed c'"
  using deliver_open [of c ev] deliver_closed [of ev c] by (auto simp: chan_cap_def)

lemma chan_close_ok: "chan_close c = Some c' \<Longrightarrow> ch_buf c' = ch_buf c \<and> ch_closed c'"
  by (auto simp: chan_close_def split: if_splits)

lemma fanout_no_panic: "chans_ok a \<Longrightarrow> fanout ev a \<noteq> None"
  by (auto simp: fanout_def deliver_closed dest: chans_ok_chan)

lemma close_chans_no_panic: "chans_ok a \<Longrightarrow> is \<subseteq> ag_subs a \<Longrightarrow> close_chans is a \<noteq> None"
  by (auto simp: close_chans_def dest: chans_ok_chan)

lemma unsubscribe_no_panic: "chans_ok a \<Longrightarrow> unsubscribe i a \<noteq> None"
  using close_chans_no_panic [of a "{i}"] by (auto simp: unsubscribe_def)

lemma close_all_no_panic: "chans_ok a \<Longrightarrow> close_all a \<noteq> None"
  by (simp add: close_all_def close_chans_no_panic)

lemma chans_ok_fanout [inv_intros]:
  assumes ok: "chans_ok a" and f: "fanout ev a = Some a'"
  shows "chans_ok a'"
proof (rule chans_okI)
  fix i
  have a': "ag_subs a' = ag_subs a" "ag_next a' = ag_next a"
    "ag_chans a' i = (if i \<in> ag_subs a then Option.bind (ag_chans a i) (deliver ev) else ag_chans a i)"
    using f by (auto simp: fanout_def split: if_splits)
  show "chan_ok (i \<in> ag_subs a') (ag_next a') i (ag_chans a' i)"
  proof (cases "i \<in> ag_subs a")
    case True
    then obtain c where c: "ag_chans a i = Some c" "\<not> ch_closed c" "length (ch_buf c) \<le> chan_cap"
      using chans_ok_sub [OF ok] by blast
    then obtain c' where "deliver ev c = Some c'"
      using deliver_closed by (metis not_None_eq)
    with c True a' deliver_ok [OF this c(3)] chans_ok_chan [OF ok c(1)] show ?thesis
      by (simp add: chan_ok_def)
  qed (use chans_okD [OF ok, of i] a' in simp)
qed

lemma chans_ok_subscribe [inv_intros]:
  assumes "chans_ok a"
  shows "chans_ok (snd (subscribe a))"
proof (rule chans_okI)
  fix i
  show "chan_ok (i \<in> ag_subs (snd (subscribe a))) (ag_next (snd (subscribe a))) i
          (ag_chans (snd (subscribe a)) i)"
    using chans_okD [OF assms, of i]
    by (auto simp: subscribe_def Let_def chan_ok_def split: option.splits)
qed

lemma chans_ok_close_chans [inv_intros]:
  assumes ok: "chans_ok a" and sub: "is \<subseteq> ag_subs a" and cl: "close_chans is a = Some a'"
  shows "chans_ok a'"
proof (rule chans_okI)
  fix i
  have a': "ag_subs a' = ag_subs a - is" "ag_next a' = ag_next a"
    "ag_chans a' i = (if i \<in> is then Option.bind (ag_chans a i) chan_close else ag_chans a i)"
    using cl by (auto simp: close_chans_def split: if_splits)
  show "chan_ok (i \<in> ag_subs a') (ag_next a') i (ag_chans a' i)"
  proof (cases "i \<in> is")
    case True
    then obtain c where c: "ag_chans a i = Some c" "\<not> ch_closed c" "length (ch_buf c) \<le> chan_cap"
      using chans_ok_sub [OF ok] sub by blast
    with True a' chans_ok_chan [OF ok c(1)] show ?thesis
      by (simp add: chan_ok_def chan_close_def)
  qed (use chans_okD [OF ok, of i] a' in \<open>auto simp: chan_ok_def split: option.splits\<close>)
qed

lemma chans_ok_unsubscribe [inv_intros]: "chans_ok a \<Longrightarrow> unsubscribe i a = Some a' \<Longrightarrow> chans_ok a'"
  by (auto simp: unsubscribe_def split: if_splits intro: chans_ok_close_chans)

lemma chans_ok_close_all [inv_intros]: "chans_ok a \<Longrightarrow> close_all a = Some a' \<Longrightarrow> chans_ok a'"
  by (auto simp: close_all_def intro: chans_ok_close_chans)

lemma chans_ok_receive [inv_intros]:
  assumes "chans_ok a"
  shows "chans_ok (receive i a)"
proof (rule chans_okI)
  fix k
  show "chan_ok (k \<in> ag_subs (receive i a)) (ag_next (receive i a)) k (ag_chans (receive i a) k)"
    using chans_okD [OF assms, of k]
    by (auto simp: receive_def map_touch_apply chan_ok_def try_recv_def split: option.splits)
qed

section \<open>Creation and status changes\<close>

definition default_idle_timeout :: gtime where
  "default_idle_timeout = 30 * minute"

definition idle_timeout_of :: "int \<Rightarrow> gtime" where
  "idle_timeout_of secs = (if secs > 0 then wrap64 (secs * second) else default_idle_timeout)"

definition new_agent :: "gtime \<Rightarrow> string \<Rightarrow> string \<Rightarrow> 'c create_request \<Rightarrow> agent" where
  "new_agent now aid sid req =
     \<lparr>ag_id = aid, ag_session = sid, ag_status = Starting, ag_created = now, ag_last = now,
      ag_timeout = idle_timeout_of (cr_idle_seconds req), ag_no_timeout = cr_no_idle req,
      ag_turns = 0, ag_turn = [], ag_exit_err = None, ag_done = False,
      ag_chans = Map.empty, ag_subs = {}, ag_next = 0\<rparr>"

text \<open>
  \<^verbatim>\<open>Manager.Create\<close> up to the registration: \<open>build\<close> is the argv builder the API layer passes in and
  \<open>spawn\<close> the result of starting the process, both given the fresh ids.
\<close>

definition agent_create ::
    "(wait_status \<Rightarrow> string) \<Rightarrow> ('c create_request \<Rightarrow> string \<Rightarrow> string \<Rightarrow> string list result) \<Rightarrow>
     (string list \<Rightarrow> unit result) \<Rightarrow> gtime \<Rightarrow> string \<Rightarrow> string \<Rightarrow> 'c create_request \<Rightarrow> agent result" where
  "agent_create ws build spawn now aid sid req =
     (if cr_idle_seconds req < 0
      then Inl (Wrap [] err_invalid_request '': idle_timeout_seconds must be non-negative'')
      else
        (case build req aid sid of
           Inl e \<Rightarrow> Inl (Wrap [] err_invalid_request ('': '' @ err_text ws e))
         | Inr argv \<Rightarrow>
             (case spawn argv of
                Inl e \<Rightarrow> Inl (Wrap ''agent: spawn: '' e [])
              | Inr _ \<Rightarrow> Inr (new_agent now aid sid req))))"

text \<open>\<^verbatim>\<open>processSpawner.Spawn\<close> refuses an empty argv before it starts anything.\<close>

definition process_spawn :: "(string list \<Rightarrow> unit result) \<Rightarrow> string list \<Rightarrow> unit result" where
  "process_spawn start argv =
     (if length argv = 0 then Inl (Msg ''agent: empty argv'')
      else case start argv of Inl e \<Rightarrow> Inl (Wrap ''agent: start: '' e []) | Inr u \<Rightarrow> Inr u)"

definition agent_snapshot :: "(wait_status \<Rightarrow> string) \<Rightarrow> agent \<Rightarrow> snapshot" where
  "agent_snapshot ws a =
     \<lparr>sn_id = ag_id a, sn_session = ag_session a, sn_status = ag_status a, sn_created = ag_created a,
      sn_last = ag_last a, sn_timeout_sec = go_quot (ag_timeout a) second,
      sn_no_timeout = ag_no_timeout a, sn_turns = ag_turns a,
      sn_exit_err = (case ag_exit_err a of None \<Rightarrow> [] | Some e \<Rightarrow> err_text ws e)\<rparr>"

text \<open>The part of \<^verbatim>\<open>Send\<close> under the agent's mutex.\<close>

definition begin_turn :: "gtime \<Rightarrow> string \<Rightarrow> agent \<Rightarrow> agent result" where
  "begin_turn now turn a =
     (case ag_status a of
        Generating \<Rightarrow> Inl err_agent_busy
      | AExited \<Rightarrow> Inl err_agent_exited
      | _ \<Rightarrow> Inr (a\<lparr>ag_turn := turn, ag_status := Generating, ag_last := now\<rparr>))"

definition rollback_turn :: "agent \<Rightarrow> agent" where
  "rollback_turn a = a\<lparr>ag_status := Idle, ag_turn := []\<rparr>"

definition mark_idle_if_starting :: "gtime \<Rightarrow> agent \<Rightarrow> agent" where
  "mark_idle_if_starting now a =
     (if ag_status a = Starting then a\<lparr>ag_status := Idle, ag_last := now\<rparr> else a)"

definition complete_turn :: "gtime \<Rightarrow> agent \<Rightarrow> agent" where
  "complete_turn now a =
     a\<lparr>ag_turn := [], ag_status := (if ag_status a = Generating then Idle else ag_status a),
       ag_turns := ag_turns a + 1, ag_last := now\<rparr>"

text \<open>The part of \<^verbatim>\<open>markExited\<close> under the agent's mutex; \<open>None\<close> is its early return.\<close>

definition mark_exited :: "go_error option \<Rightarrow> agent \<Rightarrow> agent option" where
  "mark_exited err a =
     (if ag_status a = AExited then None else Some (a\<lparr>ag_status := AExited, ag_exit_err := err\<rparr>))"

text \<open>\<^verbatim>\<open>doneOnce.Do\<close> closes the channel the first time only.\<close>

definition close_done :: "agent \<Rightarrow> agent" where
  "close_done a = a\<lparr>ag_done := True\<rparr>"

definition turn_event :: "gtime \<Rightarrow> event_type \<Rightarrow> string \<Rightarrow> string \<Rightarrow> string \<Rightarrow> event" where
  "turn_event now ty turn content err =
     \<lparr>ev_type = ty, ev_turn = turn, ev_content = content, ev_error = err, ev_at = now\<rparr>"

text \<open>
  \<open>probe\<close> is what \<^verbatim>\<open>encoding/json\<close> decodes as the \<^verbatim>\<open>type\<close> field of a line (\<open>None\<close> when the line does not
  decode into the probe struct).
\<close>

definition is_turn_end :: "(string \<Rightarrow> string option) \<Rightarrow> string \<Rightarrow> bool" where
  "is_turn_end probe line = (case probe line of None \<Rightarrow> False | Some ty \<Rightarrow> ty = ''result'')"

text \<open>The idle watchdog's test on a tick.\<close>

definition idle_expired :: "gtime \<Rightarrow> agent \<Rightarrow> bool" where
  "idle_expired now a \<longleftrightarrow> time_sub now (ag_last a) \<ge> ag_timeout a"

text \<open>A turn is recorded exactly while one is in flight, up to the exit of the process.\<close>

definition turn_ok :: "agent \<Rightarrow> bool" where
  "turn_ok a \<longleftrightarrow>
     (ag_status a = Generating \<longrightarrow> ag_turn a \<noteq> []) \<and>
     (ag_status a \<in> {Starting, Idle} \<longrightarrow> ag_turn a = [])"

definition agent_ok :: "agent \<Rightarrow> bool" where
  "agent_ok a \<longleftrightarrow> chans_ok a \<and> turn_ok a"

lemma chans_ok_cong:
  "ag_subs a' = ag_subs a \<Longrightarrow> ag_next a' = ag_next a \<Longrightarrow> ag_chans a' = ag_chans a \<Longrightarrow>
   chans_ok a' = chans_ok a"
  by (simp add: chans_ok_def)

lemma agent_ok_new [inv_intros]: "agent_ok (new_agent now aid sid req)"
  by (simp add: agent_ok_def new_agent_def turn_ok_def chans_ok_def chan_ok_def)

lemma agent_ok_begin_turn [inv_intros]:
  "agent_ok a \<Longrightarrow> turn \<noteq> [] \<Longrightarrow> begin_turn now turn a = Inr a' \<Longrightarrow> agent_ok a'"
  by (auto simp: agent_ok_def turn_ok_def begin_turn_def chans_ok_def split: agent_status.splits)

lemma agent_ok_rollback [inv_intros]: "agent_ok a \<Longrightarrow> agent_ok (rollback_turn a)"
  by (simp add: agent_ok_def turn_ok_def rollback_turn_def chans_ok_def)

lemma agent_ok_mark_idle [inv_intros]: "agent_ok a \<Longrightarrow> agent_ok (mark_idle_if_starting now a)"
  by (simp add: agent_ok_def turn_ok_def mark_idle_if_starting_def chans_ok_def)

lemma agent_ok_complete [inv_intros]: "agent_ok a \<Longrightarrow> agent_ok (complete_turn now a)"
  by (simp add: agent_ok_def turn_ok_def complete_turn_def chans_ok_def)

lemma agent_ok_exited [inv_intros]: "agent_ok a \<Longrightarrow> mark_exited err a = Some a' \<Longrightarrow> agent_ok a'"
  by (auto simp: agent_ok_def turn_ok_def mark_exited_def chans_ok_def split: if_splits)

lemma agent_ok_close_done [inv_intros]: "agent_ok a \<Longrightarrow> agent_ok (close_done a)"
  by (simp add: agent_ok_def turn_ok_def close_done_def chans_ok_def)

lemma fanout_fields:
  "fanout ev a = Some a' \<Longrightarrow>
   ag_status a' = ag_status a \<and> ag_turn a' = ag_turn a \<and> ag_done a' = ag_done a \<and>
   ag_subs a' = ag_subs a \<and> ag_exit_err a' = ag_exit_err a"
  by (auto simp: fanout_def split: if_splits)

lemma close_chans_fields:
  "close_chans is a = Some a' \<Longrightarrow>
   ag_status a' = ag_status a \<and> ag_turn a' = ag_turn a \<and> ag_done a' = ag_done a \<and>
   ag_subs a' = ag_subs a - is \<and> ag_exit_err a' = ag_exit_err a"
  by (auto simp: close_chans_def split: if_splits)

lemma agent_ok_fanout [inv_intros]: "agent_ok a \<Longrightarrow> fanout ev a = Some a' \<Longrightarrow> agent_ok a'"
  using fanout_fields [of ev a a'] by (auto simp: agent_ok_def turn_ok_def intro: inv_intros)

lemma agent_ok_close_all [inv_intros]: "agent_ok a \<Longrightarrow> close_all a = Some a' \<Longrightarrow> agent_ok a'"
  using close_chans_fields [of "ag_subs a" a a']
  by (auto simp: agent_ok_def turn_ok_def close_all_def intro: inv_intros)

lemma agent_ok_unsubscribe [inv_intros]: "agent_ok a \<Longrightarrow> unsubscribe i a = Some a' \<Longrightarrow> agent_ok a'"
  using close_chans_fields [of "{i}" a a'] chans_ok_unsubscribe [of a i a']
  by (auto simp: agent_ok_def turn_ok_def unsubscribe_def split: if_splits)

lemma agent_ok_subscribe [inv_intros]: "agent_ok a \<Longrightarrow> agent_ok (snd (subscribe a))"
  using chans_ok_subscribe [of a]
  by (auto simp: agent_ok_def turn_ok_def subscribe_def Let_def)

lemma agent_ok_receive [inv_intros]: "agent_ok a \<Longrightarrow> agent_ok (receive i a)"
  using chans_ok_receive [of a i] by (auto simp: agent_ok_def turn_ok_def receive_def)

section \<open>Properties\<close>

text \<open>A subscriber that reads nothing keeps exactly the latest 32 events in order: delivery never
  blocks, drops the oldest event to make room for the newest, and never closes the channel.\<close>

lemma subscriber_keeps_latest:
  "deliver_all evs \<lparr>ch_buf = [], ch_closed = False\<rparr> =
     Some \<lparr>ch_buf = drop (length evs - 32) evs, ch_closed = False\<rparr>"
  using deliver_all_open [of "\<lparr>ch_buf = [], ch_closed = False\<rparr>" evs]
  by (simp add: chan_cap_def)

text \<open>The idle timeout is exact for every request up to 9223372036 seconds: positive and equal to the
  requested seconds (30 minutes for zero), so an agent that was active less than that ago is not
  stopped. One second more overflows the 64-bit duration to a negative timeout, and the watchdog
  stops the agent at its first tick.\<close>

lemma idle_timeout_exact:
  "(0 \<le> secs \<and> secs \<le> 9223372036 \<longrightarrow>
      idle_timeout_of secs = (if secs = 0 then 30 * minute else secs * second) \<and>
      idle_timeout_of secs > 0 \<and>
      (ag_timeout a = idle_timeout_of secs \<and> ag_last a \<le> now \<and>
         now - ag_last a < idle_timeout_of secs \<longrightarrow> \<not> idle_expired now a)) \<and>
   (ag_timeout a = idle_timeout_of 9223372037 \<and> ag_last a \<le> now \<longrightarrow> idle_expired now a)"
proof -
  have "wrap64 (secs * 1000000000) = secs * 1000000000"
    if "0 \<le> secs" "secs \<le> 9223372036"
    using that by (intro wrap64_id) auto
  moreover have "wrap64 9223372037000000000 < 0"
    by (simp add: wrap64_def)
  ultimately show ?thesis
    by (auto simp: idle_timeout_of_def default_idle_timeout_def idle_expired_def time_sub_def time_units)
qed

definition demo_agent :: "int \<Rightarrow> agent" where
  "demo_agent secs =
     new_agent 0 ''a'' ''s''
       \<lparr>cr_prompt = [], cr_workdir = [], cr_idle_seconds = secs, cr_no_idle = False, cr_claude = None :: unit option\<rparr>"

lemma idle_timeout_exact_witness:
  "idle_timeout_of 60 = 60 * second \<and> \<not> idle_expired (59 * second) (demo_agent 60) \<and>
   idle_expired 0 (demo_agent 9223372037)"
proof -
  have t: "idle_timeout_of 60 = 60 * second"
    using idle_timeout_exact [of 60 "demo_agent 60" 0] by simp
  have "ag_timeout (demo_agent 60) = idle_timeout_of 60" "ag_last (demo_agent 60) = 0"
    by (simp_all add: demo_agent_def new_agent_def)
  with t idle_timeout_exact [of 60 "demo_agent 60" "59 * second"]
  have "\<not> idle_expired (59 * second) (demo_agent 60)"
    by (simp add: second_def)
  moreover have "idle_expired 0 (demo_agent 9223372037)"
    using idle_timeout_exact [of 0 "demo_agent 9223372037" 0] by (simp add: demo_agent_def new_agent_def)
  ultimately show ?thesis
    using t by simp
qed

end
