(* ===== verification/Agent_System.thy ===== *)
theory Agent_System
  imports Agents
begin

text \<open>
  The goroutines around the agents, \<^verbatim>\<open>internal/agent/manager.go\<close> and \<^verbatim>\<open>internal/agent/process.go\<close>: the
  dispatcher of an agent's output lines, the goroutine that waits for its process, the idle watchdog
  and the request handlers. A goroutine is a list of tasks still to do; one task is the work between
  two lock operations, and a step runs the first task of some goroutine. The registry and the agent
  records (which outlive their registration) are the shared state.
\<close>

section \<open>Goroutines as task lists\<close>

datatype task =
    Register
  | TrySend string string
  | Fan event
  | Emit event_type string
  | Write string string
  | Rollback string go_error
  | MarkIdle
  | EndCheck string
  | Complete
  | Unregister
  | AwaitExit
  | MarkExit "go_error option"
  | CloseDone
  | CloseSubs

datatype tid = Dispatcher string | Waiter string | Watcher string | Request nat string

fun tid_agent :: "tid \<Rightarrow> string" where
  "tid_agent (Dispatcher a) = a"
| "tid_agent (Waiter a) = a"
| "tid_agent (Watcher a) = a"
| "tid_agent (Request n a) = a"

record sys =
  sy_heap :: "string \<rightharpoonup> agent"
  sy_reg :: "string set"
  sy_exited :: "string set"
  sy_watched :: "string set"
  sy_threads :: "tid \<Rightarrow> task list"

definition sys_init :: sys where
  "sys_init = \<lparr>sy_heap = Map.empty, sy_reg = {}, sy_exited = {}, sy_watched = {}, sy_threads = (\<lambda>_. [])\<rparr>"

text \<open>\<^verbatim>\<open>Manager.Send\<close> up to the release of the agent's mutex.\<close>

definition send_begin :: "gtime \<Rightarrow> string \<Rightarrow> string \<Rightarrow> string \<Rightarrow> sys \<Rightarrow> agent result" where
  "send_begin now turn aid prompt s =
     (if aid \<notin> sy_reg s then Inl err_agent_not_found
      else if trim_space prompt = [] then Inl (Wrap [] err_invalid_request '': prompt is required'')
      else
        (case sy_heap s aid of
           None \<Rightarrow> Inl err_agent_not_found
         | Some a \<Rightarrow> begin_turn now turn a))"

text \<open>
  \<^verbatim>\<open>realProcess.Send\<close>: \<open>w1\<close> and \<open>w2\<close> are the errors of the two writes to the pipe, if any.
\<close>

definition process_send :: "bool \<Rightarrow> go_error option \<Rightarrow> go_error option \<Rightarrow> string \<Rightarrow> go_error option" where
  "process_send exited w1 w2 line =
     (if exited then Some (Msg ''agent: process has exited'')
      else
        (case w1 of
           Some e \<Rightarrow> Some (Wrap ''agent: write stdin: '' e [])
         | None \<Rightarrow>
             if line = [] \<or> last line \<noteq> CHR 0x0A
             then (case w2 of
                     Some e \<Rightarrow> Some (Wrap ''agent: write newline: '' e [])
                   | None \<Rightarrow> None)
             else None))"

text \<open>What the dispatcher does with one line: stderr lines are only reported.\<close>

definition dispatch_line :: "string \<Rightarrow> task list" where
  "dispatch_line line =
     (if has_prefix line ''[stderr] ''
      then [Emit ErrorEv (trim_prefix line ''[stderr] '')]
      else [MarkIdle, Emit OutputEv line, EndCheck line])"

definition emit_event :: "gtime \<Rightarrow> event_type \<Rightarrow> string \<Rightarrow> string \<Rightarrow> event" where
  "emit_event now ty turn text =
     (if ty = ErrorEv then turn_event now ErrorEv turn [] text else turn_event now ty turn text [])"

definition set_agent :: "string \<Rightarrow> agent \<Rightarrow> sys \<Rightarrow> sys" where
  "set_agent aid a s = s\<lparr>sy_heap := (sy_heap s)(aid \<mapsto> a)\<rparr>"

text \<open>
  What the agents use of their surroundings: the operating system's text for a wait status, the
  decoder of an output line's \<^verbatim>\<open>type\<close>, the stream-json encoding of a prompt, the argv builder and the
  outcome of starting a process.
\<close>

record 'c env =
  en_ws :: "wait_status \<Rightarrow> string"
  en_probe :: "string \<Rightarrow> string option"
  en_enc :: "string \<Rightarrow> string"
  en_build :: "'c create_request \<Rightarrow> string \<Rightarrow> string \<Rightarrow> string list result"
  en_start :: "string list \<Rightarrow> unit result"

text \<open>
  One task of a goroutine that works on agent \<open>aid\<close>: the new state and the tasks that take its place,
  or \<open>None\<close> when Go would panic.
\<close>

fun exec_task ::
    "'c env \<Rightarrow> gtime \<Rightarrow> go_error option \<times> go_error option \<Rightarrow> string \<Rightarrow> agent \<Rightarrow> task \<Rightarrow> sys \<Rightarrow>
     (sys \<times> task list) option" where
  "exec_task en now w aid a Register s =
     Some (s\<lparr>sy_reg := insert aid (sy_reg s)\<rparr>, [])"
| "exec_task en now w aid a (TrySend turn prompt) s =
     (case send_begin now turn aid prompt s of
        Inl _ \<Rightarrow> Some (s, [])
      | Inr a' \<Rightarrow> Some (set_agent aid a' s,
                       [Fan (turn_event now TurnStart turn [] []), Write turn (en_enc en prompt)]))"
| "exec_task en now w aid a (Fan ev) s =
     (case fanout ev a of None \<Rightarrow> None | Some a' \<Rightarrow> Some (set_agent aid a' s, []))"
| "exec_task en now w aid a (Emit ty text) s =
     Some (s, [Fan (emit_event now ty (ag_turn a) text)])"
| "exec_task en now w aid a (Write turn payload) s =
     (case process_send (aid \<in> sy_exited s) (fst w) (snd w) payload of
        None \<Rightarrow> Some (s, [])
      | Some e \<Rightarrow> Some (s, [Rollback turn e]))"
| "exec_task en now w aid a (Rollback turn e) s =
     Some (set_agent aid (rollback_turn a) s, [Fan (turn_event now ErrorEv turn [] (err_text (en_ws en) e))])"
| "exec_task en now w aid a MarkIdle s =
     Some (set_agent aid (mark_idle_if_starting now a) s, [])"
| "exec_task en now w aid a (EndCheck line) s =
     Some (s, if is_turn_end (en_probe en) line then [Complete] else [])"
| "exec_task en now w aid a Complete s =
     Some (set_agent aid (complete_turn now a) s, [Fan (turn_event now TurnEnd (ag_turn a) [] [])])"
| "exec_task en now w aid a Unregister s =
     (if aid \<in> sy_reg s
      then Some (s\<lparr>sy_reg := sy_reg s - {aid}\<rparr>, [AwaitExit, MarkExit None])
      else Some (s, []))"
| "exec_task en now w aid a AwaitExit s = Some (s, [])"
| "exec_task en now w aid a (MarkExit err) s =
     (case mark_exited err a of
        None \<Rightarrow> Some (s, [])
      | Some a' \<Rightarrow>
          Some (set_agent aid a' s,
                [CloseDone,
                 Fan (turn_event now ExitedEv [] []
                        (case err of None \<Rightarrow> [] | Some e \<Rightarrow> err_text (en_ws en) e)),
                 CloseSubs]))"
| "exec_task en now w aid a CloseDone s = Some (set_agent aid (close_done a) s, [])"
| "exec_task en now w aid a CloseSubs s =
     (case close_all a of None \<Rightarrow> None | Some a' \<Rightarrow> Some (set_agent aid a' s, []))"

text \<open>\<^verbatim>\<open>process.Stop\<close> signals the process and returns once it has exited.\<close>

fun task_enabled :: "string \<Rightarrow> task \<Rightarrow> sys \<Rightarrow> bool" where
  "task_enabled aid AwaitExit s = (aid \<in> sy_exited s)"
| "task_enabled aid _ s = True"

definition put_thread :: "tid \<Rightarrow> task list \<Rightarrow> sys \<Rightarrow> sys" where
  "put_thread t ts s = s\<lparr>sy_threads := (sy_threads s)(t := ts)\<rparr>"

definition create_tasks :: "string \<Rightarrow> 'c create_request \<Rightarrow> task list" where
  "create_tasks turn req =
     Register # (if trim_space (cr_prompt req) \<noteq> [] then [TrySend turn (cr_prompt req)] else [])"

definition tick_tasks :: "gtime \<Rightarrow> agent \<Rightarrow> task list" where
  "tick_tasks now a =
     (if ag_status a = AExited then []
      else if idle_expired now a
      then [Fan (turn_event now ExitedEv [] [] (err_text (\<lambda>_. []) err_idle_timed_out)), Unregister]
      else [])"

text \<open>The watchdog runs unless the request disabled it, and returns once it has acted.\<close>

definition watch :: "string \<Rightarrow> agent \<Rightarrow> sys \<Rightarrow> sys" where
  "watch aid a s = (if ag_no_timeout a then s else s\<lparr>sy_watched := insert aid (sy_watched s)\<rparr>)"

definition tick_watch :: "gtime \<Rightarrow> string \<Rightarrow> agent \<Rightarrow> sys \<Rightarrow> sys" where
  "tick_watch now aid a s =
     (if ag_status a = AExited \<or> idle_expired now a
      then s\<lparr>sy_watched := sy_watched s - {aid}\<rparr> else s)"

section \<open>The steps\<close>

text \<open>Ids and turn ids are fresh random UUIDs; a turn id is never empty.\<close>

inductive sys_step :: "'c env \<Rightarrow> sys \<Rightarrow> sys \<Rightarrow> bool" for en where
  spawn: "sy_heap s aid = None \<Longrightarrow> turn \<noteq> [] \<Longrightarrow>
    agent_create (en_ws en) (en_build en) (en_start en) now aid sid req = Inr a \<Longrightarrow>
    sys_step en s
      (put_thread (Request n aid) (create_tasks turn req) (watch aid a (set_agent aid a s)))"
| send: "sy_threads s (Request n aid) = [] \<Longrightarrow> turn \<noteq> [] \<Longrightarrow> sy_heap s aid = Some a \<Longrightarrow>
    sys_step en s (put_thread (Request n aid) [TrySend turn prompt] s)"
| subscribe: "aid \<in> sy_reg s \<Longrightarrow> sy_heap s aid = Some a \<Longrightarrow>
    sys_step en s (set_agent aid (snd (subscribe a)) s)"
| unsubscribe: "sy_heap s aid = Some a \<Longrightarrow> unsubscribe i a = Some a' \<Longrightarrow>
    sys_step en s (set_agent aid a' s)"
| receive: "sy_heap s aid = Some a \<Longrightarrow> sys_step en s (set_agent aid (receive i a) s)"
| line: "sy_heap s aid = Some a \<Longrightarrow> sy_threads s (Dispatcher aid) = [] \<Longrightarrow>
    sys_step en s (put_thread (Dispatcher aid) (dispatch_line l) s)"
| exit: "sy_heap s aid = Some a \<Longrightarrow> aid \<notin> sy_exited s \<Longrightarrow> sy_threads s (Waiter aid) = [] \<Longrightarrow>
    sys_step en s
      (put_thread (Waiter aid) [MarkExit err] (s\<lparr>sy_exited := insert aid (sy_exited s)\<rparr>))"
| stop: "sy_heap s aid = Some a \<Longrightarrow> sy_threads s (Request n aid) = [] \<Longrightarrow>
    sys_step en s (put_thread (Request n aid) [Unregister] s)"
| tick: "sy_heap s aid = Some a \<Longrightarrow> sy_threads s (Watcher aid) = [] \<Longrightarrow>
    aid \<in> sy_watched s \<Longrightarrow> \<not> ag_done a \<Longrightarrow>
    sys_step en s (put_thread (Watcher aid) (tick_tasks now a) (tick_watch now aid a s))"
| run: "sy_threads s t = tk # tks \<Longrightarrow> sy_heap s (tid_agent t) = Some a \<Longrightarrow>
    task_enabled (tid_agent t) tk s \<Longrightarrow>
    exec_task en now w (tid_agent t) a tk s = Some (s', nxt) \<Longrightarrow>
    sys_step en s (put_thread t (nxt @ tks) s')"

abbreviation sys_reachable :: "'c env \<Rightarrow> sys \<Rightarrow> bool" where
  "sys_reachable en s \<equiv> (sys_step en)\<^sup>*\<^sup>* sys_init s"

inductive_cases sys_stepE: "sys_step en s s'"

section \<open>The invariant\<close>

text \<open>
  A goroutine marks an agent exited, and closes what depends on it, only once the process has ended;
  a turn id it still has to start is not empty.
\<close>

fun tasks_ok :: "bool \<Rightarrow> task list \<Rightarrow> bool" where
  "tasks_ok ex [] = True"
| "tasks_ok ex (AwaitExit # ts) = tasks_ok True ts"
| "tasks_ok ex (MarkExit e # ts) = (ex \<and> tasks_ok ex ts)"
| "tasks_ok ex (CloseDone # ts) = (ex \<and> tasks_ok ex ts)"
| "tasks_ok ex (TrySend turn p # ts) = (turn \<noteq> [] \<and> tasks_ok ex ts)"
| "tasks_ok ex (_ # ts) = tasks_ok ex ts"

lemma tasks_ok_mono: "tasks_ok ex ts \<Longrightarrow> (ex \<Longrightarrow> ex') \<Longrightarrow> tasks_ok ex' ts"
  by (induction ex ts rule: tasks_ok.induct) auto

definition exit_ok :: "sys \<Rightarrow> string \<Rightarrow> agent \<Rightarrow> bool" where
  "exit_ok s aid a \<longleftrightarrow>
     (ag_status a = AExited \<longrightarrow>
        ag_done a \<or> (\<exists>t. tid_agent t = aid \<and> CloseDone \<in> set (sy_threads s t))) \<and>
     (ag_status a = AExited \<or> ag_done a \<longrightarrow> aid \<in> sy_exited s)"

definition sys_ok :: "sys \<Rightarrow> bool" where
  "sys_ok s \<longleftrightarrow>
     (\<forall>aid a. sy_heap s aid = Some a \<longrightarrow> agent_ok a \<and> exit_ok s aid a) \<and>
     (\<forall>t. tasks_ok (tid_agent t \<in> sy_exited s) (sy_threads s t)) \<and>
     (\<forall>t. sy_threads s t \<noteq> [] \<longrightarrow> sy_heap s (tid_agent t) \<noteq> None)"

lemma sys_okD:
  assumes "sys_ok s"
  shows "sy_heap s aid = Some a \<Longrightarrow> agent_ok a" "sy_heap s aid = Some a \<Longrightarrow> exit_ok s aid a"
    "tasks_ok (tid_agent t \<in> sy_exited s) (sy_threads s t)"
    "sy_threads s t \<noteq> [] \<Longrightarrow> sy_heap s (tid_agent t) \<noteq> None"
  using assms by (auto simp: sys_ok_def)

text \<open>
  The shape of every step: one agent record and one goroutine of that agent change, and processes
  that have exited stay exited.
\<close>

lemma sys_ok_change:
  assumes ok: "sys_ok s"
    and heap: "sy_heap s' = (sy_heap s)(aid \<mapsto> a')"
    and thr: "sy_threads s' = (sy_threads s)(t := ts)" and t: "tid_agent t = aid"
    and ex: "sy_exited s \<subseteq> sy_exited s'"
    and a': "agent_ok a'"
    and ts: "tasks_ok (aid \<in> sy_exited s') ts"
    and exit: "exit_ok s' aid a'"
  shows "sys_ok s'"
  unfolding sys_ok_def
proof (intro conjI allI impI)
  fix k b
  assume kb: "sy_heap s' k = Some b"
  have "agent_ok b \<and> exit_ok s' k b"
  proof (cases "k = aid")
    case True
    with kb heap a' exit show ?thesis by simp
  next
    case False
    with kb heap have "sy_heap s k = Some b" by simp
    with ok have "agent_ok b" "exit_ok s k b" by (auto dest: sys_okD)
    moreover from this(2) False ex thr t have "exit_ok s' k b"
      by (auto simp: exit_ok_def)
    ultimately show ?thesis by simp
  qed
  then show "agent_ok b" "exit_ok s' k b" by auto
next
  fix u
  show "tasks_ok (tid_agent u \<in> sy_exited s') (sy_threads s' u)"
    using sys_okD(3) [OF ok, of u] ex thr t ts by (auto intro: tasks_ok_mono)
  show "sy_threads s' u \<noteq> [] \<Longrightarrow> sy_heap s' (tid_agent u) \<noteq> None"
    using sys_okD(4) [OF ok, of u] heap thr t by (auto split: if_splits)
qed

lemma exit_ok_change:
  assumes "exit_ok s aid a"
    and "sy_threads s' = (sy_threads s)(t := ts)" and "tid_agent t = aid"
    and "sy_exited s \<subseteq> sy_exited s'"
    and "ag_status a' = AExited \<Longrightarrow> ag_status a = AExited \<or> CloseDone \<in> set ts"
    and "ag_done a \<Longrightarrow> ag_done a'"
    and "CloseDone \<in> set (sy_threads s t) \<Longrightarrow> CloseDone \<in> set ts \<or> ag_done a'"
    and "ag_status a' = AExited \<or> ag_done a' \<Longrightarrow>
           ag_status a = AExited \<or> ag_done a \<or> aid \<in> sy_exited s'"
  shows "exit_ok s' aid a'"
proof -
  have "ag_done a' \<or> (\<exists>u. tid_agent u = aid \<and> CloseDone \<in> set (sy_threads s' u))"
    if ex: "ag_status a' = AExited"
  proof (cases "CloseDone \<in> set ts")
    case True
    with assms(2,3) show ?thesis by (metis fun_upd_same)
  next
    case False
    with ex assms(5) have "ag_status a = AExited" by blast
    with assms(1) consider "ag_done a" | u where "tid_agent u = aid" "CloseDone \<in> set (sy_threads s u)"
      by (auto simp: exit_ok_def)
    then show ?thesis
    proof cases
      case 2
      show ?thesis
      proof (cases "u = t")
        case True
        with 2 False assms(7) show ?thesis by blast
      next
        case neq: False
        with 2 assms(2) show ?thesis by (metis fun_upd_other)
      qed
    qed (use assms(6) in blast)
  qed
  moreover have "ag_status a' = AExited \<or> ag_done a' \<longrightarrow> aid \<in> sy_exited s'"
    using assms(1,4,8) by (auto simp: exit_ok_def)
  ultimately show ?thesis
    by (simp add: exit_ok_def)
qed

text \<open>A step that leaves the record of the agent and the set of exited processes alone.\<close>

lemma sys_ok_thread:
  assumes ok: "sys_ok s" and a: "sy_heap s aid = Some a"
    and "sy_heap s' = sy_heap s" and thr: "sy_threads s' = (sy_threads s)(t := ts)"
    and t: "tid_agent t = aid" and "sy_exited s' = sy_exited s"
    and ts: "tasks_ok (aid \<in> sy_exited s) ts"
    and cd: "CloseDone \<in> set (sy_threads s t) \<Longrightarrow> CloseDone \<in> set ts"
  shows "sys_ok s'"
proof (rule sys_ok_change [OF ok])
  show "sy_heap s' = (sy_heap s)(aid \<mapsto> a)" using a assms(3) by auto
  show "agent_ok a" using ok a by (rule sys_okD)
  show "exit_ok s' aid a"
    by (rule exit_ok_change [OF sys_okD(2) [OF ok a] thr t]) (use assms in auto)
qed (use assms in auto)

text \<open>A step that changes the record of an agent without touching a goroutine.\<close>

lemma sys_ok_agent:
  assumes ok: "sys_ok s" and a: "sy_heap s aid = Some a"
    and "agent_ok a'" and "ag_status a' = ag_status a" and "ag_done a' = ag_done a"
  shows "sys_ok (set_agent aid a' s)"
proof (rule sys_ok_change [OF ok])
  show "sy_threads (set_agent aid a' s) = (sy_threads s)(Waiter aid := sy_threads s (Waiter aid))"
    by (simp add: set_agent_def)
  show "exit_ok (set_agent aid a' s) aid a'"
    using sys_okD(2) [OF ok a] assms(4,5) by (simp add: exit_ok_def set_agent_def)
  show "tasks_ok (aid \<in> sy_exited (set_agent aid a' s)) (sy_threads s (Waiter aid))"
    using sys_okD(3) [OF ok, of "Waiter aid"] by (simp add: set_agent_def)
qed (use assms in \<open>auto simp: set_agent_def\<close>)

lemma sys_ok_init: "sys_ok sys_init"
  by (simp add: sys_ok_def sys_init_def)

lemma tasks_ok_append: "tasks_ok ex xs \<Longrightarrow> tasks_ok ex ys \<Longrightarrow> tasks_ok ex (xs @ ys)"
  by (induction ex xs rule: tasks_ok.induct) (auto intro: tasks_ok_mono)

text \<open>A task that replaces the agent's record by one with the same status and \<^verbatim>\<open>done\<close> channel, or with a
  status other than exited.\<close>

lemma sys_ok_task:
  assumes ok: "sys_ok s" and thr: "sy_threads s t = tk # tks" and a: "sy_heap s (tid_agent t) = Some a"
    and a': "agent_ok a'" and d: "ag_done a' = ag_done a"
    and st: "ag_status a' = AExited \<Longrightarrow> ag_status a = AExited"
    and tk: "tk \<noteq> CloseDone" and nxt: "tasks_ok (tid_agent t \<in> sy_exited s) nxt"
    and tks: "tasks_ok (tid_agent t \<in> sy_exited s) tks"
  shows "sys_ok (put_thread t (nxt @ tks) (set_agent (tid_agent t) a' s))"
proof (rule sys_ok_change [OF ok])
  let ?s' = "put_thread t (nxt @ tks) (set_agent (tid_agent t) a' s)"
  show "sy_heap ?s' = (sy_heap s)(tid_agent t \<mapsto> a')" "sy_threads ?s' = (sy_threads s)(t := nxt @ tks)"
    "tid_agent t = tid_agent t" "sy_exited s \<subseteq> sy_exited ?s'" "agent_ok a'"
    using a' by (simp_all add: put_thread_def set_agent_def)
  show "tasks_ok (tid_agent t \<in> sy_exited ?s') (nxt @ tks)"
    using nxt tks by (simp add: put_thread_def set_agent_def tasks_ok_append)
  show "exit_ok ?s' (tid_agent t) a'"
    by (rule exit_ok_change [OF sys_okD(2) [OF ok a], where t = t and ts = "nxt @ tks"])
       (use thr d st tk in \<open>auto simp: put_thread_def set_agent_def\<close>)
qed

lemma set_agent_same: "sy_heap s aid = Some a \<Longrightarrow> set_agent aid a s = s"
  by (cases s) (auto simp: set_agent_def)

lemma sys_ok_exec:
  assumes ok: "sys_ok s" and thr: "sy_threads s t = tk # tks" and a: "sy_heap s (tid_agent t) = Some a"
    and en: "task_enabled (tid_agent t) tk s"
    and ex: "exec_task en now w (tid_agent t) a tk s = Some (s', nxt)"
  shows "sys_ok (put_thread t (nxt @ tks) s')"
proof -
  let ?aid = "tid_agent t"
  have T: "tasks_ok (?aid \<in> sy_exited s) (tk # tks)"
    using sys_okD(3) [OF ok, of t] thr by simp
  have aok: "agent_ok a"
    using ok a by (rule sys_okD)
  note task = sys_ok_task [OF ok thr a]
  note same = task [OF aok refl, unfolded set_agent_same [OF a]]
  show ?thesis
  proof (cases tk)
    case Register
    have "sys_ok (put_thread t tks (s\<lparr>sy_reg := insert ?aid (sy_reg s)\<rparr>))"
      by (rule sys_ok_thread [OF ok a, where t = t and ts = tks])
         (use T thr Register in \<open>auto simp: put_thread_def\<close>)
    with ex Register show ?thesis by auto
  next
    case (TrySend turn p)
    show ?thesis
    proof (cases "send_begin now turn ?aid p s")
      case (Inl e)
      with ex TrySend same [of nxt] T show ?thesis by auto
    next
      case (Inr a')
      then have a': "begin_turn now turn a = Inr a'"
        using a by (auto simp: send_begin_def split: if_splits)
      then have "agent_ok a'" "ag_done a' = ag_done a" "ag_status a' \<noteq> AExited"
        using aok T TrySend by (auto intro: agent_ok_begin_turn simp: begin_turn_def split: agent_status.splits)
      with ex TrySend Inr task [of a' nxt] T show ?thesis by auto
    qed
  next
    case (Fan ev)
    with ex obtain a' where a': "fanout ev a = Some a'" "s' = set_agent ?aid a' s" "nxt = []"
      by (auto split: option.splits)
    with agent_ok_fanout [OF aok a'(1)] fanout_fields [OF a'(1)] task [of a' nxt] T Fan
    show ?thesis by auto
  next
    case (Emit ty body)
    with ex same [of nxt] T show ?thesis by auto
  next
    case (Write turn p)
    with ex same [of nxt] T show ?thesis by (auto split: option.splits)
  next
    case (Rollback turn e)
    let ?a' = "rollback_turn a"
    have s': "s' = set_agent ?aid ?a' s" and nxt: "tasks_ok (?aid \<in> sy_exited s) nxt"
      using ex Rollback by auto
    have "ag_done ?a' = ag_done a" "ag_status ?a' = AExited \<Longrightarrow> ag_status a = AExited"
      by (simp_all add: rollback_turn_def)
    from task [OF agent_ok_rollback [OF aok] this] nxt show ?thesis
      using Rollback T by (simp add: s')
  next
    case MarkIdle
    let ?a' = "mark_idle_if_starting now a"
    have s': "s' = set_agent ?aid ?a' s" "nxt = []"
      using ex MarkIdle by auto
    have "ag_done ?a' = ag_done a" "ag_status ?a' = AExited \<Longrightarrow> ag_status a = AExited"
      by (simp_all add: mark_idle_if_starting_def split: if_splits)
    from task [OF agent_ok_mark_idle [OF aok] this, of "[]"] show ?thesis
      using MarkIdle T by (simp add: s')
  next
    case (EndCheck l)
    with ex same [of nxt] T show ?thesis by auto
  next
    case Complete
    let ?a' = "complete_turn now a"
    have s': "s' = set_agent ?aid ?a' s" and nxt: "tasks_ok (?aid \<in> sy_exited s) nxt"
      using ex Complete by auto
    have "ag_done ?a' = ag_done a" "ag_status ?a' = AExited \<Longrightarrow> ag_status a = AExited"
      by (simp_all add: complete_turn_def split: if_splits)
    from task [OF agent_ok_complete [OF aok] this] nxt show ?thesis
      using Complete T by (simp add: s')
  next
    case Unregister
    have "sys_ok (put_thread t (nxt @ tks) s')"
      by (rule sys_ok_thread [OF ok a, where t = t and ts = "nxt @ tks"])
         (use T thr Unregister ex in \<open>auto simp: put_thread_def split: if_splits intro: tasks_ok_mono\<close>)
    then show ?thesis .
  next
    case AwaitExit
    with ex en T same [of nxt] show ?thesis by auto
  next
    case (MarkExit err)
    show ?thesis
    proof (cases "mark_exited err a")
      case None
      with ex MarkExit same [of nxt] T show ?thesis by auto
    next
      case (Some a')
      with ex MarkExit have s': "s' = set_agent ?aid a' s" and nxt: "CloseDone \<in> set nxt"
        and "tasks_ok True nxt"
        by auto
      show ?thesis
      proof (rule sys_ok_change [OF ok])
        show "sy_heap (put_thread t (nxt @ tks) s') = (sy_heap s)(?aid \<mapsto> a')"
          "sy_threads (put_thread t (nxt @ tks) s') = (sy_threads s)(t := nxt @ tks)"
          "sy_exited s \<subseteq> sy_exited (put_thread t (nxt @ tks) s')"
          by (simp_all add: s' put_thread_def set_agent_def)
        show "agent_ok a'" using aok Some by (rule agent_ok_exited)
        show "tasks_ok (?aid \<in> sy_exited (put_thread t (nxt @ tks) s')) (nxt @ tks)"
          using T MarkExit \<open>tasks_ok True nxt\<close>
          by (auto simp: s' put_thread_def set_agent_def intro: tasks_ok_append)
        show "exit_ok (put_thread t (nxt @ tks) s') ?aid a'"
          by (rule exit_ok_change [OF sys_okD(2) [OF ok a], where t = t and ts = "nxt @ tks"])
             (use Some nxt T MarkExit in
               \<open>auto simp: s' put_thread_def set_agent_def mark_exited_def split: if_splits\<close>)
      qed simp
    qed
  next
    case CloseDone
    then have s': "s' = set_agent ?aid (close_done a) s" "nxt = []" and e: "?aid \<in> sy_exited s"
      using ex T by auto
    show ?thesis
    proof (rule sys_ok_change [OF ok])
      show "sy_heap (put_thread t (nxt @ tks) s') = (sy_heap s)(?aid \<mapsto> close_done a)"
        "sy_threads (put_thread t (nxt @ tks) s') = (sy_threads s)(t := nxt @ tks)"
        "sy_exited s \<subseteq> sy_exited (put_thread t (nxt @ tks) s')"
        by (simp_all add: s' put_thread_def set_agent_def)
      show "agent_ok (close_done a)" using aok by (rule agent_ok_close_done)
      show "tasks_ok (?aid \<in> sy_exited (put_thread t (nxt @ tks) s')) (nxt @ tks)"
        using conjunct2 [OF T [unfolded CloseDone tasks_ok.simps]]
        by (simp add: s' put_thread_def set_agent_def)
      show "exit_ok (put_thread t (nxt @ tks) s') ?aid (close_done a)"
        using e by (simp add: exit_ok_def close_done_def s' put_thread_def set_agent_def)
    qed simp
  next
    case CloseSubs
    with ex obtain a' where a': "close_all a = Some a'" "s' = set_agent ?aid a' s" "nxt = []"
      by (auto split: option.splits)
    with agent_ok_close_all [OF aok a'(1)] close_chans_fields [of "ag_subs a" a a'] task [of a' nxt] T
      CloseSubs
    show ?thesis by (auto simp: close_all_def)
  qed
qed

lemma tasks_ok_dispatch: "tasks_ok ex (dispatch_line l)"
  by (simp add: dispatch_line_def)

lemma tasks_ok_tick: "tasks_ok ex (tick_tasks now a)"
  by (simp add: tick_tasks_def)

lemma agent_create_new:
  "agent_create ws build start now aid sid req = Inr a \<Longrightarrow> a = new_agent now aid sid req"
  by (auto simp: agent_create_def split: if_splits sum.splits)

lemma sys_ok_spawn:
  assumes ok: "sys_ok s" and fresh: "sy_heap s aid = None" and "turn \<noteq> []"
  shows "sys_ok (put_thread (Request n aid) (create_tasks turn req)
                   (watch aid a' (set_agent aid (new_agent now aid sid req) s)))"
proof (rule sys_ok_change [OF ok])
  let ?a = "new_agent now aid sid req"
  let ?s' = "put_thread (Request n aid) (create_tasks turn req) (watch aid a' (set_agent aid ?a s))"
  show "sy_heap ?s' = (sy_heap s)(aid \<mapsto> ?a)"
    "sy_threads ?s' = (sy_threads s)(Request n aid := create_tasks turn req)"
    "sy_exited s \<subseteq> sy_exited ?s'"
    by (simp_all add: put_thread_def set_agent_def watch_def)
  show "tasks_ok (aid \<in> sy_exited ?s') (create_tasks turn req)"
    using assms(3) by (simp add: create_tasks_def)
  show "exit_ok ?s' aid ?a"
    by (simp add: exit_ok_def new_agent_def)
qed (simp_all add: agent_ok_new)

lemma unsubscribe_fields:
  "unsubscribe i a = Some a' \<Longrightarrow> ag_status a' = ag_status a \<and> ag_done a' = ag_done a"
  using close_chans_fields [of "{i}" a a'] by (auto simp: unsubscribe_def split: if_splits)

lemma sys_ok_step: "sys_step en s s' \<Longrightarrow> sys_ok s \<Longrightarrow> sys_ok s'"
proof (induction rule: sys_step.induct)
  case (spawn s aid turn now sid req a n)
  then show ?case by (auto dest!: agent_create_new intro: sys_ok_spawn)
next
  case (send s n aid turn a prompt)
  show ?case
    by (rule sys_ok_thread [OF send(4,3), where t = "Request n aid" and ts = "[TrySend turn prompt]"])
       (use send in \<open>auto simp: put_thread_def\<close>)
next
  case (subscribe aid s a)
  have "agent_ok (snd (subscribe a))"
    using sys_okD(1) [OF subscribe(3,2)] by (rule agent_ok_subscribe)
  then show ?case
    by (rule sys_ok_agent [OF subscribe(3,2)]) (simp_all add: subscribe_def Let_def)
next
  case (unsubscribe s aid a i a')
  have "agent_ok a'"
    using sys_okD(1) [OF unsubscribe(3,1)] unsubscribe(2) by (rule agent_ok_unsubscribe)
  then show ?case
    by (rule sys_ok_agent [OF unsubscribe(3,1)]) (use unsubscribe_fields [OF unsubscribe(2)] in auto)
next
  case (receive s aid a i)
  have "agent_ok (receive i a)"
    using sys_okD(1) [OF receive(2,1)] by (rule agent_ok_receive)
  then show ?case
    by (rule sys_ok_agent [OF receive(2,1)]) (simp_all add: receive_def)
next
  case (line s aid a l)
  show ?case
    by (rule sys_ok_thread [OF line(3,1), where t = "Dispatcher aid" and ts = "dispatch_line l"])
       (use line in \<open>auto simp: put_thread_def tasks_ok_dispatch\<close>)
next
  case (exit s aid a err)
  let ?s' = "put_thread (Waiter aid) [MarkExit err] (s\<lparr>sy_exited := insert aid (sy_exited s)\<rparr>)"
  show ?case
  proof (rule sys_ok_change [OF exit(4)])
    show "sy_heap ?s' = (sy_heap s)(aid \<mapsto> a)"
      using exit(1) by (auto simp: put_thread_def)
    show "sy_threads ?s' = (sy_threads s)(Waiter aid := [MarkExit err])"
      by (simp add: put_thread_def)
    show "exit_ok ?s' aid a"
      by (rule exit_ok_change [OF sys_okD(2) [OF exit(4,1)], where t = "Waiter aid" and ts = "[MarkExit err]"])
         (use exit(3) in \<open>auto simp: put_thread_def\<close>)
    show "agent_ok a" using exit(4,1) by (rule sys_okD)
  qed (auto simp: put_thread_def)
next
  case (stop s aid a n)
  show ?case
    by (rule sys_ok_thread [OF stop(3,1), where t = "Request n aid" and ts = "[Unregister]"])
       (use stop in \<open>auto simp: put_thread_def\<close>)
next
  case (tick s aid a now)
  show ?case
    by (rule sys_ok_thread [OF tick(5,1), where t = "Watcher aid" and ts = "tick_tasks now a"])
       (use tick in \<open>auto simp: put_thread_def tick_watch_def tasks_ok_tick\<close>)
next
  case (run s t tk tks a now w s' nxt)
  show ?case
    by (rule sys_ok_exec [OF run(5,1-4)])
qed

lemma sys_ok_reachable: "sys_reachable en s \<Longrightarrow> sys_ok s"
  by (induction rule: rtranclp_induct) (auto intro: sys_ok_init sys_ok_step)

section \<open>Executing an interleaving\<close>

text \<open>An action names a step and its inputs; a trace of actions runs to a reachable state.\<close>

datatype 'c action =
    ASpawn nat string string string gtime "'c create_request"
  | ASend nat string string string
  | ASubscribe string
  | AUnsubscribe string nat
  | AReceive string nat
  | ALine string string
  | AExit string "go_error option"
  | AStop nat string
  | ATick string gtime
  | ARun tid gtime "go_error option \<times> go_error option"

definition run_thread ::
    "'c env \<Rightarrow> gtime \<Rightarrow> go_error option \<times> go_error option \<Rightarrow> tid \<Rightarrow> sys \<Rightarrow> sys option" where
  "run_thread en now w t s =
     (case sy_threads s t of
        [] \<Rightarrow> None
      | tk # tks \<Rightarrow>
          (case sy_heap s (tid_agent t) of
             None \<Rightarrow> None
           | Some a \<Rightarrow>
               if task_enabled (tid_agent t) tk s
               then map_option (\<lambda>(s', nxt). put_thread t (nxt @ tks) s')
                      (exec_task en now w (tid_agent t) a tk s)
               else None))"

fun exec_action :: "'c env \<Rightarrow> 'c action \<Rightarrow> sys \<Rightarrow> sys option" where
  "exec_action en (ASpawn n aid sid turn now req) s =
     (if sy_heap s aid = None \<and> turn \<noteq> []
      then (case agent_create (en_ws en) (en_build en) (en_start en) now aid sid req of
              Inl _ \<Rightarrow> None
            | Inr a \<Rightarrow> Some (put_thread (Request n aid) (create_tasks turn req)
                              (watch aid a (set_agent aid a s))))
      else None)"
| "exec_action en (ASend n aid turn prompt) s =
     (if sy_threads s (Request n aid) = [] \<and> turn \<noteq> [] \<and> sy_heap s aid \<noteq> None
      then Some (put_thread (Request n aid) [TrySend turn prompt] s) else None)"
| "exec_action en (ASubscribe aid) s =
     (case sy_heap s aid of
        None \<Rightarrow> None
      | Some a \<Rightarrow> if aid \<in> sy_reg s then Some (set_agent aid (snd (subscribe a)) s) else None)"
| "exec_action en (AUnsubscribe aid i) s =
     (case sy_heap s aid of
        None \<Rightarrow> None
      | Some a \<Rightarrow> map_option (\<lambda>a'. set_agent aid a' s) (unsubscribe i a))"
| "exec_action en (AReceive aid i) s =
     map_option (\<lambda>a. set_agent aid (receive i a) s) (sy_heap s aid)"
| "exec_action en (ALine aid l) s =
     (if sy_threads s (Dispatcher aid) = [] \<and> sy_heap s aid \<noteq> None
      then Some (put_thread (Dispatcher aid) (dispatch_line l) s) else None)"
| "exec_action en (AExit aid err) s =
     (if sy_threads s (Waiter aid) = [] \<and> sy_heap s aid \<noteq> None \<and> aid \<notin> sy_exited s
      then Some (put_thread (Waiter aid) [MarkExit err] (s\<lparr>sy_exited := insert aid (sy_exited s)\<rparr>))
      else None)"
| "exec_action en (AStop n aid) s =
     (if sy_threads s (Request n aid) = [] \<and> sy_heap s aid \<noteq> None
      then Some (put_thread (Request n aid) [Unregister] s) else None)"
| "exec_action en (ATick aid now) s =
     (case sy_heap s aid of
        None \<Rightarrow> None
      | Some a \<Rightarrow>
          if sy_threads s (Watcher aid) = [] \<and> aid \<in> sy_watched s \<and> \<not> ag_done a
          then Some (put_thread (Watcher aid) (tick_tasks now a) (tick_watch now aid a s)) else None)"
| "exec_action en (ARun t now w) s = run_thread en now w t s"

lemma run_thread_step: "run_thread en now w t s = Some s' \<Longrightarrow> sys_step en s s'"
  by (auto simp: run_thread_def split: list.splits option.splits if_splits intro: sys_step.run)

lemma exec_action_step: "exec_action en act s = Some s' \<Longrightarrow> sys_step en s s'"
  by (cases act)
     (auto split: if_splits option.splits sum.splits intro: sys_step.intros run_thread_step)

fun exec_trace :: "'c env \<Rightarrow> 'c action list \<Rightarrow> sys \<Rightarrow> sys option" where
  "exec_trace en [] s = Some s"
| "exec_trace en (act # acts) s =
     (case exec_action en act s of None \<Rightarrow> None | Some s' \<Rightarrow> exec_trace en acts s')"

lemma exec_trace_steps: "exec_trace en acts s = Some s' \<Longrightarrow> (sys_step en)\<^sup>*\<^sup>* s s'"
  by (induction acts arbitrary: s)
     (auto split: option.splits intro: converse_rtranclp_into_rtranclp dest: exec_action_step)

lemma exec_trace_reachable: "exec_trace en acts sys_init = Some s \<Longrightarrow> sys_reachable en s"
  by (rule exec_trace_steps)

definition demo_env :: "unit env" where
  "demo_env = \<lparr>en_ws = (\<lambda>_. ''exit status''), en_probe = (\<lambda>l. if l = ''R'' then Some ''result'' else None),
               en_enc = (\<lambda>p. p), en_build = (\<lambda>_ _ _. Inr [''podman'']), en_start = (\<lambda>_. Inr ())\<rparr>"

definition demo_req :: "unit create_request" where
  "demo_req = \<lparr>cr_prompt = [], cr_workdir = [], cr_idle_seconds = 0, cr_no_idle = False, cr_claude = None\<rparr>"

definition demo_start :: "unit action list" where
  "demo_start = [ASpawn 0 ''a'' ''s'' ''t0'' 0 demo_req, ARun (Request 0 ''a'') 1 (None, None)]"

text \<open>A send whose write meets the exit of the process.\<close>

definition demo_race :: "unit action list" where
  "demo_race = demo_start @
     [ASend 1 ''a'' ''t1'' ''hi'', ARun (Request 1 ''a'') 2 (None, None),
      ARun (Request 1 ''a'') 3 (None, None),
      AExit ''a'' None, ARun (Waiter ''a'') 4 (None, None), ARun (Waiter ''a'') 5 (None, None),
      ARun (Waiter ''a'') 6 (None, None), ARun (Waiter ''a'') 7 (None, None),
      ARun (Request 1 ''a'') 8 (None, None)]"

lemmas demo_agent_simps = demo_env_def demo_req_def demo_start_def demo_race_def sys_init_def
  agent_create_def new_agent_def create_tasks_def watch_def set_agent_def put_thread_def
  run_thread_def send_begin_def begin_turn_def process_send_def mark_exited_def close_done_def
  close_all_def close_chans_def fanout_def rollback_turn_def trim_space_def is_space_def
  idle_timeout_of_def

lemma demo_race_result:
  "map_option (\<lambda>s. (map_option (\<lambda>a. (ag_status a, ag_done a, ag_turn a)) (sy_heap s ''a''),
                    ''a'' \<in> sy_reg s, sy_threads s (Request 1 ''a'')))
     (exec_trace demo_env demo_race sys_init) =
   Some (Some (AExited, True, ''t1''), True, [Rollback ''t1'' (Msg ''agent: process has exited'')])"
  by (simp add: demo_agent_simps)

lemma demo_started:
  obtains s a where "exec_trace demo_env demo_start sys_init = Some s" and "sys_reachable demo_env s"
    and "sy_heap s ''a'' = Some a" and "ag_status a = Starting" and "''a'' \<in> sy_reg s"
    and "sy_threads s = (\<lambda>_. [])" and "ag_turn a = []"
proof -
  obtain s where s: "exec_trace demo_env demo_start sys_init = Some s"
    by (simp add: demo_agent_simps)
  have r: "sys_reachable demo_env s"
    using s by (rule exec_trace_reachable)
  show ?thesis
    by (rule that [OF s r]) (use s in \<open>auto simp: demo_agent_simps\<close>)
qed

section \<open>Properties\<close>

text \<open>C15: no goroutine of the agent runtime ever panics on a channel: in every reachable interleaving each
  task of each goroutine runs without sending on a closed channel or closing one twice, cancelling
  a subscription does not either, and every registered subscriber has an open channel holding at
  most its 32 buffered events.\<close>

theorem agents_never_panic:
  assumes "sys_reachable en s" and "sy_heap s aid = Some a"
  shows "exec_task en now w aid a tk s \<noteq> None \<and> unsubscribe i a \<noteq> None \<and>
         (i \<in> ag_subs a \<longrightarrow>
            (\<exists>c. ag_chans a i = Some c \<and> \<not> ch_closed c \<and> length (ch_buf c) \<le> 32))"
proof -
  have ok: "chans_ok a"
    using sys_okD(1) [OF sys_ok_reachable [OF assms(1)] assms(2)] by (simp add: agent_ok_def)
  have "exec_task en now w aid a tk s \<noteq> None"
    using fanout_no_panic [OF ok] close_all_no_panic [OF ok]
    by (cases tk) (auto split: sum.split option.split)
  moreover have "i \<in> ag_subs a \<longrightarrow>
      (\<exists>c. ag_chans a i = Some c \<and> \<not> ch_closed c \<and> length (ch_buf c) \<le> 32)"
    using chans_ok_sub [OF ok, of i] by (auto simp: chan_cap_def)
  ultimately show ?thesis
    using unsubscribe_no_panic [OF ok] by blast
qed

theorem agents_never_panic_witness:
  "\<exists>s a. exec_trace demo_env demo_race sys_init = Some s \<and> sy_heap s ''a'' = Some a \<and>
         exec_task demo_env 9 (None, None) ''a'' a (Fan (turn_event 9 ErrorEv [] [] [])) s \<noteq> None"
proof -
  obtain s where s: "exec_trace demo_env demo_race sys_init = Some s"
    using demo_race_result by (cases "exec_trace demo_env demo_race sys_init") auto
  moreover obtain a where "sy_heap s ''a'' = Some a"
    using demo_race_result s by auto
  ultimately show ?thesis
    using agents_never_panic [OF exec_trace_reachable [OF s]] by blast
qed

text \<open>C10: turns are exclusive. In every reachable state an agent records a turn id when it is generating
  and none when it is starting or idle, and a send is accepted exactly when the agent is registered,
  the prompt is not blank and no turn is recorded by a live agent; an accepted send records the new
  turn.\<close>

theorem send_accepted_iff_no_turn:
  assumes "sys_reachable en s" and "sy_heap s aid = Some a"
  shows "(ag_status a = Generating \<longrightarrow> ag_turn a \<noteq> []) \<and>
         (ag_status a \<in> {Starting, Idle} \<longrightarrow> ag_turn a = []) \<and>
         ((\<exists>a'. send_begin now turn aid prompt s = Inr a') \<longleftrightarrow>
            aid \<in> sy_reg s \<and> trim_space prompt \<noteq> [] \<and> ag_status a \<noteq> AExited \<and> ag_turn a = []) \<and>
         (\<forall>a'. send_begin now turn aid prompt s = Inr a' \<longrightarrow>
            ag_status a' = Generating \<and> ag_turn a' = turn)"
proof -
  have "turn_ok a"
    using sys_okD(1) [OF sys_ok_reachable [OF assms(1)] assms(2)] by (simp add: agent_ok_def)
  then show ?thesis
    using assms(2) by (cases "ag_status a") (auto simp: turn_ok_def send_begin_def begin_turn_def)
qed

theorem send_accepted_iff_no_turn_witness:
  "\<exists>s a'. exec_trace demo_env demo_start sys_init = Some s \<and>
          send_begin 5 ''t1'' ''a'' ''hi'' s = Inr a' \<and> ag_turn a' = ''t1''"
proof -
  obtain s a where s: "exec_trace demo_env demo_start sys_init = Some s" "sys_reachable demo_env s"
    "sy_heap s ''a'' = Some a" "ag_status a = Starting" "''a'' \<in> sy_reg s" "ag_turn a = []"
    using demo_started by blast
  have "trim_space ''hi'' \<noteq> []"
    by (simp add: trim_space_def is_space_def)
  with send_accepted_iff_no_turn [OF s(2,3), of 5 "''t1''" "''hi''"] s show ?thesis
    by auto
qed

text \<open>An agent is reported as exited, and the channel that ends its watchdog is closed, only once
  its process has really terminated; and an exited agent's watchdog channel is closed or a goroutine
  is about to close it.\<close>

lemma exited_only_after_process_end:
  assumes "sys_reachable en s" and "sy_heap s aid = Some a" and "ag_status a = AExited"
  shows "aid \<in> sy_exited s \<and>
         (ag_done a \<or> (\<exists>t. tid_agent t = aid \<and> CloseDone \<in> set (sy_threads s t)))"
  using sys_okD(2) [OF sys_ok_reachable [OF assms(1)] assms(2)] assms(3)
  by (simp add: exit_ok_def)

lemma exited_only_after_process_end_witness:
  "\<exists>s. exec_trace demo_env demo_race sys_init = Some s \<and> ''a'' \<in> sy_exited s"
proof -
  obtain s where s: "exec_trace demo_env demo_race sys_init = Some s"
    using demo_race_result by (cases "exec_trace demo_env demo_race sys_init") auto
  obtain a where "sy_heap s ''a'' = Some a" "ag_status a = AExited"
    using demo_race_result s by auto
  with exited_only_after_process_end [OF exec_trace_reachable [OF s]] s show ?thesis
    by blast
qed


text \<open>A subscription made after the agent exited is never ended by the server: deleting the agent
  afterwards runs to its end and unregisters it, but leaves the new subscriber's channel open,
  because marking an already exited agent returns before the channels are closed.\<close>

lemma late_subscriber_left_open:
  assumes "sy_heap s aid = Some a" and "ag_status a = AExited" and "aid \<in> sy_reg s"
    and "aid \<in> sy_exited s" and "sy_threads s (Request n aid) = []"
  shows "\<exists>s' a' c.
           exec_trace en [ASubscribe aid, AStop n aid, ARun (Request n aid) t1 w,
                          ARun (Request n aid) t2 w, ARun (Request n aid) t3 w] s = Some s' \<and>
           aid \<notin> sy_reg s' \<and> sy_threads s' (Request n aid) = [] \<and>
           sy_heap s' aid = Some a' \<and> ag_next a \<in> ag_subs a' \<and>
           ag_chans a' (ag_next a) = Some c \<and> \<not> ch_closed c"
  using assms
  by (simp add: run_thread_def put_thread_def set_agent_def subscribe_def Let_def mark_exited_def)

lemma late_subscriber_left_open_witness:
  "\<exists>s s'. exec_trace demo_env demo_race sys_init = Some s \<and>
          exec_trace demo_env [ASubscribe ''a'', AStop 2 ''a'', ARun (Request 2 ''a'') 10 (None, None),
            ARun (Request 2 ''a'') 11 (None, None), ARun (Request 2 ''a'') 12 (None, None)] s = Some s' \<and>
          ''a'' \<notin> sy_reg s'"
proof -
  obtain s where s: "exec_trace demo_env demo_race sys_init = Some s"
    using demo_race_result by (cases "exec_trace demo_env demo_race sys_init") auto
  obtain a where a: "sy_heap s ''a'' = Some a" "ag_status a = AExited" "''a'' \<in> sy_reg s"
    using demo_race_result s by auto
  have "''a'' \<in> sy_exited s" "sy_threads s (Request 2 ''a'') = []"
    using s by (auto simp: demo_agent_simps)
  from late_subscriber_left_open [OF a this, of demo_env 10 "(None, None)" 11 12] s show ?thesis
    by blast
qed

end
