(* ===== verification/Agent_Api.thy ===== *)
theory Agent_Api
  imports Agent_System Async_Api
begin

text \<open>
  The agent endpoints, \<^verbatim>\<open>internal/api/agents.go\<close>: the mapping of agent errors to HTTP status codes, the
  handlers' responses and the framing of the event stream; and \<^verbatim>\<open>forwardLines\<close> of
  \<^verbatim>\<open>internal/agent/process.go\<close>, which turns the process's output into lines.
\<close>

section \<open>Handlers\<close>

datatype agent_body =
    ErrorBody string
  | CreatedAgent snapshot
  | AgentBody snapshot
  | AgentList "snapshot list"
  | TurnAccepted string
  | NoBody

definition map_agent_error :: "(wait_status \<Rightarrow> string) \<Rightarrow> go_error \<Rightarrow> agent_body http" where
  "map_agent_error ws e =
     (if err_is e err_agent_not_found then Http 404 (ErrorBody (err_text ws e))
      else if err_is e err_agent_busy then Http 409 (ErrorBody (err_text ws e))
      else if err_is e err_agent_exited then Http 410 (ErrorBody (err_text ws e))
      else if err_is e err_invalid_request then Http 400 (ErrorBody (err_text ws e))
      else if err_is e err_agent_not_ready then Http 503 (ErrorBody (err_text ws e))
      else Http 500 (ErrorBody (err_text ws e)))"

definition create_agent_handler ::
    "(wait_status \<Rightarrow> string) \<Rightarrow> agent result \<Rightarrow> agent_body http" where
  "create_agent_handler ws r =
     (case r of
        Inl e \<Rightarrow> map_agent_error ws e
      | Inr a \<Rightarrow> Http 201 (CreatedAgent (agent_snapshot ws a)))"

definition get_agent_handler ::
    "(wait_status \<Rightarrow> string) \<Rightarrow> string \<Rightarrow> sys \<Rightarrow> agent_body http" where
  "get_agent_handler ws aid s =
     (case (if aid \<in> sy_reg s then sy_heap s aid else None) of
        None \<Rightarrow> map_agent_error ws err_agent_not_found
      | Some a \<Rightarrow> Http 200 (AgentBody (agent_snapshot ws a)))"

definition list_agents_handler ::
    "(wait_status \<Rightarrow> string) \<Rightarrow> string list \<Rightarrow> sys \<Rightarrow> agent_body http" where
  "list_agents_handler ws ks s =
     Http 200 (AgentList (map (agent_snapshot ws)
       (List.map_filter (\<lambda>k. if k \<in> sy_reg s then sy_heap s k else None) ks)))"

text \<open>
  \<open>POST /agents/{id}/send\<close>: the state when the handler starts decides whether the turn begins, the
  state when the process is written to whether it is accepted; \<open>w1\<close> and \<open>w2\<close> are the errors of the two
  writes.
\<close>

definition send_handler ::
    "'c env \<Rightarrow> gtime \<Rightarrow> string \<Rightarrow> string \<Rightarrow> string \<Rightarrow> sys \<Rightarrow> bool \<Rightarrow> go_error option \<Rightarrow>
     go_error option \<Rightarrow> agent_body http" where
  "send_handler en now turn aid prompt s exited w1 w2 =
     (case send_begin now turn aid prompt s of
        Inl e \<Rightarrow> map_agent_error (en_ws en) e
      | Inr _ \<Rightarrow>
          (case process_send exited w1 w2 (en_enc en prompt) of
             Some e \<Rightarrow> map_agent_error (en_ws en) e
           | None \<Rightarrow> Http 202 (TurnAccepted turn)))"

definition delete_agent_handler ::
    "(wait_status \<Rightarrow> string) \<Rightarrow> string \<Rightarrow> sys \<Rightarrow> agent_body http" where
  "delete_agent_handler ws aid s =
     (if aid \<in> sy_reg s then Http 204 NoBody else map_agent_error ws err_agent_not_found)"

definition event_type_text :: "event_type \<Rightarrow> string" where
  "event_type_text ty =
     (case ty of TurnStart \<Rightarrow> ''turn_start'' | OutputEv \<Rightarrow> ''output'' | TurnEnd \<Rightarrow> ''turn_end''
      | ErrorEv \<Rightarrow> ''error'' | ExitedEv \<Rightarrow> ''exited'')"

definition newline :: string where
  "newline = [CHR 0x0A]"

text \<open>\<open>js\<close> is the JSON encoding of an event, \<open>None\<close> when it fails.\<close>

definition stream_frame :: "(event \<Rightarrow> string option) \<Rightarrow> event \<Rightarrow> string" where
  "stream_frame js ev =
     (case js ev of
        None \<Rightarrow> []
      | Some payload \<Rightarrow>
          ''event: '' @ event_type_text (ev_type ev) @ newline @ ''data: '' @ payload @ newline @ newline)"

definition stream_body :: "(event \<Rightarrow> string option) \<Rightarrow> event list \<Rightarrow> bool \<Rightarrow> string" where
  "stream_body js evs eos =
     concat (map (stream_frame js) evs) @
     (if eos then ''event: closed'' @ newline @ ''data: {}'' @ newline @ newline else [])"

section \<open>Lines of the process\<close>

definition max_agent_line_bytes :: nat where
  "max_agent_line_bytes = 10485760"

definition truncation_marker :: string where
  "truncation_marker =
     ''[stromboli: line truncated, exceeded '' @ show_nat max_agent_line_bytes @ '' bytes]''"

text \<open>
  The results of \<^verbatim>\<open>ReadLine\<close>: a chunk, whether the line goes on, and whether reading ended with an
  error (end of file included). The state is the line collected so far and whether it overflowed.
\<close>

fun forward_lines :: "string \<Rightarrow> string \<Rightarrow> bool \<Rightarrow> (string \<times> bool \<times> bool) list \<Rightarrow> string list" where
  "forward_lines pre buf trunc [] = []"
| "forward_lines pre buf trunc ((chunk, is_prefix, err) # reads) =
     (let (buf1, trunc1) =
            (if length chunk > 0 \<and> \<not> trunc
             then (if length buf + length chunk \<le> max_agent_line_bytes then (buf @ chunk, False)
                   else (buf, True))
             else (buf, trunc));
          out = (if \<not> is_prefix
                 then (if trunc1 then [pre @ truncation_marker]
                       else if length buf1 > 0 \<or> \<not> err then [pre @ buf1] else [])
                 else []);
          (buf2, trunc2) = (if \<not> is_prefix then ([], False) else (buf1, trunc1))
      in out @ (if err then [] else forward_lines pre buf2 trunc2 reads))"

text \<open>A line read in chunks: all but the last have the prefix flag.\<close>

fun line_reads :: "string list \<Rightarrow> (string \<times> bool \<times> bool) list" where
  "line_reads [] = []"
| "line_reads [c] = [(c, False, False)]"
| "line_reads (c # d # cs) = (c, True, False) # line_reads (d # cs)"

definition forwarded :: "string \<Rightarrow> string \<Rightarrow> string" where
  "forwarded pre line =
     (if length line \<le> max_agent_line_bytes then pre @ line else pre @ truncation_marker)"

lemma forward_truncated:
  "cs \<noteq> [] \<Longrightarrow> forward_lines pre buf True (line_reads cs @ rest) =
     (pre @ truncation_marker) # forward_lines pre [] False rest"
  by (induction cs rule: line_reads.induct) auto

lemma forward_one_line:
  "cs \<noteq> [] \<Longrightarrow> length buf \<le> max_agent_line_bytes \<Longrightarrow>
   forward_lines pre buf False (line_reads cs @ rest) =
     forwarded pre (buf @ concat cs) # forward_lines pre [] False rest"
proof (induction cs arbitrary: buf rule: line_reads.induct)
  case (2 c)
  then show ?case by (auto simp: forwarded_def)
next
  case (3 c d cs)
  show ?case
  proof (cases "length buf + length c \<le> max_agent_line_bytes")
    case True
    with 3 show ?thesis by auto
  next
    case False
    with 3 forward_truncated [of "d # cs" pre buf rest] show ?thesis
      by (auto simp: forwarded_def)
  qed
qed simp

section \<open>Properties\<close>

text \<open>Every output line reaches the dispatcher in order and unchanged whatever chunks it is read in,
  blank lines included; a line above 10 MiB is replaced by the marker and disturbs no other line,
  and the end of the stream adds no phantom line.\<close>

lemma forward_lines_exact:
  assumes "\<forall>cs \<in> set lines. cs \<noteq> []"
  shows "forward_lines pre [] False (concat (map line_reads lines) @ [([], False, True)]) =
           map (\<lambda>cs. if length (concat cs) \<le> 10485760 then pre @ concat cs
                     else pre @ truncation_marker) lines"
  using assms
proof (induction lines)
  case (Cons cs lines)
  then show ?case
    by (simp add: forward_one_line forwarded_def max_agent_line_bytes_def)
qed simp

lemma forward_lines_exact_witness:
  "forward_lines ''> '' [] False
     (concat (map line_reads [[''ab'', ''c''], [[]]]) @ [([], False, True)]) = [''> abc'', ''> '']"
  using forward_lines_exact [of "[[''ab'', ''c''], [[]]]" "''> ''"] by simp

text \<open>An operating system error is none of the agent package's sentinels.\<close>

definition foreign :: "go_error option \<Rightarrow> bool" where
  "foreign eo \<longleftrightarrow>
     (\<forall>e. eo = Some e \<longrightarrow>
        \<not> err_is e err_agent_not_found \<and> \<not> err_is e err_agent_busy \<and> \<not> err_is e err_agent_exited \<and>
        \<not> err_is e err_invalid_request \<and> \<not> err_is e err_agent_not_ready)"

text \<open>The status code of \<open>POST /agents/{id}/send\<close> on every branch: 404 for an unregistered agent, 400
  for a blank prompt, 409 while a turn is in flight, 410 when the agent has exited before the turn
  began, 202 when the turn was written. A process that exits between the two checks gives 500 and
  not 410, because the write reports it with an error of its own.\<close>

lemma send_handler_codes:
  assumes "sy_heap s aid = Some a" and "foreign w1" and "foreign w2"
  shows "http_code (send_handler en now turn aid prompt s exited w1 w2) =
           (if aid \<notin> sy_reg s then 404
            else if trim_space prompt = [] then 400
            else if ag_status a = Generating then 409
            else if ag_status a = AExited then 410
            else if process_send exited w1 w2 (en_enc en prompt) = None then 202
            else 500)"
proof -
  have pe: "http_code (map_agent_error ws e) = 500"
    if "process_send exited w1 w2 p = Some e" for ws p e
    using that assms(2,3)
    by (auto simp: process_send_def foreign_def map_agent_error_def agent_errors
             split: if_splits option.splits)
  show ?thesis
  proof (cases "ag_status a")
    case Generating
    with assms(1) show ?thesis
      by (simp add: send_handler_def send_begin_def begin_turn_def map_agent_error_def agent_errors)
  next
    case AExited
    with assms(1) show ?thesis
      by (simp add: send_handler_def send_begin_def begin_turn_def map_agent_error_def agent_errors)
  next
    case Starting
    with assms(1) pe show ?thesis
      by (auto simp: send_handler_def send_begin_def begin_turn_def map_agent_error_def agent_errors
               split: option.split)
  next
    case Idle
    with assms(1) pe show ?thesis
      by (auto simp: send_handler_def send_begin_def begin_turn_def map_agent_error_def agent_errors
               split: option.split)
  qed
qed

lemma send_handler_codes_witness:
  "\<exists>s. exec_trace demo_env demo_start sys_init = Some s \<and>
       http_code (send_handler demo_env 3 ''t'' ''a'' ''hi'' s True None None) = 500 \<and>
       http_code (send_handler demo_env 3 ''t'' ''a'' ''hi'' s False None None) = 202"
proof -
  obtain s a where s: "exec_trace demo_env demo_start sys_init = Some s" "sy_heap s ''a'' = Some a"
    "ag_status a = Starting" "''a'' \<in> sy_reg s"
    using demo_started by blast
  have "foreign None" by (simp add: foreign_def)
  then show ?thesis
    using s send_handler_codes [OF s(2), of None None demo_env 3 "''t''" "''hi''"]
    by (simp add: process_send_def demo_env_def trim_space_def is_space_def)
qed

end
