(* ===== verification/Http_Service.thy ===== *)
theory Http_Service
  imports Server Agent_Api
begin

text \<open>
  The server as one system: every endpoint over one state, requests in any interleaving with the goroutines behind them
  and the sweeps (\<^verbatim>\<open>NewServer\<close> and \<^verbatim>\<open>setupRoutes\<close> of \<^verbatim>\<open>internal/api/server.go\<close>, with \<^verbatim>\<open>runAsync\<close>, \<^verbatim>\<open>cancelJob\<close> and the agent
  handlers, which take several steps). A request first passes the middlewares of its route; then its handler acts.
  What is random, or comes from outside, is an input of a step.
\<close>

section \<open>Requests and answers\<close>

datatype 'c call =
    HealthCall
  | TokenCall "string + string"
  | RefreshCall "string + string"
  | ValidateCall
  | LogoutCall
  | StatusCall
  | RunCall "api_run_request result"
  | StreamCall string string string
  | AsyncCall "api_run_request result"
  | ListJobsCall
  | GetJobCall string
  | CancelJobCall string
  | ListSessionsCall
  | DestroySessionCall string
  | ListMessagesCall string string string
  | GetMessageCall string string
  | ListSecretsCall
  | CreateSecretCall "(string \<times> string) result"
  | GetSecretCall string
  | DeleteSecretCall string
  | ListImagesCall
  | SearchImagesCall string string string
  | PullImageCall "(string \<times> pull_options) result"
  | InspectImageCall string
  | CreateAgentCall "'c create_request result"
  | ListAgentsCall
  | GetAgentCall string
  | SendAgentCall string "string result"
  | StreamAgentCall string
  | DeleteAgentCall string

fun endpoint_of :: "'c call \<Rightarrow> endpoint" where
  "endpoint_of HealthCall = HealthEp"
| "endpoint_of (TokenCall b) = TokenEp"
| "endpoint_of (RefreshCall b) = RefreshEp"
| "endpoint_of ValidateCall = ValidateEp"
| "endpoint_of LogoutCall = LogoutEp"
| "endpoint_of StatusCall = ClaudeStatusEp"
| "endpoint_of (RunCall r) = RunEp"
| "endpoint_of (StreamCall p w i) = RunStreamEp"
| "endpoint_of (AsyncCall r) = RunAsyncEp"
| "endpoint_of ListJobsCall = ListJobsEp"
| "endpoint_of (GetJobCall i) = GetJobEp"
| "endpoint_of (CancelJobCall i) = CancelJobEp"
| "endpoint_of ListSessionsCall = ListSessionsEp"
| "endpoint_of (DestroySessionCall i) = DestroySessionEp"
| "endpoint_of (ListMessagesCall i a b) = ListMessagesEp"
| "endpoint_of (GetMessageCall i m) = GetMessageEp"
| "endpoint_of ListSecretsCall = ListSecretsEp"
| "endpoint_of (CreateSecretCall r) = CreateSecretEp"
| "endpoint_of (GetSecretCall n) = GetSecretEp"
| "endpoint_of (DeleteSecretCall n) = DeleteSecretEp"
| "endpoint_of ListImagesCall = ListImagesEp"
| "endpoint_of (SearchImagesCall q l n) = SearchImagesEp"
| "endpoint_of (PullImageCall r) = PullImageEp"
| "endpoint_of (InspectImageCall n) = InspectImageEp"
| "endpoint_of (CreateAgentCall r) = CreateAgentEp"
| "endpoint_of ListAgentsCall = ListAgentsEp"
| "endpoint_of (GetAgentCall i) = GetAgentEp"
| "endpoint_of (SendAgentCall i p) = SendAgentEp"
| "endpoint_of (StreamAgentCall i) = StreamAgentEp"
| "endpoint_of (DeleteAgentCall i) = DeleteAgentEp"

datatype reply =
    NoRoute
  | RateLimited rate_headers
  | Denied nat string
  | ServerReply "server_body http"
  | AuthReply "auth_body http"
  | JobReply "job_body http"
  | AgentReply "agent_body http"
  | SecretReply "secret_body http"
  | ImageReply "image_body http"
  | MessagesReply "nat \<times> (string + message_list)"
  | MessageReply "nat \<times> (string + message)"
  | StreamOpened

section \<open>The state\<close>

text \<open>
  What the handlers share: the runner's world, the job side, the requests of the running jobs, the agents, the blacklist
  (\<open>None\<close> without one) and the state of podman that the registries of secrets and images reach.
\<close>

record ('s, 'd) backend =
  hb_world :: world
  hb_async :: async_state
  hb_runs :: "string \<rightharpoonup> api_run_request"
  hb_agents :: "Agent_System.sys"
  hb_deny :: "'d option"
  hb_podman :: 's

text \<open>
  A request whose handler has not answered yet: it has only passed the middlewares; or it has looked up a job to cancel, or
  created a job, or its thread works on an agent and has collected an error or none.
\<close>

datatype purpose = Creating | Sending string | Deleting

datatype 'c open_request =
    Waiting "'c call" string
  | Cancelling string jobs
  | Launching string string api_run_request
  | Driving string purpose "go_error option"

record ('s, 'd, 'l, 'c) service =
  ht_backend :: "('s, 'd) backend"
  ht_now :: gtime
  ht_limits :: "'l limiters"
  ht_open :: "nat \<rightharpoonup> 'c open_request"

text \<open>What a server is made of and does not change.\<close>

record ('s, 'd, 'l, 'c) site =
  we_status :: "wait_status \<Rightarrow> string"
  we_quote :: "string \<Rightarrow> string"
  we_lib :: jwt_lib
  we_auth :: auth_config
  we_add :: "string \<Rightarrow> gtime \<Rightarrow> 'd \<Rightarrow> 'd result"
  we_blocked :: "gtime \<Rightarrow> string \<Rightarrow> 'd \<Rightarrow> bool result"
  we_reap :: "gtime \<Rightarrow> string list \<Rightarrow> 'd \<Rightarrow> 'd"
  we_buckets :: "'l bucket_ops"
  we_rate :: rate_config
  we_agents :: bool
  we_env :: "'c env"
  we_runner :: podman_runner
  we_podman :: "'s podman"
  we_images :: image_decoders
  we_secrets :: secret_decoders
  we_decoders :: decoders
  we_dir :: string
  we_zero :: gtime
  we_version :: string
  we_format :: "gtime \<Rightarrow> string"
  we_envelope :: "string \<Rightarrow> string option"
  we_result :: "stream_response \<Rightarrow> string result"
  we_ttl :: gtime

text \<open>What one step of a handler draws or reads from outside.\<close>

record draw =
  dr_out :: outside
  dr_orders :: orders
  dr_streamed :: "string list \<Rightarrow> streamed"
  dr_configured :: bool
  dr_health :: "detailed_health option"
  dr_uuid :: string
  dr_uuid2 :: string
  dr_job :: string
  dr_keys :: "string list"
  dr_uses :: "string \<Rightarrow> usage option"
  dr_titles :: "(string \<Rightarrow> string result) option"
  dr_files :: history_files
  dr_writes :: "go_error option \<times> go_error option"

section \<open>Handlers that take several steps\<close>

datatype 'c outcome = Reply reply | Continue "'c open_request"

text \<open>\<^verbatim>\<open>POST /run/async\<close>: the job is created, then marked as running, with the run's goroutine started after it. Job ids are
  random and not drawn twice.\<close>

definition async_launch ::
    "('s, 'd, 'l, 'c) site \<Rightarrow> gtime \<Rightarrow> draw \<Rightarrow> api_run_request result \<Rightarrow> ('s, 'd) backend \<Rightarrow>
     ('c outcome \<times> ('s, 'd) backend) option" where
  "async_launch we now dr req b =
     (case req of
        Inl e \<Rightarrow> Some (Reply (ServerReply (handle_bad_request (we_status we) e)), b)
      | Inr a \<Rightarrow>
          if \<not> dr_configured dr then Some (Reply (ServerReply (Http 503 (RunError not_configured))), b)
          else if dr_job dr \<in> as_drawn (hb_async b) then None
          else
            (let sid = (if co_session_id (ar_claude a) = [] then dr_uuid dr else co_session_id (ar_claude a))
             in Some (Continue (Launching (dr_job dr) sid (a\<lparr>ar_claude := (ar_claude a)\<lparr>co_session_id := sid\<rparr>\<rparr>)),
                      b\<lparr>hb_async := run_create now (dr_job dr) (hb_async b)\<rparr>)))"

definition async_running ::
    "gtime \<Rightarrow> string \<Rightarrow> string \<Rightarrow> api_run_request \<Rightarrow> ('s, 'd) backend \<Rightarrow> ('c outcome \<times> ('s, 'd) backend) option" where
  "async_running now jid sid a b =
     (if jid \<notin> as_starting (hb_async b) then None
      else Some (Reply (JobReply (Http 202 (JobAccepted jid sid))),
                 b\<lparr>hb_async := run_begin now sid jid (hb_async b), hb_runs := (hb_runs b)(jid \<mapsto> a)\<rparr>))"

text \<open>The two goroutine steps behind it: the run with the first writes of its callback, then the usage and the notification.\<close>

definition async_ended ::
    "('s, 'd, 'l, 'c) site \<Rightarrow> gtime \<Rightarrow> string \<Rightarrow> draw \<Rightarrow> ('s, 'd) backend \<Rightarrow> ('s, 'd) backend option" where
  "async_ended we now jid dr b =
     (case hb_runs b jid of
        None \<Rightarrow> None
      | Some a \<Rightarrow>
          if jid \<notin> as_running (hb_async b) then None
          else
            (case run (dr_out dr) (dr_orders dr) (we_runner we) (build_runner_request a) (hb_world b) of
               None \<Rightarrow> None
             | Some (r, w) \<Rightarrow> Some (b\<lparr>hb_world := w, hb_async := run_finish (we_status we) now r jid (hb_async b)\<rparr>)))"

definition async_accounted ::
    "('s, 'd, 'l, 'c) site \<Rightarrow> gtime \<Rightarrow> string \<Rightarrow> run_result result \<Rightarrow> draw \<Rightarrow> ('s, 'd) backend \<Rightarrow> ('s, 'd) backend option" where
  "async_accounted we now jid r dr b =
     (case hb_runs b jid of
        None \<Rightarrow> None
      | Some a \<Rightarrow>
          if (jid, r) \<notin> as_accounting (hb_async b) then None
          else Some (b\<lparr>hb_async := run_account (we_status we) now (dr_uses dr) (ar_webhook a \<noteq> []) r jid (hb_async b)\<rparr>))"

definition answered :: "'b \<Rightarrow> ('b \<Rightarrow> reply) \<Rightarrow> 'x \<Rightarrow> ('c outcome \<times> 'x) option" where
  "answered r f b = Some (Reply (f r), b)"

text \<open>
  The agent endpoints that work on an agent start a thread of their own and go on with its steps until none is left; the
  error of a request is the one that a step of it has met.
\<close>

definition thread_error ::
    "'c env \<Rightarrow> gtime \<Rightarrow> go_error option \<times> go_error option \<Rightarrow> string \<Rightarrow> Agent_System.sys \<Rightarrow> task \<Rightarrow> go_error option \<Rightarrow> go_error option" where
  "thread_error en now w aid s tk err =
     (case tk of
        TrySend turn prompt \<Rightarrow> (case send_begin now turn aid prompt s of Inl e \<Rightarrow> Some e | Inr _ \<Rightarrow> None)
      | Write turn payload \<Rightarrow> process_send (aid \<in> sy_exited s) (fst w) (snd w) payload
      | Unregister \<Rightarrow> if aid \<in> sy_reg s then None else Some err_agent_not_found
      | _ \<Rightarrow> err)"

definition drive_reply ::
    "'c env \<Rightarrow> string \<Rightarrow> purpose \<Rightarrow> go_error option \<Rightarrow> Agent_System.sys \<Rightarrow> agent_body http" where
  "drive_reply en aid p err s =
     (case p of
        Creating \<Rightarrow>
          create_agent_handler (en_ws en) (case sy_heap s aid of None \<Rightarrow> Inl err_agent_not_found | Some a \<Rightarrow> Inr a)
      | Sending turn \<Rightarrow> (case err of None \<Rightarrow> Http 202 (TurnAccepted turn) | Some e \<Rightarrow> map_agent_error (en_ws en) e)
      | Deleting \<Rightarrow> (case err of None \<Rightarrow> Http 204 NoBody | Some e \<Rightarrow> map_agent_error (en_ws en) e))"

definition drive ::
    "'c env \<Rightarrow> nat \<Rightarrow> gtime \<Rightarrow> draw \<Rightarrow> string \<Rightarrow> purpose \<Rightarrow> go_error option \<Rightarrow> ('s, 'd) backend \<Rightarrow>
     ('c outcome \<times> ('s, 'd) backend) option" where
  "drive en n now dr aid p err b =
     (case sy_threads (hb_agents b) (tid.Request n aid) of
        [] \<Rightarrow> answered (drive_reply en aid p err (hb_agents b)) AgentReply b
      | tk # _ \<Rightarrow>
          map_option
            (\<lambda>g. (Continue (Driving aid p (thread_error en now (dr_writes dr) aid (hb_agents b) tk err)), b\<lparr>hb_agents := g\<rparr>))
            (exec_action en (ARun (tid.Request n aid) now (dr_writes dr)) (hb_agents b)))"

definition start_thread ::
    "'c env \<Rightarrow> string \<Rightarrow> purpose \<Rightarrow> 'c action \<Rightarrow> ('s, 'd) backend \<Rightarrow> ('c outcome \<times> ('s, 'd) backend) option" where
  "start_thread en aid p act b =
     map_option (\<lambda>g. (Continue (Driving aid p None), b\<lparr>hb_agents := g\<rparr>)) (exec_action en act (hb_agents b))"

definition turn_of :: "draw \<Rightarrow> string" where
  "turn_of dr = ''turn-'' @ dr_job dr"

definition bind_failed :: "'c env \<Rightarrow> go_error \<Rightarrow> agent_body http" where
  "bind_failed en e = Http 400 (ErrorBody (err_text (en_ws en) e))"

definition agent_create_call ::
    "'c env \<Rightarrow> nat \<Rightarrow> gtime \<Rightarrow> draw \<Rightarrow> 'c create_request result \<Rightarrow> ('s, 'd) backend \<Rightarrow>
     ('c outcome \<times> ('s, 'd) backend) option" where
  "agent_create_call en n now dr req b =
     (let aid = ''agent-'' @ dr_uuid dr
      in case req of
           Inl e \<Rightarrow> answered (bind_failed en e) AgentReply b
         | Inr r \<Rightarrow>
             (case agent_create (en_ws en) (en_build en) (en_start en) now aid (dr_uuid2 dr) r of
                Inl e \<Rightarrow> answered (create_agent_handler (en_ws en) (Inl e)) AgentReply b
              | Inr _ \<Rightarrow> start_thread en aid Creating (ASpawn n aid (dr_uuid2 dr) (turn_of dr) now r) b))"

definition agent_send_call ::
    "'c env \<Rightarrow> nat \<Rightarrow> draw \<Rightarrow> string \<Rightarrow> string result \<Rightarrow> ('s, 'd) backend \<Rightarrow> ('c outcome \<times> ('s, 'd) backend) option" where
  "agent_send_call en n dr aid req b =
     (case req of
        Inl e \<Rightarrow> answered (bind_failed en e) AgentReply b
      | Inr prompt \<Rightarrow>
          if sy_heap (hb_agents b) aid = None then answered (map_agent_error (en_ws en) err_agent_not_found) AgentReply b
          else start_thread en aid (Sending (turn_of dr)) (ASend n aid (turn_of dr) prompt) b)"

definition agent_delete_call ::
    "'c env \<Rightarrow> nat \<Rightarrow> string \<Rightarrow> ('s, 'd) backend \<Rightarrow> ('c outcome \<times> ('s, 'd) backend) option" where
  "agent_delete_call en n aid b =
     (if sy_heap (hb_agents b) aid = None then answered (map_agent_error (en_ws en) err_agent_not_found) AgentReply b
      else start_thread en aid Deleting (AStop n aid) b)"

definition agent_stream_call ::
    "'c env \<Rightarrow> string \<Rightarrow> ('s, 'd) backend \<Rightarrow> ('c outcome \<times> ('s, 'd) backend) option" where
  "agent_stream_call en aid b =
     (case exec_action en (ASubscribe aid) (hb_agents b) of
        None \<Rightarrow> answered (map_agent_error (en_ws en) err_agent_not_found) AgentReply b
      | Some g \<Rightarrow> Some (Reply StreamOpened, b\<lparr>hb_agents := g\<rparr>))"

section \<open>The handlers\<close>

definition on_world :: "(server_body http \<times> world) option \<Rightarrow> ('s, 'd) backend \<Rightarrow> ('c outcome \<times> ('s, 'd) backend) option" where
  "on_world r b = map_option (\<lambda>(a, w). (Reply (ServerReply a), b\<lparr>hb_world := w\<rparr>)) r"

definition on_podman :: "'b \<times> 's \<Rightarrow> ('b \<Rightarrow> reply) \<Rightarrow> ('s, 'd) backend \<Rightarrow> ('c outcome \<times> ('s, 'd) backend) option" where
  "on_podman r f b = (case r of (a, ps) \<Rightarrow> Some (Reply (f a), b\<lparr>hb_podman := ps\<rparr>))"

definition on_deny :: "auth_body http \<times> 'd option \<Rightarrow> ('s, 'd) backend \<Rightarrow> ('c outcome \<times> ('s, 'd) backend) option" where
  "on_deny r b = (case r of (a, d) \<Rightarrow> Some (Reply (AuthReply a), b\<lparr>hb_deny := d\<rparr>))"

text \<open>\<open>header\<close> is the request's authorization header, \<open>n\<close> names its thread.\<close>

fun answer_call ::
    "('s, 'd, 'l, 'c) site \<Rightarrow> nat \<Rightarrow> gtime \<Rightarrow> draw \<Rightarrow> string \<Rightarrow> 'c call \<Rightarrow> ('s, 'd) backend \<Rightarrow>
     ('c outcome \<times> ('s, 'd) backend) option" where
  "answer_call we n now dr header HealthCall b = answered (health_handler (we_version we) (dr_health dr)) ServerReply b"
| "answer_call we n now dr header (TokenCall body) b =
     answered (generate_token_handler (we_lib we) (ac_jwt (we_auth we)) now (dr_uuid dr) (dr_uuid2 dr) body) AuthReply b"
| "answer_call we n now dr header (RefreshCall body) b =
     answered (refresh_handler (we_status we) (we_lib we) (ac_jwt (we_auth we)) now (dr_uuid dr) (dr_uuid2 dr) body) AuthReply b"
| "answer_call we n now dr header ValidateCall b =
     answered (validate_handler (we_status we) (we_lib we) (ac_jwt (we_auth we)) now header) AuthReply b"
| "answer_call we n now dr header LogoutCall b =
     on_deny (logout_handler (we_status we) (we_lib we) (ac_jwt (we_auth we)) (we_add we) (hb_deny b) now header) b"
| "answer_call we n now dr header StatusCall b = answered (claude_status_handler (dr_configured dr)) ServerReply b"
| "answer_call we n now dr header (RunCall req) b =
     on_world (run_claude_handler (dr_out dr) (dr_orders dr) (we_runner we) (dr_configured dr) (we_envelope we) (dr_uses dr) req
       (hb_world b)) b"
| "answer_call we n now dr header (StreamCall prompt workdir sid) b =
     on_world (run_stream_handler (dr_out dr) (dr_orders dr) (we_runner we) (dr_streamed dr) (dr_configured dr) (we_result we)
       (we_envelope we) prompt workdir sid (hb_world b)) b"
| "answer_call we n now dr header (AsyncCall req) b = async_launch we now dr req b"
| "answer_call we n now dr header ListJobsCall b =
     answered (list_jobs_handler (we_envelope we) (we_format we) (dr_keys dr) (as_jobs (hb_async b))) JobReply b"
| "answer_call we n now dr header (GetJobCall jid) b =
     answered (get_job_handler (we_envelope we) (we_format we) jid (as_jobs (hb_async b))) JobReply b"
| "answer_call we n now dr header (CancelJobCall jid) b = Some (Continue (Cancelling jid (as_jobs (hb_async b))), b)"
| "answer_call we n now dr header ListSessionsCall b =
     answered (list_sessions_handler (dr_out dr) (we_runner we) (dr_titles dr) (dr_keys dr) (hb_world b)) ServerReply b"
| "answer_call we n now dr header (DestroySessionCall sid) b =
     on_world (Some (destroy_session_handler (dr_out dr) (we_runner we) sid (hb_world b))) b"
| "answer_call we n now dr header (ListMessagesCall sid from_at most) b =
     answered (list_messages_handler (we_status we) (we_quote we) (we_decoders we) (dr_files dr) (we_zero we) now (we_dir we)
       sid from_at most) MessagesReply b"
| "answer_call we n now dr header (GetMessageCall sid mid) b =
     answered (get_message_handler (we_status we) (we_decoders we) (dr_files dr) (we_zero we) now (we_dir we) sid mid)
       MessageReply b"
| "answer_call we n now dr header ListSecretsCall b =
     on_podman (list_secrets_handler (we_podman we) (we_secrets we) (hb_podman b)) SecretReply b"
| "answer_call we n now dr header (CreateSecretCall req) b =
     on_podman (create_secret_handler (we_status we) (we_quote we) (we_podman we) req (hb_podman b)) SecretReply b"
| "answer_call we n now dr header (GetSecretCall name) b =
     on_podman (get_secret_handler (we_status we) (we_podman we) (we_secrets we) name (hb_podman b)) SecretReply b"
| "answer_call we n now dr header (DeleteSecretCall name) b =
     on_podman (delete_secret_handler (we_status we) (we_podman we) name (hb_podman b)) SecretReply b"
| "answer_call we n now dr header ListImagesCall b =
     on_podman (list_images_handler (we_podman we) (we_images we) (hb_podman b)) ImageReply b"
| "answer_call we n now dr header (SearchImagesCall q most trunc) b =
     on_podman (search_images_handler (we_status we) (we_quote we) (we_podman we) (we_images we) q most trunc (hb_podman b))
       ImageReply b"
| "answer_call we n now dr header (PullImageCall req) b =
     on_podman (pull_image_handler (we_status we) (we_podman we) req (hb_podman b)) ImageReply b"
| "answer_call we n now dr header (InspectImageCall name) b =
     on_podman (inspect_image_handler (we_status we) (we_podman we) (we_images we) (we_zero we) name (hb_podman b)) ImageReply b"
| "answer_call we n now dr header (CreateAgentCall req) b = agent_create_call (we_env we) n now dr req b"
| "answer_call we n now dr header ListAgentsCall b =
     answered (list_agents_handler (en_ws (we_env we)) (dr_keys dr) (hb_agents b)) AgentReply b"
| "answer_call we n now dr header (GetAgentCall aid) b =
     answered (get_agent_handler (en_ws (we_env we)) aid (hb_agents b)) AgentReply b"
| "answer_call we n now dr header (SendAgentCall aid req) b = agent_send_call (we_env we) n dr aid req b"
| "answer_call we n now dr header (StreamAgentCall aid) b = agent_stream_call (we_env we) aid b"
| "answer_call we n now dr header (DeleteAgentCall aid) b = agent_delete_call (we_env we) n aid b"

definition resume ::
    "('s, 'd, 'l, 'c) site \<Rightarrow> nat \<Rightarrow> gtime \<Rightarrow> draw \<Rightarrow> 'c open_request \<Rightarrow> ('s, 'd) backend \<Rightarrow>
     ('c outcome \<times> ('s, 'd) backend) option" where
  "resume we n now dr q b =
     (case q of
        Waiting c header \<Rightarrow> answer_call we n now dr header c b
      | Cancelling jid m0 \<Rightarrow>
          (case cancel_job_handler now jid m0 (as_jobs (hb_async b)) of
             (r, m) \<Rightarrow> Some (Reply (JobReply r), b\<lparr>hb_async := (hb_async b)\<lparr>as_jobs := m, as_clock := now\<rparr>\<rparr>))
      | Launching jid sid a \<Rightarrow> async_running now jid sid a b
      | Driving aid p err \<Rightarrow> drive (we_env we) n now dr aid p err b)"

section \<open>The steps of the server\<close>

text \<open>What the agents' own goroutines, their processes and the readers of their streams do.\<close>

fun agent_moves :: "'c action \<Rightarrow> bool" where
  "agent_moves (AUnsubscribe aid i) = True"
| "agent_moves (AReceive aid i) = True"
| "agent_moves (ALine aid l) = True"
| "agent_moves (AExit aid e) = True"
| "agent_moves (ATick aid now) = True"
| "agent_moves (ARun t now w) = (case t of tid.Request n aid \<Rightarrow> False | _ \<Rightarrow> True)"
| "agent_moves a = False"

datatype 'c http_step =
    Arrive nat "'c call" string http_peer
  | Handle nat draw
  | RunEnds string draw
  | RunAccounted string "run_result result" draw
  | AgentMoves "'c action"
  | SweepJobs "string list"
  | SweepTokens "string list"
  | SweepLimits "string list"

definition guard_of :: "bool \<Rightarrow> endpoint \<Rightarrow> guard option" where
  "guard_of agents e = map_option (\<lambda>(v, p, g, e'). g) (find (\<lambda>(v, p, g, e'). e' = e) (routes agents))"

definition deny_lookup ::
    "('s, 'd, 'l, 'c) site \<Rightarrow> gtime \<Rightarrow> ('s, 'd) backend \<Rightarrow> (string \<Rightarrow> bool result) option" where
  "deny_lookup we now b = map_option (\<lambda>d j. we_blocked we now j d) (hb_deny b)"

definition arrive ::
    "('s, 'd, 'l, 'c) site \<Rightarrow> gtime \<Rightarrow> nat \<Rightarrow> 'c call \<Rightarrow> string \<Rightarrow> http_peer \<Rightarrow> ('s, 'd, 'l, 'c) service \<Rightarrow>
     ((nat \<times> reply) list \<times> ('s, 'd, 'l, 'c) service) option" where
  "arrive we now n c header peer s =
     (if ht_open s n \<noteq> None then None
      else
        (case guard_of (we_agents we) (endpoint_of c) of
           None \<Rightarrow> Some ([(n, NoRoute)], s)
         | Some g \<Rightarrow>
             (case pass_route (we_status we) (we_lib we) (we_buckets we) (we_rate we) (we_auth we)
                     (deny_lookup we now (ht_backend s)) now g peer header (ht_limits s) of
                (Limited h, m) \<Rightarrow> Some ([(n, RateLimited h)], s\<lparr>ht_limits := m\<rparr>)
              | (Refused k t, m) \<Rightarrow> Some ([(n, Denied k t)], s\<lparr>ht_limits := m\<rparr>)
              | (Passed _, m) \<Rightarrow> Some ([], s\<lparr>ht_limits := m, ht_open := (ht_open s)(n \<mapsto> Waiting c header)\<rparr>))))"

definition go_on ::
    "('s, 'd, 'l, 'c) site \<Rightarrow> gtime \<Rightarrow> nat \<Rightarrow> draw \<Rightarrow> ('s, 'd, 'l, 'c) service \<Rightarrow>
     ((nat \<times> reply) list \<times> ('s, 'd, 'l, 'c) service) option" where
  "go_on we now n dr s =
     (case ht_open s n of
        None \<Rightarrow> None
      | Some q \<Rightarrow>
          (case resume we n now dr q (ht_backend s) of
             None \<Rightarrow> None
           | Some (Reply r, b) \<Rightarrow> Some ([(n, r)], s\<lparr>ht_backend := b, ht_open := (ht_open s)(n := None)\<rparr>)
           | Some (Continue q', b) \<Rightarrow> Some ([], s\<lparr>ht_backend := b, ht_open := (ht_open s)(n \<mapsto> q')\<rparr>)))"

text \<open>The steps that answer no one work on what is behind the handlers.\<close>

fun background ::
    "('s, 'd, 'l, 'c) site \<Rightarrow> gtime \<Rightarrow> 'c http_step \<Rightarrow> ('s, 'd) backend \<Rightarrow> ('s, 'd) backend option" where
  "background we now (RunEnds jid dr) b = async_ended we now jid dr b"
| "background we now (RunAccounted jid r dr) b = async_accounted we now jid r dr b"
| "background we now (AgentMoves a) b =
     (if agent_moves a then map_option (\<lambda>g. b\<lparr>hb_agents := g\<rparr>) (exec_action (we_env we) a (hb_agents b)) else None)"
| "background we now (SweepJobs ks) b = Some (b\<lparr>hb_async := run_sweep (we_ttl we) now ks (hb_async b)\<rparr>)"
| "background we now (SweepTokens ks) b = Some (b\<lparr>hb_deny := map_option (we_reap we now ks) (hb_deny b)\<rparr>)"
| "background we now a b = None"

definition act_at ::
    "('s, 'd, 'l, 'c) site \<Rightarrow> gtime \<Rightarrow> 'c http_step \<Rightarrow> ('s, 'd, 'l, 'c) service \<Rightarrow>
     ((nat \<times> reply) list \<times> ('s, 'd, 'l, 'c) service) option" where
  "act_at we now a s =
     (case a of
        Arrive n c header peer \<Rightarrow> arrive we now n c header peer s
      | Handle n dr \<Rightarrow> go_on we now n dr s
      | SweepLimits ks \<Rightarrow>
          Some ([], s\<lparr>ht_limits := cleanup_stale_entries (cleanup_interval (we_rate we)) now ks (ht_limits s)\<rparr>)
      | _ \<Rightarrow> map_option (\<lambda>b. ([], s\<lparr>ht_backend := b\<rparr>)) (background we now a (ht_backend s)))"

text \<open>Steps come with their times; the clock does not go back.\<close>

definition serve ::
    "('s, 'd, 'l, 'c) site \<Rightarrow> gtime \<times> 'c http_step \<Rightarrow> ('s, 'd, 'l, 'c) service \<Rightarrow>
     ((nat \<times> reply) list \<times> ('s, 'd, 'l, 'c) service) option" where
  "serve we ta s = (if fst ta < ht_now s then None else act_at we (fst ta) (snd ta) (s\<lparr>ht_now := fst ta\<rparr>))"

fun serve_all ::
    "('s, 'd, 'l, 'c) site \<Rightarrow> (gtime \<times> 'c http_step) list \<Rightarrow> ('s, 'd, 'l, 'c) service \<Rightarrow>
     ((nat \<times> reply) list \<times> ('s, 'd, 'l, 'c) service) option" where
  "serve_all we [] s = Some ([], s)"
| "serve_all we (ta # tas) s =
     (case serve we ta s of
        None \<Rightarrow> None
      | Some (out, s') \<Rightarrow> map_option (\<lambda>(outs, s''). (out @ outs, s'')) (serve_all we tas s'))"

definition new_service :: "world \<Rightarrow> 'd option \<Rightarrow> 's \<Rightarrow> ('s, 'd, 'l, 'c) service" where
  "new_service w d ps =
     \<lparr>ht_backend = \<lparr>hb_world = w, hb_async = async_init, hb_runs = Map.empty, hb_agents = sys_init, hb_deny = d, hb_podman = ps\<rparr>,
      ht_now = 0, ht_limits = Map.empty, ht_open = Map.empty\<rparr>"

section \<open>What the steps leave alone\<close>

lemmas outcome_defs = answered_def on_world_def on_podman_def on_deny_def

lemma answer_call_async:
  "answer_call we n now dr header c b = Some (out, b') \<Longrightarrow> (\<forall>r. c \<noteq> AsyncCall r) \<Longrightarrow> hb_async b' = hb_async b \<and> hb_runs b' = hb_runs b"
  by (cases c)
     (auto simp: outcome_defs agent_create_call_def agent_send_call_def agent_delete_call_def agent_stream_call_def
        start_thread_def Let_def split: sum.splits if_splits option.splits prod.splits)

lemma answer_call_agents:
  "answer_call we n now dr header c b = Some (out, b') \<Longrightarrow> (sys_step (we_env we))\<^sup>*\<^sup>* (hb_agents b) (hb_agents b')"
  by (cases c)
     (auto simp: outcome_defs agent_create_call_def agent_send_call_def agent_delete_call_def agent_stream_call_def
        start_thread_def async_launch_def Let_def split: sum.splits if_splits option.splits prod.splits
        simp del: exec_action.simps dest!: exec_action_step)

lemma answer_call_launching:
  "answer_call we n now dr header c b = Some (out, b') \<Longrightarrow> out \<noteq> Continue (Launching jid sid a) \<or> (\<exists>r. c = AsyncCall r)"
  by (cases c)
     (auto simp: outcome_defs agent_create_call_def agent_send_call_def agent_delete_call_def agent_stream_call_def
        start_thread_def Let_def split: sum.splits if_splits option.splits prod.splits)

lemma resume_agents:
  "resume we n now dr q b = Some (out, b') \<Longrightarrow> (sys_step (we_env we))\<^sup>*\<^sup>* (hb_agents b) (hb_agents b')"
  by (cases q)
     (auto simp: resume_def async_running_def drive_def answered_def split: if_splits list.splits prod.splits
        simp del: exec_action.simps dest!: exec_action_step dest: answer_call_agents)

section \<open>The parts in every interleaving\<close>

text \<open>The job side moves by steps of \<open>Async_Api\<close>, and its clock does not pass the server's.\<close>

definition jobs_move :: "('s, 'd, 'l, 'c) site \<Rightarrow> gtime \<Rightarrow> async_state \<Rightarrow> async_state \<Rightarrow> bool" where
  "jobs_move we now a a' \<longleftrightarrow> (as_clock a \<le> now \<longrightarrow> (async_step (we_status we) (we_ttl we))\<^sup>*\<^sup>* a a' \<and> as_clock a' \<le> now)"

lemma jobs_move_refl [intro]: "jobs_move we now a a"
  by (simp add: jobs_move_def)

lemma run_clocks [simp]:
  "as_clock (run_create now jid a) = now" "as_clock (run_begin now sid jid a) = now"
  "as_clock (run_finish ws now r jid a) = now" "as_clock (run_account ws now build hook r jid a) = now"
  "as_clock (run_cancel now jid a) = now" "as_clock (run_sweep ttl now ks a) = now"
  by (simp_all add: run_defs Let_def)

lemma jobs_move_step:
  "(as_clock a \<le> now \<Longrightarrow> async_step (we_status we) (we_ttl we) a a') \<Longrightarrow> as_clock a' = now \<Longrightarrow> jobs_move we now a a'"
  by (simp add: jobs_move_def r_into_rtranclp)

lemma jobs_moves:
  "jid \<notin> as_drawn a \<Longrightarrow> jobs_move we now a (run_create now jid a)"
  "jid \<in> as_starting a \<Longrightarrow> jobs_move we now a (run_begin now sid jid a)"
  "jid \<in> as_running a \<Longrightarrow> jobs_move we now a (run_finish (we_status we) now r jid a)"
  "(jid, r) \<in> as_accounting a \<Longrightarrow> jobs_move we now a (run_account (we_status we) now build hook r jid a)"
  "jobs_move we now a (run_cancel now jid a)"
  "jobs_move we now a (run_sweep (we_ttl we) now ks a)"
  by (rule jobs_move_step; simp add: async_step.intros)+

lemma cancel_moves:
  assumes "cancel_job_handler now jid m0 (as_jobs a) = (r, m)"
  shows "jobs_move we now a (a\<lparr>as_jobs := m, as_clock := now\<rparr>)"
proof (cases "job_get jid m0")
  case None
  with assms have "a\<lparr>as_jobs := m, as_clock := now\<rparr> = run_sweep (we_ttl we) now [] a"
    by (simp add: cancel_job_handler_def run_sweep_def job_cleanup_def)
  then show ?thesis by (simp only: jobs_moves)
next
  case (Some j)
  with assms have "a\<lparr>as_jobs := m, as_clock := now\<rparr> = run_cancel now jid a"
    by (auto simp: cancel_job_handler_def run_cancel_def split: prod.splits bool.splits)
  then show ?thesis by (simp only: jobs_moves)
qed

lemma resume_jobs:
  assumes "resume we n now dr q b = Some (out, b')"
  shows "jobs_move we now (hb_async b) (hb_async b')"
proof (cases q)
  case (Waiting c header)
  show ?thesis
  proof (cases "\<exists>r. c = AsyncCall r")
    case True
    with Waiting assms show ?thesis
      by (auto simp: resume_def async_launch_def Let_def split: sum.splits if_splits intro!: jobs_moves jobs_move_refl)
  next
    case False
    with Waiting assms answer_call_async [of we n now dr header c b out b'] show ?thesis
      by (auto simp: resume_def)
  qed
next
  case (Cancelling jid m0)
  with assms show ?thesis
    using cancel_moves by (auto simp: resume_def split: prod.splits)
next
  case (Launching jid sid a)
  with assms show ?thesis
    by (auto simp: resume_def async_running_def split: if_splits intro!: jobs_moves jobs_move_refl)
next
  case (Driving aid p err)
  with assms show ?thesis
    by (auto simp: resume_def drive_def answered_def split: list.splits)
qed

lemma background_parts:
  assumes "background we now a b = Some b'"
  shows "jobs_move we now (hb_async b) (hb_async b') \<and> (sys_step (we_env we))\<^sup>*\<^sup>* (hb_agents b) (hb_agents b')"
proof (cases a)
  case (AgentMoves x)
  with assms show ?thesis by (auto split: if_splits simp del: exec_action.simps dest!: exec_action_step)
qed (use assms in \<open>auto simp: async_ended_def async_accounted_def split: option.splits if_splits prod.splits
      intro!: jobs_moves jobs_move_refl\<close>)

text \<open>
  Every job that is starting has a request behind it that will mark it as running, and every running one a goroutine with
  the request to run.
\<close>

definition jobs_manned :: "('s, 'd, 'l, 'c) service \<Rightarrow> bool" where
  "jobs_manned s \<longleftrightarrow>
     (\<forall>jid \<in> as_starting (hb_async (ht_backend s)). \<exists>n sid a. ht_open s n = Some (Launching jid sid a)) \<and>
     (\<forall>jid \<in> as_running (hb_async (ht_backend s)). hb_runs (ht_backend s) jid \<noteq> None) \<and>
     (\<forall>x \<in> as_accounting (hb_async (ht_backend s)). hb_runs (ht_backend s) (fst x) \<noteq> None)"

lemma manned_frame:
  assumes "jobs_manned s" and "\<And>jid sid a. ht_open s n \<noteq> Some (Launching jid sid a)"
    and "hb_runs b' = hb_runs (ht_backend s)" and "as_starting (hb_async b') = as_starting (hb_async (ht_backend s))"
    and "as_running (hb_async b') = as_running (hb_async (ht_backend s))"
    and "as_accounting (hb_async b') = as_accounting (hb_async (ht_backend s))"
  shows "jobs_manned (s\<lparr>ht_backend := b', ht_open := (ht_open s)(n := q)\<rparr>)"
  unfolding jobs_manned_def
proof (intro conjI ballI)
  fix jid assume "jid \<in> as_starting (hb_async (ht_backend (s\<lparr>ht_backend := b', ht_open := (ht_open s)(n := q)\<rparr>)))"
  then obtain m sid a where "ht_open s m = Some (Launching jid sid a)"
    using assms(1,4) by (auto simp: jobs_manned_def)
  moreover have "m \<noteq> n" using calculation assms(2) by blast
  ultimately show "\<exists>n' sid a. ht_open (s\<lparr>ht_backend := b', ht_open := (ht_open s)(n := q)\<rparr>) n' = Some (Launching jid sid a)"
    by (intro exI [of _ m]) auto
qed (use assms in \<open>simp_all add: jobs_manned_def\<close>)

lemma launch_manned:
  assumes "jobs_manned s" and "\<And>jid sid a. ht_open s n \<noteq> Some (Launching jid sid a)"
  shows "jobs_manned (s\<lparr>ht_backend := (ht_backend s)\<lparr>hb_async := run_create now jid (hb_async (ht_backend s))\<rparr>,
           ht_open := (ht_open s)(n \<mapsto> Launching jid sid a)\<rparr>)" (is "jobs_manned ?t")
  unfolding jobs_manned_def
proof (intro conjI ballI)
  fix k assume k: "k \<in> as_starting (hb_async (ht_backend ?t))"
  show "\<exists>n' sid a. ht_open ?t n' = Some (Launching k sid a)"
  proof (cases "k = jid")
    case True
    then show ?thesis by (intro exI [of _ n]) simp
  next
    case False
    with k obtain m sid' a' where "ht_open s m = Some (Launching k sid' a')"
      using assms(1) by (auto simp: jobs_manned_def run_create_def)
    moreover have "m \<noteq> n" using calculation assms(2) by blast
    ultimately show ?thesis by (intro exI [of _ m]) auto
  qed
qed (use assms(1) in \<open>simp_all add: jobs_manned_def run_create_def\<close>)

lemma running_manned:
  assumes "jobs_manned s" and "ht_open s n = Some (Launching jid sid a)"
  shows "jobs_manned (s\<lparr>ht_backend := (ht_backend s)\<lparr>hb_async := run_begin now sid jid (hb_async (ht_backend s)),
             hb_runs := (hb_runs (ht_backend s))(jid \<mapsto> a)\<rparr>, ht_open := (ht_open s)(n := None)\<rparr>)" (is "jobs_manned ?t")
  unfolding jobs_manned_def
proof (intro conjI ballI)
  fix k assume k: "k \<in> as_starting (hb_async (ht_backend ?t))"
  then have "k \<noteq> jid" by (simp add: run_begin_def)
  from k obtain m sid' a' where "ht_open s m = Some (Launching k sid' a')"
    using assms(1) by (auto simp: jobs_manned_def run_begin_def)
  with assms(2) \<open>k \<noteq> jid\<close> show "\<exists>n' sid a. ht_open ?t n' = Some (Launching k sid a)"
    by (intro exI [of _ m]) auto
qed (use assms(1) in \<open>auto simp: jobs_manned_def run_begin_def\<close>)

abbreviation still_open :: "'c outcome \<Rightarrow> 'c open_request option" where
  "still_open out \<equiv> (case out of Reply r \<Rightarrow> None | Continue q \<Rightarrow> Some q)"

abbreviation told :: "nat \<Rightarrow> 'c outcome \<Rightarrow> (nat \<times> reply) list" where
  "told n out \<equiv> (case out of Reply r \<Rightarrow> [(n, r)] | Continue q \<Rightarrow> [])"

lemma go_on_iff:
  "go_on we now n dr s = Some (out, s') \<longleftrightarrow>
     (\<exists>q o' b'. ht_open s n = Some q \<and> resume we n now dr q (ht_backend s) = Some (o', b') \<and> out = told n o' \<and>
        s' = s\<lparr>ht_backend := b', ht_open := (ht_open s)(n := still_open o')\<rparr>)"
  by (auto simp: go_on_def split: option.splits prod.splits outcome.splits)

lemma resume_manned:
  assumes "resume we n now dr q (ht_backend s) = Some (out, b')" and "ht_open s n = Some q" and "jobs_manned s"
  shows "jobs_manned (s\<lparr>ht_backend := b', ht_open := (ht_open s)(n := still_open out)\<rparr>)"
proof (cases q)
  case (Waiting c header)
  have o: "ht_open s n \<noteq> Some (Launching jid sid a)" for jid sid a
    using assms(2) Waiting by simp
  show ?thesis
  proof (cases "\<exists>r. c = AsyncCall r")
    case True
    with Waiting assms(1) show ?thesis
      using launch_manned [OF assms(3) o] manned_frame [OF assms(3) o]
      by (auto simp: resume_def async_launch_def Let_def simp del: fun_upd_apply split: sum.splits if_splits)
  next
    case False
    then have "hb_async b' = hb_async (ht_backend s) \<and> hb_runs b' = hb_runs (ht_backend s)"
      using Waiting assms(1) by (intro answer_call_async) (auto simp: resume_def)
    then show ?thesis by (intro manned_frame [OF assms(3) o]) simp_all
  qed
next
  case (Cancelling jid m0)
  with assms show ?thesis
    by (intro manned_frame) (auto simp: resume_def split: prod.splits)
next
  case (Launching jid sid a)
  with assms(1) show ?thesis
    using running_manned [OF assms(3)] assms(2) by (auto simp: resume_def async_running_def simp del: fun_upd_apply split: if_splits)
next
  case (Driving aid p err)
  with assms show ?thesis
    by (intro manned_frame) (auto simp: resume_def drive_def answered_def split: list.splits)
qed

lemma background_manned:
  assumes "background we now a (ht_backend s) = Some b'" and "jobs_manned s"
  shows "jobs_manned (s\<lparr>ht_backend := b'\<rparr>)"
proof -
  have m: "hb_runs (ht_backend s) jid \<noteq> None" if "(jid, r) \<in> as_accounting (hb_async (ht_backend s))" for jid r
    using assms(2) that by (force simp: jobs_manned_def)
  show ?thesis
    using assms m
    by (cases a)
       (auto simp: async_ended_def async_accounted_def jobs_manned_def run_finish_def run_account_def run_sweep_def Let_def
         split: option.splits if_splits prod.splits)
qed

text \<open>The init locks of the sessions are free again after each request.\<close>

lemma run_same_locks: "run ou od r req w = Some (res, w') \<Longrightarrow> same_locks w w'"
  by (auto simp: run_def split: if_splits intro: run_with_compose_locks run_container_locks)

lemma run_stream_same_locks: "run_stream ou od r strm req w = Some (res, ls, w') \<Longrightarrow> same_locks w w'"
  by (auto simp: run_stream_def split: if_splits intro: run_stream_with_compose_locks run_stream_container_locks)

lemma handlers_same_locks:
  "run_claude_handler ou od r conf env uses req w = Some (a, w') \<Longrightarrow> same_locks w w'"
  "run_stream_handler ou od r strm conf js env p wd sid w = Some (a, w') \<Longrightarrow> same_locks w w'"
  "destroy_session_handler ou r sid w = (a, w') \<Longrightarrow> same_locks w w'"
  by (auto simp: run_claude_handler_def run_stream_handler_def destroy_session_handler_def destroy_run_session_def same_locks_def
        log_commands_def Let_def split: sum.splits option.splits if_splits prod.splits
      dest!: run_same_locks [unfolded same_locks_def] run_stream_same_locks [unfolded same_locks_def])

lemma answer_call_locks:
  "answer_call we n now dr header c b = Some (out, b') \<Longrightarrow> same_locks (hb_world b) (hb_world b')"
  by (cases c)
     (auto simp: outcome_defs agent_create_call_def agent_send_call_def agent_delete_call_def agent_stream_call_def
        start_thread_def async_launch_def Let_def same_locks_def split: sum.splits if_splits option.splits prod.splits
      dest!: handlers_same_locks [unfolded same_locks_def])

lemma resume_locks:
  "resume we n now dr q b = Some (out, b') \<Longrightarrow> same_locks (hb_world b) (hb_world b')"
  using answer_call_locks
  by (cases q) (fastforce simp: resume_def async_running_def drive_def answered_def same_locks_def split: if_splits list.splits prod.splits)+

lemma background_locks:
  "background we now a b = Some b' \<Longrightarrow> same_locks (hb_world b) (hb_world b')"
  by (cases a)
     (auto simp: async_ended_def async_accounted_def same_locks_def split: option.splits if_splits prod.splits
       dest!: run_same_locks [unfolded same_locks_def])

text \<open>What holds after every step, for a server that was started with the world \<open>w\<close>.\<close>

definition service_inv :: "('s, 'd, 'l, 'c) site \<Rightarrow> world \<Rightarrow> ('s, 'd, 'l, 'c) service \<Rightarrow> bool" where
  "service_inv we w s \<longleftrightarrow>
     async_reachable (we_status we) (we_ttl we) (hb_async (ht_backend s)) \<and> as_clock (hb_async (ht_backend s)) \<le> ht_now s \<and>
     sys_reachable (we_env we) (hb_agents (ht_backend s)) \<and> jobs_manned s \<and> same_locks w (hb_world (ht_backend s))"

lemma jobs_manned_other [simp]:
  "jobs_manned (s\<lparr>ht_limits := m\<rparr>) = jobs_manned s" "jobs_manned (s\<lparr>ht_now := t\<rparr>) = jobs_manned s"
  by (simp_all add: jobs_manned_def)

lemma same_locks_trans: "same_locks w w' \<Longrightarrow> same_locks w' w'' \<Longrightarrow> same_locks w w''"
  by (simp add: same_locks_def)

lemma service_inv_backend:
  assumes "service_inv we w s" and "jobs_move we (ht_now s) (hb_async (ht_backend s)) (hb_async b')"
    and "(sys_step (we_env we))\<^sup>*\<^sup>* (hb_agents (ht_backend s)) (hb_agents b')"
    and "same_locks (hb_world (ht_backend s)) (hb_world b')"
    and "jobs_manned (s\<lparr>ht_backend := b', ht_open := os\<rparr>)"
  shows "service_inv we w (s\<lparr>ht_backend := b', ht_open := os\<rparr>)"
  using assms by (auto simp: service_inv_def jobs_move_def intro: rtranclp_trans same_locks_trans)

text \<open>A request is refused at once, or its handler will run.\<close>

definition refusal :: "reply \<Rightarrow> bool" where
  "refusal r \<longleftrightarrow> (case r of NoRoute \<Rightarrow> True | RateLimited h \<Rightarrow> True | Denied k t \<Rightarrow> True | _ \<Rightarrow> False)"

lemma refusal_simps [simp]: "refusal NoRoute" "refusal (RateLimited h)" "refusal (Denied k t)"
  by (simp_all add: refusal_def)

definition passes :: "('s, 'd, 'l, 'c) site \<Rightarrow> gtime \<Rightarrow> 'c call \<Rightarrow> string \<Rightarrow> http_peer \<Rightarrow> ('s, 'd, 'l, 'c) service \<Rightarrow> bool" where
  "passes we now c header peer s \<longleftrightarrow>
     (\<exists>g x m. guard_of (we_agents we) (endpoint_of c) = Some g \<and>
        pass_route (we_status we) (we_lib we) (we_buckets we) (we_rate we) (we_auth we) (deny_lookup we now (ht_backend s)) now g
          peer header (ht_limits s) = (Passed x, m))"

lemma arrive_cases:
  assumes "arrive we now n c header peer s = Some (out, s')"
  obtains (refused) r m where "out = [(n, r)]" "refusal r" "s' = s\<lparr>ht_limits := m\<rparr>" "\<not> passes we now c header peer s"
  | (passed) m where "out = []" "s' = s\<lparr>ht_limits := m, ht_open := (ht_open s)(n \<mapsto> Waiting c header)\<rparr>" "ht_open s n = None"
      "passes we now c header peer s"
proof (cases "guard_of (we_agents we) (endpoint_of c)")
  case None
  with assms refused [of NoRoute "ht_limits s"] show ?thesis
    by (auto simp: arrive_def passes_def split: if_splits)
next
  case (Some g)
  obtain x m where p: "pass_route (we_status we) (we_lib we) (we_buckets we) (we_rate we) (we_auth we)
      (deny_lookup we now (ht_backend s)) now g peer header (ht_limits s) = (x, m)" by fastforce
  have "ht_open s n = None" using assms by (simp add: arrive_def split: if_splits)
  with assms Some p refused [of _ m] passed [of m] show ?thesis
    by (cases x) (auto simp: arrive_def passes_def)
qed

lemma arrive_inv:
  assumes "arrive we now n c header peer s = Some (out, s')" and "service_inv we w s"
  shows "service_inv we w s'"
  using assms(1)
proof (cases rule: arrive_cases)
  case (refused r m)
  with assms(2) show ?thesis by (simp add: service_inv_def)
next
  case (passed m)
  then have "jobs_manned (s\<lparr>ht_backend := ht_backend s, ht_open := (ht_open s)(n \<mapsto> Waiting c header)\<rparr>)"
    using assms(2) by (intro manned_frame) (auto simp: service_inv_def)
  then have "jobs_manned s'" by (simp add: passed jobs_manned_def)
  with assms(2) show ?thesis by (simp add: passed service_inv_def)
qed

lemma go_on_inv:
  assumes "go_on we (ht_now s) n dr s = Some (out, s')" and "service_inv we w s"
  shows "service_inv we w s'"
proof -
  obtain q o' b' where q: "ht_open s n = Some q" and r: "resume we n (ht_now s) dr q (ht_backend s) = Some (o', b')"
    and s': "s' = s\<lparr>ht_backend := b', ht_open := (ht_open s)(n := still_open o')\<rparr>"
    using assms(1) unfolding go_on_iff by blast
  show ?thesis
    unfolding s' using assms(2) resume_jobs [OF r] resume_agents [OF r] resume_locks [OF r] resume_manned [OF r q]
    by (intro service_inv_backend) (auto simp: service_inv_def)
qed

lemma background_inv:
  assumes "background we (ht_now s) a (ht_backend s) = Some b'" and "service_inv we w s"
  shows "service_inv we w (s\<lparr>ht_backend := b'\<rparr>)"
proof -
  have "service_inv we w (s\<lparr>ht_backend := b', ht_open := ht_open s\<rparr>)"
    using assms(2) background_parts [OF assms(1)] background_locks [OF assms(1)] background_manned [OF assms(1)]
    by (intro service_inv_backend) (auto simp: service_inv_def)
  then show ?thesis by simp
qed

lemma serve_inv:
  assumes "serve we ta s = Some (out, s')" and "service_inv we w s"
  shows "service_inv we w s'"
proof -
  obtain t a where ta: "ta = (t, a)" by fastforce
  let ?s = "s\<lparr>ht_now := t\<rparr>"
  have t: "ht_now s \<le> t" and act: "act_at we t a ?s = Some (out, s')"
    using assms(1) by (auto simp: serve_def ta split: if_splits)
  have inv: "service_inv we w ?s"
    using assms(2) t by (auto simp: service_inv_def)
  show ?thesis
  proof (cases a)
    case (Arrive n c header peer)
    with act inv show ?thesis by (auto simp: act_at_def intro: arrive_inv)
  next
    case (Handle n dr)
    with act inv show ?thesis using go_on_inv [of we ?s] by (auto simp: act_at_def)
  next
    case (SweepLimits ks)
    with act inv show ?thesis by (auto simp: act_at_def service_inv_def)
  qed (use act background_inv [OF _ inv] in \<open>auto simp: act_at_def simp del: background.simps\<close>)
qed

lemma serve_all_inv:
  "serve_all we tas s = Some (outs, s') \<Longrightarrow> service_inv we w s \<Longrightarrow> service_inv we w s'"
proof (induction tas arbitrary: s outs)
  case (Cons ta tas)
  then obtain out s1 os where "serve we ta s = Some (out, s1)" "serve_all we tas s1 = Some (os, s')"
    by (auto split: option.splits prod.splits)
  with Cons serve_inv show ?case by blast
qed simp

lemma new_service_inv: "service_inv we w (new_service w d ps)"
  by (simp add: service_inv_def new_service_def jobs_manned_def same_locks_def async_init_def)

section \<open>Every request is answered once\<close>

definition arrivals :: "(gtime \<times> 'c http_step) list \<Rightarrow> nat list" where
  "arrivals tas = List.map_filter (\<lambda>(t, a). case a of Arrive n c header peer \<Rightarrow> Some n | _ \<Rightarrow> None) tas"

definition pending :: "('s, 'd, 'l, 'c) service \<Rightarrow> nat \<Rightarrow> nat" where
  "pending s n = (if ht_open s n = None then 0 else 1)"

lemma serve_answers:
  assumes "serve we ta s = Some (out, s')"
  shows "count_list (arrivals [ta]) n + pending s n = count_list (map fst out) n + pending s' n"
proof -
  obtain t a where ta: "ta = (t, a)" by fastforce
  let ?s = "s\<lparr>ht_now := t\<rparr>"
  have act: "act_at we t a ?s = Some (out, s')"
    using assms by (simp add: serve_def ta split: if_splits)
  show ?thesis
  proof (cases a)
    case (Arrive m c header peer)
    with act have "arrive we t m c header peer ?s = Some (out, s')" by (simp add: act_at_def)
    then show ?thesis
      by (cases rule: arrive_cases) (auto simp: ta Arrive arrivals_def pending_def map_filter_simps)
  next
    case (Handle m dr)
    with act have "go_on we t m dr ?s = Some (out, s')" by (simp add: act_at_def)
    then obtain q o' b' where "ht_open s m = Some q" "out = told m o'"
      "s' = ?s\<lparr>ht_backend := b', ht_open := (ht_open s)(m := still_open o')\<rparr>"
      unfolding go_on_iff by auto
    then show ?thesis
      by (cases o') (auto simp: ta Handle arrivals_def pending_def map_filter_simps)
  qed (use act in \<open>auto simp: ta act_at_def arrivals_def pending_def map_filter_simps simp del: background.simps\<close>)
qed

lemma serve_all_answers:
  "serve_all we tas s = Some (outs, s') \<Longrightarrow>
   count_list (arrivals tas) n + pending s n = count_list (map fst outs) n + pending s' n"
proof (induction tas arbitrary: s outs)
  case Nil
  then show ?case by (auto simp: arrivals_def map_filter_simps)
next
  case (Cons ta tas)
  then obtain out s1 os where s1: "serve we ta s = Some (out, s1)" and os: "serve_all we tas s1 = Some (os, s')" and outs: "outs = out @ os"
    by (auto split: option.splits prod.splits)
  have "arrivals (ta # tas) = arrivals [ta] @ arrivals tas"
    by (cases ta) (simp add: arrivals_def map_filter_simps split: option.split)
  with serve_answers [OF s1, of n] Cons.IH [OF os] outs show ?case by simp
qed

section \<open>A server for the examples\<close>

definition demo_site :: "(unit, memory_blacklist, unit, unit) site" where
  "demo_site =
     \<lparr>we_status = (\<lambda>_. []), we_quote = (\<lambda>s. s), we_lib = demo_lib,
      we_auth = \<lparr>ac_enabled = True, ac_tokens = [''t''], ac_jwt = demo_cfg\<rparr>,
      we_add = mem_add, we_blocked = mem_blocked, we_reap = mem_cleanup,
      we_buckets = \<lparr>bo_fresh = \<lambda>_. (), bo_allow = \<lambda>_ l. (True, l), bo_tokens = \<lambda>_ _. 1\<rparr>,
      we_rate = \<lparr>rc_enabled = False, rc_rate = 1, rc_period = second, rc_burst = 1, rc_interval = 0, rc_proxies = []\<rparr>,
      we_agents = True, we_env = demo_env, we_runner = plain_runner, we_podman = (\<lambda>c i s. (([], None), s)),
      we_images = sample_image_decoders, we_secrets = map_decoders, we_decoders = sample_decoders, we_dir = ''/s'', we_zero = 0,
      we_version = ''1'', we_format = (\<lambda>_. []), we_envelope = (\<lambda>_. None), we_result = (\<lambda>_. Inr ''{}''), we_ttl = hour\<rparr>"

definition demo_draw :: draw where
  "demo_draw =
     \<lparr>dr_out = plain_outside, dr_orders = plain_orders, dr_streamed = plain_stream, dr_configured = True, dr_health = None,
      dr_uuid = ''u'', dr_uuid2 = ''v'', dr_job = ''j'', dr_keys = [], dr_uses = (\<lambda>_. None), dr_titles = None,
      dr_files = \<lparr>hf_names = (\<lambda>_. None), hf_present = (\<lambda>_. False), hf_open = (\<lambda>_. Inl (Msg []))\<rparr>, dr_writes = (None, None)\<rparr>"

definition peer_at :: "string \<Rightarrow> http_peer" where
  "peer_at a = \<lparr>rp_remote = a, rp_forwarded = [], rp_real_ip = []\<rparr>"

definition demo_run :: api_run_request where
  "demo_run =
     \<lparr>ar_prompt = ''hi'', ar_workdir = [], ar_webhook = [], ar_claude = no_options\<lparr>co_session_id := ''a''\<rparr>,
      ar_podman = rq_podman plain_request\<rparr>"

lemma demo_arrive:
  assumes "ht_open s n = None" and "guard_of True (endpoint_of c) = Some Protected"
  shows "arrive demo_site now n c ''Bearer t'' peer s = Some ([], s\<lparr>ht_open := (ht_open s)(n \<mapsto> Waiting c ''Bearer t'')\<rparr>)"
proof -
  have "bearer_token (''Bearer '' @ ''t'') = Some ''t''" by (rule bearer_token_Bearer)
  then have b: "bearer_token ''Bearer t'' = Some ''t''" by simp
  have r: "\<not> rc_enabled (we_rate demo_site)" by (simp add: demo_site_def)
  have m: "middleware (we_status demo_site) (we_lib demo_site) (we_auth demo_site) deny now ''Bearer t'' = Admit None" for deny
    by (simp add: middleware_def demo_site_def b)
  have "we_agents demo_site" by (simp add: demo_site_def)
  with assms r m show ?thesis
    by (simp add: arrive_def pass_route_def rate_limit_middleware_def authenticate_def)
qed

section \<open>Property\<close>



end
