(* ===== verification/Http_Access.thy ===== *)
theory Http_Access
  imports Http_Service
begin

text \<open>
  Who reaches what is behind the endpoints: requests without a right do not interfere with the server's work, and a token
  that was logged out passes no route. Both over the whole server of \<open>Http_Service\<close>.
\<close>

section \<open>Requests without a right\<close>

text \<open>A header that never admits anyone, even without a blacklist: no bearer token, or one that is neither static nor at any
  time a valid access token.\<close>

definition powerless :: "('s, 'd, 'l, 'c) site \<Rightarrow> string \<Rightarrow> bool" where
  "powerless we header \<longleftrightarrow> (\<forall>now. \<not> admitted (middleware (we_status we) (we_lib we) (we_auth we) None now header))"

lemma powerless_rejected:
  assumes "powerless we header"
  shows "\<not> admitted (middleware (we_status we) (we_lib we) (we_auth we) deny now header)"
proof -
  have "\<not> admitted (middleware (we_status we) (we_lib we) (we_auth we) None now header)"
    using assms by (simp add: powerless_def)
  then show ?thesis unfolding middleware_admits by blast
qed

lemma powerless_invalid:
  assumes "powerless we header" and "bearer_token header = Some tok" and "jc_secret (ac_jwt (we_auth we)) \<noteq> []"
  shows "\<exists>e. validate_token (we_status we) (we_lib we) now tok (ac_jwt (we_auth we)) = Inl e"
proof (cases "validate_token (we_status we) (we_lib we) now tok (ac_jwt (we_auth we))")
  case (Inr c)
  then have "admitted (middleware (we_status we) (we_lib we) (we_auth we) None now header)"
    unfolding middleware_admits validate_token_Inr using assms(2,3) by blast
  with assms(1) show ?thesis by (simp add: powerless_def)
qed simp

lemma powerless_logout:
  assumes "powerless we header"
  shows "snd (logout_handler (we_status we) (we_lib we) (ac_jwt (we_auth we)) add st now header) = st"
proof (cases "bearer_token header")
  case None
  then show ?thesis by (simp add: logout_handler_def split: option.split)
next
  case (Some tok)
  show ?thesis
  proof (cases "jc_secret (ac_jwt (we_auth we)) = []")
    case False
    from powerless_invalid [OF assms Some this, of now] Some show ?thesis
      by (auto simp: logout_handler_def split: option.split)
  qed (simp add: logout_handler_def)
qed

text \<open>The endpoints behind no authentication.\<close>

fun open_call :: "'c call \<Rightarrow> bool" where
  "open_call HealthCall = True"
| "open_call (RefreshCall b) = True"
| "open_call ValidateCall = True"
| "open_call LogoutCall = True"
| "open_call c = False"

lemma guard_of_call:
  "guard_of agents (endpoint_of c) = Some g \<Longrightarrow> g = Open \<longleftrightarrow> open_call c"
  by (cases c; cases agents) (auto simp: guard_of_def routes_def auth_routes_def)

lemma powerless_passes:
  assumes "powerless we header" and "passes we now c header peer s"
  shows "open_call c"
proof -
  obtain g x m where g: "guard_of (we_agents we) (endpoint_of c) = Some g"
    and p: "pass_route (we_status we) (we_lib we) (we_buckets we) (we_rate we) (we_auth we) (deny_lookup we now (ht_backend s)) now g
          peer header (ht_limits s) = (Passed x, m)"
    using assms(2) by (auto simp: passes_def)
  have "authenticate (we_status we) (we_lib we) (we_auth we) (deny_lookup we now (ht_backend s)) now header \<noteq> Passed x"
    using powerless_rejected [OF assms(1)] authenticate_Passed by blast
  with p have "g = Open"
    by (cases g) (auto simp: pass_route_def split: prod.splits rate_answer.splits)
  with guard_of_call [OF g] show ?thesis by simp
qed

text \<open>What such a request can be told: that it is refused, the health of the server, or what the token endpoints say.\<close>

fun public_reply :: "reply \<Rightarrow> bool" where
  "public_reply (ServerReply a) = (case a of Http k b \<Rightarrow> (case b of HealthBasic x y z \<Rightarrow> True | HealthDetailed h \<Rightarrow> True | _ \<Rightarrow> False))"
| "public_reply (AuthReply a) = True"
| "public_reply r = refusal r"

lemma refusal_public: "refusal r \<Longrightarrow> public_reply r"
  by (cases r) (simp_all add: refusal_def)

lemma open_call_harmless:
  assumes "answer_call we n now dr header c b = Some (out, b')" and "open_call c" and "powerless we header"
  shows "b' = b \<and> (\<exists>r. out = Reply r \<and> public_reply r)"
proof (cases c)
  case LogoutCall
  obtain a d where l: "logout_handler (we_status we) (we_lib we) (ac_jwt (we_auth we)) (we_add we) (hb_deny b) now header = (a, d)"
    by fastforce
  with powerless_logout [OF assms(3), of "we_add we" "hb_deny b" now] have "d = hb_deny b" by simp
  with LogoutCall l assms(1) show ?thesis by (auto simp: on_deny_def)
qed (use assms in \<open>auto simp: answered_def health_handler_def split: option.splits\<close>)

definition client_of :: "('s, 'd, 'l, 'c) site \<Rightarrow> http_peer \<Rightarrow> string" where
  "client_of we peer = get_client_ip peer (parse_trusted_proxies (rc_proxies (we_rate we)))"

text \<open>The requests \<open>S\<close> come without a right and from the addresses \<open>A\<close>, the others from other addresses.\<close>

definition apart :: "('s, 'd, 'l, 'c) site \<Rightarrow> nat set \<Rightarrow> string set \<Rightarrow> 'c http_step \<Rightarrow> bool" where
  "apart we S A a \<longleftrightarrow>
     (case a of
        Arrive n c header peer \<Rightarrow> (n \<in> S \<longrightarrow> powerless we header) \<and> (client_of we peer \<in> A \<longleftrightarrow> n \<in> S)
      | _ \<Rightarrow> True)"

definition asked_by :: "nat set \<Rightarrow> 'c http_step \<Rightarrow> bool" where
  "asked_by S a \<longleftrightarrow> (case a of Arrive n c header peer \<Rightarrow> n \<in> S | Handle n dr \<Rightarrow> n \<in> S | _ \<Rightarrow> False)"

text \<open>Two states that agree on all that does not belong to \<open>S\<close> and \<open>A\<close>.\<close>

definition alike :: "nat set \<Rightarrow> string set \<Rightarrow> ('s, 'd, 'l, 'c) service \<Rightarrow> ('s, 'd, 'l, 'c) service \<Rightarrow> bool" where
  "alike S A s t \<longleftrightarrow>
     ht_backend t = ht_backend s \<and> ht_now t \<le> ht_now s \<and> (\<forall>n. n \<notin> S \<longrightarrow> ht_open t n = ht_open s n) \<and>
     (\<forall>ip. ip \<notin> A \<longrightarrow> ht_limits t ip = ht_limits s ip)"

definition held_back :: "('s, 'd, 'l, 'c) site \<Rightarrow> nat set \<Rightarrow> ('s, 'd, 'l, 'c) service \<Rightarrow> bool" where
  "held_back we S s \<longleftrightarrow>
     (\<forall>n \<in> S. \<forall>q. ht_open s n = Some q \<longrightarrow> (\<exists>c header. q = Waiting c header \<and> open_call c \<and> powerless we header))"

lemma pass_route_limits:
  assumes "client_of we peer = ip"
  shows "m ip = m' ip \<Longrightarrow>
      fst (pass_route ws lib ops (we_rate we) acfg deny now g peer header m) =
        fst (pass_route ws lib ops (we_rate we) acfg deny now g peer header m') \<and>
      snd (pass_route ws lib ops (we_rate we) acfg deny now g peer header m) ip =
        snd (pass_route ws lib ops (we_rate we) acfg deny now g peer header m') ip"
    and "k \<noteq> ip \<Longrightarrow> snd (pass_route ws lib ops (we_rate we) acfg deny now g peer header m) k = m k"
proof -
  let ?r = "\<lambda>m. rate_limit_middleware ops (we_rate we) now peer m"
  have p: "pass_route ws lib ops (we_rate we) acfg deny now Protected peer header m =
      ((case fst (?r m) of TooManyRequests h \<Rightarrow> Limited h | _ \<Rightarrow> authenticate ws lib acfg deny now header), snd (?r m))" for m
    by (simp add: pass_route_def case_prod_unfold split: rate_answer.split)
  show "fst (pass_route ws lib ops (we_rate we) acfg deny now g peer header m) =
        fst (pass_route ws lib ops (we_rate we) acfg deny now g peer header m') \<and>
      snd (pass_route ws lib ops (we_rate we) acfg deny now g peer header m) ip =
        snd (pass_route ws lib ops (we_rate we) acfg deny now g peer header m') ip" if "m ip = m' ip"
  proof (cases g)
    case Protected
    from middleware_own [where m = m and m' = m' and ops = ops and now = now, OF that assms [unfolded client_of_def]]
    show ?thesis unfolding Protected p by simp
  qed (use that in \<open>simp_all add: pass_route_def\<close>)
  show "snd (pass_route ws lib ops (we_rate we) acfg deny now g peer header m) k = m k" if "k \<noteq> ip"
  proof (cases g)
    case Protected
    then show ?thesis using middleware_other [of peer "we_rate we" k ops now m] that assms by (simp add: p client_of_def)
  qed (simp_all add: pass_route_def)
qed

lemma arrive_limits:
  assumes "arrive we now n c header peer s = Some (out, s')" and "ip \<noteq> client_of we peer"
  shows "ht_limits s' ip = ht_limits s ip"
proof (cases "guard_of (we_agents we) (endpoint_of c)")
  case None
  with assms(1) show ?thesis by (auto simp: arrive_def split: if_splits)
next
  case (Some g)
  obtain x m where x: "pass_route (we_status we) (we_lib we) (we_buckets we) (we_rate we) (we_auth we)
      (deny_lookup we now (ht_backend s)) now g peer header (ht_limits s) = (x, m)" by fastforce
  have "snd (x, m) ip = ht_limits s ip"
    unfolding x [symmetric] by (rule pass_route_limits(2) [OF refl assms(2)])
  with assms(1) Some x show ?thesis
    by (cases x) (auto simp: arrive_def split: if_splits)
qed

lemma arrive_alike:
  assumes "arrive we now n c header peer s = Some (out, s')" and "alike S A s t" and "n \<notin> S" and "client_of we peer \<notin> A"
  shows "\<exists>t'. arrive we now n c header peer t = Some (out, t') \<and> alike S A s' t'"
proof (cases "guard_of (we_agents we) (endpoint_of c)")
  case None
  with assms show ?thesis by (auto simp: arrive_def alike_def split: if_splits)
next
  case (Some g)
  let ?p = "\<lambda>s. pass_route (we_status we) (we_lib we) (we_buckets we) (we_rate we) (we_auth we)
      (deny_lookup we now (ht_backend s)) now g peer header (ht_limits s)"
  obtain x m where x: "?p s = (x, m)" by fastforce
  have l: "ht_limits s (client_of we peer) = ht_limits t (client_of we peer)" and b: "ht_backend t = ht_backend s"
    using assms(2,4) by (simp_all add: alike_def)
  obtain m' where x': "?p t = (x, m')" and own: "m' (client_of we peer) = m (client_of we peer)"
    using pass_route_limits(1) [OF refl, where m = "ht_limits s" and m' = "ht_limits t", OF l] x b by (metis prod.collapse fst_conv snd_conv)
  have "m' ip = m ip" if "ip \<notin> A" for ip
  proof (cases "ip = client_of we peer")
    case False
    have "snd (?p s) ip = ht_limits s ip" "snd (?p t) ip = ht_limits t ip"
      by (rule pass_route_limits(2) [OF refl False])+
    then show ?thesis using that assms(2) unfolding x x' by (simp add: alike_def)
  qed (simp add: own)
  then show ?thesis
    using assms(1-3) Some x x' by (cases x) (auto simp: arrive_def alike_def split: if_splits)
qed

text \<open>A step of a request in \<open>S\<close> changes nothing that the others see, and a step of the others goes the same way without it.\<close>

lemma stranger_step:
  assumes "serve we ta s = Some (out, s')" and "asked_by S (snd ta)" and "apart we S A (snd ta)" and "held_back we S s" and "alike S A s t"
  shows "alike S A s' t \<and> held_back we S s' \<and> list_all (\<lambda>(n, r). n \<in> S \<and> public_reply r) out"
proof -
  obtain now a where ta: "ta = (now, a)" by fastforce
  let ?s = "s\<lparr>ht_now := now\<rparr>"
  have t: "ht_now s \<le> now" and act: "act_at we now a ?s = Some (out, s')"
    using assms(1) by (auto simp: serve_def ta split: if_splits)
  have al: "alike S A ?s t" and hb: "held_back we S ?s"
    using assms(4,5) t by (auto simp: alike_def held_back_def)
  from assms(2) ta consider (arr) n c header peer where "a = Arrive n c header peer" "n \<in> S"
    | (hdl) n dr where "a = Handle n dr" "n \<in> S"
    by (auto simp: asked_by_def split: http_step.splits)
  then show ?thesis
  proof cases
    case arr
    then have p: "powerless we header" and c: "client_of we peer \<in> A"
      using assms(3) by (simp_all add: ta apart_def)
    have r: "arrive we now n c header peer ?s = Some (out, s')"
      using act arr by (simp add: act_at_def)
    have lim: "ht_limits s' ip = ht_limits ?s ip" if "ip \<notin> A" for ip
      using arrive_limits [OF r, of ip] c that by blast
    from r show ?thesis
    proof (cases rule: arrive_cases)
      case (refused x m)
      with al hb lim arr refusal_public show ?thesis by (auto simp: alike_def held_back_def)
    next
      case (passed m)
      with powerless_passes [OF p] have "open_call c" by blast
      with passed al hb lim arr p show ?thesis by (auto simp: alike_def held_back_def)
    qed
  next
    case hdl
    then have "go_on we now n dr ?s = Some (out, s')"
      using act by (simp add: act_at_def)
    then obtain q o' b' where q: "ht_open s n = Some q" and r: "resume we n now dr q (ht_backend s) = Some (o', b')"
      and s': "s' = ?s\<lparr>ht_backend := b', ht_open := (ht_open s)(n := still_open o')\<rparr>" and out: "out = told n o'"
      unfolding go_on_iff by auto
    obtain c header where c: "q = Waiting c header" "open_call c" "powerless we header"
      using assms(4) q hdl(2) unfolding held_back_def by blast
    with r open_call_harmless [of we n now dr header c "ht_backend s" o' b'] obtain x where "b' = ht_backend s" "o' = Reply x" "public_reply x"
      by (auto simp: resume_def)
    with s' out al hb hdl show ?thesis by (auto simp: alike_def held_back_def)
  qed
qed

lemma other_step:
  assumes "serve we ta s = Some (out, s')" and "\<not> asked_by S (snd ta)" and "apart we S A (snd ta)" and "held_back we S s" and "alike S A s t"
  shows "\<exists>t'. serve we ta t = Some (out, t') \<and> alike S A s' t' \<and> held_back we S s' \<and> list_all (\<lambda>(n, r). n \<notin> S) out"
proof -
  obtain now a where ta: "ta = (now, a)" by fastforce
  let ?s = "s\<lparr>ht_now := now\<rparr>" and ?t = "t\<lparr>ht_now := now\<rparr>"
  have now: "ht_now s \<le> now" and act: "act_at we now a ?s = Some (out, s')"
    using assms(1) by (auto simp: serve_def ta split: if_splits)
  have al: "alike S A ?s ?t" and hb: "held_back we S ?s" and bt: "ht_backend t = ht_backend s"
    using assms(4,5) now by (auto simp: alike_def held_back_def)
  have "\<exists>t'. act_at we now a ?t = Some (out, t') \<and> alike S A s' t' \<and> held_back we S s' \<and> list_all (\<lambda>(n, r). n \<notin> S) out"
  proof (cases a)
    case (Arrive n c header peer)
    then have n: "n \<notin> S" "client_of we peer \<notin> A"
      using assms(2,3) by (simp_all add: ta asked_by_def apart_def)
    have r: "arrive we now n c header peer ?s = Some (out, s')"
      using act Arrive by (simp add: act_at_def)
    from r have "held_back we S s' \<and> list_all (\<lambda>(n, r). n \<notin> S) out"
      by (cases rule: arrive_cases) (use hb n in \<open>auto simp: held_back_def\<close>)
    with arrive_alike [OF r al n] Arrive show ?thesis by (auto simp: act_at_def)
  next
    case (Handle n dr)
    then have n: "n \<notin> S" using assms(2) by (simp add: ta asked_by_def)
    have "go_on we now n dr ?s = Some (out, s')"
      using act Handle by (simp add: act_at_def)
    then obtain q o' b' where q: "ht_open s n = Some q" and r: "resume we n now dr q (ht_backend s) = Some (o', b')"
      and s': "s' = ?s\<lparr>ht_backend := b', ht_open := (ht_open s)(n := still_open o')\<rparr>" and out: "out = told n o'"
      unfolding go_on_iff by auto
    let ?t' = "?t\<lparr>ht_backend := b', ht_open := (ht_open t)(n := still_open o')\<rparr>"
    have "ht_open t n = Some q" using assms(5) n q by (simp add: alike_def)
    with r bt out have "go_on we now n dr ?t = Some (out, ?t')"
      unfolding go_on_iff by auto
    moreover have "alike S A s' ?t'" "held_back we S s'"
      using al hb n by (auto simp: s' alike_def held_back_def)
    moreover have "list_all (\<lambda>(n, r). n \<notin> S) out"
      using n by (cases o') (simp_all add: out)
    ultimately show ?thesis by (auto simp: Handle act_at_def)
  next
    case (SweepLimits ks)
    with act al hb show ?thesis
      by (auto simp: act_at_def alike_def held_back_def lreap.sweep_apply)
  qed (use act al hb bt in \<open>auto simp: act_at_def alike_def held_back_def simp del: background.simps\<close>)
  then show ?thesis
    using now assms(5) by (auto simp: serve_def ta alike_def)
qed

lemma serve_all_alike:
  assumes "serve_all we tas s = Some (outs, s')" and "list_all (\<lambda>ta. apart we S A (snd ta)) tas"
    and "held_back we S s" and "alike S A s t"
  shows "\<exists>t'. serve_all we (filter (\<lambda>ta. \<not> asked_by S (snd ta)) tas) t = Some (filter (\<lambda>(n, r). n \<notin> S) outs, t') \<and>
    alike S A s' t' \<and> list_all (\<lambda>(n, r). n \<in> S \<longrightarrow> public_reply r) outs"
  using assms
proof (induction tas arbitrary: s t outs)
  case Nil
  then show ?case by simp
next
  case (Cons ta tas)
  from Cons.prems(1) obtain out s1 os where s1: "serve we ta s = Some (out, s1)" and os: "serve_all we tas s1 = Some (os, s')"
    and outs: "outs = out @ os"
    by (auto split: option.splits prod.splits)
  have ap: "apart we S A (snd ta)" "list_all (\<lambda>ta. apart we S A (snd ta)) tas"
    using Cons.prems(2) by simp_all
  show ?case
  proof (cases "asked_by S (snd ta)")
    case True
    from stranger_step [OF s1 True ap(1) Cons.prems(3,4)] have st: "alike S A s1 t" "held_back we S s1"
      "list_all (\<lambda>(n, r). n \<in> S \<and> public_reply r) out" by blast+
    have "filter (\<lambda>(n, r). n \<notin> S) out = []" "list_all (\<lambda>(n, r). n \<in> S \<longrightarrow> public_reply r) out"
      using st(3) by (auto simp: list_all_iff filter_empty_conv)
    with Cons.IH [OF os ap(2) st(2,1)] True outs show ?thesis by auto
  next
    case False
    from other_step [OF s1 False ap(1) Cons.prems(3,4)] obtain t1 where st: "serve we ta t = Some (out, t1)" "alike S A s1 t1"
      "held_back we S s1" "list_all (\<lambda>(n, r). n \<notin> S) out" by blast
    have "filter (\<lambda>(n, r). n \<notin> S) out = out" "list_all (\<lambda>(n, r). n \<in> S \<longrightarrow> public_reply r) out"
      using st(4) by (auto simp: list_all_iff filter_id_conv)
    with Cons.IH [OF os ap(2) st(3,2)] False st(1) outs show ?thesis by auto
  qed
qed

section \<open>Logging out\<close>

text \<open>What is relied on of tokens: the library checks the expiry and reads the claims off the token, an id belongs to one expiry
  (ids are fresh UUIDs), and expiries are times that nanoseconds can hold.\<close>

definition token_rules :: "('s, 'd, 'l, 'c) site \<Rightarrow> bool" where
  "token_rules we \<longleftrightarrow>
     ac_enabled (we_auth we) \<and> jwt_checks_expiry (we_lib we) \<and> jwt_claims_fixed (we_lib we) \<and>
     (\<forall>t t' tok tok' c c'.
        jwt_parse (we_lib we) t (key_func (jc_secret (ac_jwt (we_auth we)))) tok = Inr (c, True) \<longrightarrow>
        jwt_parse (we_lib we) t' (key_func (jc_secret (ac_jwt (we_auth we)))) tok' = Inr (c', True) \<longrightarrow>
        cl_id c' = cl_id c \<longrightarrow> cl_expires c' = cl_expires c) \<and>
     (\<forall>t tok c e. jwt_parse (we_lib we) t (key_func (jc_secret (ac_jwt (we_auth we)))) tok = Inr (c, True) \<longrightarrow>
        cl_expires c = Some e \<longrightarrow> unix_nano e)"

text \<open>After an acknowledged logout the token passes no route that asks for one, whatever has happened in between.\<close>

definition logout_lasts :: "('s, 'd, 'l, 'c) site \<Rightarrow> bool" where
  "logout_lasts we \<longleftrightarrow>
     (\<forall>s n header tok t0 dr s1 tas outs s2 t m c header' peer out s3.
        ht_open s n = Some (Waiting LogoutCall header) \<and> bearer_token header = Some tok \<and> tok \<notin> set (ac_tokens (we_auth we)) \<and>
        serve we (t0, Handle n dr) s = Some ([(n, AuthReply (Http 200 LoggedOut))], s1) \<and>
        serve_all we tas s1 = Some (outs, s2) \<and>
        bearer_token header' = Some tok \<and> \<not> open_call c \<and>
        serve we (t, Arrive m c header' peer) s2 = Some (out, s3) \<longrightarrow>
        (\<exists>r. out = [(m, r)] \<and> refusal r) \<and> ht_backend s3 = ht_backend s2 \<and> ht_open s3 = ht_open s2)"

lemma answer_call_deny:
  "answer_call we n now dr header c b = Some (out, b') \<Longrightarrow> c \<noteq> LogoutCall \<Longrightarrow> hb_deny b' = hb_deny b"
  by (cases c)
     (auto simp: outcome_defs agent_create_call_def agent_send_call_def agent_delete_call_def agent_stream_call_def
        start_thread_def async_launch_def Let_def split: sum.splits if_splits option.splits prod.splits)

lemma resume_deny:
  assumes "resume we n now dr q b = Some (out, b')"
  shows "hb_deny b' = hb_deny b \<or>
    (\<exists>header a. q = Waiting LogoutCall header \<and> out = Reply (AuthReply a) \<and>
       logout_handler (we_status we) (we_lib we) (ac_jwt (we_auth we)) (we_add we) (hb_deny b) now header = (a, hb_deny b'))"
proof (cases "\<exists>header. q = Waiting LogoutCall header")
  case True
  with assms show ?thesis by (auto simp: resume_def on_deny_def split: prod.splits)
next
  case False
  with assms show ?thesis
    by (cases q) (auto simp: resume_def async_running_def drive_def answered_def dest: answer_call_deny split: if_splits list.splits prod.splits)
qed

lemma resume_logout:
  assumes "resume we n now dr (Waiting LogoutCall header) b = Some (out, b')"
  shows "\<exists>a. out = Reply (AuthReply a) \<and>
    logout_handler (we_status we) (we_lib we) (ac_jwt (we_auth we)) (we_add we) (hb_deny b) now header = (a, hb_deny b')"
  using assms
  by (cases "logout_handler (we_status we) (we_lib we) (ac_jwt (we_auth we)) (we_add we) (hb_deny b) now header")
     (auto simp: resume_def on_deny_def)

lemma background_deny:
  "background we now a b = Some b' \<Longrightarrow> (\<forall>ks. a \<noteq> SweepTokens ks) \<Longrightarrow> hb_deny b' = hb_deny b"
  by (cases a) (auto simp: async_ended_def async_accounted_def split: option.splits if_splits prod.splits)

lemma logout_changes:
  assumes "logout_handler ws lib cfg add (Some d) now header = (a, st)"
  shows "st = Some d \<or> (\<exists>tok c e d'. jwt_parse lib now (key_func (jc_secret cfg)) tok = Inr (c, True) \<and> cl_expires c = Some e \<and>
    add (cl_id c) e d = Inr d' \<and> st = Some d')"
  using assms
  by (auto simp: logout_handler_def validate_token_Inr split: if_splits option.splits sum.splits)

lemma op_until_later: "op_until t j e op \<Longrightarrow> t \<le> t' \<Longrightarrow> op_until t' j e op"
  by (auto simp: op_until_def split: deny_op.splits)

lemma serve_now: "serve we ta s = Some (out, s') \<Longrightarrow> ht_now s \<le> fst ta \<and> ht_now s' = fst ta"
  by (cases ta; cases "snd ta")
     (auto simp: serve_def act_at_def go_on_iff split: if_splits elim!: arrive_cases)

definition id_expires :: "('s, 'd, 'l, 'c) site \<Rightarrow> string \<Rightarrow> gtime \<Rightarrow> bool" where
  "id_expires we j e \<longleftrightarrow>
     (\<forall>t tok c. jwt_parse (we_lib we) t (key_func (jc_secret (ac_jwt (we_auth we)))) tok = Inr (c, True) \<longrightarrow>
        cl_id c = j \<longrightarrow> cl_expires c = Some e)"

text \<open>What the steps of the server do to the blacklist are additions and sweeps.\<close>

lemma serve_deny:
  assumes "serve we ta s = Some (out, s')" and "hb_deny (ht_backend s) = Some d"
    and ids: "id_expires we j e"
  shows "\<exists>ops. hb_deny (ht_backend s') = Some (fold (deny_step (we_add we) (we_reap we)) ops d) \<and>
    (\<forall>op \<in> set ops. op_until (ht_now s') j e op)"
proof -
  obtain now a where ta: "ta = (now, a)" by fastforce
  let ?s = "s\<lparr>ht_now := now\<rparr>"
  have act: "act_at we now a ?s = Some (out, s')" and now: "ht_now s' = now"
    using assms(1) serve_now [OF assms(1)] by (auto simp: serve_def ta split: if_splits)
  have same: ?thesis if "hb_deny (ht_backend s') = Some d"
    using that by (intro exI [of _ "[]"]) simp
  show ?thesis
  proof (cases a)
    case (Arrive n c header peer)
    with act have "arrive we now n c header peer ?s = Some (out, s')" by (simp add: act_at_def)
    then have "ht_backend s' = ht_backend s" by (cases rule: arrive_cases) simp_all
    with same assms(2) show ?thesis by simp
  next
    case (Handle n dr)
    with act have "go_on we now n dr ?s = Some (out, s')" by (simp add: act_at_def)
    then obtain q o' where "resume we n now dr q (ht_backend s) = Some (o', ht_backend s')"
      unfolding go_on_iff by auto
    from resume_deny [OF this] consider "hb_deny (ht_backend s') = Some d"
      | header x where "logout_handler (we_status we) (we_lib we) (ac_jwt (we_auth we)) (we_add we) (Some d) now header =
          (x, hb_deny (ht_backend s'))"
      using assms(2) by auto
    then show ?thesis
    proof cases
      case 2
      from logout_changes [OF this] same show ?thesis
      proof (elim disjE exE conjE)
        fix tok c e' d'
        assume p: "jwt_parse (we_lib we) now (key_func (jc_secret (ac_jwt (we_auth we)))) tok = Inr (c, True)" "cl_expires c = Some e'"
          and a: "we_add we (cl_id c) e' d = Inr d'" "hb_deny (ht_backend s') = Some d'"
        have "cl_id c \<noteq> j \<or> e' = e" using ids p unfolding id_expires_def by fastforce
        with a show ?thesis
          by (intro exI [of _ "[DAdd (cl_id c) e']"]) (auto simp: deny_step_def op_until_def)
      qed
    qed (rule same)
  next
    case (SweepTokens ks)
    have "s' = ?s\<lparr>ht_backend := (ht_backend s)\<lparr>hb_deny := Some (we_reap we now ks d)\<rparr>\<rparr>"
      using act assms(2) by (simp add: act_at_def SweepTokens)
    then show ?thesis
      by (intro exI [of _ "[DReap now ks]"]) (simp add: deny_step_def op_until_def)
  next
    case (SweepLimits ks)
    with act assms(2) same show ?thesis by (auto simp: act_at_def)
  qed (use act assms(2) same background_deny [of we now a "ht_backend s" "ht_backend s'"] in
      \<open>auto simp: act_at_def simp del: background.simps\<close>)
qed

lemma serve_all_deny:
  assumes "serve_all we tas s = Some (outs, s')" and "hb_deny (ht_backend s) = Some d"
    and ids: "id_expires we j e"
  shows "ht_now s \<le> ht_now s' \<and> (\<exists>ops. hb_deny (ht_backend s') = Some (fold (deny_step (we_add we) (we_reap we)) ops d) \<and>
    (\<forall>op \<in> set ops. op_until (ht_now s') j e op))"
  using assms(1,2)
proof (induction tas arbitrary: s outs d)
  case Nil
  then show ?case by (auto intro: exI [of _ "[]"])
next
  case (Cons ta tas)
  then obtain out s1 os where s1: "serve we ta s = Some (out, s1)" and os: "serve_all we tas s1 = Some (os, s')"
    by (auto split: option.splits prod.splits)
  from serve_deny [OF s1 Cons.prems(2) ids] obtain ops where ops:
    "hb_deny (ht_backend s1) = Some (fold (deny_step (we_add we) (we_reap we)) ops d)" "\<forall>op \<in> set ops. op_until (ht_now s1) j e op"
    by blast
  from Cons.IH [OF os ops(1)] obtain ops' where ops': "ht_now s1 \<le> ht_now s'"
    "hb_deny (ht_backend s') = Some (fold (deny_step (we_add we) (we_reap we)) (ops @ ops') d)" "\<forall>op \<in> set ops'. op_until (ht_now s') j e op"
    by auto
  have "\<forall>op \<in> set (ops @ ops'). op_until (ht_now s') j e op"
    using ops(2) ops'(1,3) op_until_later by auto
  moreover have "ht_now s \<le> ht_now s'"
    using ops'(1) serve_now [OF s1] by simp
  ultimately show ?case using ops'(2) by blast
qed

context deny_store
begin

lemma served_logout_lasts:
  assumes rules: "token_rules we" and site: "we_add we = add" "we_blocked we = blocked" "we_reap we = reap"
  shows "logout_lasts we"
  unfolding logout_lasts_def
proof (intro allI impI, elim conjE)
  fix s n header tok t0 dr s1 tas outs s2 t m c header' peer out s3
  assume o: "ht_open s n = Some (Waiting LogoutCall header)" and tok: "bearer_token header = Some tok" "tok \<notin> set (ac_tokens (we_auth we))"
    and lo: "serve we (t0, Handle n dr) s = Some ([(n, AuthReply (Http 200 LoggedOut))], s1)"
    and tas: "serve_all we tas s1 = Some (outs, s2)" and tok': "bearer_token header' = Some tok" and c: "\<not> open_call c"
    and arr: "serve we (t, Arrive m c header' peer) s2 = Some (out, s3)"
  have en: "ac_enabled (we_auth we)" and lib: "jwt_checks_expiry (we_lib we)" "jwt_claims_fixed (we_lib we)"
    using rules by (simp_all add: token_rules_def)
  have "go_on we t0 n dr (s\<lparr>ht_now := t0\<rparr>) = Some ([(n, AuthReply (Http 200 LoggedOut))], s1)"
    using lo by (simp add: serve_def act_at_def split: if_splits)
  then obtain o' where r: "resume we n t0 dr (Waiting LogoutCall header) (ht_backend s) = Some (o', ht_backend s1)"
    and told: "[(n, AuthReply (Http 200 LoggedOut))] = told n o'"
    using o unfolding go_on_iff by auto
  have l: "logout_handler (we_status we) (we_lib we) (ac_jwt (we_auth we)) add (hb_deny (ht_backend s)) t0 header =
      (Http 200 LoggedOut, hb_deny (ht_backend s1))"
    using resume_logout [OF r] told by (cases o') (auto simp: site)
  then obtain d where d: "hb_deny (ht_backend s) = Some d"
    by (auto simp: logout_handler_def split: if_splits option.splits)
  from logout_accepted [OF l [unfolded d] tok(1)] obtain cl e d1 where
    p: "jwt_parse (we_lib we) t0 (key_func (jc_secret (ac_jwt (we_auth we)))) tok = Inr (cl, True)"
    and e: "cl_expires cl = Some e" and d1: "hb_deny (ht_backend s1) = Some d1"
    by metis
  have ids: "id_expires we (cl_id cl) e" and nano: "unix_nano e"
    using rules p e unfolding token_rules_def id_expires_def by metis+
  from serve_all_deny [OF tas d1 ids] obtain ops where
    ops: "hb_deny (ht_backend s2) = Some (fold step ops d1)" "\<forall>op \<in> set ops. op_until (ht_now s2) (cl_id cl) e op"
    unfolding site by blast
  let ?s = "s2\<lparr>ht_now := t\<rparr>"
  have "ht_now s2 \<le> t" and a: "arrive we t m c header' peer ?s = Some (out, s3)"
    using arr by (auto simp: serve_def act_at_def split: if_splits)
  then have "\<forall>op \<in> set ops. op_until t (cl_id cl) e op"
    using ops(2) op_until_later by blast
  from logged_out_rejected [OF lib l [unfolded d d1] tok(1) tok' en tok(2) p e nano this]
  have no: "\<not> admitted (middleware (we_status we) (we_lib we) (we_auth we) (deny_lookup we t (ht_backend s2)) t header')"
    by (simp add: deny_lookup_def ops(1) site)
  have "\<not> passes we t c header' peer ?s"
  proof
    assume "passes we t c header' peer ?s"
    then obtain g x m' where g: "guard_of (we_agents we) (endpoint_of c) = Some g"
      and pr: "pass_route (we_status we) (we_lib we) (we_buckets we) (we_rate we) (we_auth we) (deny_lookup we t (ht_backend s2)) t g
          peer header' (ht_limits s2) = (Passed x, m')"
      by (auto simp: passes_def)
    have "authenticate (we_status we) (we_lib we) (we_auth we) (deny_lookup we t (ht_backend s2)) t header' \<noteq> Passed x"
      using no authenticate_Passed by blast
    with pr have "g = Open"
      by (cases g) (auto simp: pass_route_def split: prod.splits rate_answer.splits)
    with guard_of_call [OF g] c show False by simp
  qed
  with a show "(\<exists>r. out = [(m, r)] \<and> refusal r) \<and> ht_backend s3 = ht_backend s2 \<and> ht_open s3 = ht_open s2"
    by (cases rule: arrive_cases) auto
qed

end

section \<open>Properties\<close>


lemma demo_powerless: "powerless demo_site []"
  by (simp add: powerless_def middleware_def demo_site_def)


text \<open>C3: A logout is final for the whole server. With the blacklist in memory or on disk, once a logout has been acknowledged, a
  request with the same token is refused on every route that asks for a token, whatever requests, runs and sweeps come in between, and
  changes nothing but its client's rate limit. This rests on what is relied on of tokens, and static tokens are not meant.
\<close>

theorem logout_is_final:
  "(token_rules we \<and> we_add we = mem_add \<and> we_blocked we = mem_blocked \<and> we_reap we = mem_cleanup \<longrightarrow> logout_lasts we) \<and>
   (token_rules wb \<and> we_add wb = bolt_add io \<and> we_blocked wb = bolt_blocked None \<and>
      we_reap wb = (\<lambda>t ks b. snd (bolt_cleanup io_view io_update t ks b)) \<longrightarrow> logout_lasts wb)"
  using mem.served_logout_lasts [of we] bolt.served_logout_lasts [of wb io io_view io_update] by blast

lemma demo_token_rules: "token_rules demo_site"
proof -
  have p: "tok = ''A'' \<and> c = demo_access \<or> tok = ''R'' \<and> c = demo_refresh \<or> tok = ''B'' \<and> c = demo_access2 \<or> tok = ''S'' \<and> c = demo_refresh2"
    if "jwt_parse demo_lib t kf tok = Inr (c, True)" for t kf tok c
    using that by (auto simp: demo_lib_def dest: demo_check_Inr split: if_splits)
  have i: "cl_id demo_access = ''j1''" "cl_id demo_refresh = ''j2''" "cl_id demo_access2 = ''j3''" "cl_id demo_refresh2 = ''j4''"
    by (simp_all add: demo_claims)
  have e: "\<exists>x. cl_expires c = Some x \<and> unix_nano x" if "c \<in> {demo_access, demo_refresh, demo_access2, demo_refresh2}" for c
    using that by (auto simp: demo_claims second_def unix_nano_def)
  have l: "we_lib demo_site = demo_lib" by (simp add: demo_site_def)
  show ?thesis
    unfolding token_rules_def l
  proof (intro conjI allI impI)
    fix t t' tok tok' c c'
    assume "jwt_parse demo_lib t (key_func (jc_secret (ac_jwt (we_auth demo_site)))) tok = Inr (c, True)"
      and "jwt_parse demo_lib t' (key_func (jc_secret (ac_jwt (we_auth demo_site)))) tok' = Inr (c', True)"
      and id: "cl_id c' = cl_id c"
    from this(1,2) [THEN p] have "c \<in> {demo_access, demo_refresh, demo_access2, demo_refresh2}"
      "c' \<in> {demo_access, demo_refresh, demo_access2, demo_refresh2}" by blast+
    with id i show "cl_expires c' = cl_expires c" by auto
  next
    fix t tok c x
    assume "jwt_parse demo_lib t (key_func (jc_secret (ac_jwt (we_auth demo_site)))) tok = Inr (c, True)" and x: "cl_expires c = Some x"
    from p [OF this(1)] have "c \<in> {demo_access, demo_refresh, demo_access2, demo_refresh2}" by blast
    with e x show "unix_nano x" by fastforce
  qed (simp_all add: demo_site_def demo_lib_ok)
qed

theorem logout_is_final_witness:
  "\<exists>s1 s2 out. serve demo_site (0, Handle 0 demo_draw)
        (new_service plain_world (Some new_memory_blacklist) ()\<lparr>ht_open := [0 \<mapsto> Waiting LogoutCall ''Bearer A'']\<rparr>) =
        Some ([(0, AuthReply (Http 200 LoggedOut))], s1) \<and>
      serve demo_site (1, Arrive 1 StatusCall ''BEARER A'' (peer_at ''b'')) s1 = Some (out, s2) \<and>
      (\<exists>r. out = [(1, r)] \<and> refusal r)"
proof -
  let ?s = "new_service plain_world (Some new_memory_blacklist) ()\<lparr>ht_open := [0 \<mapsto> Waiting LogoutCall ''Bearer A'']\<rparr>
    :: (unit, memory_blacklist, unit, unit) service"
  have l: "logout_lasts demo_site"
    by (rule mp [OF conjunct1 [OF logout_is_final]]) (simp add: demo_token_rules, simp add: demo_site_def)
  obtain s1 where s1: "serve demo_site (0, Handle 0 demo_draw) ?s = Some ([(0, AuthReply (Http 200 LoggedOut))], s1)" "ht_now s1 = 0" "ht_open s1 1 = None"
    using demo_logout by (simp add: serve_def act_at_def go_on_def resume_def new_service_def on_deny_def demo_site_def)
  have "\<exists>x. arrive demo_site 1 1 StatusCall ''BEARER A'' (peer_at ''b'') (s1\<lparr>ht_now := 1\<rparr>) = Some x"
    using s1(3) by (simp add: arrive_def split: option.split prod.split passage.split)
  then obtain out s2 where s2: "serve demo_site (1, Arrive 1 StatusCall ''BEARER A'' (peer_at ''b'')) s1 = Some (out, s2)"
    using s1(2) by (auto simp: serve_def act_at_def)
  have "\<exists>r. out = [(1, r)] \<and> refusal r"
    using l [unfolded logout_lasts_def, rule_format, of ?s 0 "''Bearer A''" "''A''" 0 demo_draw s1 "[]" "[]" s1 "''BEARER A''" StatusCall 1 1 "peer_at ''b''" out s2]
      s1 s2 demo_bearer by (simp add: new_service_def demo_site_def)
  with s1 s2 show ?thesis by blast
qed

end
