(* ===== verification/Go_Duration.thy ===== *)
theory Go_Duration
  imports Go_Number Go_Time
begin

text \<open>
  \<^verbatim>\<open>Duration.String\<close> for durations of whole seconds, at least one, and that \<^verbatim>\<open>time.ParseDuration\<close> reads it back.
\<close>

definition show_duration :: "gtime \<Rightarrow> string" where
  "show_duration d =
     (let s = nat (d div second); m = s div 60; h = m div 60
      in (if h > 0 then show_nat h @ ''h'' else []) @ (if m > 0 then show_nat (m mod 60) @ ''m'' else []) @
         show_nat (s mod 60) @ ''s'')"

section \<open>Reading numbers with a unit\<close>

lemma foldl_digits_mono: "x \<le> foldl (\<lambda>n c. 10 * n + digit_val c) x ds"
proof (induction ds arbitrary: x)
  case (Cons c ds)
  have "x \<le> 10 * x + digit_val c" by simp
  also have "\<dots> \<le> foldl (\<lambda>n c. 10 * n + digit_val c) (10 * x + digit_val c) ds" by (rule Cons)
  finally show ?case by simp
qed simp

lemma leading_int_digits:
  assumes "u \<noteq> [] \<Longrightarrow> \<not> is_digit (hd u)"
  shows "list_all is_digit ds \<Longrightarrow> foldl (\<lambda>n c. 10 * n + digit_val c) x ds \<le> bound63 \<Longrightarrow>
    leading_int x (ds @ u) = Some (foldl (\<lambda>n c. 10 * n + digit_val c) x ds, u)"
proof (induction ds arbitrary: x)
  case Nil
  then show ?case using assms by (cases u) auto
next
  case (Cons c ds)
  have "10 * x + digit_val c \<le> bound63"
    using foldl_digits_mono [of "10 * x + digit_val c" ds] Cons.prems(2) by simp
  then have "x \<le> bound63 div 10" "x * 10 + digit_val c \<le> bound63"
    by simp_all
  with Cons show ?case by (simp add: Let_def mult.commute)
qed

lemma leading_int_show:
  assumes "n \<le> bound63" and "u \<noteq> [] \<Longrightarrow> \<not> is_digit (hd u)"
  shows "leading_int 0 (show_nat n @ u) = Some (n, u)"
  using leading_int_digits [of u "show_nat n" 0] assms read_show_nat [of n] by (simp add: read_nat_def)

lemma duration_item_show:
  assumes "unit_map [c] = Some k" and "n * k \<le> bound63" and "r \<noteq> [] \<Longrightarrow> is_digit (hd r)"
  shows "duration_item (show_nat n @ c # r) = Some (n * k, r)"
proof -
  have c: "c = CHR ''s'' \<and> k = 1000000000 \<or> c = CHR ''m'' \<and> k = 60000000000 \<or> c = CHR ''h'' \<and> k = 3600000000000"
    using assms(1) by (auto simp: unit_map_def split: if_splits)
  then have u: "unit_char c" "\<not> is_digit c" "c \<noteq> CHR ''.''" and k: "1 \<le> k"
    by (auto simp: unit_char_def is_digit_def)
  have "n \<le> n * k" using k by simp
  with assms(2) have n: "n \<le> bound63" "n \<le> bound63 div k"
    using k by (simp_all only: less_eq_div_iff_mult_less_eq le_trans)
  have hd: "\<not> unit_char (hd (show_nat n @ c # r))"
    using hd_show_nat [of n] by (simp add: unit_char_def)
  have tw: "takeWhile unit_char (c # r) = [c]" "dropWhile unit_char (c # r) = r"
    using u assms(3) by (cases r; simp add: unit_char_def)+
  show ?thesis
    unfolding duration_item_def
    using hd leading_int_show [OF n(1), of "c # r"] u n(2) tw assms(1)
    by (simp add: Let_def)
qed

lemma duration_items_step:
  "duration_item s = Some (v, r) \<Longrightarrow> s \<noteq> [] \<Longrightarrow> d + v \<le> bound63 \<Longrightarrow> duration_items d s = duration_items (d + v) r"
  by (subst duration_items.simps) simp

lemma duration_items_end [simp]: "duration_items d [] = Some d"
  by (subst duration_items.simps) simp

lemma duration_items_show:
  assumes "unit_map [c] = Some k" and "d + n * k \<le> bound63" and "r \<noteq> [] \<Longrightarrow> is_digit (hd r)"
  shows "duration_items d (show_nat n @ c # r) = duration_items (d + n * k) r"
  using duration_item_show [of c k n r] assms by (intro duration_items_step) auto

lemma units: "unit_map ''s'' = Some 1000000000" "unit_map ''m'' = Some 60000000000" "unit_map ''h'' = Some 3600000000000"
  by (simp_all add: unit_map_def)

lemma items_s: "d + s * 1000000000 \<le> bound63 \<Longrightarrow> duration_items d (show_nat s @ ''s'') = Some (d + s * 1000000000)"
  using duration_items_show [OF units(1), of d s "[]"] by simp

lemma items_ms:
  "d + m * 60000000000 + s * 1000000000 \<le> bound63 \<Longrightarrow>
   duration_items d (show_nat m @ CHR ''m'' # show_nat s @ ''s'') = Some (d + m * 60000000000 + s * 1000000000)"
  using duration_items_show [OF units(2), of d m "show_nat s @ ''s''"] items_s [of "d + m * 60000000000" s] by simp

lemma items_hms:
  "h * 3600000000000 + m * 60000000000 + s * 1000000000 \<le> bound63 \<Longrightarrow>
   duration_items 0 (show_nat h @ CHR ''h'' # show_nat m @ CHR ''m'' # show_nat s @ ''s'') =
     Some (h * 3600000000000 + m * 60000000000 + s * 1000000000)"
  using duration_items_show [OF units(3), of 0 h "show_nat m @ CHR ''m'' # show_nat s @ ''s''"]
    items_ms [of "h * 3600000000000" m s] by simp

lemma parse_items:
  assumes "duration_items 0 t = Some d" and "is_digit (hd t)" and "t \<noteq> []" and "last t = CHR ''s''" and "d < bound63"
  shows "parse_duration t = Some (int d)"
proof -
  have "t \<noteq> ''0''" using assms(4) by auto
  moreover have "hd t \<noteq> CHR ''-''" "hd t \<noteq> CHR ''+''" using assms(2) by (auto simp: is_digit_def)
  moreover have "d \<le> bound63 - 1" using assms(5) by simp
  ultimately show ?thesis using assms(1,3) by (simp add: parse_duration_def)
qed

lemma show_duration_cases:
  "show_duration (int s * second) =
    (let m = s div 60; h = m div 60
     in if h > 0 then show_nat h @ CHR ''h'' # show_nat (m mod 60) @ CHR ''m'' # show_nat (s mod 60) @ ''s''
        else if m > 0 then show_nat m @ CHR ''m'' # show_nat (s mod 60) @ ''s''
        else show_nat s @ ''s'')"
proof -
  have a: "nat (int s * second div second) = s" by (simp add: second_def)
  have b: "s div 60 div 60 = 0 \<Longrightarrow> s div 60 mod 60 = s div 60" "s div 60 = 0 \<Longrightarrow> s mod 60 = s"
    "s div 60 = 0 \<Longrightarrow> s div 60 div 60 = 0"
    by (simp_all add: div_eq_0_iff)
  consider "s div 60 div 60 > 0" "s div 60 > 0" | "s div 60 div 60 = 0" "s div 60 > 0" | "s div 60 div 60 = 0" "s div 60 = 0"
    using b(3) by fastforce
  then show ?thesis
    unfolding show_duration_def Let_def a by cases (simp_all only: b if_True if_False append_Nil append.assoc append_Cons less_numeral_extra)
qed

text \<open>The duration that the text of a duration of whole seconds denotes is that duration.\<close>

lemma parse_show_duration:
  assumes "s * 1000000000 < bound63"
  shows "parse_duration (show_duration (int s * second)) = Some (int s * second)"
proof -
  define m h where "m = s div 60" and "h = m div 60"
  have s: "s = h * 3600 + (m mod 60) * 60 + s mod 60"
    using div_mult_mod_eq [of s 60] div_mult_mod_eq [of m 60] unfolding m_def h_def by linarith
  then have b: "h * 3600000000000 + (m mod 60) * 60000000000 + (s mod 60) * 1000000000 = s * 1000000000"
    by linarith
  have m: "m * 60000000000 + (s mod 60) * 1000000000 = s * 1000000000"
    using div_mult_mod_eq [of s 60] unfolding m_def by linarith
  have i: "int s * second = int (s * 1000000000)" by (simp add: second_def)
  let ?t = "show_duration (int s * second)"
  have t: "?t = (if h > 0 then show_nat h @ CHR ''h'' # show_nat (m mod 60) @ CHR ''m'' # show_nat (s mod 60) @ ''s''
        else if m > 0 then show_nat m @ CHR ''m'' # show_nat (s mod 60) @ ''s'' else show_nat s @ ''s'')"
    using show_duration_cases [of s] by (simp only: Let_def m_def h_def)
  have "duration_items 0 ?t = Some (s * 1000000000)"
    unfolding t using items_hms [of h "m mod 60" "s mod 60"] items_ms [of 0 m "s mod 60"] items_s [of 0 s] assms b m
    by (simp only: split: if_split) simp
  moreover have "is_digit (hd ?t)" "?t \<noteq> []" "last ?t = CHR ''s''"
    unfolding t by simp_all
  ultimately show ?thesis
    using parse_items [of ?t "s * 1000000000"] assms unfolding i by blast
qed

end
