(* ===== verification/Config.thy ===== *)
theory Config
  imports Go_Duration
begin

text \<open>
  The configuration, \<^verbatim>\<open>internal/config/config.go\<close>: the defaults and environment variables, reading and checking. Viper, which
  resolves a key from the environment, a file and the defaults, is the record \<open>viper\<close> of its getters; \<open>te\<close> is the
  error of \<^verbatim>\<open>time.ParseDuration\<close> for a text it does not accept.
\<close>

section \<open>Settings\<close>

record agent_settings =
  as_image :: string
  as_tag :: string
  as_patterns :: "string list"
  as_volumes :: "string list"
  as_allow_all :: bool
  as_workdir_auto :: bool
  as_volume_auto :: bool
  as_mount_cli :: bool
  as_cli_image :: string
  as_cli_tag :: string
  as_auto_pull :: bool
  as_credentials :: string
  as_sessions_dir :: string
  as_sessions_host_dir :: string
  as_cache_enabled :: bool
  as_cache_ttl :: gtime

record resource_settings =
  rs_memory :: string
  rs_cpus :: string
  rs_timeout :: string

record blacklist_settings =
  bs_backend :: string
  bs_path :: string
  bs_cleanup :: gtime

record auth_settings =
  au_enabled :: bool
  au_tokens :: "string list"
  au_blacklist :: blacklist_settings

record rate_settings =
  rt_enabled :: bool
  rt_rate :: int
  rt_burst :: int
  rt_period :: gtime
  rt_proxies :: "string list"

record jwt_settings =
  js_secret :: string
  js_access :: gtime
  js_refresh :: gtime

record jobs_settings =
  jb_ttl :: gtime
  jb_interval :: gtime

record tracing_settings =
  tr_enabled :: bool
  tr_service :: string
  tr_endpoint :: string
  tr_insecure :: bool

record compose_settings =
  cs_allow_privileged :: bool
  cs_allow_host_network :: bool
  cs_allow_host_volumes :: bool
  cs_build_timeout :: gtime
  cs_health_timeout :: gtime
  cs_stack_ttl :: gtime

record metrics_settings =
  mt_enabled :: bool
  mt_address :: string

record config =
  cf_address :: string
  cf_agent :: agent_settings
  cf_resources :: resource_settings
  cf_auth :: auth_settings
  cf_rate :: rate_settings
  cf_jwt :: jwt_settings
  cf_jobs :: jobs_settings
  cf_tracing :: tracing_settings
  cf_compose :: compose_settings
  cf_metrics :: metrics_settings
  cf_webhook_secret :: string

section \<open>Defaults and environment variables\<close>

datatype viper_value = VString string | VBool bool | VInt int | VList "string list"

definition config_defaults :: "(string \<times> viper_value) list" where
  "config_defaults =
     [(''server.address'', VString '':8080''),
      (''agent.image'', VString ''stromboli-agent''),
      (''agent.image_tag'', VString ''latest''),
      (''agent.allowed_image_patterns'', VList []),
      (''agent.allowed_volumes'', VList []),
      (''agent.allow_all_volumes'', VBool False),
      (''agent.workdir_auto_create'', VBool True),
      (''agent.volume_auto_create'', VBool True),
      (''agent.mount_claude_cli'', VBool False),
      (''agent.cli_image'', VString ''ghcr.io/tomblancdev/stromboli-agent''),
      (''agent.cli_image_tag'', VString ''latest''),
      (''agent.auto_pull_cli'', VBool True),
      (''agent.credentials_file'', VString ''~/.claude/.credentials.json''),
      (''agent.sessions_dir'', VString ''.stromboli/sessions''),
      (''agent.sessions_host_dir'', VString []),
      (''agent.token_cache.enabled'', VBool True),
      (''agent.token_cache.ttl'', VString (show_duration (5 * minute))),
      (''resources.memory'', VString ''512m''),
      (''resources.cpus'', VString ''1''),
      (''resources.timeout'', VString ''30m''),
      (''auth.enabled'', VBool True),
      (''auth.valid_tokens'', VList []),
      (''auth.blacklist.backend'', VString ''memory''),
      (''auth.blacklist.bolt_path'', VString ''.stromboli/blacklist.db''),
      (''auth.blacklist.cleanup_interval'', VString (show_duration (hour))),
      (''rate_limit.enabled'', VBool False),
      (''rate_limit.rate'', VInt 10),
      (''rate_limit.burst'', VInt 20),
      (''rate_limit.trusted_proxies'', VList []),
      (''webhook.signing_secret'', VString []),
      (''jwt.secret'', VString []),
      (''jwt.access_expiry'', VString (show_duration (24 * hour))),
      (''jwt.refresh_expiry'', VString (show_duration (7 * 24 * hour))),
      (''jobs.cleanup_ttl'', VString (show_duration (1 * hour))),
      (''jobs.cleanup_interval'', VString (show_duration (5 * minute))),
      (''tracing.enabled'', VBool False),
      (''tracing.service_name'', VString ''stromboli''),
      (''tracing.endpoint'', VString ''localhost:4317''),
      (''tracing.insecure'', VBool False),
      (''compose.allow_privileged'', VBool False),
      (''compose.allow_host_network'', VBool False),
      (''compose.allow_host_volumes'', VBool False),
      (''compose.build_timeout'', VString (show_duration (10 * minute))),
      (''compose.health_timeout'', VString (show_duration (2 * minute))),
      (''compose.stack_ttl'', VString (show_duration (1 * hour))),
      (''metrics.enabled'', VBool True),
      (''metrics.address'', VString ''127.0.0.1:9090'')]"

definition env_bindings :: "(string \<times> string) list" where
  "env_bindings =
     [(''server.address'', ''STROMBOLI_SERVER_ADDRESS''),
      (''agent.image'', ''STROMBOLI_AGENT_IMAGE''),
      (''agent.image_tag'', ''STROMBOLI_AGENT_IMAGE_TAG''),
      (''agent.allowed_image_patterns'', ''STROMBOLI_AGENT_ALLOWED_IMAGE_PATTERNS''),
      (''agent.allowed_volumes'', ''STROMBOLI_AGENT_ALLOWED_VOLUMES''),
      (''agent.allow_all_volumes'', ''STROMBOLI_AGENT_ALLOW_ALL_VOLUMES''),
      (''agent.workdir_auto_create'', ''STROMBOLI_AGENT_WORKDIR_AUTO_CREATE''),
      (''agent.volume_auto_create'', ''STROMBOLI_AGENT_VOLUME_AUTO_CREATE''),
      (''agent.mount_claude_cli'', ''STROMBOLI_AGENT_MOUNT_CLAUDE_CLI''),
      (''agent.cli_image'', ''STROMBOLI_AGENT_CLI_IMAGE''),
      (''agent.cli_image_tag'', ''STROMBOLI_AGENT_CLI_IMAGE_TAG''),
      (''agent.auto_pull_cli'', ''STROMBOLI_AGENT_AUTO_PULL_CLI''),
      (''agent.credentials_file'', ''STROMBOLI_AGENT_CREDENTIALS_FILE''),
      (''agent.sessions_dir'', ''STROMBOLI_AGENT_SESSIONS_DIR''),
      (''agent.sessions_host_dir'', ''STROMBOLI_AGENT_SESSIONS_HOST_DIR''),
      (''agent.token_cache.enabled'', ''STROMBOLI_TOKEN_CACHE_ENABLED''),
      (''agent.token_cache.ttl'', ''STROMBOLI_TOKEN_CACHE_TTL''),
      (''resources.memory'', ''STROMBOLI_DEFAULT_MEMORY''),
      (''resources.cpus'', ''STROMBOLI_DEFAULT_CPUS''),
      (''resources.timeout'', ''STROMBOLI_DEFAULT_TIMEOUT''),
      (''auth.enabled'', ''STROMBOLI_AUTH_ENABLED''),
      (''auth.valid_tokens'', ''STROMBOLI_API_TOKENS''),
      (''auth.blacklist.backend'', ''STROMBOLI_AUTH_BLACKLIST_BACKEND''),
      (''auth.blacklist.bolt_path'', ''STROMBOLI_AUTH_BLACKLIST_BOLT_PATH''),
      (''auth.blacklist.cleanup_interval'', ''STROMBOLI_AUTH_BLACKLIST_CLEANUP_INTERVAL''),
      (''rate_limit.enabled'', ''STROMBOLI_RATE_LIMIT_ENABLED''),
      (''rate_limit.rate'', ''STROMBOLI_RATE_LIMIT_RPS''),
      (''rate_limit.burst'', ''STROMBOLI_RATE_LIMIT_BURST''),
      (''rate_limit.trusted_proxies'', ''STROMBOLI_RATE_LIMIT_TRUSTED_PROXIES''),
      (''webhook.signing_secret'', ''STROMBOLI_WEBHOOK_SIGNING_SECRET''),
      (''jwt.secret'', ''STROMBOLI_JWT_SECRET''),
      (''jwt.access_expiry'', ''STROMBOLI_JWT_EXPIRY''),
      (''jwt.refresh_expiry'', ''STROMBOLI_JWT_REFRESH_EXPIRY''),
      (''jobs.cleanup_ttl'', ''STROMBOLI_JOBS_CLEANUP_TTL''),
      (''jobs.cleanup_interval'', ''STROMBOLI_JOBS_CLEANUP_INTERVAL''),
      (''tracing.enabled'', ''STROMBOLI_TRACING_ENABLED''),
      (''tracing.service_name'', ''STROMBOLI_TRACING_SERVICE_NAME''),
      (''tracing.endpoint'', ''STROMBOLI_TRACING_ENDPOINT''),
      (''tracing.insecure'', ''STROMBOLI_TRACING_INSECURE''),
      (''compose.allow_privileged'', ''STROMBOLI_COMPOSE_ALLOW_PRIVILEGED''),
      (''compose.allow_host_network'', ''STROMBOLI_COMPOSE_ALLOW_HOST_NETWORK''),
      (''compose.allow_host_volumes'', ''STROMBOLI_COMPOSE_ALLOW_HOST_VOLUMES''),
      (''compose.build_timeout'', ''STROMBOLI_COMPOSE_BUILD_TIMEOUT''),
      (''compose.health_timeout'', ''STROMBOLI_COMPOSE_HEALTH_TIMEOUT''),
      (''compose.stack_ttl'', ''STROMBOLI_COMPOSE_STACK_TTL''),
      (''metrics.enabled'', ''STROMBOLI_METRICS_ENABLED''),
      (''metrics.address'', ''STROMBOLI_METRICS_ADDRESS'')]"

record viper =
  vp_string :: "string \<Rightarrow> string"
  vp_bool :: "string \<Rightarrow> bool"
  vp_int :: "string \<Rightarrow> int"
  vp_slice :: "string \<Rightarrow> string list"

section \<open>Reading\<close>

definition parse_config_duration :: "(string \<Rightarrow> go_error) \<Rightarrow> string \<Rightarrow> gtime result" where
  "parse_config_duration te s =
     (if s = [] then Inr 0 else (case parse_duration s of None \<Rightarrow> Inl (te s) | Some d \<Rightarrow> Inr d))"

text \<open>A list of one element with a comma comes from an environment variable.\<close>

definition get_string_slice_or_split :: "viper \<Rightarrow> string \<Rightarrow> string list" where
  "get_string_slice_or_split v key =
     (let values0 = vp_slice v key;
          values = (if length values0 = 1 \<and> str_contains (hd values0) '','' then split_on (CHR '','') (hd values0) else values0)
      in if length values = 0 \<or> (length values = 1 \<and> hd values = []) then [] else map trim_space values)"

definition get_valid_tokens :: "viper \<Rightarrow> string list" where
  "get_valid_tokens v =
     (let tokens0 = vp_slice v ''auth.valid_tokens'';
          tokens = (if length tokens0 = 1 \<and> str_contains (hd tokens0) '','' then split_on (CHR '','') (hd tokens0) else tokens0)
      in if length tokens = 0 \<or> (length tokens = 1 \<and> hd tokens = []) then [] else map trim_space tokens)"

definition get_sessions_host_dir :: "viper \<Rightarrow> string" where
  "get_sessions_host_dir v =
     (let host_dir = vp_string v ''agent.sessions_host_dir''
      in if host_dir \<noteq> [] then host_dir else vp_string v ''agent.sessions_dir'')"

section \<open>Checking\<close>

definition min_jwt_secret_length :: nat where
  "min_jwt_secret_length = 32"

definition jwt_placeholder_secrets :: "string list" where
  "jwt_placeholder_secrets =
     [''change-me'', ''changeme'', ''replace-me'', ''your-secret-here'', ''your-jwt-secret'',
      ''generate-with-openssl-rand-base64-32'', ''insecure-secret-do-not-use-in-prod'', ''test-secret'']"

definition dash_how_to_fix :: string where
  "dash_how_to_fix = '' '' @ [CHR 0xE2, CHR 0x80, CHR 0x94] @ '' generate one with: openssl rand -base64 32''"

definition validate_jwt_secret :: "string \<Rightarrow> go_error option" where
  "validate_jwt_secret secret =
     (if secret = [] then Some (Msg (''auth is enabled but STROMBOLI_JWT_SECRET is empty'' @ dash_how_to_fix))
      else if length secret < min_jwt_secret_length
      then Some (Msg (''auth is enabled but STROMBOLI_JWT_SECRET is too short ('' @ show_nat (length secret) @
                      '' chars, need at least '' @ show_nat min_jwt_secret_length @ '')'' @ dash_how_to_fix))
      else if to_lower (trim_space secret) \<in> set jwt_placeholder_secrets
      then Some (Msg (''auth is enabled but STROMBOLI_JWT_SECRET is a known placeholder value'' @ dash_how_to_fix))
      else None)"

definition validate_config :: "(string \<Rightarrow> string) \<Rightarrow> config \<Rightarrow> go_error option" where
  "validate_config q c =
     (let rate = cf_rate c; jwt = cf_jwt c; auth = cf_auth c; bl = au_blacklist auth; jobs = cf_jobs c; ag = cf_agent c;
          tracing = cf_tracing c; compose = cf_compose c
      in if rt_enabled rate \<and> rt_rate rate \<le> 0
         then Some (Msg (''rate limit RPS must be positive, got '' @ show_int (rt_rate rate)))
         else if rt_enabled rate \<and> rt_burst rate \<le> 0
         then Some (Msg (''rate limit burst must be positive, got '' @ show_int (rt_burst rate)))
         else if js_secret jwt \<noteq> [] \<and> js_access jwt \<le> 0 then Some (Msg ''JWT access expiry must be positive'')
         else if js_secret jwt \<noteq> [] \<and> js_refresh jwt \<le> 0 then Some (Msg ''JWT refresh expiry must be positive'')
         else
           (case (if au_enabled auth then validate_jwt_secret (js_secret jwt) else None) of
              Some e \<Rightarrow> Some e
            | None \<Rightarrow>
                if bs_backend bl \<notin> {[], ''memory'', ''bolt''}
                then Some (Msg (''invalid auth.blacklist.backend '' @ q (bs_backend bl) @ '': must be \"memory\" or \"bolt\"''))
                else if bs_backend bl = ''bolt'' \<and> trim_space (bs_path bl) = []
                then Some (Msg ''auth.blacklist.backend=bolt requires auth.blacklist.bolt_path'')
                else if bs_cleanup bl \<le> 0 then Some (Msg ''auth.blacklist.cleanup_interval must be positive'')
                else if jb_ttl jobs \<le> 0 then Some (Msg ''job cleanup TTL must be positive'')
                else if jb_interval jobs \<le> 0 then Some (Msg ''job cleanup interval must be positive'')
                else if as_cache_enabled ag \<and> as_cache_ttl ag \<le> 0
                then Some (Msg ''token cache TTL must be positive when cache is enabled'')
                else if tr_enabled tracing \<and> tr_endpoint tracing = []
                then Some (Msg ''tracing endpoint must be set when tracing is enabled'')
                else if cs_build_timeout compose \<le> 0 then Some (Msg ''compose build timeout must be positive'')
                else if cs_health_timeout compose \<le> 0 then Some (Msg ''compose health timeout must be positive'')
                else if cs_stack_ttl compose \<le> 0 then Some (Msg ''compose stack TTL must be positive'')
                else None))"

section \<open>The whole configuration\<close>

text \<open>A duration of the configuration: its error, or what follows.\<close>

definition with_duration ::
    "(string \<Rightarrow> go_error) \<Rightarrow> viper \<Rightarrow> string \<Rightarrow> string \<Rightarrow> (gtime \<Rightarrow> 'a result) \<Rightarrow> 'a result" where
  "with_duration te v what key k =
     (case parse_config_duration te (vp_string v key) of Inl e \<Rightarrow> Inl (Wrap (what @ '': '') e []) | Inr d \<Rightarrow> k d)"

definition read_agent :: "viper \<Rightarrow> gtime \<Rightarrow> agent_settings" where
  "read_agent v ttl =
     \<lparr>as_image = vp_string v ''agent.image'', as_tag = vp_string v ''agent.image_tag'',
      as_patterns = get_string_slice_or_split v ''agent.allowed_image_patterns'',
      as_volumes = get_string_slice_or_split v ''agent.allowed_volumes'',
      as_allow_all = vp_bool v ''agent.allow_all_volumes'', as_workdir_auto = vp_bool v ''agent.workdir_auto_create'',
      as_volume_auto = vp_bool v ''agent.volume_auto_create'', as_mount_cli = vp_bool v ''agent.mount_claude_cli'',
      as_cli_image = vp_string v ''agent.cli_image'', as_cli_tag = vp_string v ''agent.cli_image_tag'',
      as_auto_pull = vp_bool v ''agent.auto_pull_cli'', as_credentials = vp_string v ''agent.credentials_file'',
      as_sessions_dir = vp_string v ''agent.sessions_dir'', as_sessions_host_dir = get_sessions_host_dir v,
      as_cache_enabled = vp_bool v ''agent.token_cache.enabled'', as_cache_ttl = ttl\<rparr>"

definition read_rate :: "viper \<Rightarrow> rate_settings" where
  "read_rate v =
     \<lparr>rt_enabled = vp_bool v ''rate_limit.enabled'', rt_rate = vp_int v ''rate_limit.rate'', rt_burst = vp_int v ''rate_limit.burst'',
      rt_period = second, rt_proxies = get_string_slice_or_split v ''rate_limit.trusted_proxies''\<rparr>"

definition read_tracing :: "viper \<Rightarrow> tracing_settings" where
  "read_tracing v =
     \<lparr>tr_enabled = vp_bool v ''tracing.enabled'', tr_service = vp_string v ''tracing.service_name'',
      tr_endpoint = vp_string v ''tracing.endpoint'', tr_insecure = vp_bool v ''tracing.insecure''\<rparr>"

definition read_compose :: "viper \<Rightarrow> gtime \<Rightarrow> gtime \<Rightarrow> gtime \<Rightarrow> compose_settings" where
  "read_compose v build health ttl =
     \<lparr>cs_allow_privileged = vp_bool v ''compose.allow_privileged'', cs_allow_host_network = vp_bool v ''compose.allow_host_network'',
      cs_allow_host_volumes = vp_bool v ''compose.allow_host_volumes'', cs_build_timeout = build, cs_health_timeout = health,
      cs_stack_ttl = ttl\<rparr>"

definition parse_config :: "(string \<Rightarrow> string) \<Rightarrow> (string \<Rightarrow> go_error) \<Rightarrow> viper \<Rightarrow> config result" where
  "parse_config q te v =
     with_duration te v ''invalid token cache TTL'' ''agent.token_cache.ttl'' (\<lambda>cache_ttl.
     with_duration te v ''invalid auth.blacklist.cleanup_interval'' ''auth.blacklist.cleanup_interval'' (\<lambda>bl_cleanup.
     with_duration te v ''invalid JWT access expiry'' ''jwt.access_expiry'' (\<lambda>access.
     with_duration te v ''invalid JWT refresh expiry'' ''jwt.refresh_expiry'' (\<lambda>refresh.
     with_duration te v ''invalid jobs cleanup TTL'' ''jobs.cleanup_ttl'' (\<lambda>ttl.
     with_duration te v ''invalid jobs cleanup interval'' ''jobs.cleanup_interval'' (\<lambda>interval.
     with_duration te v ''invalid compose build timeout'' ''compose.build_timeout'' (\<lambda>build.
     with_duration te v ''invalid compose health timeout'' ''compose.health_timeout'' (\<lambda>health.
     with_duration te v ''invalid compose stack TTL'' ''compose.stack_ttl'' (\<lambda>stack.
       let cfg =
         \<lparr>cf_address = vp_string v ''server.address'', cf_agent = read_agent v cache_ttl,
          cf_resources = \<lparr>rs_memory = vp_string v ''resources.memory'', rs_cpus = vp_string v ''resources.cpus'',
                          rs_timeout = vp_string v ''resources.timeout''\<rparr>,
          cf_auth = \<lparr>au_enabled = vp_bool v ''auth.enabled'', au_tokens = get_valid_tokens v,
                     au_blacklist = \<lparr>bs_backend = to_lower (trim_space (vp_string v ''auth.blacklist.backend'')),
                                     bs_path = vp_string v ''auth.blacklist.bolt_path'', bs_cleanup = bl_cleanup\<rparr>\<rparr>,
          cf_rate = read_rate v,
          cf_jwt = \<lparr>js_secret = vp_string v ''jwt.secret'', js_access = access, js_refresh = refresh\<rparr>,
          cf_jobs = \<lparr>jb_ttl = ttl, jb_interval = interval\<rparr>,
          cf_tracing = read_tracing v,
          cf_compose = read_compose v build health stack,
          cf_metrics = \<lparr>mt_enabled = vp_bool v ''metrics.enabled'', mt_address = vp_string v ''metrics.address''\<rparr>,
          cf_webhook_secret = vp_string v ''webhook.signing_secret''\<rparr>
       in (case validate_config q cfg of
             Some e \<Rightarrow> Inl (Wrap ''invalid configuration: '' e [])
           | None \<Rightarrow> Inr cfg))))))))))"

text \<open>\<^verbatim>\<open>Load\<close>: a missing file is no error; \<open>read\<close> is the outcome of \<^verbatim>\<open>ReadInConfig\<close>, \<open>None\<close> for a file that is not there.\<close>

definition load_config :: "(string \<Rightarrow> string) \<Rightarrow> (string \<Rightarrow> go_error) \<Rightarrow> unit result option \<Rightarrow> viper \<Rightarrow> config result" where
  "load_config q te read v =
     (case read of
        Some (Inl e) \<Rightarrow> Inl (Wrap ''failed to read config file: '' e [])
      | _ \<Rightarrow> parse_config q te v)"

definition load_config_from_file :: "(string \<Rightarrow> string) \<Rightarrow> (string \<Rightarrow> go_error) \<Rightarrow> string \<Rightarrow> unit result \<Rightarrow> viper \<Rightarrow> config result" where
  "load_config_from_file q te path read v =
     (case read of
        Inl e \<Rightarrow> Inl (Wrap (''failed to read config file '' @ path @ '': '') e [])
      | Inr _ \<Rightarrow> parse_config q te v)"

section \<open>What an accepted configuration promises\<close>

definition strong_secret :: "string \<Rightarrow> bool" where
  "strong_secret s \<longleftrightarrow> 32 \<le> length s \<and> to_lower (trim_space s) \<notin> set jwt_placeholder_secrets"

definition config_ok :: "config \<Rightarrow> bool" where
  "config_ok c \<longleftrightarrow>
     (rt_enabled (cf_rate c) \<longrightarrow> 0 < rt_rate (cf_rate c) \<and> 0 < rt_burst (cf_rate c)) \<and>
     (js_secret (cf_jwt c) \<noteq> [] \<longrightarrow> 0 < js_access (cf_jwt c) \<and> 0 < js_refresh (cf_jwt c)) \<and>
     (au_enabled (cf_auth c) \<longrightarrow> strong_secret (js_secret (cf_jwt c))) \<and>
     (let bl = au_blacklist (cf_auth c)
      in bs_backend bl \<in> {[], ''memory'', ''bolt''} \<and> (bs_backend bl = ''bolt'' \<longrightarrow> trim_space (bs_path bl) \<noteq> []) \<and> 0 < bs_cleanup bl) \<and>
     0 < jb_ttl (cf_jobs c) \<and> 0 < jb_interval (cf_jobs c) \<and>
     (as_cache_enabled (cf_agent c) \<longrightarrow> 0 < as_cache_ttl (cf_agent c)) \<and>
     (tr_enabled (cf_tracing c) \<longrightarrow> tr_endpoint (cf_tracing c) \<noteq> []) \<and>
     0 < cs_build_timeout (cf_compose c) \<and> 0 < cs_health_timeout (cf_compose c) \<and> 0 < cs_stack_ttl (cf_compose c)"

lemma validate_jwt_secret_None: "validate_jwt_secret s = None \<longleftrightarrow> strong_secret s"
  by (auto simp: validate_jwt_secret_def strong_secret_def min_jwt_secret_length_def)

lemma if_Some_None: "(if b then Some e else r) = None \<longleftrightarrow> \<not> b \<and> r = None"
  by simp

lemma validate_config_None: "validate_config q c = None \<longleftrightarrow> config_ok c"
proof -
  have j: "(case (if au_enabled (cf_auth c) then validate_jwt_secret (js_secret (cf_jwt c)) else None) of Some e \<Rightarrow> Some e | None \<Rightarrow> r) = None
      \<longleftrightarrow> (au_enabled (cf_auth c) \<longrightarrow> strong_secret (js_secret (cf_jwt c))) \<and> r = None" for r :: "go_error option"
    using validate_jwt_secret_None [of "js_secret (cf_jwt c)"] by (auto split: option.split)
  show ?thesis
    unfolding validate_config_def config_ok_def Let_def
    by (simp only: j if_Some_None not_le de_Morgan_conj not_not) blast
qed

lemma trim_space_idem: "trim_space (trim_space s) = trim_space s"
proof (rule trim_space_id)
  let ?t = "dropWhile is_space s"
  show "trim_space s = [] \<or> \<not> is_space (hd (trim_space s)) \<and> \<not> is_space (last (trim_space s))"
  proof (cases "trim_space s = []")
    case False
    let ?u = "dropWhile is_space (rev ?t)"
    have u: "?u \<noteq> []" "trim_space s = rev ?u" using False by (simp_all add: trim_space_def)
    then have "\<not> is_space (last (trim_space s))"
      using hd_dropWhile [of is_space "rev ?t"] by (simp add: last_rev dropWhile_eq_Nil_conv)
    moreover have "?t \<noteq> []" using u(1) by (metis dropWhile.simps(1) rev.simps(1))
    then have "\<not> is_space (hd ?t)" by (metis dropWhile_eq_Nil_conv hd_dropWhile)
    moreover have "\<exists>x. ?t = rev ?u @ x"
      by (metis rev_append rev_rev_ident takeWhile_dropWhile_id)
    then have "hd (rev ?u) = hd ?t" using u(1) by (metis hd_append2 rev_is_Nil_conv)
    ultimately show ?thesis using u(2) by simp
  qed simp
qed

lemma slice_trimmed: "x \<in> set (get_string_slice_or_split v k) \<Longrightarrow> trim_space x = x"
  by (auto simp: get_string_slice_or_split_def Let_def trim_space_idem split: if_splits)

lemma tokens_trimmed: "x \<in> set (get_valid_tokens v) \<Longrightarrow> trim_space x = x"
  by (auto simp: get_valid_tokens_def Let_def trim_space_idem split: if_splits)

lemma parse_config_duration_range: "parse_config_duration te s = Inr d \<Longrightarrow> d < 2 ^ 63"
  using parse_duration_range by (auto simp: parse_config_duration_def split: if_splits option.splits)

lemma with_duration_Inr:
  "with_duration te v what key k = Inr c \<longleftrightarrow> (\<exists>d. parse_config_duration te (vp_string v key) = Inr d \<and> k d = Inr c)"
  by (auto simp: with_duration_def split: sum.split)

definition durations :: "config \<Rightarrow> gtime list" where
  "durations c =
     [as_cache_ttl (cf_agent c), bs_cleanup (au_blacklist (cf_auth c)), js_access (cf_jwt c), js_refresh (cf_jwt c),
      jb_ttl (cf_jobs c), jb_interval (cf_jobs c), cs_build_timeout (cf_compose c), cs_health_timeout (cf_compose c),
      cs_stack_ttl (cf_compose c)]"

definition listed_texts :: "config \<Rightarrow> string list" where
  "listed_texts c = as_patterns (cf_agent c) @ as_volumes (cf_agent c) @ au_tokens (cf_auth c) @ rt_proxies (cf_rate c)"

lemma parse_config_Inr:
  assumes "parse_config q te v = Inr c"
  shows "config_ok c" and "listed_texts c = get_string_slice_or_split v ''agent.allowed_image_patterns'' @
      get_string_slice_or_split v ''agent.allowed_volumes'' @ get_valid_tokens v @ get_string_slice_or_split v ''rate_limit.trusted_proxies''"
    and "d \<in> set (durations c) \<Longrightarrow> d < 2 ^ 63" and "rt_period (cf_rate c) = second"
    and "as_sessions_host_dir (cf_agent c) = [] \<Longrightarrow> as_sessions_dir (cf_agent c) = []"
    and "as_volumes (cf_agent c) = get_string_slice_or_split v ''agent.allowed_volumes''"
  using assms
  by (auto simp: parse_config_def with_duration_Inr Let_def validate_config_None listed_texts_def read_agent_def read_rate_def
      durations_def read_compose_def get_sessions_host_dir_def dest!: parse_config_duration_range
      split: option.splits if_splits)

text \<open>C33: A configuration that is loaded is well formed, whatever the environment and the files hold: with authentication there is
  a signing secret of at least 32 bytes that is no placeholder; every interval a ticker is made of is positive and fits in
  64 bits; the blacklist is one of the two that exist, with a path when it needs one; rate limits are positive per
  second; the lists hold no surrounding space; and a configuration that is well formed is never refused by the checks.
\<close>

theorem loaded_config_well_formed:
  assumes "load_config q te file v = Inr c"
  shows "config_ok c \<and> validate_config q c = None \<and> (\<forall>d \<in> set (durations c). d < 2 ^ 63) \<and>
    0 < bs_cleanup (au_blacklist (cf_auth c)) \<and> 0 < jb_interval (cf_jobs c) \<and>
    (\<forall>x \<in> set (listed_texts c). trim_space x = x) \<and> rt_period (cf_rate c) = second \<and>
    (as_sessions_host_dir (cf_agent c) = [] \<longrightarrow> as_sessions_dir (cf_agent c) = []) \<and>
    (\<forall>c'. config_ok c' \<longleftrightarrow> validate_config q c' = None)"
proof -
  have p: "parse_config q te v = Inr c"
    using assms by (auto simp: load_config_def split: option.splits sum.splits)
  have "trim_space x = x" if "x \<in> set (listed_texts c)" for x
    using that slice_trimmed tokens_trimmed unfolding parse_config_Inr(2) [OF p] by auto
  moreover have "0 < bs_cleanup (au_blacklist (cf_auth c))" "0 < jb_interval (cf_jobs c)"
    using parse_config_Inr(1) [OF p] by (simp_all add: config_ok_def Let_def)
  ultimately show ?thesis
    using parse_config_Inr [OF p] validate_config_None by blast
qed

section \<open>The defaults\<close>

fun reads :: "viper \<Rightarrow> string \<Rightarrow> viper_value \<Rightarrow> bool" where
  "reads v k (VString s) \<longleftrightarrow> vp_string v k = s"
| "reads v k (VBool b) \<longleftrightarrow> vp_bool v k = b"
| "reads v k (VInt i) \<longleftrightarrow> vp_int v k = i"
| "reads v k (VList xs) \<longleftrightarrow> vp_slice v k = xs"

definition unset_but :: "viper \<Rightarrow> string list \<Rightarrow> bool" where
  "unset_but v ks \<longleftrightarrow> list_all (\<lambda>(k, d). k \<in> set ks \<or> reads v k d) config_defaults"

definition default_config :: "string \<Rightarrow> config" where
  "default_config secret =
     \<lparr>cf_address = '':8080'',
      cf_agent =
        \<lparr>as_image = ''stromboli-agent'', as_tag = ''latest'', as_patterns = [], as_volumes = [], as_allow_all = False,
         as_workdir_auto = True, as_volume_auto = True, as_mount_cli = False,
         as_cli_image = ''ghcr.io/tomblancdev/stromboli-agent'', as_cli_tag = ''latest'', as_auto_pull = True,
         as_credentials = ''~/.claude/.credentials.json'', as_sessions_dir = ''.stromboli/sessions'',
         as_sessions_host_dir = ''.stromboli/sessions'', as_cache_enabled = True, as_cache_ttl = 5 * minute\<rparr>,
      cf_resources = \<lparr>rs_memory = ''512m'', rs_cpus = ''1'', rs_timeout = ''30m''\<rparr>,
      cf_auth =
        \<lparr>au_enabled = True, au_tokens = [],
         au_blacklist = \<lparr>bs_backend = ''memory'', bs_path = ''.stromboli/blacklist.db'', bs_cleanup = hour\<rparr>\<rparr>,
      cf_rate = \<lparr>rt_enabled = False, rt_rate = 10, rt_burst = 20, rt_period = second, rt_proxies = []\<rparr>,
      cf_jwt = \<lparr>js_secret = secret, js_access = 24 * hour, js_refresh = 7 * 24 * hour\<rparr>,
      cf_jobs = \<lparr>jb_ttl = hour, jb_interval = 5 * minute\<rparr>,
      cf_tracing = \<lparr>tr_enabled = False, tr_service = ''stromboli'', tr_endpoint = ''localhost:4317'', tr_insecure = False\<rparr>,
      cf_compose =
        \<lparr>cs_allow_privileged = False, cs_allow_host_network = False, cs_allow_host_volumes = False,
         cs_build_timeout = 10 * minute, cs_health_timeout = 2 * minute, cs_stack_ttl = hour\<rparr>,
      cf_metrics = \<lparr>mt_enabled = True, mt_address = ''127.0.0.1:9090''\<rparr>,
      cf_webhook_secret = []\<rparr>"

lemma parse_default_durations:
  "parse_duration (show_duration (5 * minute)) = Some (5 * minute)" "parse_duration (show_duration hour) = Some hour"
  "parse_duration (show_duration (1 * hour)) = Some hour" "parse_duration (show_duration (10 * minute)) = Some (10 * minute)"
  "parse_duration (show_duration (2 * minute)) = Some (2 * minute)" "parse_duration (show_duration (24 * hour)) = Some (24 * hour)"
  "parse_duration (show_duration (7 * 24 * hour)) = Some (7 * 24 * hour)"
  using parse_show_duration [of 300] parse_show_duration [of 3600] parse_show_duration [of 600] parse_show_duration [of 120]
    parse_show_duration [of 86400] parse_show_duration [of 604800]
  by (simp_all add: time_units bound63_def)

lemma show_duration_not_Nil [simp]: "show_duration d \<noteq> []"
  by (simp add: show_duration_def Let_def)

lemma with_default_duration:
  "vp_string v key = show_duration d \<Longrightarrow> parse_duration (show_duration d) = Some d' \<Longrightarrow> with_duration te v what key k = k d'"
  by (simp add: with_duration_def parse_config_duration_def)

lemma default_slices:
  "vp_slice v k = [] \<Longrightarrow> get_string_slice_or_split v k = []" "vp_slice v ''auth.valid_tokens'' = [] \<Longrightarrow> get_valid_tokens v = []"
  by (simp_all add: get_string_slice_or_split_def get_valid_tokens_def)

lemma memory_backend: "to_lower (trim_space ''memory'') = ''memory''"
  by code_simp

lemma default_config_ok: "config_ok (default_config secret) \<longleftrightarrow> strong_secret secret"
  by (simp add: config_ok_def default_config_def time_units)

lemma default_config_refused:
  "\<not> strong_secret secret \<Longrightarrow> validate_config q (default_config secret) = validate_jwt_secret secret"
  using validate_jwt_secret_None [of secret]
  by (auto simp: validate_config_def default_config_def time_units Let_def split: option.split)

text \<open>The configuration when only the signing secret and the directories that may be mounted are set.\<close>

definition set_volumes :: "string list \<Rightarrow> config \<Rightarrow> config" where
  "set_volumes ds c = c\<lparr>cf_agent := (cf_agent c)\<lparr>as_volumes := ds\<rparr>\<rparr>"

lemma parse_default_but_volumes:
  assumes "unset_but v [''jwt.secret'', ''agent.allowed_volumes'']"
    and "c = set_volumes (get_string_slice_or_split v ''agent.allowed_volumes'') (default_config (vp_string v ''jwt.secret''))"
  shows "parse_config q te v =
    (case validate_config q c of Some e \<Rightarrow> Inl (Wrap ''invalid configuration: '' e []) | None \<Rightarrow> Inr c)"
proof -
  note r = assms(1) [unfolded unset_but_def config_defaults_def, simplified]
  have d: "vp_string v ''agent.token_cache.ttl'' = show_duration (5 * minute)"
    "vp_string v ''auth.blacklist.cleanup_interval'' = show_duration hour"
    "vp_string v ''jwt.access_expiry'' = show_duration (24 * hour)"
    "vp_string v ''jwt.refresh_expiry'' = show_duration (7 * 24 * hour)"
    "vp_string v ''jobs.cleanup_ttl'' = show_duration hour"
    "vp_string v ''jobs.cleanup_interval'' = show_duration (5 * minute)"
    "vp_string v ''compose.build_timeout'' = show_duration (10 * minute)"
    "vp_string v ''compose.health_timeout'' = show_duration (2 * minute)"
    "vp_string v ''compose.stack_ttl'' = show_duration hour"
    using r by simp_all
  note p = d [THEN with_default_duration] parse_default_durations
  have a: "read_agent v (5 * minute) = cf_agent c"
    using r by (simp add: assms(2) set_volumes_def read_agent_def default_config_def default_slices get_sessions_host_dir_def)
  have t: "read_rate v = cf_rate (default_config s)" "read_tracing v = cf_tracing (default_config s)"
    "read_compose v (10 * minute) (2 * minute) hour = cf_compose (default_config s)" for s
    using r by (simp_all add: read_rate_def read_tracing_def read_compose_def default_config_def default_slices)
  have tok: "get_valid_tokens v = []"
    using r by (simp add: default_slices)
  have "parse_config q te v =
    (let cfg = c in case validate_config q cfg of Some e \<Rightarrow> Inl (Wrap ''invalid configuration: '' e []) | None \<Rightarrow> Inr cfg)"
    unfolding parse_config_def p(1) [OF p(10)]
    unfolding p(2) [OF p(11)] p(3) [OF p(15)] p(4) [OF p(16)] p(5) [OF p(11)] p(6) [OF p(10)] p(7) [OF p(13)] p(8) [OF p(14)]
      p(9) [OF p(11)] a t [of "vp_string v ''jwt.secret''"] tok
    using r by (simp add: default_config_def set_volumes_def assms(2) memory_backend)
  then show ?thesis by (simp add: Let_def)
qed

lemma parse_default:
  assumes "unset_but v [''jwt.secret'']"
  shows "parse_config q te v =
    (case validate_config q (default_config (vp_string v ''jwt.secret'')) of
       Some e \<Rightarrow> Inl (Wrap ''invalid configuration: '' e [])
     | None \<Rightarrow> Inr (default_config (vp_string v ''jwt.secret'')))"
proof -
  have "vp_slice v ''agent.allowed_volumes'' = []"
    using assms by (simp add: unset_but_def config_defaults_def)
  then have c: "set_volumes (get_string_slice_or_split v ''agent.allowed_volumes'') (default_config s) = default_config s" for s
    by (simp add: set_volumes_def default_config_def default_slices)
  have "unset_but v [''jwt.secret'', ''agent.allowed_volumes'']"
    using assms by (auto simp: unset_but_def list_all_iff)
  from parse_default_but_volumes [OF this refl] show ?thesis by (simp only: c)
qed

text \<open>Out of the box the server is closed: without any setting it refuses to start for want of a signing secret, and so it does
  with a short one or a placeholder. With a proper secret and nothing else, authentication is on with no static token, host
  directories cannot be mounted, compose files get none of the dangerous permissions, and metrics stay on the local
  interface; the durations are those the constants name.
\<close>

lemma default_config_closed:
  assumes "unset_but v [''jwt.secret'']" and "s = vp_string v ''jwt.secret''"
  shows "load_config q te None v =
      (if strong_secret s then Inr (default_config s) else Inl (Wrap ''invalid configuration: '' (the (validate_jwt_secret s)) [])) \<and>
    (s = [] \<longrightarrow> load_config q te None v = Inl (Wrap ''invalid configuration: ''
       (Msg (''auth is enabled but STROMBOLI_JWT_SECRET is empty'' @ dash_how_to_fix)) []))"
proof -
  have "load_config q te None v =
      (if strong_secret s then Inr (default_config s) else Inl (Wrap ''invalid configuration: '' (the (validate_jwt_secret s)) []))"
    using parse_default [OF assms(1), of q te] default_config_refused [of s q] validate_jwt_secret_None [of s]
      validate_config_None [of q "default_config s"] default_config_ok [of s]
    by (auto simp: load_config_def assms(2) split: option.split)
  then show ?thesis by (simp add: strong_secret_def validate_jwt_secret_def)
qed

section \<open>Keys and lists\<close>

text \<open>Every key has one default and one environment variable of its own.\<close>

lemma config_keys:
  "distinct (map fst config_defaults) \<and> set (map fst env_bindings) = set (map fst config_defaults) \<and>
   distinct (map fst env_bindings) \<and> distinct (map snd env_bindings)"
proof (intro conjI)
  have "map fst env_bindings = map fst config_defaults"
    by (simp add: config_defaults_def env_bindings_def)
  then show "set (map fst env_bindings) = set (map fst config_defaults)" by simp
qed (simp_all add: config_defaults_def env_bindings_def)

text \<open>A comma at the end of a list leaves an empty entry, and blanks after the commas keep the list from being split.\<close>

lemma list_gaps:
  "vp_slice v k = [''/data,''] \<Longrightarrow> get_string_slice_or_split v k = [''/data'', []]"
  "vp_slice v k = [''/data,'', ''/srv''] \<Longrightarrow> get_string_slice_or_split v k = [''/data,'', ''/srv'']"
proof -
  have "str_contains ''/data,'' '',''" "split_on (CHR '','') ''/data,'' = [''/data'', []]" "trim_space ''/data'' = ''/data''"
    "trim_space [] = []" "trim_space ''/data,'' = ''/data,''" "trim_space ''/srv'' = ''/srv''"
    by code_simp+
  then show "vp_slice v k = [''/data,''] \<Longrightarrow> get_string_slice_or_split v k = [''/data'', []]"
    "vp_slice v k = [''/data,'', ''/srv''] \<Longrightarrow> get_string_slice_or_split v k = [''/data,'', ''/srv'']"
    by (simp_all add: get_string_slice_or_split_def Let_def)
qed

section \<open>Instances\<close>

definition value_of :: "string \<Rightarrow> string \<Rightarrow> viper_value" where
  "value_of secret k =
     (if k = ''jwt.secret'' then VString secret
      else (case map_of config_defaults k of None \<Rightarrow> VString [] | Some d \<Rightarrow> d))"

definition default_viper :: "string \<Rightarrow> viper" where
  "default_viper secret =
     \<lparr>vp_string = (\<lambda>k. case value_of secret k of VString s \<Rightarrow> s | _ \<Rightarrow> []),
      vp_bool = (\<lambda>k. case value_of secret k of VBool b \<Rightarrow> b | _ \<Rightarrow> False),
      vp_int = (\<lambda>k. case value_of secret k of VInt i \<Rightarrow> i | _ \<Rightarrow> 0),
      vp_slice = (\<lambda>k. case value_of secret k of VList xs \<Rightarrow> xs | _ \<Rightarrow> [])\<rparr>"

lemma default_viper_unset: "unset_but (default_viper secret) [''jwt.secret'']"
proof -
  have "list_all (\<lambda>(k, d). map_of config_defaults k = Some d) config_defaults"
    using conjunct1 [OF config_keys] by (auto simp: list_all_iff)
  then have "list_all (\<lambda>(k, d). k \<noteq> ''jwt.secret'' \<longrightarrow> value_of secret k = d) config_defaults"
    by (auto simp: list_all_iff value_of_def)
  moreover have "value_of secret k = d \<Longrightarrow> reads (default_viper secret) k d" for k d
    by (cases d) (simp_all add: default_viper_def)
  ultimately show ?thesis
    unfolding unset_but_def list_all_iff by fastforce
qed

definition sample_secret :: string where
  "sample_secret = replicate 33 (CHR ''k'')"

lemma sample_secret_strong: "strong_secret sample_secret"
  by code_simp

lemma default_config_closed_witness:
  "load_config (\<lambda>x. x) Msg None (default_viper sample_secret) = Inr (default_config sample_secret) \<and>
   (\<exists>e. load_config (\<lambda>x. x) Msg None (default_viper ''changeme'') = Inl e)"
proof -
  have s: "vp_string (default_viper x) ''jwt.secret'' = x" for x by (simp add: default_viper_def value_of_def)
  have w: "\<not> strong_secret ''changeme''" by code_simp
  show ?thesis
    using default_config_closed [OF default_viper_unset s [of sample_secret, symmetric], of "\<lambda>x. x" Msg] sample_secret_strong
      default_config_closed [OF default_viper_unset s [of "''changeme''", symmetric], of "\<lambda>x. x" Msg] w
    by auto
qed

theorem loaded_config_well_formed_witness: "config_ok (default_config sample_secret)"
proof -
  have s: "vp_string (default_viper sample_secret) ''jwt.secret'' = sample_secret" by (simp add: default_viper_def value_of_def)
  have "load_config (\<lambda>x. x) Msg None (default_viper sample_secret) = Inr (default_config sample_secret)"
    using parse_default [OF default_viper_unset, of "\<lambda>x. x" Msg sample_secret] validate_config_None default_config_ok
      sample_secret_strong by (auto simp: load_config_def s split: option.split)
  from loaded_config_well_formed [OF this] show ?thesis by blast
qed

end
