(* ===== verification/Observability.thy ===== *)
theory Observability
  imports Config
begin

text \<open>
  What the server tells about itself: the counters of \<^verbatim>\<open>internal/metrics/metrics.go\<close> with the request log of
  \<^verbatim>\<open>internal/api/middleware.go\<close>, the set-up of tracing and the attributes of a span (\<^verbatim>\<open>internal/tracing/tracing.go\<close>), and the
  version text (\<^verbatim>\<open>internal/version/version.go\<close>). The exporter and the merge of resources are arguments.
\<close>

section \<open>Metrics\<close>

text \<open>A vector of counters or histograms has one series for each combination of label values that was used.\<close>

record request_metrics =
  rm_requests :: "(string \<times> string \<times> string) \<rightharpoonup> nat"
  rm_durations :: "(string \<times> string) \<rightharpoonup> rat list"
  rm_active :: int

definition no_metrics :: request_metrics where
  "no_metrics = \<lparr>rm_requests = Map.empty, rm_durations = Map.empty, rm_active = 0\<rparr>"

definition record_request :: "string \<Rightarrow> string \<Rightarrow> int \<Rightarrow> request_metrics \<Rightarrow> request_metrics" where
  "record_request meth path status m =
     (let k = (meth, path, show_int status)
      in m\<lparr>rm_requests := (rm_requests m)(k \<mapsto> (case rm_requests m k of None \<Rightarrow> 0 | Some n \<Rightarrow> n) + 1)\<rparr>)"

definition record_duration :: "string \<Rightarrow> string \<Rightarrow> rat \<Rightarrow> request_metrics \<Rightarrow> request_metrics" where
  "record_duration meth path d m =
     m\<lparr>rm_durations := (rm_durations m)((meth, path) \<mapsto> (case rm_durations m (meth, path) of None \<Rightarrow> [] | Some ds \<Rightarrow> ds) @ [d])\<rparr>"

definition set_active_containers :: "int \<Rightarrow> request_metrics \<Rightarrow> request_metrics" where
  "set_active_containers n m = m\<lparr>rm_active := n\<rparr>"

definition inc_active_containers :: "request_metrics \<Rightarrow> request_metrics" where
  "inc_active_containers m = m\<lparr>rm_active := rm_active m + 1\<rparr>"

definition dec_active_containers :: "request_metrics \<Rightarrow> request_metrics" where
  "dec_active_containers m = m\<lparr>rm_active := rm_active m - 1\<rparr>"

record served =
  sd_method :: string
  sd_path :: string
  sd_status :: int
  sd_took :: gtime

record logged =
  lg_request_id :: string
  lg_served :: served
  lg_millis :: int
  lg_client :: string

text \<open>The middleware runs after the handlers of every request, routed or not.\<close>

definition log_request :: "string \<Rightarrow> string \<Rightarrow> served \<Rightarrow> request_metrics \<Rightarrow> logged \<times> request_metrics" where
  "log_request rid client r m =
     (\<lparr>lg_request_id = rid, lg_served = r, lg_millis = sgn (sd_took r) * (\<bar>sd_took r\<bar> div 1000000), lg_client = client\<rparr>,
      record_duration (sd_method r) (sd_path r) (of_int (sd_took r) / of_int second)
        (record_request (sd_method r) (sd_path r) (sd_status r) m))"

definition series :: "served \<Rightarrow> string \<times> string \<times> string" where
  "series r = (sd_method r, sd_path r, show_int (sd_status r))"

definition observed :: "served list \<Rightarrow> request_metrics \<Rightarrow> request_metrics" where
  "observed rs m = fold (\<lambda>r m. snd (log_request [] [] r m)) rs m"

lemma log_request_fields [simp]:
  "rm_requests (snd (log_request rid client r m)) =
     (rm_requests m)(series r \<mapsto> (case rm_requests m (series r) of None \<Rightarrow> 0 | Some n \<Rightarrow> n) + 1)"
  "rm_active (snd (log_request rid client r m)) = rm_active m"
  by (simp_all add: log_request_def record_duration_def record_request_def series_def Let_def)

text \<open>
  A counter holds the number of requests with its labels, and there is a series for every combination that was ever asked
  for. The path is the client's own text: requests without any right, even for routes that do not exist, each leave a series.
\<close>

lemma counters_exact:
  "rm_requests (observed rs no_metrics) k = (if k \<in> set (map series rs) then Some (count_list (map series rs) k) else None)"
proof -
  have "rm_requests (observed rs m) k =
      (if k \<in> set (map series rs)
       then Some ((case rm_requests m k of None \<Rightarrow> 0 | Some n \<Rightarrow> n) + count_list (map series rs) k) else rm_requests m k)" for m
    unfolding observed_def by (induction rs arbitrary: m) auto
  from this [of no_metrics] show ?thesis by (simp add: no_metrics_def)
qed

lemma series_of_paths:
  assumes "distinct (map sd_path rs)"
  shows "card (dom (rm_requests (observed rs no_metrics))) = length rs"
proof -
  have "dom (rm_requests (observed rs no_metrics)) = set (map series rs)"
    by (auto simp: counters_exact dom_def split: if_splits)
  moreover have "distinct (map series rs)"
    using assms by (induction rs) (auto simp: series_def)
  ultimately show ?thesis using distinct_card by fastforce
qed

section \<open>Tracing\<close>

datatype tracer_provider = NoopProvider | OtlpProvider string string bool

text \<open>The service, the endpoint and whether the connection is without TLS.\<close>

definition init_tracing ::
    "tracing_settings \<Rightarrow> (string \<Rightarrow> bool \<Rightarrow> unit result) \<Rightarrow> (string \<Rightarrow> unit result) \<Rightarrow> tracer_provider result" where
  "init_tracing cfg exporter merge =
     (if \<not> tr_enabled cfg then Inr NoopProvider
      else
        (let service = (if tr_service cfg = [] then ''stromboli'' else tr_service cfg)
         in case exporter (tr_endpoint cfg) (tr_insecure cfg) of
              Inl e \<Rightarrow> Inl (Wrap ''failed to create OTLP exporter: '' e [])
            | Inr _ \<Rightarrow>
                (case merge service of
                   Inl e \<Rightarrow> Inl (Wrap ''failed to create resource: '' e [])
                 | Inr _ \<Rightarrow> Inr (OtlpProvider service (tr_endpoint cfg) (tr_insecure cfg)))))"

text \<open>A value of any type; those without a case of their own are printed.\<close>

datatype any_value = AnyString string | AnyInt int | AnyInt64 int | AnyFloat rat | AnyBool bool | AnyOther string

datatype attribute = StringAttr string | IntAttr int | Int64Attr int | Float64Attr rat | BoolAttr bool

definition attribute_from_value :: "string \<Rightarrow> any_value \<Rightarrow> string \<times> attribute" where
  "attribute_from_value key v =
     (key,
      case v of
        AnyString s \<Rightarrow> StringAttr s
      | AnyInt i \<Rightarrow> IntAttr i
      | AnyInt64 i \<Rightarrow> Int64Attr i
      | AnyFloat x \<Rightarrow> Float64Attr x
      | AnyBool b \<Rightarrow> BoolAttr b
      | AnyOther t \<Rightarrow> StringAttr t)"

fun attributes_of :: "any_value list \<Rightarrow> (string \<times> attribute) list" where
  "attributes_of (AnyString key # v # kvs) = attribute_from_value key v # attributes_of kvs"
| "attributes_of (_ # v # kvs) = attributes_of kvs"
| "attributes_of kvs = []"

definition add_span_attributes :: "bool \<Rightarrow> any_value list \<Rightarrow> (string \<times> attribute) list \<Rightarrow> (string \<times> attribute) list" where
  "add_span_attributes recording kvs attrs = (if \<not> recording then attrs else attrs @ attributes_of kvs)"

lemma attributes_of_pairs:
  "attributes_of (concat (map (\<lambda>(k, v). [AnyString k, v]) ps)) = map (\<lambda>(k, v). attribute_from_value k v) ps"
  by (induction ps) auto

lemma init_tracing_off: "\<not> tr_enabled cfg \<Longrightarrow> init_tracing cfg exporter merge = Inr NoopProvider"
  by (simp add: init_tracing_def)

section \<open>Version\<close>

definition version_string :: "string \<Rightarrow> string \<Rightarrow> string" where
  "version_string version commit =
     (if commit = ''unknown'' \<or> commit = [] then version else version @ '' ('' @ take 7 commit @ '')'')"

end
