(* ===== verification/Agent_Argv.thy ===== *)
theory Agent_Argv
  imports Agents Claude_Args File_System Podman_Cli
begin

text \<open>
  The command of a persistent agent, \<^verbatim>\<open>buildAgentArgv\<close> of \<^verbatim>\<open>cmd/stromboli/main.go\<close>: its session directory, the podman
  options and the Claude options, and what podman and Claude read from it.
\<close>

definition agent_options :: "claude_options create_request \<Rightarrow> claude_options" where
  "agent_options req = (case cr_claude req of None \<Rightarrow> no_options | Some opts \<Rightarrow> opts)"

definition agent_podman_args ::
    "nat \<Rightarrow> nat \<Rightarrow> string \<Rightarrow> string \<Rightarrow> string \<Rightarrow> claude_options create_request \<Rightarrow> string \<Rightarrow> string list" where
  "agent_podman_args uid gid img credentials session_dir req aid =
     [''podman'', ''run'', ''--rm'', ''--interactive'', ''--name'', ''stromboli-'' @ aid, ''--userns=keep-id'',
      ''--user'', show_nat uid @ '':'' @ show_nat gid, ''-e'', ''HOME=/home/user'',
      ''-v'', credentials @ '':/home/user/.claude/.credentials.json:ro'', ''-v'', session_dir @ '':/home/user''] @
     env_vars (agent_options req) @
     (if cr_workdir req \<noteq> [] then [''-w'', cr_workdir req] else []) @ [img]"

definition agent_claude_builder :: "claude_options \<Rightarrow> string \<Rightarrow> claude_builder" where
  "agent_claude_builder opts sid =
     cl_with_output_format ''stream-json'' (cl_with_input_format ''stream-json''
       (apply_options opts
         (cl_with_verbose (cl_with_include_partial (cl_with_output_format ''stream-json'' (cl_with_input_format ''stream-json''
           (cl_with_session_id sid new_claude_builder)))))))"

text \<open>The mode of the directory is 0700.\<close>

definition build_agent_argv ::
    "sys \<Rightarrow> (string \<Rightarrow> string) \<Rightarrow> nat \<Rightarrow> nat \<Rightarrow> string \<Rightarrow> string \<Rightarrow> string \<Rightarrow> claude_options create_request \<Rightarrow> string \<Rightarrow> string \<Rightarrow>
     fsys \<Rightarrow> string list result \<times> fsys" where
  "build_agent_argv sy q uid gid img credentials sessions_dir req aid sid m =
     (let session_dir = path_join [sessions_dir, sid]
      in case mkdir_all sy 448 (locate sy session_dir) m of
           (Some e, m') \<Rightarrow> (Inl (Wrap (''create session dir '' @ q session_dir @ '': '') e []), m')
         | (None, m') \<Rightarrow>
             (Inr (agent_podman_args uid gid img credentials session_dir req aid @ [''claude''] @
                   claude_build (agent_claude_builder (agent_options req) sid)), m'))"

section \<open>The Claude options of an agent\<close>

text \<open>The options an agent runs with: the request's, but the two formats, partial messages and verbosity are its own.\<close>

definition pinned :: "claude_options \<Rightarrow> claude_options" where
  "pinned opts = opts\<lparr>co_resume := False, co_input_format := ''stream-json'', co_output_format := ''stream-json'',
     co_include_partial := True, co_verbose := True\<rparr>"

lemma given_pinned:
  "given c (cl_with_input_format v) b = b\<lparr>cl_input_format := if c then v else cl_input_format b\<rparr>"
  "given c (cl_with_output_format v) b = b\<lparr>cl_output_format := if c then v else cl_output_format b\<rparr>"
  "given c cl_with_include_partial b = b\<lparr>cl_include_partial := c \<or> cl_include_partial b\<rparr>"
  "given c cl_with_verbose b = b\<lparr>cl_verbose := c \<or> cl_verbose b\<rparr>"
  by (simp_all add: given_def cl_with_defs)

lemma agent_builder_start:
  "cl_with_verbose (cl_with_include_partial (cl_with_output_format f (cl_with_input_format f (cl_with_session_id sid new_claude_builder)))) =
   new_claude_builder\<lparr>cl_session_id := sid, cl_input_format := f, cl_output_format := f, cl_include_partial := True, cl_verbose := True\<rparr>"
  by (simp add: cl_with_defs new_claude_builder_def)

lemma agent_builder_pinned: "agent_claude_builder opts sid = claude_request [] sid (pinned opts)"
proof -
  have "apply_options opts (new_claude_builder\<lparr>cl_session_id := sid, cl_input_format := f, cl_output_format := f,
      cl_include_partial := True, cl_verbose := True\<rparr>) =
    \<lparr>cl_prompt = [], cl_session_id = sid, cl_resume = False,
      cl_continue_session = co_continue_session opts, cl_fork_session = co_fork_session opts, cl_no_persistence = co_no_persistence opts,
      cl_model = co_model opts, cl_fallback_model = co_fallback_model opts, cl_effort = co_effort opts,
      cl_system_prompt = co_system_prompt opts, cl_append_system_prompt = co_append_system_prompt opts, cl_tools = co_tools opts,
      cl_allowed_tools = co_allowed_tools opts, cl_disallowed_tools = co_disallowed_tools opts, cl_permission_mode = co_permission_mode opts,
      cl_skip_permissions = co_skip_permissions opts, cl_allow_skip_permissions = co_allow_skip_permissions opts,
      cl_input_format = (if co_input_format opts \<noteq> [] then co_input_format opts else f),
      cl_output_format = (if co_output_format opts \<noteq> [] then co_output_format opts else f),
      cl_include_partial = True, cl_replay_user = co_replay_user opts,
      cl_json_schema = co_json_schema opts, cl_max_budget = co_max_budget opts, cl_max_turns = co_max_turns opts,
      cl_mcp_configs = co_mcp_configs opts, cl_strict_mcp = co_strict_mcp opts, cl_agent = co_agent opts,
      cl_agents_json = co_agents opts, cl_add_dirs = co_add_dirs opts, cl_plugin_dirs = co_plugin_dirs opts,
      cl_settings = co_settings opts, cl_setting_sources = co_setting_sources opts, cl_files = co_files opts,
      cl_betas = co_betas opts, cl_verbose = True, cl_debug = co_debug opts,
      cl_disable_slash = co_disable_slash opts\<rparr>" for f
    unfolding apply_options_def apply_group_defs comp_apply new_claude_builder_def claude_builder.update_convs
    by (simp only: given_setters given_pinned claude_builder.select_convs claude_builder.update_convs not_False_eq_True simp_thms)
  then show ?thesis
    unfolding agent_claude_builder_def agent_builder_start claude_request_fields
    by (simp add: pinned_def cl_with_defs)
qed

section \<open>What podman reads\<close>

text \<open>The options of \<^verbatim>\<open>podman run\<close> up to the first operand, the image; the rest is the container's command.\<close>

fun read_container :: "(string \<Rightarrow> bool) \<Rightarrow> string list \<Rightarrow> ((string \<times> string option) list \<times> string list) option" where
  "read_container takes [] = Some ([], [])"
| "read_container takes [w] = (if \<not> has_prefix w ''-'' then Some ([], [w]) else if takes w then None else Some ([(w, None)], []))"
| "read_container takes (w # v # ws) =
     (if \<not> has_prefix w ''-'' then Some ([], w # v # ws)
      else if takes w then map_option (\<lambda>(fs, r). ((w, Some v) # fs, r)) (read_container takes ws)
      else map_option (\<lambda>(fs, r). ((w, None) # fs, r)) (read_container takes (v # ws)))"

definition run_takes :: "string \<Rightarrow> bool" where
  "run_takes w \<longleftrightarrow> w \<in> {''--name'', ''--user'', ''-e'', ''-v'', ''-w''}"

lemma container_options [simp]:
  "read_container run_takes (''--name'' # v # ws) = map_option (\<lambda>(fs, r). ((''--name'', Some v) # fs, r)) (read_container run_takes ws)"
  "read_container run_takes (''--user'' # v # ws) = map_option (\<lambda>(fs, r). ((''--user'', Some v) # fs, r)) (read_container run_takes ws)"
  "read_container run_takes (''-e'' # v # ws) = map_option (\<lambda>(fs, r). ((''-e'', Some v) # fs, r)) (read_container run_takes ws)"
  "read_container run_takes (''-v'' # v # ws) = map_option (\<lambda>(fs, r). ((''-v'', Some v) # fs, r)) (read_container run_takes ws)"
  "read_container run_takes (''-w'' # v # ws) = map_option (\<lambda>(fs, r). ((''-w'', Some v) # fs, r)) (read_container run_takes ws)"
  by (simp_all add: run_takes_def)

lemma container_switches [simp]:
  "read_container run_takes (''--rm'' # ws) = map_option (\<lambda>(fs, r). ((''--rm'', None) # fs, r)) (read_container run_takes ws)"
  "read_container run_takes (''--interactive'' # ws) = map_option (\<lambda>(fs, r). ((''--interactive'', None) # fs, r)) (read_container run_takes ws)"
  "read_container run_takes (''--userns=keep-id'' # ws) =
     map_option (\<lambda>(fs, r). ((''--userns=keep-id'', None) # fs, r)) (read_container run_takes ws)"
  by (cases ws; simp add: run_takes_def)+

lemma container_operand: "\<not> has_prefix w ''-'' \<Longrightarrow> read_container takes (w # ws) = Some ([], w # ws)"
  by (cases ws) auto

declare read_container.simps(2,3) [simp del]

fun env_flags :: "string list \<Rightarrow> (string \<times> string option) list" where
  "env_flags (f # v # ws) = (f, Some v) # env_flags ws"
| "env_flags _ = []"

lemma read_env_vars:
  "read_container run_takes (env_vars opts @ ws) = map_option (\<lambda>(fs, r). (env_flags (env_vars opts) @ fs, r)) (read_container run_takes ws)"
  by (cases "read_container run_takes ws") (auto simp: env_vars_def)

text \<open>C34: The command of an agent is a container that podman reads as the code means it, whatever the request holds: removed at its
  end, with standard input, under the caller's own identifiers, with the credentials read-only and this session's directory
  as the only mounts, the working directory of the request, and the configured image. Inside runs \<^verbatim>\<open>claude\<close> with
  exactly the arguments that the same options give in a run, except that both formats are \<^verbatim>\<open>stream-json\<close> with partial
  messages and verbose, whatever the request asks. The session's directory then exists, and nothing else was changed.
\<close>

theorem agent_argv_exact:
  assumes "build_agent_argv sy q uid gid img credentials sessions_dir req aid sid m = (Inr argv, m')"
    and "\<not> has_prefix img ''-''"
  shows "read_container run_takes (drop 2 argv) = Some
      ([(''--rm'', None), (''--interactive'', None), (''--name'', Some (''stromboli-'' @ aid)), (''--userns=keep-id'', None),
        (''--user'', Some (show_nat uid @ '':'' @ show_nat gid)), (''-e'', Some ''HOME=/home/user''),
        (''-v'', Some (credentials @ '':/home/user/.claude/.credentials.json:ro'')),
        (''-v'', Some (path_join [sessions_dir, sid] @ '':/home/user''))] @
       env_flags (env_vars (agent_options req)) @ (if cr_workdir req \<noteq> [] then [(''-w'', Some (cr_workdir req))] else []),
       img # ''claude'' # claude_build (claude_request [] sid (pinned (agent_options req)))) \<and>
    take 2 argv = [''podman'', ''run''] \<and>
    (\<exists>d. m' (locate sy (path_join [sessions_dir, sid])) = Some (Dir d)) \<and>
    (\<forall>p. \<not> prefix p (locate sy (path_join [sessions_dir, sid])) \<or> m p \<noteq> None \<longrightarrow> m' p = m p)"
proof -
  let ?loc = "locate sy (path_join [sessions_dir, sid])"
  have mk: "mkdir_all sy 448 ?loc m = (None, m')"
    and argv: "argv = agent_podman_args uid gid img credentials (path_join [sessions_dir, sid]) req aid @ ''claude'' #
      claude_build (claude_request [] sid (pinned (agent_options req)))"
    using assms(1) by (auto simp: build_agent_argv_def Let_def agent_builder_pinned split: prod.splits option.splits)
  have "read_container run_takes ((if w \<noteq> [] then [''-w'', w] else []) @ img # rest) =
      Some (if w \<noteq> [] then [(''-w'', Some w)] else [], img # rest)" for w rest
    using assms(2) by (simp add: container_operand)
  then have "read_container run_takes (drop 2 argv) = Some
      ([(''--rm'', None), (''--interactive'', None), (''--name'', Some (''stromboli-'' @ aid)), (''--userns=keep-id'', None),
        (''--user'', Some (show_nat uid @ '':'' @ show_nat gid)), (''-e'', Some ''HOME=/home/user''),
        (''-v'', Some (credentials @ '':/home/user/.claude/.credentials.json:ro'')),
        (''-v'', Some (path_join [sessions_dir, sid] @ '':/home/user''))] @
       env_flags (env_vars (agent_options req)) @ (if cr_workdir req \<noteq> [] then [(''-w'', Some (cr_workdir req))] else []),
       img # ''claude'' # claude_build (claude_request [] sid (pinned (agent_options req))))"
    unfolding argv agent_podman_args_def by (simp add: read_env_vars)
  moreover have "take 2 argv = [''podman'', ''run'']" by (simp add: argv agent_podman_args_def)
  moreover have "\<exists>d. m' ?loc = Some (Dir d)" using mkdir_all_ok [of sy 448 ?loc m ?loc] mk by auto
  moreover have "\<forall>p. \<not> prefix p ?loc \<or> m p \<noteq> None \<longrightarrow> m' p = m p" using mkdir_all_frame [of _ ?loc m sy 448] mk by auto
  ultimately show ?thesis by blast
qed

definition quiet_sys :: sys where
  "quiet_sys = \<lparr>sy_cwd = ''/'', sy_fault = (\<lambda>_. None), sy_survives = (\<lambda>_. False)\<rparr>"

definition dashing_request :: "claude_options create_request" where
  "dashing_request =
     \<lparr>cr_prompt = ''hi'', cr_workdir = ''--privileged'', cr_idle_seconds = 0, cr_no_idle = False,
      cr_claude = Some (no_options\<lparr>co_output_format := ''text'', co_model := ''opus''\<rparr>)\<rparr>"

theorem agent_argv_exact_witness:
  "\<exists>argv m' fs. build_agent_argv quiet_sys (\<lambda>x. x) 5 6 ''agent'' ''/c'' ''/s'' dashing_request ''agent-1'' ''u'' [[] \<mapsto> Dir 0] = (Inr argv, m') \<and>
     read_container run_takes (drop 2 argv) =
       Some (fs @ [(''-w'', Some ''--privileged'')], ''agent'' # ''claude'' # claude_build (claude_request [] ''u'' (pinned (agent_options dashing_request))))"
proof -
  have "fst (mkdir_all quiet_sys 448 (locate quiet_sys (path_join [''/s'', ''u''])) [[] \<mapsto> Dir 0]) = None"
    by code_simp
  then obtain m' where m: "mkdir_all quiet_sys 448 (locate quiet_sys (path_join [''/s'', ''u''])) [[] \<mapsto> Dir 0] = (None, m')"
    by (metis prod.collapse)
  obtain argv where b: "build_agent_argv quiet_sys (\<lambda>x. x) 5 6 ''agent'' ''/c'' ''/s'' dashing_request ''agent-1'' ''u'' [[] \<mapsto> Dir 0] = (Inr argv, m')"
    unfolding build_agent_argv_def Let_def m prod.case option.case by blast
  have w: "cr_workdir dashing_request = ''--privileged''" by (simp add: dashing_request_def)
  have i: "\<not> has_prefix ''agent'' ''-''" by simp
  show ?thesis
    using b agent_argv_exact [OF b i] unfolding w by (simp only: if_True list.distinct simp_thms append_assoc [symmetric]) blast
qed

end
