(* ===== verification/Container_Cleanup.thy ===== *)
theory Container_Cleanup
  imports Go_Number
begin

text \<open>
  The clean-up of containers left behind, \<^verbatim>\<open>internal/runner/cleanup.go\<close>, and the image of the Claude CLI,
  \<^verbatim>\<open>internal/runner/cli_image.go\<close>. The output of \<^verbatim>\<open>podman ps\<close> and the outcomes of the other commands are arguments; each
  operation returns the commands it has executed.
\<close>

section \<open>Words of a line\<close>

text \<open>\<^verbatim>\<open>strings.Fields\<close>.\<close>

definition str_fields :: "string \<Rightarrow> string list" where
  "str_fields s = filter (\<lambda>w. w \<noteq> []) (split_on (CHR '' '') (map (\<lambda>c. if is_space c then CHR '' '' else c) s))"

lemma map_plain: "list_all (\<lambda>c. \<not> is_space c) w \<Longrightarrow> map (\<lambda>c. if is_space c then CHR '' '' else c) w = w"
  by (induction w) auto

lemma plain_no_space: "list_all (\<lambda>c. \<not> is_space c) w \<Longrightarrow> CHR '' '' \<notin> set w"
  by (auto simp: list_all_iff is_space_def)

lemma str_fields_plain:
  assumes "list_all (\<lambda>c. \<not> is_space c) w" and "w \<noteq> []"
  shows "str_fields w = [w]" and "str_fields (w @ CHR '' '' # s) = w # str_fields s"
proof -
  have "is_space (CHR '' '')" by (simp add: is_space_def)
  then show "str_fields w = [w]" "str_fields (w @ CHR '' '' # s) = w # str_fields s"
    using assms by (simp_all add: str_fields_def map_plain split_on_id plain_no_space split_on_append)
qed

section \<open>Stale and orphaned containers\<close>

text \<open>The durations are products of 64-bit integers.\<close>

definition age_duration :: "string \<Rightarrow> int \<Rightarrow> gtime option" where
  "age_duration unit n =
     (if has_prefix unit ''second'' then Some (wrap64 (n * second))
      else if has_prefix unit ''minute'' then Some (wrap64 (n * minute))
      else if has_prefix unit ''hour'' then Some (wrap64 (n * hour))
      else if has_prefix unit ''day'' then Some (wrap64 (n * 24 * hour))
      else if has_prefix unit ''week'' then Some (wrap64 (n * 7 * 24 * hour))
      else if has_prefix unit ''month'' then Some (wrap64 (n * 30 * 24 * hour))
      else None)"

definition is_older_than :: "string \<Rightarrow> gtime \<Rightarrow> bool" where
  "is_older_than running_for max_age =
     (case str_fields (to_lower running_for) of
        v # unit # _ \<Rightarrow>
          (case scan_int v of
             None \<Rightarrow> False
           | Some n \<Rightarrow> (case age_duration unit n of None \<Rightarrow> False | Some d \<Rightarrow> d > max_age))
      | _ \<Rightarrow> False)"

definition container_prefix :: string where
  "container_prefix = ''stromboli-agent-''"

definition list_orphans_command :: "string list" where
  "list_orphans_command =
     [''podman'', ''ps'', ''-a'', ''--filter'', ''name='' @ container_prefix, ''--format'', ''{{.Names}}'']"

definition list_running_command :: "string list" where
  "list_running_command =
     [''podman'', ''ps'', ''--filter'', ''name='' @ container_prefix, ''--format'', ''{{.Names}}'' @ [CHR 0x09] @ ''{{.RunningFor}}'']"

text \<open>The errors of stopping and removing are logged only.\<close>

definition cleanup_orphaned_containers ::
    "(wait_status \<Rightarrow> string) \<Rightarrow> string \<times> go_error option \<Rightarrow> go_error option \<times> string list list" where
  "cleanup_orphaned_containers ws ps =
     (case ps of
        (_, Some e) \<Rightarrow>
          ((if str_contains (err_text ws e) ''no such'' then None
            else Some (Wrap ''runner: list orphaned containers via podman ps: '' e [])), [list_orphans_command])
      | (out, None) \<Rightarrow>
          (let cs = split_on (CHR 0x0A) (trim_space out)
           in (None,
               list_orphans_command #
               (if cs = [[]] then []
                else concat (map (\<lambda>c. if c = [] then [] else [[''podman'', ''stop'', c], [''podman'', ''rm'', ''-f'', c]]) cs)))))"

definition stop_if_stale :: "gtime \<Rightarrow> string \<Rightarrow> string list list" where
  "stop_if_stale max_age line =
     (if line = [] then []
      else
        (case split_on (CHR 0x09) line of
           name # running # _ \<Rightarrow> if is_older_than running max_age then [[''podman'', ''stop'', name]] else []
         | _ \<Rightarrow> []))"

definition cleanup_stale_containers ::
    "gtime \<Rightarrow> string \<times> go_error option \<Rightarrow> go_error option \<times> string list list" where
  "cleanup_stale_containers max_age ps =
     (case ps of
        (_, Some e) \<Rightarrow> (Some (Wrap ''runner: list stale containers via podman ps: '' e []), [list_running_command])
      | (out, None) \<Rightarrow>
          (let ls = split_on (CHR 0x0A) (trim_space out)
           in (None, list_running_command # (if ls = [[]] then [] else concat (map (stop_if_stale max_age) ls)))))"

section \<open>The image of the CLI\<close>

record cli_image_config =
  cli_image :: string
  cli_tag :: string
  cli_auto_pull :: bool

definition cli_full_name :: "cli_image_config \<Rightarrow> string" where
  "cli_full_name c = (if cli_tag c = [] then cli_image c @ '':latest'' else cli_image c @ '':'' @ cli_tag c)"

definition cli_image_exists :: "(string list \<Rightarrow> string \<times> go_error option) \<Rightarrow> string \<Rightarrow> bool result \<times> string list list" where
  "cli_image_exists run img =
     (let cmd = [''podman'', ''image'', ''exists'', img]
      in case run cmd of
           (_, None) \<Rightarrow> (Inr True, [cmd])
         | (_, Some e) \<Rightarrow> (if err_assert_exit e = Some (Exited 1) then Inr False else Inl e, [cmd]))"

definition pull_cli_image :: "(string list \<Rightarrow> string \<times> go_error option) \<Rightarrow> string \<Rightarrow> go_error option \<times> string list list" where
  "pull_cli_image run img =
     (let cmd = [''podman'', ''pull'', img]
      in case run cmd of
           (_, None) \<Rightarrow> (None, [cmd])
         | (out, Some e) \<Rightarrow> (Some (Wrap [] e ('': '' @ trim_space out)), [cmd]))"

definition ensure_cli_image ::
    "(string list \<Rightarrow> string \<times> go_error option) \<Rightarrow> cli_image_config \<Rightarrow> go_error option \<times> string list list" where
  "ensure_cli_image run c =
     (let name = cli_full_name c
      in case cli_image_exists run name of
           (Inl e, cmds) \<Rightarrow> (Some (Wrap ''failed to check CLI image: '' e []), cmds)
         | (Inr True, cmds) \<Rightarrow> (None, cmds)
         | (Inr False, cmds) \<Rightarrow>
             (if \<not> cli_auto_pull c then (None, cmds)
              else
                (case pull_cli_image run name of
                   (Some e, cmds') \<Rightarrow> (Some (Wrap ''failed to pull CLI image: '' e []), cmds @ cmds')
                 | (None, cmds') \<Rightarrow> (None, cmds @ cmds'))))"

section \<open>Which containers are stopped\<close>

text \<open>The age texts that the check understands: a number and one of these units.\<close>

definition age_units :: "(string \<times> gtime) list" where
  "age_units = [(''second'', second), (''minute'', minute), (''hour'', hour), (''day'', 24 * hour), (''week'', 7 * 24 * hour),
     (''month'', 30 * 24 * hour)]"

definition age_text :: "nat \<Rightarrow> string \<Rightarrow> string" where
  "age_text n u = show_nat n @ '' '' @ u @ (if n = 1 then [] else ''s'') @ '' ago''"

lemma lower_digit: "is_digit c \<Longrightarrow> lower_char c = c"
  by (simp add: lower_char_def is_digit_def Let_def)

lemma lower_show_nat: "to_lower (show_nat n) = show_nat n"
  using show_nat_digits by (simp add: to_lower_def map_idI lower_digit)

lemma digit_no_space: "is_digit c \<Longrightarrow> \<not> is_space c"
  by (auto simp: is_digit_def is_space_def)

lemma scan_show_nat: "int n < 2 ^ 63 \<Longrightarrow> scan_int (show_nat n) = Some (int n)"
  by (simp add: scan_int_def split_sign_plain read_show_nat Let_def)

lemma age_units_ok:
  assumes "(u, d) \<in> set age_units"
  shows "to_lower u = u" and "u \<noteq> []" and "list_all (\<lambda>c. \<not> is_space c) u" and "0 \<le> d" and "d < 2 ^ 52"
proof -
  have "list_all (\<lambda>(u, d). to_lower u = u \<and> u \<noteq> [] \<and> list_all (\<lambda>c. \<not> is_space c) u \<and> 0 \<le> d \<and> d < 2 ^ 52) age_units"
    by code_simp
  with assms show "to_lower u = u" and "u \<noteq> []" and "list_all (\<lambda>c. \<not> is_space c) u" and "0 \<le> d" and "d < 2 ^ 52"
    by (auto simp: list_all_iff)
qed

lemma age_duration_units: "(u, d) \<in> set age_units \<Longrightarrow> age_duration (u @ s) n = Some (wrap64 (n * d))"
  by (auto simp: age_units_def age_duration_def mult.assoc)

lemma is_older_than_exact:
  assumes "(u, d) \<in> set age_units" and "n < 2048"
  shows "is_older_than (age_text n u) max_age \<longleftrightarrow> int n * d > max_age"
proof -
  let ?s = "if n = 1 then [] else ''s''"
  have "to_lower ''s'' = ''s''" "to_lower '' ago'' = CHR '' '' # ''ago''" "to_lower '' '' = '' ''" by code_simp+
  then have l: "to_lower (age_text n u) = show_nat n @ CHR '' '' # (u @ ?s) @ CHR '' '' # ''ago''"
    using lower_show_nat [of n] age_units_ok(1) [OF assms(1)] by (simp add: age_text_def to_lower_def)
  have "list_all (\<lambda>c. \<not> is_space c) ''s''" by code_simp
  then have u: "list_all (\<lambda>c. \<not> is_space c) (u @ ?s)" "u @ ?s \<noteq> []"
    using age_units_ok(2,3) [OF assms(1)] by simp_all
  have n: "list_all (\<lambda>c. \<not> is_space c) (show_nat n)"
    using show_nat_digits digit_no_space by (auto simp: list_all_iff)
  have f: "str_fields (to_lower (age_text n u)) = show_nat n # (u @ ?s) # str_fields ''ago''"
    unfolding l str_fields_plain(2) [OF n show_nat_not_Nil] str_fields_plain(2) [OF u] ..
  have s: "scan_int (show_nat n) = Some (int n)"
    using assms(2) by (intro scan_show_nat) simp
  have "int n * d \<le> 2048 * d"
    using assms(2) age_units_ok(4) [OF assms(1)] by (intro mult_right_mono) simp_all
  moreover have "2048 * d < 2 ^ 63"
    using age_units_ok(5) [OF assms(1)] by simp
  moreover have "0 \<le> int n * d"
    using age_units_ok(4) [OF assms(1)] by simp
  ultimately have w: "wrap64 (int n * d) = int n * d"
    by (intro wrap64_id) linarith+
  show ?thesis
    unfolding is_older_than_def f list.case s option.case age_duration_units [OF assms(1)] w ..
qed

definition row_text :: "string \<times> string \<Rightarrow> string" where
  "row_text row = fst row @ CHR 0x09 # snd row"

definition row_ok :: "string \<times> string \<Rightarrow> bool" where
  "row_ok row \<longleftrightarrow> fst row \<noteq> [] \<and> list_all (\<lambda>c. \<not> is_space c) (fst row) \<and>
     snd row \<noteq> [] \<and> \<not> is_space (last (snd row)) \<and> CHR 0x09 \<notin> set (snd row) \<and> CHR 0x0A \<notin> set (snd row)"

lemma trim_space_line:
  assumes "s \<noteq> []" and "\<not> is_space (hd s)" and "\<not> is_space (last s)" and "is_space c"
  shows "trim_space (s @ [c]) = s"
proof -
  have "dropWhile is_space (s @ [c]) = s @ [c]"
    using assms(1,2) by (cases s) auto
  moreover have "dropWhile is_space (rev s) = rev s"
    using assms(1,3) by (cases s rule: rev_cases) auto
  ultimately show ?thesis
    using assms(4) by (simp add: trim_space_def)
qed

lemma str_join_ends:
  assumes "ls \<noteq> []" and "\<forall>l \<in> set ls. l \<noteq> []"
  shows "str_join sep ls \<noteq> []" and "hd (str_join sep ls) = hd (hd ls)" and "last (str_join sep ls) = last (last ls)"
  using assms by (induction sep ls rule: str_join.induct) auto

definition line_ok :: "string \<Rightarrow> bool" where
  "line_ok l \<longleftrightarrow> l \<noteq> [] \<and> CHR 0x0A \<notin> set l \<and> \<not> is_space (hd l) \<and> \<not> is_space (last l)"

lemma split_lines:
  assumes "ls \<noteq> []" and "\<forall>l \<in> set ls. line_ok l"
  shows "split_on (CHR 0x0A) (trim_space (str_join [CHR 0x0A] ls @ [CHR 0x0A])) = ls"
proof -
  have ne: "\<forall>l \<in> set ls. l \<noteq> []" using assms(2) by (simp add: line_ok_def)
  have "is_space (CHR 0x0A)" by (simp add: is_space_def)
  moreover have "line_ok (hd ls)" "line_ok (last ls)" using assms by auto
  ultimately have "trim_space (str_join [CHR 0x0A] ls @ [CHR 0x0A]) = str_join [CHR 0x0A] ls"
    using str_join_ends [OF assms(1) ne] by (intro trim_space_line) (simp_all add: line_ok_def)
  then show ?thesis
    using assms by (simp add: split_join line_ok_def)
qed

lemma row_line_ok: "row_ok row \<Longrightarrow> line_ok (row_text row)"
  by (cases row) (auto simp: row_ok_def line_ok_def row_text_def list_all_iff is_space_def)

lemma row_stale:
  assumes "row_ok row"
  shows "stop_if_stale max_age (row_text row) = (if is_older_than (snd row) max_age then [[''podman'', ''stop'', fst row]] else [])"
proof -
  have "CHR 0x09 \<notin> set (fst row)"
    using assms by (auto simp: row_ok_def list_all_iff is_space_def)
  then have "split_on (CHR 0x09) (row_text row) = [fst row, snd row]"
    using assms by (simp add: row_text_def split_on_append split_on_id row_ok_def)
  moreover have "row_text row \<noteq> []" by (simp add: row_text_def)
  ultimately show ?thesis by (simp add: stop_if_stale_def)
qed

text \<open>From the table that podman prints, one line for each running container, the clean-up stops exactly the
  containers whose age text says more than the limit. An age of so many seconds, minutes, hours, days, weeks or
  months is compared exactly; but a container that has run for \<^verbatim>\<open>About an hour\<close>, or for years, never counts as
  old, whatever the limit.
\<close>

lemma stale_containers_exact:
  assumes "rows \<noteq> []" and "list_all row_ok rows"
  shows "cleanup_stale_containers max_age (str_join [CHR 0x0A] (map row_text rows) @ [CHR 0x0A], None) =
      (None, list_running_command #
         map (\<lambda>row. [''podman'', ''stop'', fst row]) (filter (\<lambda>row. is_older_than (snd row) max_age) rows)) \<and>
    (\<forall>u d n. (u, d) \<in> set age_units \<and> n < 2048 \<longrightarrow> (is_older_than (age_text n u) max_age \<longleftrightarrow> int n * d > max_age)) \<and>
    \<not> is_older_than ''About an hour ago'' max_age \<and> \<not> is_older_than (show_nat k @ '' years ago'') max_age"
proof (intro conjI)
  have "split_on (CHR 0x0A) (trim_space (str_join [CHR 0x0A] (map row_text rows) @ [CHR 0x0A])) = map row_text rows"
    using assms row_line_ok by (intro split_lines) (auto simp: list_all_iff)
  moreover have "map row_text rows \<noteq> [[]]"
    by (auto simp: row_text_def)
  moreover have "concat (map (stop_if_stale max_age) (map row_text rows)) =
      map (\<lambda>row. [''podman'', ''stop'', fst row]) (filter (\<lambda>row. is_older_than (snd row) max_age) rows)"
    using assms(2) by (induction rows) (simp_all add: row_stale)
  ultimately show "cleanup_stale_containers max_age (str_join [CHR 0x0A] (map row_text rows) @ [CHR 0x0A], None) =
      (None, list_running_command #
         map (\<lambda>row. [''podman'', ''stop'', fst row]) (filter (\<lambda>row. is_older_than (snd row) max_age) rows))"
    by (simp add: cleanup_stale_containers_def Let_def)
next
  show "\<forall>u d n. (u, d) \<in> set age_units \<and> n < 2048 \<longrightarrow> (is_older_than (age_text n u) max_age \<longleftrightarrow> int n * d > max_age)"
    using is_older_than_exact by blast
next
  have "str_fields (to_lower ''About an hour ago'') = [''about'', ''an'', ''hour'', ''ago'']" "scan_int ''about'' = None"
    by code_simp+
  then show "\<not> is_older_than ''About an hour ago'' max_age"
    by (simp add: is_older_than_def)
next
  have "to_lower '' years ago'' = CHR '' '' # ''years'' @ CHR '' '' # ''ago''" by code_simp
  then have "to_lower (show_nat k @ '' years ago'') = show_nat k @ CHR '' '' # ''years'' @ CHR '' '' # ''ago''"
    using lower_show_nat [of k] by (simp add: to_lower_def)
  moreover have "list_all (\<lambda>c. \<not> is_space c) (show_nat k)"
    using show_nat_digits digit_no_space by (auto simp: list_all_iff)
  moreover have "list_all (\<lambda>c. \<not> is_space c) ''years''" by code_simp
  ultimately have f: "str_fields (to_lower (show_nat k @ '' years ago'')) = show_nat k # ''years'' # str_fields ''ago''"
    by (simp add: str_fields_plain(2) [of "''years''", simplified] str_fields_plain(2))
  have "age_duration ''years'' n = None" for n
    by (simp add: age_duration_def)
  then show "\<not> is_older_than (show_nat k @ '' years ago'') max_age"
    by (simp add: is_older_than_def f split: option.split)
qed

lemma stale_containers_exact_witness:
  "cleanup_stale_containers hour
     (str_join [CHR 0x0A] (map row_text [(''a'', age_text 3 ''hour''), (''b'', age_text 5 ''minute'')]) @ [CHR 0x0A], None) =
   (None, [list_running_command, [''podman'', ''stop'', ''a'']])"
proof -
  let ?rows = "[(''a'', age_text 3 ''hour''), (''b'', age_text 5 ''minute'')]"
  have r: "?rows \<noteq> []" "list_all row_ok ?rows" by (simp, code_simp)
  have "is_older_than (age_text 3 ''hour'') hour" "\<not> is_older_than (age_text 5 ''minute'') hour"
    by code_simp+
  with conjunct1 [OF stale_containers_exact [OF r, of hour]] show ?thesis by simp
qed

text \<open>The clean-up at start stops and removes every container it is told of.\<close>

lemma orphaned_containers_exact:
  assumes "names \<noteq> []" and "list_all line_ok names"
  shows "cleanup_orphaned_containers ws (str_join [CHR 0x0A] names @ [CHR 0x0A], None) =
    (None, list_orphans_command # concat (map (\<lambda>c. [[''podman'', ''stop'', c], [''podman'', ''rm'', ''-f'', c]]) names))"
proof -
  have "split_on (CHR 0x0A) (trim_space (str_join [CHR 0x0A] names @ [CHR 0x0A])) = names"
    using assms by (intro split_lines) (auto simp: list_all_iff)
  moreover have "names \<noteq> [[]]" "\<forall>c \<in> set names. c \<noteq> []"
    using assms by (auto simp: list_all_iff line_ok_def)
  moreover have "concat (map (\<lambda>c. if c = [] then [] else [[''podman'', ''stop'', c], [''podman'', ''rm'', ''-f'', c]]) names) =
      concat (map (\<lambda>c. [[''podman'', ''stop'', c], [''podman'', ''rm'', ''-f'', c]]) names)"
    using assms(2) by (induction names) (auto simp: line_ok_def)
  ultimately show ?thesis
    by (simp add: cleanup_orphaned_containers_def Let_def)
qed

end
