(* ===== verification/Startup.thy ===== *)
theory Startup
  imports Observability Server Agent_Argv Container_Cleanup Webhook
begin

text \<open>
  The start of the server, \<^verbatim>\<open>cmd/stromboli/main.go\<close>: from the configuration to the parts of the system, and what a
  configuration therefore means for requests. What the machine answers on the way (podman, files, the tracing library, the
  bolt file) is the record \<open>machine\<close>.
\<close>

section \<open>Logging\<close>

datatype log_level = LevelDebug | LevelInfo | LevelWarn | LevelError

definition parse_log_level :: "string \<Rightarrow> log_level \<times> bool" where
  "parse_log_level s =
     (let l = to_lower (trim_space s)
      in if l = [] \<or> l = ''info'' then (LevelInfo, True)
         else if l = ''debug'' then (LevelDebug, True)
         else if l = ''warn'' \<or> l = ''warning'' then (LevelWarn, True)
         else if l = ''error'' then (LevelError, True)
         else (LevelInfo, False))"

section \<open>The machine\<close>

record machine =
  mc_outside :: outside
  mc_cli_exec :: "string list \<Rightarrow> string \<times> go_error option"
  mc_exporter :: "string \<Rightarrow> bool \<Rightarrow> unit result"
  mc_resource :: "string \<Rightarrow> unit result"
  mc_orphans :: "string \<times> go_error option"
  mc_bolt_file :: "(string \<rightharpoonup> 8 word list) result"
  mc_bolt_view :: "go_error option"
  mc_bolt_write :: "go_error option"
  mc_bolt_keys :: "string list"

datatype blacklist = MemoryBacked memory_blacklist | BoltBacked bolt_blacklist

definition build_blacklist :: "machine \<Rightarrow> blacklist_settings \<Rightarrow> blacklist result" where
  "build_blacklist mc cfg =
     (if bs_backend cfg = [] \<or> bs_backend cfg = ''memory''
      then Inr (MemoryBacked (mem_start_cleanup new_memory_blacklist))
      else if bs_backend cfg = ''bolt''
      then
        (case new_bolt_blacklist (bs_path cfg) (mc_bolt_file mc) (mc_bolt_view mc) (mc_bolt_write mc) (ou_now (mc_outside mc))
                (mc_bolt_keys mc) of
           Inl e \<Rightarrow> Inl (Wrap ''bolt blacklist: '' e [])
         | Inr b \<Rightarrow> Inr (BoltBacked (bolt_start_cleanup b)))
      else Inl (Msg (''unknown blacklist backend '' @ ou_quote (mc_outside mc) (bs_backend cfg))))"

definition blacklist_backend_name :: "blacklist_settings \<Rightarrow> string" where
  "blacklist_backend_name cfg = (if bs_backend cfg = [] then ''memory'' else bs_backend cfg)"

section \<open>The parts of the server\<close>

text \<open>The tickers are those of the cleanup goroutines; \<^verbatim>\<open>time.NewTicker\<close> panics for a period that is not positive.\<close>

record services =
  sv_address :: string
  sv_runner :: podman_runner
  sv_secrets :: secrets_manager
  sv_cli_image :: string
  sv_client :: string
  sv_auth :: auth_config
  sv_rate :: rate_config
  sv_jobs :: job_manager
  sv_stack_ttl :: "gtime option"
  sv_blacklist :: blacklist
  sv_health :: health_config
  sv_agent_image :: string
  sv_agent_credentials :: string
  sv_agent_sessions :: string
  sv_notifier :: notifier
  sv_metrics :: "string option"
  sv_tracer :: tracer_provider
  sv_tickers :: "gtime list"

datatype exit_reason = BadConfig go_error | NoCliImage go_error | NoTracing go_error | NoRunner go_error | NoBlacklist go_error

datatype start_result = ExitOne exit_reason | Started services

definition full_image :: "config \<Rightarrow> string" where
  "full_image c = as_image (cf_agent c) @ '':'' @ as_tag (cf_agent c)"

definition cli_config :: "config \<Rightarrow> cli_image_config" where
  "cli_config c =
     \<lparr>cli_image = as_cli_image (cf_agent c), cli_tag = as_cli_tag (cf_agent c), cli_auto_pull = as_auto_pull (cf_agent c)\<rparr>"

definition runner_compose :: "config \<Rightarrow> compose_config" where
  "runner_compose c =
     (let s = cf_compose c
      in \<lparr>cc_allow_privileged = cs_allow_privileged s, cc_allow_host_network = cs_allow_host_network s,
          cc_allow_host_volumes = cs_allow_host_volumes s, cc_build_timeout = cs_build_timeout s,
          cc_health_timeout = cs_health_timeout s, cc_stack_ttl = cs_stack_ttl s\<rparr>)"

definition make_runner :: "outside \<Rightarrow> config \<Rightarrow> podman_state \<Rightarrow> (podman_runner \<times> secrets_manager) result \<times> podman_state" where
  "make_runner ou c ps =
     (let a = cf_agent c
      in new_podman_runner ou (full_image c) (as_credentials a) (as_sessions_dir a) (as_sessions_host_dir a)
           \<lparr>rd_memory = rs_memory (cf_resources c), rd_cpus = rs_cpus (cf_resources c), rd_timeout = rs_timeout (cf_resources c)\<rparr>
           \<lparr>ic_allowed = as_patterns a, ic_mount_cli = as_mount_cli a\<rparr>
           \<lparr>vc_allowed = as_volumes a, vc_allow_all = as_allow_all a, vc_workdir_auto = as_workdir_auto a,
            vc_volume_auto = as_volume_auto a\<rparr> ps)"

definition make_auth :: "config \<Rightarrow> auth_config" where
  "make_auth c =
     \<lparr>ac_enabled = au_enabled (cf_auth c), ac_tokens = au_tokens (cf_auth c),
      ac_jwt = \<lparr>jc_secret = js_secret (cf_jwt c), jc_access_expiry = js_access (cf_jwt c), jc_refresh_expiry = js_refresh (cf_jwt c)\<rparr>\<rparr>"

definition make_rate :: "config \<Rightarrow> rate_config" where
  "make_rate c =
     (let s = cf_rate c
      in \<lparr>rc_enabled = rt_enabled s, rc_rate = rt_rate s, rc_period = rt_period s, rc_burst = rt_burst s, rc_interval = 0,
          rc_proxies = rt_proxies s\<rparr>)"

definition make_services :: "outside \<Rightarrow> config \<Rightarrow> tracer_provider \<Rightarrow> podman_runner \<Rightarrow> secrets_manager \<Rightarrow> blacklist \<Rightarrow> services" where
  "make_services ou c tp r0 m bl =
     (let compose = cs_build_timeout (cf_compose c) > 0;
          r = (if compose then set_compose_config (runner_compose c) r0 else r0);
          client = new_client (ou_home ou) (as_credentials (cf_agent c));
          rate = make_rate c
      in \<lparr>sv_address = cf_address c, sv_runner = r, sv_secrets = m,
          sv_cli_image = (if as_mount_cli (cf_agent c) then cli_full_name (cli_config c) else claude_cli_image_name),
          sv_client = client, sv_auth = make_auth c, sv_rate = rate,
          sv_jobs = job_start_cleanup new_job_manager,
          sv_stack_ttl = (if compose then Some (cs_stack_ttl (cf_compose c)) else None),
          sv_blacklist = bl, sv_health = \<lparr>hc_credentials = client, hc_secret = default_secret_name\<rparr>,
          sv_agent_image = full_image c, sv_agent_credentials = as_credentials (cf_agent c),
          sv_agent_sessions = as_sessions_dir (cf_agent c), sv_notifier = new_signed_notifier (cf_webhook_secret c),
          sv_metrics = (if mt_enabled (cf_metrics c) then Some (mt_address (cf_metrics c)) else None),
          sv_tracer = tp,
          sv_tickers =
            [jb_interval (cf_jobs c)] @ (if compose then [jb_interval (cf_jobs c)] else []) @
            [bs_cleanup (au_blacklist (cf_auth c))] @ (if rc_enabled rate then [cleanup_interval rate] else [])\<rparr>)"

text \<open>With the podman commands executed on the way; a failed clean-up of orphans is only logged.\<close>

definition start_up :: "machine \<Rightarrow> config result \<Rightarrow> podman_state \<Rightarrow> start_result \<times> podman_state \<times> string list list" where
  "start_up mc loaded ps =
     (case loaded of
        Inl e \<Rightarrow> (ExitOne (BadConfig e), ps, [])
      | Inr c \<Rightarrow>
          (let (cli, cmds1) = (if as_mount_cli (cf_agent c) then ensure_cli_image (mc_cli_exec mc) (cli_config c) else (None, []))
           in case cli of
                Some e \<Rightarrow> (ExitOne (NoCliImage e), ps, cmds1)
              | None \<Rightarrow>
                  (case init_tracing (cf_tracing c) (mc_exporter mc) (mc_resource mc) of
                     Inl e \<Rightarrow> (ExitOne (NoTracing e), ps, cmds1)
                   | Inr tp \<Rightarrow>
                       (case make_runner (mc_outside mc) c ps of
                          (Inl e, ps') \<Rightarrow> (ExitOne (NoRunner e), ps', cmds1)
                        | (Inr (r, m), ps') \<Rightarrow>
                            (let (_, cmds2) = cleanup_orphaned_containers (ou_status (mc_outside mc)) (mc_orphans mc)
                             in case build_blacklist mc (au_blacklist (cf_auth c)) of
                                  Inl e \<Rightarrow> (ExitOne (NoBlacklist e), ps', cmds1 @ cmds2)
                                | Inr bl \<Rightarrow> (Started (make_services (mc_outside mc) c tp r m bl), ps', cmds1 @ cmds2))))))"

section \<open>What a configuration gives\<close>

lemma start_up_Started:
  assumes "start_up mc (Inr c) ps = (Started sv, ps', cmds)"
  obtains tp r0 m bl where "make_runner (mc_outside mc) c ps = (Inr (r0, m), ps')" and "sv = make_services (mc_outside mc) c tp r0 m bl"
    and "build_blacklist mc (au_blacklist (cf_auth c)) = Inr bl"
    and "init_tracing (cf_tracing c) (mc_exporter mc) (mc_resource mc) = Inr tp"
  using assms by (auto simp: start_up_def Let_def split: prod.splits option.splits sum.splits)

lemma make_runner_fields:
  assumes "make_runner ou c ps = (Inr (r, m), ps')"
  shows "pr_volumes r = new_validator_with_allow_all (as_volumes (cf_agent c)) (as_allow_all (cf_agent c))"
    and "iv_patterns (pr_images r) = as_patterns (cf_agent c)"
    and "pr_sessions_dir r = as_sessions_dir (cf_agent c)" and "pr_sessions_host_dir r = as_sessions_host_dir (cf_agent c)"
  using assms
  by (auto simp: make_runner_def new_podman_runner_def Let_def new_image_validator_def new_image_validator_with_compat_check_def
      split: prod.splits option.splits)

lemma make_runner_compat:
  "make_runner ou c ps = (Inr (r, m), ps') \<Longrightarrow> iv_check_compat (pr_images r) = as_mount_cli (cf_agent c)"
  by (auto simp: make_runner_def new_podman_runner_def Let_def new_image_validator_def new_image_validator_with_compat_check_def
      split: prod.splits option.splits if_splits)

lemma make_services_fields [simp]:
  "pr_volumes (sv_runner (make_services ou c tp r m bl)) = pr_volumes r"
  "pr_images (sv_runner (make_services ou c tp r m bl)) = pr_images r"
  "sv_auth (make_services ou c tp r m bl) = make_auth c" "sv_rate (make_services ou c tp r m bl) = make_rate c"
  "sv_agent_credentials (make_services ou c tp r m bl) = as_credentials (cf_agent c)"
  "sv_agent_sessions (make_services ou c tp r m bl) = as_sessions_dir (cf_agent c)"
  "sv_agent_image (make_services ou c tp r m bl) = full_image c"
  "sv_client (make_services ou c tp r m bl) = new_client (ou_home ou) (as_credentials (cf_agent c))"
  "sv_health (make_services ou c tp r m bl) =
     \<lparr>hc_credentials = new_client (ou_home ou) (as_credentials (cf_agent c)), hc_secret = default_secret_name\<rparr>"
  "sv_metrics (make_services ou c tp r m bl) = (if mt_enabled (cf_metrics c) then Some (mt_address (cf_metrics c)) else None)"
  "sv_address (make_services ou c tp r m bl) = cf_address c"
  by (simp_all add: make_services_def Let_def set_compose_config_def)

lemma make_services_compose:
  "0 < cs_build_timeout (cf_compose c) \<Longrightarrow> pr_compose (sv_runner (make_services ou c tp r m bl)) = Some (runner_compose c)"
  by (simp add: make_services_def Let_def set_compose_config_def)

text \<open>C31: A server that has started from a loaded configuration is sound: no cleanup goroutine makes a ticker with a period that would
  panic; with authentication on, tokens are signed with a proper secret and live for a positive time; compose is always
  available with the configured permissions and positive timeouts; volumes are checked against exactly the
  configured directories. A loaded configuration never ends in the start-up's own branch for an unknown blacklist.
\<close>

theorem startup_sound:
  assumes "load_config q te file v = Inr c" and "start_up mc (Inr c) ps = (res, ps', cmds)"
  shows "(\<forall>sv. res = Started sv \<longrightarrow>
      (\<forall>d \<in> set (sv_tickers sv). 0 < d \<and> d < 2 ^ 63) \<and>
      (ac_enabled (sv_auth sv) \<longrightarrow> strong_secret (jc_secret (ac_jwt (sv_auth sv))) \<and>
        0 < jc_access_expiry (ac_jwt (sv_auth sv)) \<and> 0 < jc_refresh_expiry (ac_jwt (sv_auth sv))) \<and>
      (\<exists>cc. pr_compose (sv_runner sv) = Some cc \<and> 0 < cc_build_timeout cc \<and> 0 < cc_health_timeout cc \<and> 0 < cc_stack_ttl cc) \<and>
      wv_allowed (pr_volumes (sv_runner sv)) = as_volumes (cf_agent c) \<and>
      (rc_enabled (sv_rate sv) \<longrightarrow> 0 < rc_rate (sv_rate sv) \<and> 0 < rc_burst (sv_rate sv))) \<and>
    (\<forall>b. res \<noteq> ExitOne (NoBlacklist (Msg (''unknown blacklist backend '' @ b))))"
proof -
  have p: "parse_config q te v = Inr c"
    using assms(1) by (auto simp: load_config_def split: option.splits sum.splits)
  note ok = parse_config_Inr(1) [OF p, unfolded config_ok_def Let_def]
  have fits: "jb_interval (cf_jobs c) < 2 ^ 63" "bs_cleanup (au_blacklist (cf_auth c)) < 2 ^ 63"
    using parse_config_Inr(3) [OF p] by (simp_all add: durations_def)
  have sound: "(\<forall>d \<in> set (sv_tickers sv). 0 < d \<and> d < 2 ^ 63) \<and>
      (ac_enabled (sv_auth sv) \<longrightarrow> strong_secret (jc_secret (ac_jwt (sv_auth sv))) \<and>
        0 < jc_access_expiry (ac_jwt (sv_auth sv)) \<and> 0 < jc_refresh_expiry (ac_jwt (sv_auth sv))) \<and>
      (\<exists>cc. pr_compose (sv_runner sv) = Some cc \<and> 0 < cc_build_timeout cc \<and> 0 < cc_health_timeout cc \<and> 0 < cc_stack_ttl cc) \<and>
      wv_allowed (pr_volumes (sv_runner sv)) = as_volumes (cf_agent c) \<and>
      (rc_enabled (sv_rate sv) \<longrightarrow> 0 < rc_rate (sv_rate sv) \<and> 0 < rc_burst (sv_rate sv))"
    if "res = Started sv" for sv
  proof -
    from assms(2) that obtain tp r0 m bl where r: "make_runner (mc_outside mc) c ps = (Inr (r0, m), ps')"
        and sv: "sv = make_services (mc_outside mc) c tp r0 m bl"
      by (metis start_up_Started)
    have tickers: "\<forall>d \<in> set (sv_tickers sv). 0 < d \<and> d < 2 ^ 63"
      using ok fits by (simp add: sv make_services_def Let_def make_rate_def cleanup_interval_def time_units)
    have auth: "ac_enabled (sv_auth sv) \<longrightarrow> strong_secret (jc_secret (ac_jwt (sv_auth sv))) \<and>
        0 < jc_access_expiry (ac_jwt (sv_auth sv)) \<and> 0 < jc_refresh_expiry (ac_jwt (sv_auth sv))"
      using ok by (auto simp: sv make_auth_def strong_secret_def)
    have compose: "pr_compose (sv_runner sv) = Some (runner_compose c)" "0 < cc_build_timeout (runner_compose c)"
        "0 < cc_health_timeout (runner_compose c)" "0 < cc_stack_ttl (runner_compose c)"
      using ok by (simp_all only: sv make_services_compose runner_compose_def Let_def compose_config.simps)
    have volumes: "wv_allowed (pr_volumes (sv_runner sv)) = as_volumes (cf_agent c)"
      by (simp add: sv make_runner_fields(1) [OF r] new_validator_with_allow_all_def)
    have rate: "rc_enabled (sv_rate sv) \<longrightarrow> 0 < rc_rate (sv_rate sv) \<and> 0 < rc_burst (sv_rate sv)"
      using ok by (simp add: sv make_rate_def Let_def)
    show ?thesis using tickers auth compose volumes rate by blast
  qed
  have "res \<noteq> ExitOne (NoBlacklist (Msg (''unknown blacklist backend '' @ b)))" for b
  proof
    assume "res = ExitOne (NoBlacklist (Msg (''unknown blacklist backend '' @ b)))"
    then have "build_blacklist mc (au_blacklist (cf_auth c)) = Inl (Msg (''unknown blacklist backend '' @ b))"
      using assms(2) by (auto simp: start_up_def Let_def split: prod.splits option.splits sum.splits)
    then show False
      using ok by (auto simp: build_blacklist_def split: if_splits sum.splits)
  qed
  then show ?thesis using sound by blast
qed


section \<open>A machine on which everything works\<close>

definition plain_machine :: machine where
  "plain_machine =
     \<lparr>mc_outside = plain_outside\<lparr>ou_home := Some ''/home/op''\<rparr>, mc_cli_exec = (\<lambda>c. ([], None)), mc_exporter = (\<lambda>e i. Inr ()), mc_resource = (\<lambda>n. Inr ()),
      mc_orphans = ([], None), mc_bolt_file = Inr Map.empty, mc_bolt_view = None, mc_bolt_write = None, mc_bolt_keys = []\<rparr>"

definition no_secrets :: podman_state where
  "no_secrets = \<lparr>ps_clock = 0, ps_store = Map.empty\<rparr>"

lemma plain_machine_starts:
  obtains sv ps' cmds where "start_up plain_machine (Inr (set_volumes ds (default_config s))) no_secrets = (Started sv, ps', cmds)"
proof -
  let ?c = "set_volumes ds (default_config s)"
  have "fst (make_runner (mc_outside plain_machine) ?c no_secrets) \<noteq> Inl e" for e
    by (simp add: make_runner_def new_podman_runner_def new_secrets_manager_with_path_def ensure_exists_def file_exists_def
        read_file_def secret_exists_def create_secret_def get_file_hash_def plain_machine_def plain_outside_def no_faults_def
        no_secrets_def Let_def)
  then obtain r m ps' where r: "make_runner (mc_outside plain_machine) ?c no_secrets = (Inr (r, m), ps')"
    by (metis prod.collapse sum.exhaust)
  have cli: "\<not> as_mount_cli (cf_agent ?c)" and bl: "au_blacklist (cf_auth ?c) = au_blacklist (cf_auth (default_config s))"
      and t: "init_tracing (cf_tracing ?c) e g = Inr NoopProvider" for e g
    by (simp_all add: set_volumes_def default_config_def init_tracing_off)
  have b: "build_blacklist plain_machine (au_blacklist (cf_auth (default_config s))) =
      Inr (MemoryBacked (mem_start_cleanup new_memory_blacklist))"
    by (simp add: build_blacklist_def default_config_def)
  have "\<exists>sv cmds. start_up plain_machine (Inr ?c) no_secrets = (Started sv, ps', cmds)"
    by (simp add: start_up_def cli bl t b r Let_def split: prod.split)
  then show ?thesis using that by blast
qed

lemma set_volumes_default: "set_volumes [] (default_config s) = default_config s"
  by (simp add: set_volumes_def default_config_def)

lemma load_but_volumes:
  assumes "unset_but v [''jwt.secret'', ''agent.allowed_volumes'']" and "strong_secret (vp_string v ''jwt.secret'')"
  shows "load_config q te None v =
    Inr (set_volumes (get_string_slice_or_split v ''agent.allowed_volumes'') (default_config (vp_string v ''jwt.secret'')))"
proof -
  have "config_ok (set_volumes ds c) = config_ok c" for ds c
    by (simp add: config_ok_def set_volumes_def)
  then show ?thesis
    using parse_default_but_volumes [OF assms(1) refl, of q te] validate_config_None default_config_ok assms(2)
    by (simp add: load_config_def split: option.split)
qed

lemma unset_but_mono: "unset_but v ks \<Longrightarrow> set ks \<subseteq> set ls \<Longrightarrow> unset_but v ls"
  by (auto simp: unset_but_def list_all_iff)

lemma load_default:
  assumes "unset_but v [''jwt.secret'']" and "strong_secret (vp_string v ''jwt.secret'')"
  shows "load_config q te None v = Inr (default_config (vp_string v ''jwt.secret''))"
proof -
  have "vp_slice v ''agent.allowed_volumes'' = []"
    using assms(1) by (simp add: unset_but_def config_defaults_def)
  moreover have "unset_but v [''jwt.secret'', ''agent.allowed_volumes'']"
    using assms(1) by (rule unset_but_mono) simp
  ultimately show ?thesis
    using load_but_volumes [of v q te] assms(2) by (simp add: default_slices set_volumes_default)
qed

lemma load_sample: "load_config (\<lambda>x. x) Msg None (default_viper sample_secret) = Inr (default_config sample_secret)"
proof -
  have s: "vp_string (default_viper sample_secret) ''jwt.secret'' = sample_secret" by (simp add: default_viper_def value_of_def)
  then show ?thesis using load_default [OF default_viper_unset, of sample_secret] sample_secret_strong by simp
qed

theorem startup_sound_witness:
  "\<exists>sv ps' cmds. start_up plain_machine (Inr (default_config sample_secret)) no_secrets = (Started sv, ps', cmds) \<and>
     strong_secret (jc_secret (ac_jwt (sv_auth sv))) \<and> list_all (\<lambda>d. 0 < d) (sv_tickers sv)"
proof -
  obtain sv ps' cmds where s: "start_up plain_machine (Inr (default_config sample_secret)) no_secrets = (Started sv, ps', cmds)"
    using plain_machine_starts [of "[]"] unfolding set_volumes_default by metis
  obtain tp r m bl where "sv = make_services (mc_outside plain_machine) (default_config sample_secret) tp r m bl"
    using start_up_Started [OF s] by metis
  then have "ac_enabled (sv_auth sv)" by (simp add: make_auth_def default_config_def)
  then show ?thesis
    using startup_sound [OF load_sample s] s by (simp add: list_all_iff)
qed

section \<open>The server without settings\<close>

text \<open>C32: A server started with nothing but a signing secret is closed to strangers and keeps its machine to itself: every
  route but the health check and the endpoints that check their own token answers 401 without an authorization header, and
  no rate limit state is made; every host path is refused as a volume; compose files get no dangerous permission; metrics
  listen on the local interface only. But any image may be run, because no pattern means no restriction.
\<close>

theorem default_server_closed:
  assumes "unset_but v [''jwt.secret'']" and "load_config q te None v = Inr c"
    and "start_up mc (Inr c) ps = (Started sv, ps', cmds)"
  shows "((vb, p, g, e) \<in> set (routes agents) \<and> p \<notin> set open_paths \<longrightarrow>
      pass_route ws lib ops (sv_rate sv) (sv_auth sv) deny now g peer [] m = (Refused 401 ''missing authorization header'', m)) \<and>
    (path \<noteq> [] \<longrightarrow> (\<exists>err. validate_workspace q' sy res (pr_volumes (sv_runner sv)) path = Inl err)) \<and>
    pr_compose (sv_runner sv) =
      Some \<lparr>cc_allow_privileged = False, cc_allow_host_network = False, cc_allow_host_volumes = False,
            cc_build_timeout = 10 * minute, cc_health_timeout = 2 * minute, cc_stack_ttl = hour\<rparr> \<and>
    sv_metrics sv = Some ''127.0.0.1:9090'' \<and> validate_image q' (pr_images (sv_runner sv)) img = None"
proof -
  have "strong_secret (vp_string v ''jwt.secret'') \<or> (\<exists>e. load_config q te None v = Inl e)"
    using parse_default [OF assms(1), of q te] validate_config_None default_config_ok
    by (auto simp: load_config_def split: option.splits)
  then have c: "c = default_config (vp_string v ''jwt.secret'')"
    using load_default [OF assms(1), of q te] assms(2) by auto
  obtain tp r0 m0 bl where r: "make_runner (mc_outside mc) c ps = (Inr (r0, m0), ps')"
      and sv: "sv = make_services (mc_outside mc) c tp r0 m0 bl"
    by (metis start_up_Started [OF assms(3)])
  have on: "ac_enabled (sv_auth sv)" and off: "\<not> rc_enabled (sv_rate sv)"
    by (simp_all add: sv make_auth_def make_rate_def c default_config_def Let_def)
  have route: "pass_route ws lib ops (sv_rate sv) (sv_auth sv) deny now g peer [] m = (Refused 401 ''missing authorization header'', m)"
    if "(vb, p, g, e) \<in> set (routes agents)" "p \<notin> set open_paths"
  proof -
    have "g \<noteq> Open" using routes_guards [OF that(1)] that(2) by blast
    then show ?thesis
      using on off by (cases g) (simp_all add: pass_route_def authenticate_def middleware_def rate_limit_middleware_def)
  qed
  have volumes: "\<exists>err. validate_workspace q' sy res (pr_volumes (sv_runner sv)) path = Inl err" if "path \<noteq> []"
    using that by (simp add: sv make_runner_fields(1) [OF r] new_validator_with_allow_all_def c default_config_def
        validate_workspace_def Let_def split: sum.split resolved.split)
  have compose: "pr_compose (sv_runner sv) =
      Some \<lparr>cc_allow_privileged = False, cc_allow_host_network = False, cc_allow_host_volumes = False,
            cc_build_timeout = 10 * minute, cc_health_timeout = 2 * minute, cc_stack_ttl = hour\<rparr>"
    by (simp add: sv make_services_compose c runner_compose_def default_config_def time_units Let_def)
  have image: "validate_image q' (pr_images (sv_runner sv)) img = None"
    using make_runner_fields(2) [OF r] make_runner_compat [OF r]
    by (simp add: sv c default_config_def validate_image_def is_allowed_def)
  show ?thesis
    using route volumes compose image by (simp add: sv c default_config_def)
qed

theorem default_server_closed_witness:
  "\<exists>sv ps' cmds err. start_up plain_machine (Inr (default_config sample_secret)) no_secrets = (Started sv, ps', cmds) \<and>
     validate_workspace (\<lambda>x. x) plain_sys Resolved (pr_volumes (sv_runner sv)) ''/etc'' = Inl err"
proof -
  obtain sv ps' cmds where s: "start_up plain_machine (Inr (default_config sample_secret)) no_secrets = (Started sv, ps', cmds)"
    using plain_machine_starts [of "[]"] unfolding set_volumes_default by metis
  have "''/etc'' \<noteq> []" by simp
  then show ?thesis
    using default_server_closed [OF default_viper_unset load_sample s] s by metis
qed

text \<open>The agents get the path of the credentials as it is written, while the client and the health check look where it leads.\<close>

lemma agent_credentials_unexpanded:
  assumes "ou_home ou = Some h"
  shows "sv_client (make_services ou (default_config s) tp r m bl) = path_join [h, ''.claude/.credentials.json'']"
    and "sv_agent_credentials (make_services ou (default_config s) tp r m bl) = ''~/.claude/.credentials.json''"
  by (simp_all add: default_config_def new_client_def expand_path_def assms)

section \<open>A list with a comma at its end\<close>

lemma abs_of_empty: "is_abs (sy_cwd sy) \<Longrightarrow> sy_fault sy CallGetwd = None \<Longrightarrow> os_abs sy [] = Inr (path_clean (sy_cwd sy))"
  by (simp add: os_abs_def path_abs_def path_join_def is_abs_def)

text \<open>A comma at the end of the list of directories that may be mounted opens one more directory: the empty entry stands for
  the server's own working directory, so that everything below it, its sessions and the file of revoked tokens
  included, can be mounted into a container, although only the directory named was allowed.
\<close>

lemma trailing_comma_opens_cwd:
  assumes "load_config q te file v = Inr c" and "vp_slice v ''agent.allowed_volumes'' = [''/data,'']"
    and "start_up mc (Inr c) ps = (Started sv, ps', cmds)"
    and "resolver_ok res" and "is_abs (sy_cwd sy)" and "sy_fault sy CallGetwd = None"
    and "path \<noteq> []" and "os_abs sy path = Inr a" and "\<forall>e. res a \<noteq> Unresolved e"
    and "contained (real_path res (path_clean (sy_cwd sy))) (real_path res a)"
  shows "validate_workspace q' sy res (pr_volumes (sv_runner sv)) path = Inr (path_clean (real_path res a))"
proof -
  have p: "parse_config q te v = Inr c"
    using assms(1) by (auto simp: load_config_def split: option.splits sum.splits)
  have v: "as_volumes (cf_agent c) = [''/data'', []]"
    using parse_config_Inr(6) [OF p] list_gaps(1) [OF assms(2)] by simp
  obtain tp r0 m0 bl where r: "make_runner (mc_outside mc) c ps = (Inr (r0, m0), ps')"
      and sv: "sv = make_services (mc_outside mc) c tp r0 m0 bl"
    by (metis start_up_Started [OF assms(3)])
  have w: "wv_allowed (pr_volumes (sv_runner sv)) = [''/data'', []]"
    by (simp add: sv make_runner_fields(1) [OF r] new_validator_with_allow_all_def v)
  show ?thesis
    using assms(8,9,10) abs_of_empty [OF assms(5,6)]
    by (subst validate_workspace_iff [OF assms(4,5,7)]) (auto simp: w)
qed

definition comma_viper :: viper where
  "comma_viper =
     (let v = default_viper sample_secret
      in v\<lparr>vp_slice := (\<lambda>k. if k = ''agent.allowed_volumes'' then [''/data,''] else vp_slice v k)\<rparr>)"

definition served_sys :: sys where
  "served_sys = \<lparr>sy_cwd = ''/srv'', sy_fault = (\<lambda>_. None), sy_survives = (\<lambda>_. False)\<rparr>"

lemma load_comma: "load_config (\<lambda>x. x) Msg None comma_viper = Inr (set_volumes [''/data'', []] (default_config sample_secret))"
proof -
  have s: "vp_string comma_viper ''jwt.secret'' = sample_secret"
    by (simp add: comma_viper_def default_viper_def value_of_def Let_def)
  have eq: "reads comma_viper k d = reads (default_viper sample_secret) k d" if "k \<noteq> ''agent.allowed_volumes''" for k d
    using that by (cases d) (simp_all add: comma_viper_def Let_def)
  have "unset_but comma_viper [''jwt.secret'', ''agent.allowed_volumes'']"
    using default_viper_unset [of sample_secret] unfolding unset_but_def
    by (elim list.pred_mono_strong) (use eq in auto)
  moreover have "get_string_slice_or_split comma_viper ''agent.allowed_volumes'' = [''/data'', []]"
    by (rule list_gaps) (simp add: comma_viper_def Let_def)
  ultimately show ?thesis
    using load_but_volumes [of comma_viper "\<lambda>x. x" Msg] s sample_secret_strong by simp
qed

lemma trailing_comma_opens_cwd_witness:
  "\<exists>sv ps' cmds. start_up plain_machine (Inr (set_volumes [''/data'', []] (default_config sample_secret))) no_secrets =
     (Started sv, ps', cmds) \<and>
     validate_workspace (\<lambda>x. x) served_sys Resolved (pr_volumes (sv_runner sv)) ''/srv/.stromboli'' = Inr ''/srv/.stromboli''"
proof -
  obtain sv ps' cmds where s: "start_up plain_machine (Inr (set_volumes [''/data'', []] (default_config sample_secret))) no_secrets =
      (Started sv, ps', cmds)"
    by (rule plain_machine_starts)
  have v: "vp_slice comma_viper ''agent.allowed_volumes'' = [''/data,'']" by (simp add: comma_viper_def Let_def)
  have r: "resolver_ok Resolved" by (simp add: resolver_ok_def)
  have y: "is_abs (sy_cwd served_sys)" "sy_fault served_sys CallGetwd = None" by (simp_all add: served_sys_def is_abs_def)
  have p: "''/srv/.stromboli'' \<noteq> []" "os_abs served_sys ''/srv/.stromboli'' = Inr ''/srv/.stromboli''"
    "\<forall>e. Resolved ''/srv/.stromboli'' \<noteq> Unresolved e"
    "contained (real_path Resolved (path_clean (sy_cwd served_sys))) (real_path Resolved ''/srv/.stromboli'')"
    "path_clean (real_path Resolved ''/srv/.stromboli'') = ''/srv/.stromboli''"
    by (simp, code_simp, simp, code_simp, code_simp)
  show ?thesis
    using trailing_comma_opens_cwd [OF load_comma v s r y p(1-4), of "\<lambda>x. x"] s unfolding p(5) by blast
qed

end
