(* ===== verification/Shutdown.thy ===== *)
theory Shutdown
  imports Agent_System
begin

text \<open>
  The end of the server: \<^verbatim>\<open>main\<close> stops every agent (\<^verbatim>\<open>Manager.StopAll\<close>, \<^verbatim>\<open>internal/agent/manager.go\<close>) and only then
  closes the listener (\<^verbatim>\<open>srv.Shutdown\<close>, \<^verbatim>\<open>cmd/stromboli/main.go\<close>), while requests and the goroutines of the agents go on.
\<close>

section \<open>The steps of the end\<close>

text \<open>
  \<open>Stopping ids begun\<close>: the identifiers that are still to be stopped; with \<open>begun\<close>, the first of them is being stopped.
  \<open>Stopped\<close>: \<^verbatim>\<open>StopAll\<close> has returned. \<open>Closed\<close>: no request is accepted any more. The identifiers that \<^verbatim>\<open>StopAll\<close> has
  listed are kept beside.
\<close>

datatype phase = Serving | Stopping "string list" bool | Stopped | Closed

inductive shutdown_step :: "'c env \<Rightarrow> nat \<Rightarrow> phase \<times> string set \<times> sys \<Rightarrow> phase \<times> string set \<times> sys \<Rightarrow> bool" for en n where
  serve: "ph \<noteq> Closed \<Longrightarrow> sys_step en s s' \<Longrightarrow> shutdown_step en n (ph, L, s) (ph, L, s')"
| take_ids: "distinct ids \<Longrightarrow> set ids = sy_reg s \<Longrightarrow> shutdown_step en n (Serving, L, s) (Stopping ids False, set ids, s)"
| stop_one: "sy_threads s (Request n aid) = [] \<Longrightarrow>
    shutdown_step en n (Stopping (aid # ids) False, L, s)
      (Stopping (aid # ids) True, L, put_thread (Request n aid) [Unregister] s)"
| next_one: "sy_threads s (Request n aid) = [] \<Longrightarrow>
    shutdown_step en n (Stopping (aid # ids) True, L, s) (Stopping ids False, L, s)"
| all_stopped: "shutdown_step en n (Stopping [] False, L, s) (Stopped, L, s)"
| close_listener: "shutdown_step en n (Stopped, L, s) (Closed, L, s)"

abbreviation shutdown_reachable :: "'c env \<Rightarrow> nat \<Rightarrow> phase \<times> string set \<times> sys \<Rightarrow> bool" where
  "shutdown_reachable en n \<equiv> (shutdown_step en n)\<^sup>*\<^sup>* (Serving, {}, sys_init)"

section \<open>Registration\<close>

text \<open>What one step does to the registry and to the goroutine \<open>t\<close> that it runs.\<close>

inductive registry_step :: "tid \<Rightarrow> task list \<Rightarrow> sys \<Rightarrow> sys \<Rightarrow> bool" where
  new: "sy_heap s (tid_agent t) = None \<Longrightarrow> Register \<notin> set ts \<Longrightarrow> sy_reg s' = sy_reg s \<Longrightarrow>
    dom (sy_heap s') = insert (tid_agent t) (dom (sy_heap s)) \<Longrightarrow> registry_step t (Register # ts) s s'"
| register: "sy_threads s t = Register # ts \<Longrightarrow> sy_reg s' = insert (tid_agent t) (sy_reg s) \<Longrightarrow>
    dom (sy_heap s') = dom (sy_heap s) \<Longrightarrow> registry_step t ts s s'"
| leave: "sy_threads s t = Unregister # tks \<Longrightarrow> tid_agent t \<in> sy_reg s \<Longrightarrow> sy_reg s' = sy_reg s - {tid_agent t} \<Longrightarrow>
    dom (sy_heap s') = dom (sy_heap s) \<Longrightarrow> registry_step t (AwaitExit # MarkExit None # tks) s s'"
| keep: "sy_reg s' = sy_reg s \<Longrightarrow> dom (sy_heap s') = dom (sy_heap s) \<Longrightarrow>
    (Register \<in> set ts \<union> set (sy_threads s t) \<longrightarrow> ts = sy_threads s t \<or> Register \<in> set (tl (sy_threads s t))) \<Longrightarrow>
    (AwaitExit \<in> set (sy_threads s t) \<longrightarrow> AwaitExit \<in> set ts \<or> tid_agent t \<in> sy_exited s) \<Longrightarrow>
    (Unregister \<in> set (sy_threads s t) \<longrightarrow> Unregister \<in> set ts \<or> tid_agent t \<notin> sy_reg s) \<Longrightarrow> registry_step t ts s s'"

lemma registry_exec:
  assumes "sy_threads s t = tk # tks" and "sy_heap s (tid_agent t) = Some a" and "task_enabled (tid_agent t) tk s"
    and "exec_task en now w (tid_agent t) a tk s = Some (s', nxt)"
  shows "registry_step t (nxt @ tks) s (put_thread t (nxt @ tks) s')"
proof (cases tk)
  case Register
  with assms show ?thesis by (auto simp: put_thread_def intro: registry_step.register)
next
  case Unregister
  show ?thesis
  proof (cases "tid_agent t \<in> sy_reg s")
    case True
    with assms Unregister show ?thesis by (auto simp: put_thread_def intro!: registry_step.leave)
  qed (use assms Unregister in \<open>auto simp: put_thread_def intro!: registry_step.keep\<close>)
qed (use assms in \<open>auto simp: put_thread_def set_agent_def intro!: registry_step.keep split: sum.splits option.splits if_splits\<close>)

lemma registry_same:
  "sy_threads s t = [] \<Longrightarrow> Register \<notin> set ts \<Longrightarrow> sy_reg s' = sy_reg s \<Longrightarrow> dom (sy_heap s') = dom (sy_heap s) \<Longrightarrow>
   registry_step t ts s s'"
  by (rule registry_step.keep) simp_all

lemma registry_agent:
  "sy_heap s aid = Some a \<Longrightarrow> s' = set_agent aid a' s \<Longrightarrow>
   registry_step (Waiter aid) (sy_threads s (Waiter aid)) s s' \<and>
   sy_threads s' = (sy_threads s)(Waiter aid := sy_threads s (Waiter aid)) \<and> sy_exited s' = sy_exited s"
  by (auto simp: set_agent_def dom_def intro!: registry_step.keep split: if_splits)

lemma sys_step_registry:
  assumes "sys_step en s s'"
  obtains t ts where "registry_step t ts s s'" and "sy_threads s' = (sy_threads s)(t := ts)" and "sy_exited s \<subseteq> sy_exited s'"
  using assms
proof (cases rule: sys_step.cases)
  case (spawn aid turn now sid req a m)
  then show ?thesis
    by (intro that [of "Request m aid" "create_tasks turn req"])
       (auto simp: put_thread_def set_agent_def watch_def create_tasks_def intro!: registry_step.new)
next
  case (send m aid turn a prompt)
  then show ?thesis
    by (intro that [of "Request m aid" "[TrySend turn prompt]"] registry_same) (auto simp: put_thread_def)
next
  case (line aid a l)
  then show ?thesis
    by (intro that [of "Dispatcher aid" "dispatch_line l"] registry_same) (auto simp: put_thread_def dispatch_line_def)
next
  case (exit aid a err)
  then show ?thesis
    by (intro that [of "Waiter aid" "[MarkExit err]"] registry_same) (auto simp: put_thread_def)
next
  case (stop aid a m)
  then show ?thesis
    by (intro that [of "Request m aid" "[Unregister]"] registry_same) (auto simp: put_thread_def)
next
  case (tick aid a now)
  then show ?thesis
    by (intro that [of "Watcher aid" "tick_tasks now a"] registry_same)
       (auto simp: put_thread_def tick_watch_def tick_tasks_def)
next
  case (run t tk tks a now w s1 nxt)
  have "sy_exited s \<subseteq> sy_exited s1" "sy_threads s1 = sy_threads s"
    using run(5) by (cases tk; auto simp: set_agent_def split: sum.splits option.splits if_splits)+
  with run show ?thesis
    using registry_exec [OF run(2-5)] by (intro that [of t "nxt @ tks"]) (auto simp: put_thread_def)
next
  case (subscribe aid a)
  then show ?thesis using registry_agent [OF subscribe(3,1)] that by blast
next
  case (unsubscribe aid a i a')
  then show ?thesis using registry_agent [OF unsubscribe(2,1)] that by blast
next
  case (receive aid a i)
  then show ?thesis using registry_agent [OF receive(2,1)] that by blast
qed

text \<open>
  An agent is registered once: before that its registration is the next task of one goroutine. An agent that is registered
  no more has ended, or some goroutine still waits for its end.
\<close>

definition pending :: "task \<Rightarrow> string \<Rightarrow> sys \<Rightarrow> bool" where
  "pending tk aid s \<longleftrightarrow> (\<exists>t. tid_agent t = aid \<and> tk \<in> set (sy_threads s t))"

definition registered_once :: "sys \<Rightarrow> bool" where
  "registered_once s \<longleftrightarrow>
     (\<forall>t. Register \<notin> set (tl (sy_threads s t))) \<and>
     (\<forall>t t'. Register \<in> set (sy_threads s t) \<longrightarrow> Register \<in> set (sy_threads s t') \<longrightarrow> tid_agent t = tid_agent t' \<longrightarrow> t = t') \<and>
     (\<forall>aid \<in> sy_reg s. sy_heap s aid \<noteq> None \<and> \<not> pending Register aid s) \<and>
     (\<forall>aid \<in> dom (sy_heap s). aid \<notin> sy_reg s \<longrightarrow> \<not> pending Register aid s \<longrightarrow> aid \<in> sy_exited s \<or> pending AwaitExit aid s)"

lemma registered_onceD:
  assumes "registered_once s"
  shows "Register \<notin> set (tl (sy_threads s t))"
    and "Register \<in> set (sy_threads s t) \<Longrightarrow> Register \<in> set (sy_threads s t') \<Longrightarrow> tid_agent t = tid_agent t' \<Longrightarrow> t = t'"
    and "aid \<in> sy_reg s \<Longrightarrow> sy_heap s aid \<noteq> None" and "aid \<in> sy_reg s \<Longrightarrow> \<not> pending Register aid s"
    and "aid \<in> dom (sy_heap s) \<Longrightarrow> aid \<notin> sy_reg s \<Longrightarrow> \<not> pending Register aid s \<Longrightarrow> aid \<in> sy_exited s \<or> pending AwaitExit aid s"
  using assms unfolding registered_once_def by blast+

lemma in_set_tl: "x \<in> set (tl xs) \<Longrightarrow> x \<in> set xs"
  by (cases xs) auto

lemma pending_step:
  "sy_threads s' = (sy_threads s)(t := ts) \<Longrightarrow>
   pending tk aid s' \<longleftrightarrow> aid = tid_agent t \<and> tk \<in> set ts \<or> (\<exists>u. u \<noteq> t \<and> tid_agent u = aid \<and> tk \<in> set (sy_threads s u))"
  by (auto simp: pending_def)

lemma pendingI: "tk \<in> set (sy_threads s t) \<Longrightarrow> pending tk (tid_agent t) s"
  by (auto simp: pending_def)

text \<open>Only the agent of the goroutine that runs has to be looked at.\<close>

lemma registered_once_change:
  assumes once: "registered_once s" and thr: "sy_threads s' = (sy_threads s)(t := ts)" and ex: "sy_exited s \<subseteq> sy_exited s'"
    and same: "\<And>aid. aid \<noteq> tid_agent t \<Longrightarrow> (aid \<in> dom (sy_heap s') \<longleftrightarrow> aid \<in> dom (sy_heap s)) \<and> (aid \<in> sy_reg s' \<longleftrightarrow> aid \<in> sy_reg s)"
    and tl: "Register \<notin> set (tl ts)"
    and uniq: "\<And>u. Register \<in> set ts \<Longrightarrow> u \<noteq> t \<Longrightarrow> tid_agent u = tid_agent t \<Longrightarrow> Register \<notin> set (sy_threads s u)"
    and reg: "tid_agent t \<in> sy_reg s' \<Longrightarrow> tid_agent t \<in> dom (sy_heap s') \<and> \<not> pending Register (tid_agent t) s'"
    and left: "tid_agent t \<in> dom (sy_heap s') \<Longrightarrow> tid_agent t \<notin> sy_reg s' \<Longrightarrow> \<not> pending Register (tid_agent t) s' \<Longrightarrow>
      tid_agent t \<in> sy_exited s' \<or> pending AwaitExit (tid_agent t) s'"
  shows "registered_once s'"
proof -
  note D = registered_onceD [OF once]
  have other: "aid \<noteq> tid_agent t \<Longrightarrow> pending tk aid s' \<longleftrightarrow> pending tk aid s" for tk aid
    unfolding pending_step [OF thr] by (auto simp: pending_def)
  show ?thesis
    unfolding registered_once_def
  proof (intro conjI allI ballI impI)
    show "Register \<notin> set (tl (sy_threads s' u))" for u using D(1) tl by (simp add: thr)
    show "u = u'" if "Register \<in> set (sy_threads s' u)" "Register \<in> set (sy_threads s' u')" "tid_agent u = tid_agent u'" for u u'
      using that D(2) uniq [of u] uniq [of u'] by (auto simp: thr split: if_splits)
    show "sy_heap s' aid \<noteq> None" if "aid \<in> sy_reg s'" for aid
      using that D(3) [of aid] same [of aid] reg by (cases "aid = tid_agent t") (auto simp: dom_def)
    show "\<not> pending Register aid s'" if "aid \<in> sy_reg s'" for aid
      using that D(4) [of aid] same [of aid] other [of aid Register] reg by (cases "aid = tid_agent t") simp_all
    show "aid \<in> sy_exited s' \<or> pending AwaitExit aid s'"
      if "aid \<in> dom (sy_heap s')" "aid \<notin> sy_reg s'" "\<not> pending Register aid s'" for aid
    proof (cases "aid = tid_agent t")
      case False
      then have "aid \<in> sy_exited s \<or> pending AwaitExit aid s" using that D(5) [of aid] same other by simp
      then show ?thesis using ex other [OF False, of AwaitExit] by blast
    qed (use that left in simp)
  qed
qed

lemma registered_once_step:
  assumes once: "registered_once s" and ok: "sys_ok s" and st: "registry_step t ts s s'"
    and thr: "sy_threads s' = (sy_threads s)(t := ts)" and ex: "sy_exited s \<subseteq> sy_exited s'"
  shows "registered_once s'"
proof -
  note D = registered_onceD [OF once]
  note p = pending_step [OF thr]
  note change = registered_once_change [OF once thr ex]
  show ?thesis
    using st
  proof cases
    case (new tks)
    have none: "Register \<notin> set (sy_threads s u)" if "tid_agent u = tid_agent t" for u
    proof -
      have "sy_threads s u = []" using sys_okD(4) [OF ok, of u] new(2) that by argo
      then show ?thesis by simp
    qed
    have "pending Register (tid_agent t) s'" by (simp add: p new(1))
    moreover have "tid_agent t \<notin> sy_reg s'" using D(3) [of "tid_agent t"] new(2,4) by blast
    ultimately show ?thesis
      by (intro change) (use new none in simp_all)
  next
    case register
    have u: "Register \<notin> set (sy_threads s u)" if "u \<noteq> t" "tid_agent u = tid_agent t" for u
      using D(2) [of u t] that unfolding register(1) by (metis list.set_intros(1))
    have n: "Register \<notin> set ts" "Register \<notin> set (tl ts)" using D(1) [of t] register(1) by (cases ts; simp)+
    have "\<not> pending Register (tid_agent t) s'" using n u by (auto simp: p)
    moreover have "tid_agent t \<in> dom (sy_heap s')" using sys_okD(4) [OF ok, of t] unfolding register(1,3) by blast
    ultimately show ?thesis
      using n by (intro change) (use register(2,3) u in auto)
  next
    case (leave tks)
    have n: "Register \<notin> set tks" using D(1) [of t] leave(2) by simp
    have "pending AwaitExit (tid_agent t) s'" by (simp add: p leave(1))
    then show ?thesis
      by (intro change) (use leave n in auto)
  next
    case keep
    have tl: "Register \<notin> set (tl ts)" using keep(3) D(1) [of t] in_set_tl [of Register ts] by blast
    have r: "Register \<in> set ts \<longleftrightarrow> Register \<in> set (sy_threads s t)" using keep(3) D(1) [of t] by blast
    then have pr: "pending Register (tid_agent t) s' \<longleftrightarrow> pending Register (tid_agent t) s"
      unfolding p unfolding pending_def by auto
    have w: "pending AwaitExit (tid_agent t) s \<Longrightarrow> pending AwaitExit (tid_agent t) s' \<or> tid_agent t \<in> sy_exited s"
      using keep(4) unfolding p unfolding pending_def by auto
    have uniq: "Register \<in> set ts \<Longrightarrow> u \<noteq> t \<Longrightarrow> tid_agent u = tid_agent t \<Longrightarrow> Register \<notin> set (sy_threads s u)" for u
      using r D(2) [of u t] by blast
    show ?thesis
      using D(3,4,5) [of "tid_agent t"] pr w ex uniq tl by (intro change) (auto simp: keep(1,2))
  qed
qed

lemma registered_once_reachable:
  assumes "sys_reachable en s"
  shows "registered_once s"
  using assms
proof (induction rule: rtranclp_induct)
  case base
  show ?case by (simp add: registered_once_def sys_init_def pending_def)
next
  case (step s s')
  obtain t ts where "registry_step t ts s s'" "sy_threads s' = (sy_threads s)(t := ts)" "sy_exited s \<subseteq> sy_exited s'"
    using sys_step_registry [OF step(2)] by metis
  then show ?case
    using registered_once_step step(3) sys_ok_reachable [OF step(1)] by blast
qed

section \<open>What the end guarantees\<close>

text \<open>Registered at most once: an agent that has left the registry does not come back.\<close>

definition never_again :: "string \<Rightarrow> sys \<Rightarrow> bool" where
  "never_again aid s \<longleftrightarrow> aid \<in> dom (sy_heap s) \<and> \<not> pending Register aid s"

lemma never_again_step:
  assumes "sys_step en s s'" and "never_again aid s"
  shows "never_again aid s'" and "aid \<in> sy_reg s' \<Longrightarrow> aid \<in> sy_reg s"
    and "Unregister \<in> set (sy_threads s (Request n aid)) \<Longrightarrow> Unregister \<in> set (sy_threads s' (Request n aid)) \<or> aid \<notin> sy_reg s'"
proof -
  obtain t ts where st: "registry_step t ts s s'" and thr: "sy_threads s' = (sy_threads s)(t := ts)"
    using sys_step_registry [OF assms(1)] by metis
  have n: "Register \<notin> set (sy_threads s u)" if "tid_agent u = aid" for u
    using assms(2) that by (auto simp: never_again_def pending_def)
  have "never_again aid s' \<and> (aid \<in> sy_reg s' \<longrightarrow> aid \<in> sy_reg s) \<and>
    (Unregister \<in> set (sy_threads s (Request n aid)) \<longrightarrow> Unregister \<in> set (sy_threads s' (Request n aid)) \<or> aid \<notin> sy_reg s')"
    using st
  proof cases
    case (new tks)
    then have "tid_agent t \<noteq> aid" using assms(2) by (auto simp: never_again_def)
    with new show ?thesis using assms(2) by (auto simp: never_again_def pending_step [OF thr] pending_def thr)
  next
    case register
    then have "tid_agent t \<noteq> aid" using n [of t] by auto
    with register show ?thesis using assms(2) by (auto simp: never_again_def pending_step [OF thr] pending_def thr)
  next
    case (leave tks)
    moreover have "Register \<notin> set tks" if "tid_agent t = aid" using n [OF that] leave(2) by simp
    ultimately show ?thesis using assms(2) n by (auto simp: never_again_def pending_step [OF thr] thr)
  next
    case keep
    have "Register \<notin> set ts" if "tid_agent t = aid"
      using keep(3) n [OF that] in_set_tl [of Register "sy_threads s t"] by auto
    with keep show ?thesis using assms(2) n by (auto simp: never_again_def pending_step [OF thr] thr)
  qed
  then show "never_again aid s'" and "aid \<in> sy_reg s' \<Longrightarrow> aid \<in> sy_reg s"
    and "Unregister \<in> set (sy_threads s (Request n aid)) \<Longrightarrow> Unregister \<in> set (sy_threads s' (Request n aid)) \<or> aid \<notin> sy_reg s'"
    by blast+
qed

fun still_listed :: "phase \<Rightarrow> string set" where
  "still_listed (Stopping ids b) = set ids"
| "still_listed ph = {}"

definition shutdown_ok :: "'c env \<Rightarrow> nat \<Rightarrow> phase \<times> string set \<times> sys \<Rightarrow> bool" where
  "shutdown_ok en n st =
     (case st of (ph, L, s) \<Rightarrow>
        sys_reachable en s \<and> (ph = Serving \<longrightarrow> L = {}) \<and> (\<forall>aid \<in> L. never_again aid s \<and> (aid \<in> sy_reg s \<longrightarrow> aid \<in> still_listed ph)) \<and>
        (\<forall>aid ids. ph = Stopping (aid # ids) True \<longrightarrow> aid \<in> sy_reg s \<longrightarrow> Unregister \<in> set (sy_threads s (Request n aid))) \<and>
        still_listed ph \<subseteq> L)"

lemma shutdown_ok_step:
  assumes "shutdown_step en n st st'" and "shutdown_ok en n st"
  shows "shutdown_ok en n st'"
  using assms
proof (induction rule: shutdown_step.induct)
  case (serve ph s s' L)
  have "sys_reachable en s'" using serve by (auto simp: shutdown_ok_def)
  then show ?case
    using serve never_again_step [OF serve(2)] unfolding shutdown_ok_def prod.case
    by (metis list.set_intros(1) still_listed.simps(1) subsetD)
next
  case (take_ids ids s L)
  have r: "registered_once s" using take_ids(3) registered_once_reachable by (auto simp: shutdown_ok_def)
  have "never_again aid s" if "aid \<in> sy_reg s" for aid
    using registered_onceD(3,4) [OF r that] by (auto simp: never_again_def)
  then show ?case using take_ids by (auto simp: shutdown_ok_def)
next
  case (stop_one s aid ids L)
  let ?s = "put_thread (Request n aid) [Unregister] s"
  have n: "never_again aid s" "sys_reachable en s" using stop_one(2) by (auto simp: shutdown_ok_def)
  then obtain a where "sy_heap s aid = Some a" by (auto simp: never_again_def)
  from sys_step.stop [OF this stop_one(1)] have st: "sys_step en s ?s" .
  then have "sys_reachable en ?s" using n(2) by (meson rtranclp.rtrancl_into_rtrancl)
  moreover have "never_again b ?s \<and> (b \<in> sy_reg ?s \<longrightarrow> b \<in> set (aid # ids))" if "b \<in> L" for b
    using stop_one(2) that never_again_step(1,2) [OF st, of b] by (auto simp: shutdown_ok_def)
  ultimately show ?case
    using stop_one(2) by (auto simp: shutdown_ok_def put_thread_def)
next
  case (next_one s aid ids L)
  then show ?case by (auto simp: shutdown_ok_def)
qed (auto simp: shutdown_ok_def)

lemma shutdown_ok_reachable: "shutdown_reachable en n st \<Longrightarrow> shutdown_ok en n st"
proof (induction rule: rtranclp_induct)
  case base
  show ?case by (simp add: shutdown_ok_def)
next
  case (step st st')
  show ?case by (rule shutdown_ok_step [OF step(2,3)])
qed

lemma serve_trace:
  assumes "exec_trace en acts s1 = Some s2" and "ph \<noteq> Closed"
  shows "(shutdown_step en n)\<^sup>*\<^sup>* (ph, L, s1) (ph, L, s2)"
  using exec_trace_steps [OF assms(1)]
  by (induction rule: rtranclp_induct) (use assms(2) in \<open>auto intro: rtranclp.rtrancl_into_rtrancl shutdown_step.serve\<close>)

text \<open>An agent that is created after \<^verbatim>\<open>StopAll\<close> has listed the registry.\<close>

lemma late_agent:
  "\<exists>s a. shutdown_reachable demo_env 9 (Closed, {}, s) \<and> sy_heap s ''a'' = Some a \<and> ag_status a \<noteq> AExited \<and>
     ''a'' \<in> sy_reg s \<and> ''a'' \<notin> sy_exited s"
proof -
  obtain s a where s: "exec_trace demo_env demo_start sys_init = Some s" "sy_heap s ''a'' = Some a" "ag_status a = Starting"
      "''a'' \<in> sy_reg s"
    using demo_started by blast
  have "''a'' \<notin> sy_exited s"
    using s(1) by (auto simp: demo_agent_simps)
  have "shutdown_step demo_env 9 (Serving, {}, sys_init) (Stopping [] False, {}, sys_init)"
    using shutdown_step.take_ids [of "[]" sys_init demo_env 9 "{}"] by (simp add: sys_init_def)
  moreover have "(shutdown_step demo_env 9)\<^sup>*\<^sup>* (Stopping [] False, {}, sys_init) (Stopping [] False, {}, s)"
    by (rule serve_trace [OF s(1)]) simp
  ultimately have "shutdown_reachable demo_env 9 (Closed, {}, s)"
    using shutdown_step.all_stopped shutdown_step.close_listener
    by (meson converse_rtranclp_into_rtranclp rtranclp.rtrancl_into_rtrancl)
  then show ?thesis
    using s \<open>''a'' \<notin> sy_exited s\<close> by auto
qed

text \<open>C35: When \<^verbatim>\<open>StopAll\<close> has returned, every agent it had listed is out of the registry for good, and its process has ended or the
  goroutine that removed it still waits for that end. Requests are still accepted meanwhile, though: an agent created after
  the listing is registered and running when the server closes, and nobody will stop its container.
\<close>

theorem shutdown_stops_listed:
  assumes "shutdown_reachable en n (ph, L, s)" and "ph = Stopped \<or> ph = Closed"
  shows "(\<forall>aid \<in> L. aid \<notin> sy_reg s \<and> (aid \<in> sy_exited s \<or> pending AwaitExit aid s)) \<and>
    (\<exists>s a. shutdown_reachable demo_env 9 (Closed, {}, s) \<and> sy_heap s ''a'' = Some a \<and> ag_status a \<noteq> AExited \<and>
       ''a'' \<in> sy_reg s \<and> ''a'' \<notin> sy_exited s)"
proof -
  have ok: "shutdown_ok en n (ph, L, s)" using assms(1) by (rule shutdown_ok_reachable)
  then have once: "registered_once s" using registered_once_reachable by (auto simp: shutdown_ok_def)
  have "aid \<notin> sy_reg s \<and> (aid \<in> sy_exited s \<or> pending AwaitExit aid s)" if "aid \<in> L" for aid
    using ok that assms(2) registered_onceD(5) [OF once, of aid] by (auto simp: shutdown_ok_def never_again_def)
  then show ?thesis using late_agent by blast
qed

text \<open>A server that stops the one agent it has.\<close>

definition demo_stop :: "unit action list" where
  "demo_stop =
     [ARun (Request 9 ''a'') 2 (None, None), AExit ''a'' None, ARun (Request 9 ''a'') 3 (None, None),
      ARun (Request 9 ''a'') 4 (None, None), ARun (Request 9 ''a'') 5 (None, None), ARun (Request 9 ''a'') 6 (None, None),
      ARun (Request 9 ''a'') 7 (None, None)]"

lemma stopped_demo: obtains s where "shutdown_reachable demo_env 9 (Stopped, {''a''}, s)"
proof -
  obtain s where s: "exec_trace demo_env demo_start sys_init = Some s" "sy_reg s = {''a''}" "sy_threads s (Request 9 ''a'') = []"
    by (simp add: demo_agent_simps)
  let ?s1 = "put_thread (Request 9 ''a'') [Unregister] s"
  have "map_option (\<lambda>s. sy_threads s (Request 9 ''a'')) (exec_trace demo_env demo_stop ?s1) = Some []"
    using s(1) by (auto simp: demo_agent_simps demo_stop_def)
  then obtain s2 where s2: "exec_trace demo_env demo_stop ?s1 = Some s2" "sy_threads s2 (Request 9 ''a'') = []"
    by blast
  note step = rtranclp.rtrancl_into_rtrancl
  have "shutdown_reachable demo_env 9 (Serving, {}, s)"
    by (rule serve_trace [OF s(1)]) simp
  then have "shutdown_reachable demo_env 9 (Stopping [''a''] False, {''a''}, s)"
    by (rule step) (use shutdown_step.take_ids [of "[''a'']" s demo_env 9 "{}"] s(2) in simp)
  then have a: "shutdown_reachable demo_env 9 (Stopping [''a''] True, {''a''}, ?s1)"
    by (rule step) (rule shutdown_step.stop_one [OF s(3)])
  have "(shutdown_step demo_env 9)\<^sup>*\<^sup>* (Stopping [''a''] True, {''a''}, ?s1) (Stopping [''a''] True, {''a''}, s2)"
    by (rule serve_trace [OF s2(1)]) simp
  with a have "shutdown_reachable demo_env 9 (Stopping [''a''] True, {''a''}, s2)"
    by (rule rtranclp_trans)
  then have "shutdown_reachable demo_env 9 (Stopping [] False, {''a''}, s2)"
    by (rule step) (rule shutdown_step.next_one [OF s2(2)])
  then have "shutdown_reachable demo_env 9 (Stopped, {''a''}, s2)"
    by (rule step) (rule shutdown_step.all_stopped)
  then show ?thesis by (rule that)
qed

theorem shutdown_stops_listed_witness:
  "\<exists>s. shutdown_reachable demo_env 9 (Stopped, {''a''}, s) \<and> ''a'' \<notin> sy_reg s \<and>
     (''a'' \<in> sy_exited s \<or> pending AwaitExit ''a'' s)"
proof -
  obtain s where s: "shutdown_reachable demo_env 9 (Stopped, {''a''}, s)" by (rule stopped_demo)
  then show ?thesis using shutdown_stops_listed [OF s] by blast
qed

end
