(* ===== verification/Spec2Isabelle.thy ===== *)
theory Spec2Isabelle
  imports Http_Access Startup Shutdown
begin

text \<open>
  Stromboli runs Claude in Podman containers on behalf of HTTP clients. A request becomes a run (one
  container, or one service of a compose stack), an asynchronous run recorded as a job, or a persistent
  agent whose process keeps its pipes open between turns. This development models the program's own logic
  and proves what makes each part correct, and where it is not, what goes wrong.

  How the parts interact. The endpoints authenticate a request (\<^verbatim>\<open>internal/auth\<close>), then call the runner
  (\<^verbatim>\<open>internal/runner\<close>) directly or through the job manager (\<^verbatim>\<open>internal/job\<close>). The runner keeps the credentials secret
  current (\<^verbatim>\<open>internal/secrets\<close>), creates the session's directory (\<^verbatim>\<open>internal/session\<close>), validates image, volumes
  (\<^verbatim>\<open>internal/workspace\<close>), working directory, secrets and lifecycle hooks, builds the Claude command
  (\<^verbatim>\<open>internal/claude\<close>) and around it the Podman command (\<^verbatim>\<open>internal/podman\<close>) or the compose command
  (\<^verbatim>\<open>internal/compose\<close>), runs it, classifies its end, and marks the session as initialised. Agents
  (\<^verbatim>\<open>internal/agent\<close>) use the same Claude builder but keep the process. Before any of this \<^verbatim>\<open>cmd/stromboli/main.go\<close>
  reads the configuration (\<^verbatim>\<open>internal/config\<close>) and makes the parts; the routes of \<^verbatim>\<open>internal/api/server.go\<close> put the rate limiter
  and the authentication in front of the endpoints.

  The theories and the code they model, in the order of their imports:

  \<^item> \<open>Prelude\<close>: Go's errors as values (sentinels, messages, wrapped errors, exit errors with a wait status) with
    the two ways the code looks into them, the type assertion and \<^verbatim>\<open>errors.As\<close>; times in nanoseconds.
  \<^item> \<open>Go_Text\<close>, \<open>Go_Number\<close>, \<open>Go_Time\<close>, \<open>Go_Duration\<close>, \<open>Go_Path\<close>, \<open>Go_Glob\<close>, \<open>File_Glob\<close>, \<open>Go_Net\<close>, \<open>File_System\<close>: what the code
    uses of the standard library: \<^verbatim>\<open>strings\<close>, \<^verbatim>\<open>strconv\<close>, \<^verbatim>\<open>time.ParseDuration\<close> with its overflow checks and the printing of
    durations, \<^verbatim>\<open>path/filepath\<close> with \<^verbatim>\<open>Match\<close> and \<^verbatim>\<open>Glob\<close>, the addresses of \<^verbatim>\<open>net\<close>, and a file system with failing system calls.
  \<^item> \<open>Keyed_Store\<close>, \<open>Reaper\<close>: the contracts shared by the managers' maps, as locales: an update that touches one
    entry, a sweep that removes exactly the expired entries in any order; and the control of a cleanup
    goroutine. Every manager interprets them.
  \<^item> \<open>Jobs\<close> (\<^verbatim>\<open>internal/job/job.go\<close>) and \<open>Async_Api\<close> (\<^verbatim>\<open>internal/api/async.go\<close>): the job manager, and the run
    goroutine, callback, cancellation and cleanup as interleaved steps over it, with an invariant of all
    reachable states.
  \<^item> \<open>Agents\<close>, \<open>Agent_System\<close> (\<^verbatim>\<open>internal/agent\<close>) and \<open>Agent_Api\<close> (\<^verbatim>\<open>internal/api/agents.go\<close>): an agent's record and
    operations; the goroutines of all agents as task lists whose heads are executed in any order; the
    handlers and the line forwarding.
  \<^item> \<open>Blacklist\<close> and \<open>Auth\<close> (\<^verbatim>\<open>internal/auth\<close>, \<^verbatim>\<open>internal/api/auth.go\<close>): both token blacklists as instances of one
    contract, the tokens, the middleware and the token endpoints.
  \<^item> \<open>Compose_Validator\<close>, \<open>Compose_Manager\<close> (\<^verbatim>\<open>internal/compose\<close>): which compose files are accepted; the start, use,
    health check and clean-up of stacks.
  \<^item> \<open>Sessions\<close> (\<^verbatim>\<open>internal/session/session.go\<close>), \<open>Shell\<close>, \<open>Lifecycle\<close> (\<^verbatim>\<open>internal/runner/lifecycle.go\<close>) and \<open>Session_Init\<close>:
    the session store with its init locks, the hooks and what a shell reads from the wrapped command, and
    the initialisation of a session by concurrent runs.
  \<^item> \<open>Workspace\<close> (\<^verbatim>\<open>internal/workspace\<close>) and \<open>Volumes\<close> (\<^verbatim>\<open>internal/runner/runner.go\<close>, \<^verbatim>\<open>validation.go\<close>): the allowlist of
    host directories; volumes, container paths, mount options, working directories, secrets.
  \<^item> \<open>Podman_Builder\<close>, \<open>Claude_Builder\<close>, \<open>Claude_Args\<close>: the two command builders, each with a reader of its command
    line by the tool's documented rules, and the round trips between them.
  \<^item> \<open>Images\<close> (\<^verbatim>\<open>internal/runner/image.go\<close>, \<^verbatim>\<open>internal/images/compatibility.go\<close>), \<open>Secrets\<close>
    (\<^verbatim>\<open>internal/secrets/secrets.go\<close>) and \<open>Crash\<close> (\<^verbatim>\<open>internal/runner/crash.go\<close>, \<^verbatim>\<open>cleanup.go\<close>): the remaining parts of a run.
  \<^item> \<open>Runner\<close> (\<^verbatim>\<open>internal/runner/runner.go\<close>, \<^verbatim>\<open>compose.go\<close>) composes them over one state: the secrets manager, the
    secret store, the files and locks, the stacks and the log of the commands executed. \<open>Run_Properties\<close> proves
    what spans them.

  \<^item> \<open>Webhook\<close> (\<^verbatim>\<open>internal/webhook\<close>), \<open>Container_Cleanup\<close> (\<^verbatim>\<open>internal/runner/cleanup.go\<close>, \<^verbatim>\<open>cli_image.go\<close>) and \<open>Rate_Limit\<close>
    (\<^verbatim>\<open>internal/api/ratelimit.go\<close>): signed notifications and the receiver's check; which containers are stopped; whose
    requests share a bucket.
  \<^item> \<open>History\<close>, \<open>History_Api\<close> (\<^verbatim>\<open>internal/history\<close>, \<^verbatim>\<open>internal/pricing\<close>, \<^verbatim>\<open>internal/api/session_history.go\<close>, \<^verbatim>\<open>usage.go\<close>): the messages
    of a session in pages, its title, its tokens and their cost.
  \<^item> \<open>Podman_Cli\<close>, \<open>Image_Registry\<close> (\<^verbatim>\<open>internal/images/registry.go\<close>), \<open>Secret_Registry\<close> (\<^verbatim>\<open>internal/secrets/registry.go\<close>): the
    registries over podman's commands with their endpoints.
  \<^item> \<open>Server\<close> (\<^verbatim>\<open>internal/api/server.go\<close>, \<^verbatim>\<open>stream.go\<close>, \<^verbatim>\<open>health.go\<close>): the routes with what guards them, the run, stream,
    session and health endpoints, and what a client reads from an event stream.
  \<^item> \<open>Http_Service\<close>, \<open>Http_Access\<close> (\<^verbatim>\<open>internal/api/server.go\<close> with \<^verbatim>\<open>runAsync\<close>, \<^verbatim>\<open>cancelJob\<close> and the agent handlers): all endpoints
    over one state, each request passing its route's middlewares and then acting in steps between those of the goroutines and sweeps.
    The parts keep their invariants there, every request is answered once, requests without a right change nothing for the others,
    and a logout is final.
  \<^item> \<open>Observability\<close> (\<^verbatim>\<open>internal/metrics\<close>, \<^verbatim>\<open>internal/tracing\<close>, \<^verbatim>\<open>internal/version\<close>): counters and request log, the tracing
    provider and the attributes of a span.
  \<^item> \<open>Config\<close> (\<^verbatim>\<open>internal/config/config.go\<close>), \<open>Agent_Argv\<close>, \<open>Startup\<close> and \<open>Shutdown\<close> (\<^verbatim>\<open>cmd/stromboli/main.go\<close>): the
    configuration and what an accepted one promises; the command line of an agent; the parts made from a
    configuration; the stop of the agents while requests go on.

  How state and operations correspond. A Go struct is a record with the same fields; a map guarded by a mutex
  is a partial map, and a method that holds the lock throughout is one function from state to state. Where
  the order matters (goroutines, callbacks, locks between processes), the steps are an inductive relation and
  the properties hold in every reachable state. The order of a Go map's iteration is an argument. Time, random
  bytes, the executor, file contents, YAML and JSON decoding and JWT signing are arguments of the functions
  that use them, and what a theorem needs of them is a named hypothesis, instantiated in its witness.

  What the groups of theorems show: the invariants of jobs, agents and session locks in all interleavings;
  the functional behaviour of each operation on every branch; that validators accept exactly what they
  should (authentication, compose files, hooks, workspaces, container paths, images); that built command lines
  read back as what was asked for (round trips, and for a run the refinement from the request to the
  container); that the whole server keeps the invariants of its parts and lets nobody without a right interfere;
  and counterexamples to intended properties that the code does not have.

  Bounds and termination. Every function is total. Loops over a path's parents that the code runs without a
  bound are a \<^verbatim>\<open>partial_function\<close>, and that they return is proved. The polling of a stack's health is
  a recursion over the list of check results up to the deadline. 64-bit integers wrap around where
  an overflow is possible (idle timeouts, durations).
\<close>

text \<open>
  Not modelled: log lines and the spans around the runner's steps, which have no influence on the results; package \<^verbatim>\<open>os/exec\<close> and the
  standard library's network code, which are arguments; the generated API documentation; the Windows stub of
  the session locks. A cancelled context shows only as the error of the command it interrupts, and a client that leaves a
  stream early is not followed. In the composed server a run is one step (its interleavings with other runs are in \<open>Session_Init\<close>),
  the registries of images and secrets see a podman of their own, and the sweeper of the stacks and the stop of the server are
  only in \<open>Compose_Manager\<close> and \<open>Shutdown\<close>. Of the end of the server only the stop of the
  agents is modelled; of the configuration not how viper finds and merges its sources.
\<close>

end
